(* ===== verification/Prelude.thy ===== *)
theory Prelude
  imports Main "HOL-Library.AList"
begin

text \<open>
  Shared vocabulary of the development: fallible results as sums, hash maps as
  association lists in iteration order, and the generic list lemmas that the
  component theories use.

  A fallible Rust function returns \<open>'e + 'a\<close>: \<open>Inl\<close> is \<open>Err\<close> and \<open>Inr\<close> is \<open>Ok\<close>.
  A \<open>HashMap\<close> is the list of its entries in the order an iteration of the map
  happens to visit them. Lookup is \<^const>\<open>map_of\<close>, insertion is \<^const>\<open>AList.update\<close>,
  removal is \<^const>\<open>AList.delete\<close>, and a map is well formed when its keys are distinct.
  Theorems are stated for every such list, hence for every iteration order.
\<close>

named_theorems result_simps "unfolding of the result combinators"

type_synonym 'v alist = "(string \<times> 'v) list"

section \<open>Results\<close>

fun bind_res :: "'e + 'a \<Rightarrow> ('a \<Rightarrow> 'e + 'b) \<Rightarrow> 'e + 'b" where
  "bind_res (Inl e) f = Inl e"
| "bind_res (Inr x) f = f x"

fun map_res :: "('a \<Rightarrow> 'b) \<Rightarrow> 'e + 'a \<Rightarrow> 'e + 'b" where
  "map_res f (Inl e) = Inl e"
| "map_res f (Inr x) = Inr (f x)"

fun map_err :: "('e \<Rightarrow> 'f) \<Rightarrow> 'e + 'a \<Rightarrow> 'f + 'a" where
  "map_err f (Inl e) = Inl (f e)"
| "map_err f (Inr x) = Inr x"

fun ok :: "'e + 'a \<Rightarrow> 'a option" where
  "ok (Inl e) = None"
| "ok (Inr x) = Some x"

fun of_option :: "'e \<Rightarrow> 'a option \<Rightarrow> 'e + 'a" where
  "of_option e None = Inl e"
| "of_option e (Some x) = Inr x"

text \<open>\<open>collect::<Result<Vec<_>, _>>()\<close>: the first error wins.\<close>
fun collect_res :: "('e + 'a) list \<Rightarrow> 'e + 'a list" where
  "collect_res [] = Inr []"
| "collect_res (Inl e # rs) = Inl e"
| "collect_res (Inr x # rs) = map_res (Cons x) (collect_res rs)"

fun collect_opt :: "'a option list \<Rightarrow> 'a list option" where
  "collect_opt [] = Some []"
| "collect_opt (None # xs) = None"
| "collect_opt (Some x # xs) = map_option (Cons x) (collect_opt xs)"

lemma bind_res_Inr_iff: "bind_res r f = Inr y \<longleftrightarrow> (\<exists>x. r = Inr x \<and> f x = Inr y)"
  by (cases r) auto

lemma bind_res_Inl_iff: "bind_res r f = Inl e \<longleftrightarrow> r = Inl e \<or> (\<exists>x. r = Inr x \<and> f x = Inl e)"
  by (cases r) auto

lemma map_res_Inr_iff: "map_res f r = Inr y \<longleftrightarrow> (\<exists>x. r = Inr x \<and> y = f x)"
  by (cases r) auto

lemma map_res_Inl_iff: "map_res f r = Inl e \<longleftrightarrow> r = Inl e"
  by (cases r) auto

lemma map_err_Inr_iff: "map_err f r = Inr y \<longleftrightarrow> r = Inr y"
  by (cases r) auto

lemma map_err_Inl_iff: "map_err f r = Inl e \<longleftrightarrow> (\<exists>e'. r = Inl e' \<and> e = f e')"
  by (cases r) auto

lemma of_option_Inr_iff: "of_option e r = Inr y \<longleftrightarrow> r = Some y"
  by (cases r) auto

lemma of_option_Inl_iff: "of_option e r = Inl e' \<longleftrightarrow> r = None \<and> e' = e"
  by (cases r) auto

lemmas result_iffs [result_simps] =
  bind_res_Inr_iff bind_res_Inl_iff map_res_Inr_iff map_res_Inl_iff
  map_err_Inr_iff map_err_Inl_iff of_option_Inr_iff of_option_Inl_iff

lemma collect_res_map_Inr:
  "(\<And>x. x \<in> set xs \<Longrightarrow> f x = Inr (g x)) \<Longrightarrow> collect_res (map f xs) = Inr (map g xs)"
  by (induction xs) auto

lemma collect_res_InrD:
  "collect_res rs = Inr ys \<Longrightarrow> rs = map Inr ys"
  by (induction rs arbitrary: ys rule: collect_res.induct) (auto simp: result_simps)

lemma collect_res_length: "collect_res rs = Inr ys \<Longrightarrow> length ys = length rs"
  by (drule collect_res_InrD) simp

lemma bind_res_cong [fundef_cong]:
  "r = r' \<Longrightarrow> (\<And>x. r' = Inr x \<Longrightarrow> f x = g x) \<Longrightarrow> bind_res r f = bind_res r' g"
  by (cases r') auto

section \<open>Maps and lists\<close>

abbreviation wf_map :: "('k \<times> 'v) list \<Rightarrow> bool" where
  "wf_map m \<equiv> distinct (map fst m)"

definition has_key :: "('k \<times> 'v) list \<Rightarrow> 'k \<Rightarrow> bool" where
  "has_key m k = (map_of m k \<noteq> None)"

lemma has_key_iff [simp]: "has_key m k \<longleftrightarrow> k \<in> fst ` set m"
  by (simp add: has_key_def map_of_eq_None_iff)

lemma wf_map_update [simp]: "wf_map m \<Longrightarrow> wf_map (AList.update k v m)"
  by (rule distinct_update)

lemma map_of_update: "map_of (AList.update k v m) k' = (if k' = k then Some v else map_of m k')"
  by (simp add: update_conv')

text \<open>\<open>Iterator::position\<close>\<close>
fun position :: "('a \<Rightarrow> bool) \<Rightarrow> 'a list \<Rightarrow> nat option" where
  "position P [] = None"
| "position P (x # xs) = (if P x then Some 0 else map_option Suc (position P xs))"

lemma position_SomeD:
  "position P xs = Some i \<Longrightarrow> i < length xs \<and> P (xs ! i) \<and> (\<forall>j<i. \<not> P (xs ! j))"
proof (induction xs arbitrary: i)
  case (Cons x xs)
  show ?case
  proof (cases "P x")
    case False
    then obtain k where "position P xs = Some k" "i = Suc k" using Cons.prems by auto
    then show ?thesis using Cons.IH [of k] False by (auto simp: less_Suc_eq_0_disj nth_Cons')
  qed (use Cons.prems in auto)
qed simp

lemma position_NoneD: "position P xs = None \<Longrightarrow> x \<in> set xs \<Longrightarrow> \<not> P x"
  by (induction xs) (auto split: if_splits)

lemma position_None_iff: "position P xs = None \<longleftrightarrow> (\<forall>x\<in>set xs. \<not> P x)"
  by (induction xs) auto

lemma position_distinct:
  "distinct xs \<Longrightarrow> i < length xs \<Longrightarrow> position (\<lambda>y. y = xs ! i) xs = Some i"
proof (induction xs arbitrary: i)
  case (Cons x xs)
  then show ?case by (cases i) auto
qed simp

text \<open>\<open>slice.get(i)\<close>\<close>
definition get_at :: "'a list \<Rightarrow> nat \<Rightarrow> 'a option" where
  "get_at xs i = (if i < length xs then Some (xs ! i) else None)"

lemma get_at_simps [simp]:
  "get_at [] i = None" "get_at (x # xs) 0 = Some x" "get_at (x # xs) (Suc i) = get_at xs i"
  by (simp_all add: get_at_def)

definition first_of :: "'a list \<Rightarrow> 'a option" where
  "first_of xs = (case xs of [] \<Rightarrow> None | x # _ \<Rightarrow> Some x)"

definition last_of :: "'a list \<Rightarrow> 'a option" where
  "last_of xs = (if xs = [] then None else Some (last xs))"

lemma first_of_simps [simp]: "first_of [] = None" "first_of (x # xs) = Some x"
  by (simp_all add: first_of_def)

lemma last_of_simps [simp]: "last_of [] = None" "last_of (xs @ [x]) = Some x"
  by (simp_all add: last_of_def)

lemma sorted_wrt_filter [intro]: "sorted_wrt P xs \<Longrightarrow> sorted_wrt P (filter Q xs)"
  by (induction xs) auto

end
