(* ===== verification/RustStd.thy ===== *)
theory RustStd
  imports Prelude "HOL-Library.Sublist" "HOL-Library.List_Lexorder" "HOL-Library.Char_ord"
begin

text \<open>
  The part of the Rust standard library that the modelled code uses on strings and
  integers. A Rust string is the list of its UTF-8 bytes, so \<open>len()\<close> is
  \<^const>\<open>length\<close> and comparison is byte-wise; \<open>valid_utf8\<close> is the invariant
  of \<open>str\<close>, checked with the error position that \<open>std::str::Utf8Error\<close> reports.
  Integer parsing follows \<open>core::num\<close>: sign handling, digit by digit overflow, and the
  four error kinds with the text their \<open>Display\<close> prints.
\<close>

section \<open>Bytes and ASCII\<close>

abbreviation byte :: "char \<Rightarrow> nat" where
  "byte c \<equiv> of_char c"

definition quote :: string where
  "quote = [CHR 0x27]"

definition is_digit :: "char \<Rightarrow> bool" where
  "is_digit c = (48 \<le> byte c \<and> byte c \<le> 57)"

definition is_upper :: "char \<Rightarrow> bool" where
  "is_upper c = (65 \<le> byte c \<and> byte c \<le> 90)"

definition is_lower :: "char \<Rightarrow> bool" where
  "is_lower c = (97 \<le> byte c \<and> byte c \<le> 122)"

definition is_alphanumeric :: "char \<Rightarrow> bool" where
  "is_alphanumeric c = (is_digit c \<or> is_upper c \<or> is_lower c)"

definition is_ascii :: "char \<Rightarrow> bool" where
  "is_ascii c = (byte c < 128)"

definition ascii_lower :: "char \<Rightarrow> char" where
  "ascii_lower c = (if is_upper c then char_of (byte c + 32) else c)"

definition ascii_upper :: "char \<Rightarrow> char" where
  "ascii_upper c = (if is_lower c then char_of (byte c - 32) else c)"

definition to_ascii_lowercase :: "string \<Rightarrow> string" where
  "to_ascii_lowercase s = map ascii_lower s"

definition to_ascii_uppercase :: "string \<Rightarrow> string" where
  "to_ascii_uppercase s = map ascii_upper s"

lemma byte_lt_256 [simp]: "byte c < 256"
  by (metis of_char_mod_256 mod_less_divisor zero_less_numeral)

lemma byte_char_of [simp]: "n < 256 \<Longrightarrow> byte (char_of n) = n"
  by (simp add: of_char_of)

lemma char_of_48: "char_of (48 :: nat) = CHR ''0''"
  by (simp add: char_of_def bit_0)

lemma ascii_lower_idem [simp]: "ascii_lower (ascii_lower c) = ascii_lower c"
  by (auto simp: ascii_lower_def is_upper_def)

lemma ascii_upper_idem [simp]: "ascii_upper (ascii_upper c) = ascii_upper c"
  by (auto simp: ascii_upper_def is_lower_def)

lemma to_ascii_lowercase_idem [simp]:
  "to_ascii_lowercase (to_ascii_lowercase s) = to_ascii_lowercase s"
  by (simp add: to_ascii_lowercase_def comp_def)

lemma length_to_ascii_lowercase [simp]: "length (to_ascii_lowercase s) = length s"
  by (simp add: to_ascii_lowercase_def)

section \<open>UTF-8 validation\<close>

text \<open>
  \<open>run_utf8_validation\<close>: \<open>None\<close> when the bytes are valid, otherwise the index up to
  which they are and the length of the offending sequence (\<open>None\<close> when the input ends
  inside one).
\<close>

definition in_range :: "nat \<Rightarrow> nat \<Rightarrow> char \<Rightarrow> bool" where
  "in_range lo hi c = (lo \<le> byte c \<and> byte c \<le> hi)"

abbreviation is_cont :: "char \<Rightarrow> bool" where
  "is_cont c \<equiv> in_range 0x80 0xBF c"

definition second_ok3 :: "char \<Rightarrow> char \<Rightarrow> bool" where
  "second_ok3 a b =
    (if byte a = 0xE0 then in_range 0xA0 0xBF b
     else if byte a = 0xED then in_range 0x80 0x9F b else is_cont b)"

definition second_ok4 :: "char \<Rightarrow> char \<Rightarrow> bool" where
  "second_ok4 a b =
    (if byte a = 0xF0 then in_range 0x90 0xBF b
     else if byte a = 0xF4 then in_range 0x80 0x8F b else is_cont b)"

fun utf8_error :: "nat \<Rightarrow> string \<Rightarrow> (nat \<times> nat option) option" where
  "utf8_error i [] = None"
| "utf8_error i (a # r) =
    (if is_ascii a then utf8_error (i + 1) r
     else if in_range 0xC2 0xDF a then
       (case r of
          [] \<Rightarrow> Some (i, None)
        | b # r \<Rightarrow> if is_cont b then utf8_error (i + 2) r else Some (i, Some 1))
     else if in_range 0xE0 0xEF a then
       (case r of
          [] \<Rightarrow> Some (i, None)
        | b # r \<Rightarrow> if \<not> second_ok3 a b then Some (i, Some 1) else
       (case r of
          [] \<Rightarrow> Some (i, None)
        | c # r \<Rightarrow> if is_cont c then utf8_error (i + 3) r else Some (i, Some 2)))
     else if in_range 0xF0 0xF4 a then
       (case r of
          [] \<Rightarrow> Some (i, None)
        | b # r \<Rightarrow> if \<not> second_ok4 a b then Some (i, Some 1) else
       (case r of
          [] \<Rightarrow> Some (i, None)
        | c # r \<Rightarrow> if \<not> is_cont c then Some (i, Some 2) else
       (case r of
          [] \<Rightarrow> Some (i, None)
        | d # r \<Rightarrow> if is_cont d then utf8_error (i + 4) r else Some (i, Some 3))))
     else Some (i, Some 1))"

declare utf8_error.simps(2) [simp del]

definition valid_utf8 :: "string \<Rightarrow> bool" where
  "valid_utf8 s = (utf8_error 0 s = None)"

section \<open>Splitting, joining and searching\<close>

text \<open>\<open>str::split(char)\<close> for an ASCII separator: always at least one piece.\<close>
fun split_on :: "char \<Rightarrow> string \<Rightarrow> string list" where
  "split_on sep [] = [[]]"
| "split_on sep (c # s) =
    (if c = sep then [] # split_on sep s
     else (case split_on sep s of [] \<Rightarrow> [[c]] | p # ps \<Rightarrow> (c # p) # ps))"

fun join :: "string \<Rightarrow> string list \<Rightarrow> string" where
  "join sep [] = []"
| "join sep [p] = p"
| "join sep (p # q # ps) = p @ sep @ join sep (q # ps)"

definition starts_with :: "string \<Rightarrow> string \<Rightarrow> bool" where
  "starts_with p s = (take (length p) s = p)"

definition ends_with :: "string \<Rightarrow> string \<Rightarrow> bool" where
  "ends_with p s = starts_with (rev p) (rev s)"

fun str_contains :: "string \<Rightarrow> string \<Rightarrow> bool" where
  "str_contains p [] = (p = [])"
| "str_contains p (c # s) = (starts_with p (c # s) \<or> str_contains p s)"

definition strip_prefix :: "string \<Rightarrow> string \<Rightarrow> string option" where
  "strip_prefix p s = (if starts_with p s then Some (drop (length p) s) else None)"

definition strip_suffix :: "string \<Rightarrow> string \<Rightarrow> string option" where
  "strip_suffix p s = (if ends_with p s then Some (take (length s - length p) s) else None)"

text \<open>\<open>str::split_once(char)\<close>\<close>
fun split_once :: "char \<Rightarrow> string \<Rightarrow> (string \<times> string) option" where
  "split_once sep [] = None"
| "split_once sep (c # s) =
    (if c = sep then Some ([], s)
     else map_option (\<lambda>(a, b). (c # a, b)) (split_once sep s))"

lemma starts_with_append [simp]: "starts_with p (p @ s)"
  by (simp add: starts_with_def)

lemma starts_with_iff: "starts_with p s \<longleftrightarrow> (\<exists>t. s = p @ t)"
  unfolding starts_with_def by (metis append_eq_conv_conj append_take_drop_id)

lemma strip_prefix_iff: "strip_prefix p s = Some t \<longleftrightarrow> s = p @ t"
  by (auto simp: strip_prefix_def starts_with_iff)

lemma split_on_not_Nil [simp]: "split_on sep s \<noteq> []"
  by (induction s) (auto split: list.splits)

lemma split_on_none: "sep \<notin> set s \<Longrightarrow> split_on sep s = [s]"
  by (induction s) auto

lemma split_on_append:
  "sep \<notin> set p \<Longrightarrow> split_on sep (p @ sep # s) = p # split_on sep s"
  by (induction p) auto

lemma split_on_join:
  "ps \<noteq> [] \<Longrightarrow> \<forall>p\<in>set ps. sep \<notin> set p \<Longrightarrow> split_on sep (join [sep] ps) = ps"
  by (induction "[sep]" ps rule: join.induct) (auto simp: split_on_none split_on_append)

lemma join_split_on [simp]: "join [sep] (split_on sep s) = s"
proof (induction s)
  case (Cons c s)
  obtain p ps where "split_on sep s = p # ps" by (cases "split_on sep s") auto
  then show ?case using Cons by (cases ps) auto
qed simp

lemma split_on_parts: "p \<in> set (split_on sep s) \<Longrightarrow> sep \<notin> set p"
proof (induction s arbitrary: p)
  case (Cons c s)
  obtain q ps where "split_on sep s = q # ps" by (cases "split_on sep s") auto
  then show ?case using Cons by (auto split: if_splits)
qed simp

lemma join_Cons: "ps \<noteq> [] \<Longrightarrow> join sep (p # ps) = p @ sep @ join sep ps"
  by (cases ps) auto

lemma join_append:
  "ps \<noteq> [] \<Longrightarrow> qs \<noteq> [] \<Longrightarrow> join sep (ps @ qs) = join sep ps @ sep @ join sep qs"
proof (induction ps)
  case (Cons p ps)
  then show ?case by (cases "ps = []") (simp_all add: join_Cons)
qed simp

lemma split_once_Some_iff:
  "split_once sep s = Some (a, b) \<longleftrightarrow> sep \<notin> set a \<and> s = a @ sep # b"
proof (induction s arbitrary: a)
  case (Cons c s)
  then show ?case by (cases a) (auto split: if_splits)
qed simp

lemma split_once_None_iff: "split_once sep s = None \<longleftrightarrow> sep \<notin> set s"
  by (induction s) auto

section \<open>White space\<close>

text \<open>The UTF-8 encodings of the Unicode \<open>White_Space\<close> characters, which \<open>str::trim\<close> removes.\<close>

definition utf8_2 :: "nat \<Rightarrow> nat \<Rightarrow> string" where
  "utf8_2 a b = [char_of a, char_of b]"

definition utf8_3 :: "nat \<Rightarrow> nat \<Rightarrow> nat \<Rightarrow> string" where
  "utf8_3 a b c = [char_of a, char_of b, char_of c]"

definition white_space_seqs :: "string list" where
  "white_space_seqs =
     map (\<lambda>n. [char_of n]) [9, 10, 11, 12, 13, 32 :: nat] @
     [utf8_2 0xC2 0x85, utf8_2 0xC2 0xA0, utf8_3 0xE1 0x9A 0x80] @
     map (utf8_3 0xE2 0x80) [0x80 ..< 0x8B] @
     [utf8_3 0xE2 0x80 0xA8, utf8_3 0xE2 0x80 0xA9, utf8_3 0xE2 0x80 0xAF,
      utf8_3 0xE2 0x81 0x9F, utf8_3 0xE3 0x80 0x80]"

function strip_seqs :: "string list \<Rightarrow> string \<Rightarrow> string" where
  "strip_seqs ws s =
    (case find (\<lambda>w. w \<noteq> [] \<and> starts_with w s) ws of
       None \<Rightarrow> s
     | Some w \<Rightarrow> strip_seqs ws (drop (length w) s))"
  by pat_completeness auto
termination
  by (relation "measure (\<lambda>(ws, s). length s)")
     (auto simp: find_Some_iff starts_with_iff)

declare strip_seqs.simps [simp del]

definition trim_start :: "string \<Rightarrow> string" where
  "trim_start s = strip_seqs white_space_seqs s"

definition trim_end :: "string \<Rightarrow> string" where
  "trim_end s = rev (strip_seqs (map rev white_space_seqs) (rev s))"

definition trim :: "string \<Rightarrow> string" where
  "trim s = trim_end (trim_start s)"

text \<open>\<open>str::split_whitespace\<close>: the non-empty pieces between white space characters.\<close>
function split_ws :: "string \<Rightarrow> string \<Rightarrow> string list" where
  "split_ws acc s =
    (case find (\<lambda>w. w \<noteq> [] \<and> starts_with w s) white_space_seqs of
       Some w \<Rightarrow> (if acc = [] then [] else [acc]) @ split_ws [] (drop (length w) s)
     | None \<Rightarrow> (case s of
         [] \<Rightarrow> if acc = [] then [] else [acc]
       | c # r \<Rightarrow> split_ws (acc @ [c]) r))"
  by pat_completeness auto
termination
  by (relation "measure (\<lambda>(acc, s). length s)")
     (auto simp: find_Some_iff starts_with_iff)

declare split_ws.simps [simp del]

definition split_whitespace :: "string \<Rightarrow> string list" where
  "split_whitespace s = split_ws [] s"

section \<open>Integers\<close>

abbreviation u8_max :: int where "u8_max \<equiv> 255"
abbreviation u64_max :: int where "u64_max \<equiv> 18446744073709551615"
abbreviation i64_min :: int where "i64_min \<equiv> -9223372036854775808"
abbreviation i64_max :: int where "i64_max \<equiv> 9223372036854775807"

definition is_i64 :: "int \<Rightarrow> bool" where
  "is_i64 n = (i64_min \<le> n \<and> n \<le> i64_max)"

definition is_u64 :: "nat \<Rightarrow> bool" where
  "is_u64 n = (int n \<le> u64_max)"

datatype int_error = EmptyInt | InvalidDigit | PosOverflow | NegOverflow

fun int_error_text :: "int_error \<Rightarrow> string" where
  "int_error_text EmptyInt = ''cannot parse integer from empty string''"
| "int_error_text InvalidDigit = ''invalid digit found in string''"
| "int_error_text PosOverflow = ''number too large to fit in target type''"
| "int_error_text NegOverflow = ''number too small to fit in target type''"

definition digit_val :: "char \<Rightarrow> int option" where
  "digit_val c = (if is_digit c then Some (int (byte c) - 48) else None)"

fun parse_pos :: "int \<Rightarrow> int \<Rightarrow> string \<Rightarrow> int_error + int" where
  "parse_pos mx acc [] = Inr acc"
| "parse_pos mx acc (c # s) =
    (case digit_val c of
       None \<Rightarrow> Inl InvalidDigit
     | Some d \<Rightarrow> if acc * 10 + d > mx then Inl PosOverflow else parse_pos mx (acc * 10 + d) s)"

fun parse_neg :: "int \<Rightarrow> int \<Rightarrow> string \<Rightarrow> int_error + int" where
  "parse_neg mn acc [] = Inr acc"
| "parse_neg mn acc (c # s) =
    (case digit_val c of
       None \<Rightarrow> Inl InvalidDigit
     | Some d \<Rightarrow> if acc * 10 - d < mn then Inl NegOverflow else parse_neg mn (acc * 10 - d) s)"

definition parse_unsigned :: "int \<Rightarrow> string \<Rightarrow> int_error + int" where
  "parse_unsigned mx s =
    (case s of
       [] \<Rightarrow> Inl EmptyInt
     | c # r \<Rightarrow>
        if (c = CHR ''+'' \<or> c = CHR ''-'') \<and> r = [] then Inl InvalidDigit
        else if c = CHR ''+'' then parse_pos mx 0 r
        else parse_pos mx 0 s)"

definition parse_signed :: "int \<Rightarrow> int \<Rightarrow> string \<Rightarrow> int_error + int" where
  "parse_signed mn mx s =
    (case s of
       [] \<Rightarrow> Inl EmptyInt
     | c # r \<Rightarrow>
        if (c = CHR ''+'' \<or> c = CHR ''-'') \<and> r = [] then Inl InvalidDigit
        else if c = CHR ''+'' then parse_pos mx 0 r
        else if c = CHR ''-'' then parse_neg mn 0 r
        else parse_pos mx 0 s)"

definition parse_u64 :: "string \<Rightarrow> int_error + nat" where
  "parse_u64 s = map_res nat (parse_unsigned u64_max s)"

definition parse_i64 :: "string \<Rightarrow> int_error + int" where
  "parse_i64 s = parse_signed i64_min i64_max s"

fun show_nat :: "nat \<Rightarrow> string" where
  "show_nat n = (if n < 10 then [char_of (48 + n)]
                 else show_nat (n div 10) @ [char_of (48 + n mod 10)])"

declare show_nat.simps [simp del]

definition show_int :: "int \<Rightarrow> string" where
  "show_int i = (if i < 0 then CHR ''-'' # show_nat (nat (- i)) else show_nat (nat i))"

text \<open>\<open>format!("{:0w$}")\<close> of a non-negative number.\<close>
definition pad_zero :: "nat \<Rightarrow> string \<Rightarrow> string" where
  "pad_zero w s = replicate (w - length s) CHR ''0'' @ s"

lemma parse_pos_append:
  "parse_pos mx acc (s @ t) = bind_res (parse_pos mx acc s) (\<lambda>a. parse_pos mx a t)"
  by (induction s arbitrary: acc) (auto split: option.splits)

lemma parse_pos_show:
  "int n \<le> mx \<Longrightarrow> parse_pos mx 0 (show_nat n) = Inr (int n)"
proof (induction n rule: less_induct)
  case (less n)
  show ?case
  proof (cases "n < 10")
    case True
    then show ?thesis using less.prems
      by (subst show_nat.simps) (simp add: digit_val_def is_digit_def)
  next
    case False
    have IH: "parse_pos mx 0 (show_nat (n div 10)) = Inr (int (n div 10))"
      using less False by (simp add: div_less_dividend)
    have "int (n div 10) * 10 + int (n mod 10) = int n"
      by (metis div_mult_mod_eq of_nat_add of_nat_mult of_nat_numeral)
    then show ?thesis using False less.prems IH
      by (subst show_nat.simps) (simp add: parse_pos_append digit_val_def is_digit_def)
  qed
qed

lemma show_nat_digits: "c \<in> set (show_nat n) \<Longrightarrow> is_digit c"
proof (induction n rule: less_induct)
  case (less n)
  show ?case
  proof (cases "n < 10")
    case True
    then show ?thesis using less.prems
      by (subst (asm) show_nat.simps) (auto simp: is_digit_def)
  next
    case False
    then have "c \<in> set (show_nat (n div 10)) \<or> c = char_of (48 + n mod 10)"
      using less.prems by (subst (asm) show_nat.simps) auto
    moreover have "n div 10 < n" using False by simp
    ultimately show ?thesis using less.IH [of "n div 10"] by (auto simp: is_digit_def)
  qed
qed

lemma show_nat_not_Nil [simp]: "show_nat n \<noteq> []"
  by (subst show_nat.simps) simp

lemma parse_u64_show: "is_u64 n \<Longrightarrow> parse_u64 (show_nat n) = Inr n"
proof -
  assume u: "is_u64 n"
  obtain c r where cr: "show_nat n = c # r" by (cases "show_nat n") auto
  have "is_digit c" using show_nat_digits [of c n] cr by simp
  then have "c \<noteq> CHR ''+''" "c \<noteq> CHR ''-''" by (auto simp: is_digit_def)
  then have "parse_unsigned u64_max (show_nat n) = parse_pos u64_max 0 (show_nat n)"
    by (simp add: parse_unsigned_def cr)
  then show ?thesis using u parse_pos_show [of n u64_max]
    by (simp add: parse_u64_def is_u64_def)
qed

lemma parse_pos_bounds:
  "parse_pos mx acc s = Inr n \<Longrightarrow> 0 \<le> acc \<Longrightarrow> acc \<le> mx \<Longrightarrow> 0 \<le> n \<and> n \<le> mx"
  by (induction s arbitrary: acc)
     (fastforce simp: digit_val_def is_digit_def split: option.splits if_splits)+

lemma parse_neg_bounds:
  "parse_neg mn acc s = Inr n \<Longrightarrow> acc \<le> 0 \<Longrightarrow> mn \<le> acc \<Longrightarrow> n \<le> 0 \<and> mn \<le> n"
  by (induction s arbitrary: acc)
     (fastforce simp: digit_val_def is_digit_def split: option.splits if_splits)+

lemma parse_i64_range: "parse_i64 s = Inr n \<Longrightarrow> is_i64 n"
  by (auto simp: parse_i64_def parse_signed_def is_i64_def
      simp del: parse_pos.simps parse_neg.simps split: list.splits if_splits
      dest: parse_pos_bounds parse_neg_bounds)

lemma parse_u64_range: "parse_u64 s = Inr n \<Longrightarrow> is_u64 n"
  by (auto simp: parse_u64_def parse_unsigned_def is_u64_def result_simps
      simp del: parse_pos.simps split: list.splits if_splits dest: parse_pos_bounds)

lemma parse_neg_append:
  "parse_neg mn acc (s @ t) = bind_res (parse_neg mn acc s) (\<lambda>a. parse_neg mn a t)"
  by (induction s arbitrary: acc) (auto split: option.splits)

lemma parse_neg_show:
  "mn \<le> - int n \<Longrightarrow> parse_neg mn 0 (show_nat n) = Inr (- int n)"
proof (induction n rule: less_induct)
  case (less n)
  show ?case
  proof (cases "n < 10")
    case True
    then show ?thesis using less.prems
      by (subst show_nat.simps) (simp add: digit_val_def is_digit_def)
  next
    case False
    have IH: "parse_neg mn 0 (show_nat (n div 10)) = Inr (- int (n div 10))"
      using less False by (simp add: div_less_dividend)
    have "int (n div 10) * 10 + int (n mod 10) = int n"
      by (metis div_mult_mod_eq of_nat_add of_nat_mult of_nat_numeral)
    then show ?thesis using False less.prems IH
      by (subst show_nat.simps) (simp add: parse_neg_append digit_val_def is_digit_def)
  qed
qed

lemma show_nat_head_digit:
  obtains c r where "show_nat n = c # r" "is_digit c" "c \<noteq> CHR ''+''" "c \<noteq> CHR ''-''"
proof (cases "show_nat n")
  case (Cons c r)
  then have "is_digit c" using show_nat_digits [of c n] by simp
  moreover from this have "c \<noteq> CHR ''+''" "c \<noteq> CHR ''-''" by (auto simp: is_digit_def)
  ultimately show thesis using that Cons by blast
qed simp

lemma parse_i64_show: "is_i64 i \<Longrightarrow> parse_i64 (show_int i) = Inr i"
proof -
  assume i: "is_i64 i"
  show ?thesis
  proof (cases "i < 0")
    case True
    then show ?thesis using i parse_neg_show [of i64_min "nat (- i)"]
      by (simp add: parse_i64_def parse_signed_def show_int_def is_i64_def)
  next
    case False
    obtain c r where cr: "show_nat (nat i) = c # r" "c \<noteq> CHR ''+''" "c \<noteq> CHR ''-''"
      by (rule show_nat_head_digit)
    then show ?thesis using False i parse_pos_show [of "nat i" i64_max]
      by (simp add: parse_i64_def parse_signed_def show_int_def is_i64_def)
  qed
qed

lemma parse_pos_zeros: "0 \<le> mx \<Longrightarrow> parse_pos mx 0 (replicate k CHR ''0'' @ s) = parse_pos mx 0 s"
  by (induction k) (auto simp: digit_val_def is_digit_def)

lemma digits_parse_unsigned:
  assumes "s \<noteq> []" "list_all is_digit s"
  shows "parse_unsigned mx s = parse_pos mx 0 s"
proof -
  obtain c r where s: "s = c # r" using assms(1) by (cases s) auto
  then have "c \<noteq> CHR ''+''" "c \<noteq> CHR ''-''" using assms(2) by (auto simp: is_digit_def)
  then show ?thesis by (simp add: parse_unsigned_def s)
qed

lemma pad_zero_digits: "list_all is_digit (pad_zero w (show_nat n))"
  by (auto simp: pad_zero_def list_all_iff is_digit_def dest: show_nat_digits)

lemma parse_unsigned_pad_zero:
  "int n \<le> mx \<Longrightarrow> parse_unsigned mx (pad_zero w (show_nat n)) = Inr (int n)"
  using pad_zero_digits [of w n] parse_pos_show [of n mx]
  by (subst digits_parse_unsigned) (auto simp: pad_zero_def parse_pos_zeros)

lemma parse_unsigned_range: "parse_unsigned mx s = Inr n \<Longrightarrow> 0 \<le> mx \<Longrightarrow> 0 \<le> n \<and> n \<le> mx"
  by (auto simp: parse_unsigned_def simp del: parse_pos.simps
      split: list.splits if_splits dest: parse_pos_bounds)

lemma digit_val_lower [simp]: "digit_val (ascii_lower c) = digit_val c"
  by (auto simp: digit_val_def is_digit_def ascii_lower_def is_upper_def)

lemma ascii_lower_sign [simp]:
  "ascii_lower c = CHR ''+'' \<longleftrightarrow> c = CHR ''+''" "ascii_lower c = CHR ''-'' \<longleftrightarrow> c = CHR ''-''"
  by (auto simp: ascii_lower_def is_upper_def dest!: arg_cong [where f = byte])

lemma parse_pos_lower: "parse_pos mx acc (to_ascii_lowercase s) = parse_pos mx acc s"
  by (induction s arbitrary: acc) (auto simp: to_ascii_lowercase_def split: option.splits)

lemma parse_unsigned_lower: "parse_unsigned mx (to_ascii_lowercase s) = parse_unsigned mx s"
  using parse_pos_lower [of mx 0 s] parse_pos_lower [of mx 0 "tl s"]
  by (cases s) (auto simp: parse_unsigned_def to_ascii_lowercase_def simp del: parse_pos.simps)

end
