(* ===== verification/F64.thy ===== *)
theory F64
  imports RustStd Complex_Main "HOL-Library.Log_Nat"
begin

text \<open>
  IEEE 754 binary64 as far as the code uses it: finite values are exact rationals, with a
  separate negative zero; \<open>f64_round\<close> rounds a rational to the nearest
  representable value, ties to even; parsing follows \<open>f64::from_str\<close> (which is
  correctly rounded) and \<open>f64_show\<close> follows \<open>Display\<close>, the shortest decimal that
  reads back as the same value, printed without an exponent.
  Comparisons are the IEEE ones: every comparison with NaN is false and the zeros are equal.
\<close>

datatype f64 = NaN | Inf bool | NegZero | Fin rat

text \<open>In \<open>Inf neg\<close> the flag is the sign bit.\<close>

definition is_finite :: "f64 \<Rightarrow> bool" where
  "is_finite x = (case x of NaN \<Rightarrow> False | Inf _ \<Rightarrow> False | _ \<Rightarrow> True)"

fun f64_le :: "f64 \<Rightarrow> f64 \<Rightarrow> bool" where
  "f64_le NaN _ = False"
| "f64_le _ NaN = False"
| "f64_le (Inf True) _ = True"
| "f64_le _ (Inf False) = True"
| "f64_le (Inf False) _ = False"
| "f64_le _ (Inf True) = False"
| "f64_le NegZero NegZero = True"
| "f64_le NegZero (Fin y) = (0 \<le> y)"
| "f64_le (Fin x) NegZero = (x \<le> 0)"
| "f64_le (Fin x) (Fin y) = (x \<le> y)"

definition f64_eq :: "f64 \<Rightarrow> f64 \<Rightarrow> bool" where
  "f64_eq x y = (f64_le x y \<and> f64_le y x)"

definition f64_lt :: "f64 \<Rightarrow> f64 \<Rightarrow> bool" where
  "f64_lt x y = (f64_le x y \<and> \<not> f64_le y x)"

text \<open>\<open>f64::min\<close> and \<open>f64::max\<close>: the other operand when one is NaN.\<close>
definition f64_min :: "f64 \<Rightarrow> f64 \<Rightarrow> f64" where
  "f64_min x y = (if x = NaN then y else if y = NaN then x else if f64_le x y then x else y)"

definition f64_max :: "f64 \<Rightarrow> f64 \<Rightarrow> f64" where
  "f64_max x y = (if x = NaN then y else if y = NaN then x else if f64_le y x then x else y)"

definition pow2 :: "int \<Rightarrow> rat" where
  "pow2 e = (if 0 \<le> e then 2 ^ nat e else 1 / 2 ^ nat (- e))"

definition pow10 :: "int \<Rightarrow> rat" where
  "pow10 e = (if 0 \<le> e then 10 ^ nat e else 1 / 10 ^ nat (- e))"

definition round_half_even :: "rat \<Rightarrow> int" where
  "round_half_even x =
     (let f = \<lfloor>x\<rfloor>; d = x - of_int f
      in if d < 1/2 then f else if 1/2 < d then f + 1 else if even f then f else f + 1)"

text \<open>The exponent of the last place of a positive rational, at least \<open>-1074\<close>.\<close>
definition ulp_exp :: "rat \<Rightarrow> int" where
  "ulp_exp x =
     (let (p, q) = quotient_of x; l = bitlen p - bitlen q
      in max (-1074) (if pow2 l \<le> x then l - 52 else l - 53))"

definition round_mag :: "rat \<Rightarrow> rat option" where
  "round_mag x =
     (let e = ulp_exp x; m = of_int (round_half_even (x / pow2 e)) * pow2 e
      in if pow2 1024 \<le> m then None else Some m)"

definition f64_signed :: "bool \<Rightarrow> rat \<Rightarrow> f64" where
  "f64_signed neg x =
     (case (if x = 0 then Some 0 else round_mag x) of
        None \<Rightarrow> Inf neg
      | Some m \<Rightarrow> if m = 0 then (if neg then NegZero else Fin 0)
                  else Fin (if neg then - m else m))"

definition f64_round :: "rat \<Rightarrow> f64" where
  "f64_round x = f64_signed (x < 0) \<bar>x\<bar>"

section \<open>Reading a number\<close>

fun take_digits :: "string \<Rightarrow> string \<times> string" where
  "take_digits [] = ([], [])"
| "take_digits (c # s) =
    (if is_digit c then (let (d, r) = take_digits s in (c # d, r)) else ([], c # s))"

definition digits_val :: "string \<Rightarrow> int" where
  "digits_val ds = foldl (\<lambda>a c. a * 10 + (int (byte c) - 48)) 0 ds"

definition parse_exp :: "string \<Rightarrow> int option" where
  "parse_exp s =
    (case s of
       [] \<Rightarrow> Some 0
     | c # r \<Rightarrow>
        if c \<noteq> CHR ''e'' \<and> c \<noteq> CHR ''E'' then None
        else (let (neg, r) = (case r of
                 CHR ''-'' # t \<Rightarrow> (True, t) | CHR ''+'' # t \<Rightarrow> (False, t) | _ \<Rightarrow> (False, r));
                  (ds, rest) = take_digits r
              in if ds = [] \<or> rest \<noteq> [] then None
                 else Some (if neg then - digits_val ds else digits_val ds)))"

definition parse_decimal :: "string \<Rightarrow> rat option" where
  "parse_decimal s =
    (let (ip, r) = take_digits s;
         (fp, r) = (case r of CHR ''.'' # t \<Rightarrow> take_digits t | _ \<Rightarrow> ([], r))
     in if ip = [] \<and> fp = [] then None
        else map_option (\<lambda>e. of_int (digits_val (ip @ fp)) * pow10 (e - int (length fp)))
               (parse_exp r))"

definition parse_f64 :: "string \<Rightarrow> f64 option" where
  "parse_f64 s =
    (let (neg, r) = (case s of
         CHR ''-'' # t \<Rightarrow> (True, t) | CHR ''+'' # t \<Rightarrow> (False, t) | _ \<Rightarrow> (False, s));
         low = to_ascii_lowercase r
     in if low = ''nan'' then Some NaN
        else if low = ''inf'' \<or> low = ''infinity'' then Some (Inf neg)
        else map_option (f64_signed neg) (parse_decimal r))"

definition float_error_text :: "string \<Rightarrow> string" where
  "float_error_text s =
    (if s = [] then ''cannot parse float from empty string'' else ''invalid float literal'')"

section \<open>Printing a number\<close>

text \<open>The place of the leading digit: \<open>10^(k-1) \<le> x < 10^k\<close>.\<close>
definition lead_place :: "rat \<Rightarrow> int" where
  "lead_place x =
    (if 1 \<le> x then int (length (show_nat (nat \<lfloor>x\<rfloor>)))
     else (case find (\<lambda>n. pow10 (- int n - 1) \<le> x) [0 ..< 400] of
             Some n \<Rightarrow> - int n | None \<Rightarrow> -400))"

definition reads_back :: "rat \<Rightarrow> int \<Rightarrow> int \<Rightarrow> bool" where
  "reads_back x sc c = (round_mag (of_int c * pow10 sc) = Some x)"

definition decimal_at :: "rat \<Rightarrow> nat \<Rightarrow> (int \<times> int) option" where
  "decimal_at x n =
    (let sc = lead_place x - int n; f = \<lfloor>x / pow10 sc\<rfloor>;
         near = round_half_even (x / pow10 sc); far = (if near = f then f + 1 else f)
     in if reads_back x sc near then Some (near, sc)
        else if reads_back x sc far then Some (far, sc) else None)"

definition shortest :: "rat \<Rightarrow> int \<times> int" where
  "shortest x =
    (case List.map_filter (decimal_at x) [1 ..< 18] of
       r # _ \<Rightarrow> r
     | [] \<Rightarrow> (let sc = lead_place x - 17 in (round_half_even (x / pow10 sc), sc)))"

fun strip_zeros :: "string \<Rightarrow> string" where
  "strip_zeros [] = []"
| "strip_zeros (c # s) = (if c = CHR ''0'' then strip_zeros s else c # s)"

definition place_point :: "string \<Rightarrow> int \<Rightarrow> string" where
  "place_point ds sc =
    (if 0 \<le> sc then ds @ replicate (nat sc) CHR ''0''
     else (let k = nat (- sc); padded = replicate (k + 1 - length ds) CHR ''0'' @ ds;
               ip = take (length padded - k) padded;
               fp = rev (strip_zeros (rev (drop (length padded - k) padded)))
           in if fp = [] then ip else ip @ ''.'' @ fp))"

fun f64_show :: "f64 \<Rightarrow> string" where
  "f64_show NaN = ''NaN''"
| "f64_show (Inf neg) = (if neg then ''-inf'' else ''inf'')"
| "f64_show NegZero = ''-0''"
| "f64_show (Fin x) =
    (if x = 0 then ''0''
     else (let (c, sc) = shortest \<bar>x\<bar>
           in (if x < 0 then ''-'' else []) @ place_point (show_nat (nat c)) sc))"

section \<open>Order facts\<close>

lemma f64_cases:
  obtains (NaN) "x = NaN" | (NInf) "x = Inf True" | (PInf) "x = Inf False"
  | (NegZero) "x = NegZero" | (Fin) q where "x = Fin q"
  using that by (cases x; force)

lemma f64_le_NaN [simp]: "\<not> f64_le NaN y" "\<not> f64_le x NaN"
  by simp (cases x rule: f64_cases; simp)

lemma f64_le_refl [simp]: "f64_le x x = (x \<noteq> NaN)"
  by (cases x rule: f64_cases) auto

lemma f64_le_trans: "f64_le x y \<Longrightarrow> f64_le y z \<Longrightarrow> f64_le x z"
  by (cases x rule: f64_cases; cases y rule: f64_cases; cases z rule: f64_cases) auto

lemma f64_le_total: "x \<noteq> NaN \<Longrightarrow> y \<noteq> NaN \<Longrightarrow> f64_le x y \<or> f64_le y x"
  by (cases x rule: f64_cases; cases y rule: f64_cases) auto

lemma f64_lt_iff: "x \<noteq> NaN \<Longrightarrow> y \<noteq> NaN \<Longrightarrow> f64_lt x y \<longleftrightarrow> \<not> f64_le y x"
  using f64_le_total [of x y] by (auto simp: f64_lt_def)

lemma f64_min_le: "x \<noteq> NaN \<Longrightarrow> y \<noteq> NaN \<Longrightarrow> f64_le (f64_min x y) x \<and> f64_le (f64_min x y) y"
  using f64_le_total [of x y] by (auto simp: f64_min_def)

lemma f64_max_ge: "x \<noteq> NaN \<Longrightarrow> y \<noteq> NaN \<Longrightarrow> f64_le x (f64_max x y) \<and> f64_le y (f64_max x y)"
  using f64_le_total [of x y] by (auto simp: f64_max_def)

lemma is_finite_not_NaN [dest]: "is_finite x \<Longrightarrow> x \<noteq> NaN"
  by (auto simp: is_finite_def)

end
