(* ===== verification/Json.thy ===== *)
theory Json
  imports F64
begin

text \<open>
  \<open>serde_json::Value\<close> as a datatype, with the accessors the code calls, and the record
  of the functions that are not code of this repository: the JSON reader and printer and
  the Unicode case mapping of strings that are not ASCII, and the escaping of \<open>{:?}\<close>. An object is the list of its
  entries in map order. \<open>Number\<close> keeps the three representations of the library:
  a \<open>u64\<close>, a negative \<open>i64\<close>, or a finite float.
\<close>

datatype json_number = PosInt nat | NegInt int | Float f64

datatype json =
    JNull
  | JBool bool
  | JNumber json_number
  | JString string
  | JArray "json list"
  | JObject "(string \<times> json) list"

record host =
  json_parse :: "string \<Rightarrow> string + json"
  json_print :: "json \<Rightarrow> string"
  uni_lower :: "string \<Rightarrow> string"
  debug_str :: "string \<Rightarrow> string"

type_synonym err = "string list"

text \<open>An \<open>anyhow::Error\<close> is its chain of messages, outermost first; \<open>context\<close> adds one.\<close>

definition bail :: "string \<Rightarrow> err + 'a" where
  "bail msg = Inl [msg]"

definition with_context :: "string \<Rightarrow> err + 'a \<Rightarrow> err + 'a" where
  "with_context msg r = map_err (Cons msg) r"

lemma bail_not_Inr [simp]: "bail m \<noteq> Inr x" "bail m = Inl e \<longleftrightarrow> e = [m]"
  by (auto simp: bail_def)

lemma with_context_Inr [simp]: "with_context m r = Inr x \<longleftrightarrow> r = Inr x"
  by (simp add: with_context_def result_simps)

lemma with_context_Inr' [simp]: "with_context m (Inr x) = Inr x"
  by (simp add: with_context_def)

section \<open>Accessors\<close>

fun as_str :: "json \<Rightarrow> string option" where
  "as_str (JString s) = Some s"
| "as_str _ = None"

fun as_array :: "json \<Rightarrow> json list option" where
  "as_array (JArray xs) = Some xs"
| "as_array _ = None"

fun as_object :: "json \<Rightarrow> (string \<times> json) list option" where
  "as_object (JObject m) = Some m"
| "as_object _ = None"

fun as_i64 :: "json \<Rightarrow> int option" where
  "as_i64 (JNumber (PosInt n)) = (if int n \<le> i64_max then Some (int n) else None)"
| "as_i64 (JNumber (NegInt i)) = Some i"
| "as_i64 _ = None"

fun as_u64 :: "json \<Rightarrow> nat option" where
  "as_u64 (JNumber (PosInt n)) = Some n"
| "as_u64 _ = None"

fun as_f64 :: "json \<Rightarrow> f64 option" where
  "as_f64 (JNumber (PosInt n)) = Some (f64_round (of_nat n))"
| "as_f64 (JNumber (NegInt i)) = Some (f64_round (of_int i))"
| "as_f64 (JNumber (Float x)) = Some x"
| "as_f64 _ = None"

definition json_get :: "string \<Rightarrow> json \<Rightarrow> json option" where
  "json_get k v = Option.bind (as_object v) (\<lambda>m. map_of m k)"

definition json_at :: "nat \<Rightarrow> json \<Rightarrow> json option" where
  "json_at i v = Option.bind (as_array v) (\<lambda>xs. get_at xs i)"

definition json_of_f64 :: "f64 \<Rightarrow> json option" where
  "json_of_f64 x = (if is_finite x then Some (JNumber (Float x)) else None)"

text \<open>\<open>Number::to_string\<close>: integers in decimal, floats as the printer writes them.\<close>
definition number_text :: "host \<Rightarrow> json_number \<Rightarrow> string" where
  "number_text h n =
    (case n of PosInt k \<Rightarrow> show_nat k | NegInt i \<Rightarrow> show_int i | Float _ \<Rightarrow> json_print h (JNumber n))"

definition debug_list :: "host \<Rightarrow> string list \<Rightarrow> string" where
  "debug_list h xs = ''['' @ join '', '' (map (debug_str h) xs) @ '']''"

section \<open>Unicode lower case\<close>

definition to_lowercase :: "host \<Rightarrow> string \<Rightarrow> string" where
  "to_lowercase h s = (if list_all is_ascii s then to_ascii_lowercase s else uni_lower h s)"

lemma is_ascii_lower [simp]: "is_ascii (ascii_lower c) = is_ascii c"
  by (auto simp: is_ascii_def ascii_lower_def is_upper_def)

lemma list_all_ascii_lower [simp]: "list_all is_ascii (to_ascii_lowercase s) = list_all is_ascii s"
  by (induction s) (auto simp: to_ascii_lowercase_def)

lemma to_lowercase_ascii: "list_all is_ascii s \<Longrightarrow> to_lowercase h s = to_ascii_lowercase s"
  by (simp add: to_lowercase_def)

lemma to_lowercase_idem_ascii:
  "list_all is_ascii s \<Longrightarrow> to_lowercase h (to_lowercase h s) = to_lowercase h s"
  by (simp add: to_lowercase_def)

end
