(* ===== verification/Constraints.thy ===== *)
theory Constraints
  imports Json
begin

text \<open>
  Identifier constraints, \<open>aviso-validators/src/constraints.rs\<close>: the constraint types,
  their evaluation, and the parsers that turn one JSON object with a single operator into
  a constraint, with the range check of the schema. The numeric code is generic in the
  number type, as in the source: comparisons, printing and operand reading are arguments.
\<close>

definition qt :: "string \<Rightarrow> string" where
  "qt s = quote @ s @ quote"

definition field_msg :: "string \<Rightarrow> string \<Rightarrow> string" where
  "field_msg f rest = ''Field '' @ qt f @ rest"

datatype 'a numeric_constraint =
    CEq 'a | CIn "'a list" | CGt 'a | CGte 'a | CLt 'a | CLte 'a | CBetween 'a 'a

datatype enum_constraint = EnumEq string | EnumIn "string list"

section \<open>Evaluation\<close>

fun matches_numeric ::
  "('a \<Rightarrow> 'a \<Rightarrow> bool) \<Rightarrow> ('a \<Rightarrow> 'a \<Rightarrow> bool) \<Rightarrow> ('a \<Rightarrow> 'a \<Rightarrow> bool) \<Rightarrow>
   'a numeric_constraint \<Rightarrow> 'a \<Rightarrow> bool" where
  "matches_numeric eq lt le (CEq v) x = eq x v"
| "matches_numeric eq lt le (CIn vs) x = list_ex (\<lambda>v. eq v x) vs"
| "matches_numeric eq lt le (CGt v) x = lt v x"
| "matches_numeric eq lt le (CGte v) x = le v x"
| "matches_numeric eq lt le (CLt v) x = lt x v"
| "matches_numeric eq lt le (CLte v) x = le x v"
| "matches_numeric eq lt le (CBetween mn mx) x = (le mn x \<and> le x mx)"

definition int_matches :: "int numeric_constraint \<Rightarrow> int \<Rightarrow> bool" where
  "int_matches c x = matches_numeric (=) (<) (\<le>) c x"

definition float_matches :: "f64 numeric_constraint \<Rightarrow> f64 \<Rightarrow> bool" where
  "float_matches c x = (is_finite x \<and> matches_numeric f64_eq f64_lt f64_le c x)"

fun enum_matches :: "host \<Rightarrow> enum_constraint \<Rightarrow> string \<Rightarrow> bool" where
  "enum_matches h (EnumEq v) x = (to_lowercase h x = v)"
| "enum_matches h (EnumIn vs) x = list_ex (\<lambda>v. v = to_lowercase h x) vs"

section \<open>Operands\<close>

definition op_msg :: "string \<Rightarrow> string \<Rightarrow> string \<Rightarrow> string" where
  "op_msg f operator rest = field_msg f ('' operator '' @ qt operator @ '' '' @ rest)"

definition parse_constraint_object :: "string \<Rightarrow> json \<Rightarrow> err + (string \<times> json) list" where
  "parse_constraint_object f v =
     of_option [field_msg f ('' constraint must be an object (for example {\"gte\": 4})'')] (as_object v)"

definition single_operator :: "string \<Rightarrow> (string \<times> json) list \<Rightarrow> err + (string \<times> json)" where
  "single_operator f obj =
    (if length obj \<noteq> 1 then bail (field_msg f '' constraint must contain exactly one operator'')
     else of_option [''constraint object unexpectedly empty''] (first_of obj))"

definition parse_int_operand :: "string \<Rightarrow> string \<Rightarrow> json \<Rightarrow> err + int" where
  "parse_int_operand f operator v = of_option [op_msg f operator ''expects integer value''] (as_i64 v)"

definition parse_float_operand :: "string \<Rightarrow> string \<Rightarrow> json \<Rightarrow> err + f64" where
  "parse_float_operand f operator v =
     bind_res (of_option [op_msg f operator ''expects numeric value''] (as_f64 v)) (\<lambda>x.
       if \<not> is_finite x then bail (op_msg f operator ''expects finite numeric value'') else Inr x)"

definition parse_enum_operand :: "host \<Rightarrow> string \<Rightarrow> string \<Rightarrow> json \<Rightarrow> err + string" where
  "parse_enum_operand h f operator v =
     of_option [op_msg f operator ''expects string value''] (map_option (to_lowercase h) (as_str v))"

definition parse_array_operand ::
  "string \<Rightarrow> (json \<Rightarrow> err + 'a) \<Rightarrow> string \<Rightarrow> string \<Rightarrow> json \<Rightarrow> err + 'a list" where
  "parse_array_operand what operand f operator v =
     bind_res (of_option [op_msg f operator (''expects array of '' @ what)] (as_array v)) (\<lambda>vs.
       if vs = [] then bail (op_msg f operator ''must contain at least one value'')
       else collect_res (map operand vs))"

definition parse_between_operand ::
  "('a \<Rightarrow> 'a \<Rightarrow> bool) \<Rightarrow> (json \<Rightarrow> err + 'a) \<Rightarrow> string \<Rightarrow> string \<Rightarrow> json \<Rightarrow> err + ('a \<times> 'a)" where
  "parse_between_operand gt operand f operator v =
     bind_res (of_option [op_msg f operator ''expects [min,max]''] (as_array v)) (\<lambda>vs.
       case vs of
         [a, b] \<Rightarrow>
           bind_res (operand a) (\<lambda>mn. bind_res (operand b) (\<lambda>mx.
             if gt mn mx then bail (op_msg f operator ''expects min <= max'') else Inr (mn, mx)))
       | _ \<Rightarrow> bail (op_msg f operator ''expects exactly two values [min,max]''))"

section \<open>The range check\<close>

fun check_each :: "('a \<Rightarrow> err + unit) \<Rightarrow> 'a list \<Rightarrow> err + unit" where
  "check_each chk [] = Inr ()"
| "check_each chk (v # vs) = bind_res (chk v) (\<lambda>_. check_each chk vs)"

fun validate_constraint_against_range :: "'a numeric_constraint \<Rightarrow> ('a \<Rightarrow> err + unit) \<Rightarrow> err + unit" where
  "validate_constraint_against_range (CEq v) chk = chk v"
| "validate_constraint_against_range (CGt v) chk = chk v"
| "validate_constraint_against_range (CGte v) chk = chk v"
| "validate_constraint_against_range (CLt v) chk = chk v"
| "validate_constraint_against_range (CLte v) chk = chk v"
| "validate_constraint_against_range (CIn vs) chk = check_each chk vs"
| "validate_constraint_against_range (CBetween a b) chk = bind_res (chk a) (\<lambda>_. chk b)"

definition range_chk ::
  "('a \<Rightarrow> 'a \<Rightarrow> bool) \<Rightarrow> ('a \<Rightarrow> string) \<Rightarrow> string \<Rightarrow> 'a \<Rightarrow> 'a \<Rightarrow> 'a \<Rightarrow> err + unit" where
  "range_chk lt prt f mn mx v =
    (if lt v mn \<or> lt mx v
     then bail (field_msg f ('' constraint value '' @ prt v @ '' is outside allowed range ['' @
                             prt mn @ '', '' @ prt mx @ '']''))
     else Inr ())"

definition validate_against_range ::
  "('a \<Rightarrow> 'a \<Rightarrow> bool) \<Rightarrow> ('a \<Rightarrow> string) \<Rightarrow> string \<Rightarrow> 'a numeric_constraint \<Rightarrow> ('a \<times> 'a) option \<Rightarrow>
   err + unit" where
  "validate_against_range lt prt f c rng =
    (case rng of
       None \<Rightarrow> Inr ()
     | Some (mn, mx) \<Rightarrow> validate_constraint_against_range c (range_chk lt prt f mn mx))"

section \<open>Parsers\<close>

definition parse_numeric_operator ::
  "string \<Rightarrow> ('a \<Rightarrow> 'a \<Rightarrow> bool) \<Rightarrow> (string \<Rightarrow> string \<Rightarrow> json \<Rightarrow> err + 'a) \<Rightarrow>
   string \<Rightarrow> string \<Rightarrow> json \<Rightarrow> err + 'a numeric_constraint" where
  "parse_numeric_operator what gt operand f operator v =
    (if operator = ''eq'' then map_res CEq (operand f operator v)
     else if operator = ''in'' then map_res CIn (parse_array_operand what (operand f operator) f operator v)
     else if operator = ''gt'' then map_res CGt (operand f operator v)
     else if operator = ''gte'' then map_res CGte (operand f operator v)
     else if operator = ''lt'' then map_res CLt (operand f operator v)
     else if operator = ''lte'' then map_res CLte (operand f operator v)
     else if operator = ''between'' then
       map_res (\<lambda>(a, b). CBetween a b) (parse_between_operand gt (operand f operator) f operator v)
     else bail (field_msg f ('' has invalid operator '' @ qt operator @
                             ''. Allowed: eq,in,gt,gte,lt,lte,between'')))"

definition parse_int_constraint ::
  "string \<Rightarrow> json \<Rightarrow> (int \<times> int) option \<Rightarrow> err + int numeric_constraint" where
  "parse_int_constraint f v rng =
     bind_res (parse_constraint_object f v) (\<lambda>obj.
     bind_res (single_operator f obj) (\<lambda>(operator, operand).
     bind_res (parse_numeric_operator ''integers'' (>) parse_int_operand f operator operand) (\<lambda>c.
     bind_res (validate_against_range (<) show_int f c rng) (\<lambda>_. Inr c))))"

definition parse_float_constraint ::
  "string \<Rightarrow> json \<Rightarrow> (f64 \<times> f64) option \<Rightarrow> err + f64 numeric_constraint" where
  "parse_float_constraint f v rng =
     bind_res (parse_constraint_object f v) (\<lambda>obj.
     bind_res (single_operator f obj) (\<lambda>(operator, operand).
     bind_res (parse_numeric_operator ''numbers'' (\<lambda>a b. f64_lt b a) parse_float_operand f operator operand) (\<lambda>c.
     bind_res (validate_against_range f64_lt f64_show f c rng) (\<lambda>_. Inr c))))"

definition validate_enum_value :: "string \<Rightarrow> string \<Rightarrow> string list \<Rightarrow> err + unit" where
  "validate_enum_value f v allowed =
    (if v \<notin> set allowed
     then bail (field_msg f ('' has invalid enum value '' @ qt v @ ''. Allowed: ['' @
                             join '', '' allowed @ '']''))
     else Inr ())"

definition parse_enum_constraint :: "host \<Rightarrow> string \<Rightarrow> json \<Rightarrow> string list \<Rightarrow> err + enum_constraint" where
  "parse_enum_constraint h f v allowed =
     bind_res (parse_constraint_object f v) (\<lambda>obj.
     bind_res (single_operator f obj) (\<lambda>(operator, operand).
     let norm = map (to_lowercase h) allowed in
     if operator = ''eq'' then
       bind_res (parse_enum_operand h f operator operand) (\<lambda>p.
       bind_res (validate_enum_value f p norm) (\<lambda>_. Inr (EnumEq p)))
     else if operator = ''in'' then
       bind_res (parse_array_operand ''strings'' (parse_enum_operand h f operator) f operator operand) (\<lambda>ps.
       bind_res (check_each (\<lambda>p. validate_enum_value f p norm) ps) (\<lambda>_. Inr (EnumIn ps)))
     else bail (field_msg f ('' has invalid operator '' @ qt operator @
                             ''. Allowed for enum constraints: eq,in''))))"

section \<open>Facts\<close>

text \<open>The operands a constraint names.\<close>
fun operands :: "'a numeric_constraint \<Rightarrow> 'a list" where
  "operands (CEq v) = [v]" | "operands (CIn vs) = vs" | "operands (CGt v) = [v]"
| "operands (CGte v) = [v]" | "operands (CLt v) = [v]" | "operands (CLte v) = [v]"
| "operands (CBetween a b) = [a, b]"

lemma check_each_ok: "check_each chk vs = Inr () \<longleftrightarrow> (\<forall>v\<in>set vs. chk v = Inr ())"
  by (induction vs) (auto simp: result_simps)

lemma validate_constraint_ok:
  "validate_constraint_against_range c chk = Inr () \<longleftrightarrow> (\<forall>v\<in>set (operands c). chk v = Inr ())"
  by (cases c) (auto simp: check_each_ok result_simps)

lemma range_chk_ok: "range_chk lt prt f mn mx v = Inr () \<longleftrightarrow> \<not> lt v mn \<and> \<not> lt mx v"
  by (auto simp: range_chk_def)

lemma int_constraint_in_range:
  assumes "parse_int_constraint f v (Some (mn, mx)) = Inr c" "x \<in> set (operands c)"
  shows "mn \<le> x \<and> x \<le> mx"
  using assms
  by (auto simp: parse_int_constraint_def result_simps validate_against_range_def
      validate_constraint_ok range_chk_ok not_less)

lemma float_constraint_in_range:
  assumes "parse_float_constraint f v (Some (mn, mx)) = Inr c" "x \<in> set (operands c)"
  shows "\<not> f64_lt x mn \<and> \<not> f64_lt mx x"
  using assms
  by (auto simp: parse_float_constraint_def result_simps validate_against_range_def
      validate_constraint_ok range_chk_ok)

lemma enum_constraint_allowed:
  assumes "parse_enum_constraint h f v allowed = Inr c" "enum_matches h c x"
  shows "to_lowercase h x \<in> to_lowercase h ` set allowed"
  using assms
  by (auto simp: parse_enum_constraint_def result_simps Let_def check_each_ok list_ex_iff
      validate_enum_value_def split: if_splits)

end
