(* ===== verification/Validators.thy ===== *)
theory Validators
  imports Constraints
begin

text \<open>
  The scalar field validators of \<open>aviso-validators/src\<close>: string, enum, integer, float,
  experiment version, time and date. Each takes the raw text of a field and returns its
  canonical text or the error. Dates are parsed and printed by the \<open>chrono\<close> crate, which
  the record \<open>chrono\<close> stands for.

  The locale \<open>field_validator\<close> is what the routing relies on: a canonical value is
  accepted again and is its own canonical form.
\<close>

section \<open>Strings, enumerations, integers and floats\<close>

definition string_canon :: "nat option \<Rightarrow> string \<Rightarrow> string \<Rightarrow> err + string" where
  "string_canon max_length f value =
    (if value = [] then bail (field_msg f '' cannot be empty'')
     else (case max_length of
             Some mx \<Rightarrow>
               if length value > mx
               then bail (field_msg f ('' exceeds maximum length of '' @ show_nat mx @
                                       '' characters, got: '' @ show_nat (length value)))
               else Inr value
           | None \<Rightarrow> Inr value))"

definition enum_canon :: "host \<Rightarrow> string list \<Rightarrow> string \<Rightarrow> string \<Rightarrow> err + string" where
  "enum_canon h allowed f value =
    (let low = to_lowercase h value
     in if list_ex (\<lambda>a. to_lowercase h a = low) allowed then Inr low
        else bail (field_msg f ('' has invalid value '' @ qt value @ ''. Allowed: ['' @
                                join '', '' allowed @ '']'')))"

definition int_canon :: "(int \<times> int) option \<Rightarrow> string \<Rightarrow> string \<Rightarrow> err + string" where
  "int_canon rng f value =
     bind_res (with_context (field_msg f ('' must be a valid integer, got: '' @ qt value))
                (map_err (\<lambda>e. [int_error_text e]) (parse_i64 value))) (\<lambda>v.
       case rng of
         Some (mn, mx) \<Rightarrow>
           if v < mn \<or> v > mx
           then bail (field_msg f ('' value '' @ show_int v @ '' is outside allowed range ['' @
                                   show_int mn @ '', '' @ show_int mx @ '']''))
           else Inr (show_int v)
       | None \<Rightarrow> Inr (show_int v))"

definition float_canon :: "(f64 \<times> f64) option \<Rightarrow> string \<Rightarrow> string \<Rightarrow> err + string" where
  "float_canon rng f value =
     bind_res (with_context (field_msg f ('' must be a valid number, got: '' @ qt value))
                (of_option [float_error_text value] (parse_f64 value))) (\<lambda>v.
       if \<not> is_finite v
       then bail (field_msg f ('' must be a finite number, got: '' @ qt value))
       else (case rng of
         Some (mn, mx) \<Rightarrow>
           if f64_lt v mn \<or> f64_lt mx v
           then bail (field_msg f ('' value '' @ f64_show v @ '' is outside allowed range ['' @
                                   f64_show mn @ '', '' @ f64_show mx @ '']''))
           else Inr (f64_show v)
       | None \<Rightarrow> Inr (f64_show v)))"

section \<open>Experiment versions\<close>

abbreviation u32_max :: int where "u32_max \<equiv> 4294967295"

definition canonicalize_expver :: "host \<Rightarrow> string \<Rightarrow> string" where
  "canonicalize_expver h value =
    (case parse_unsigned u32_max value of
       Inr num \<Rightarrow> pad_zero 4 (show_nat (nat num))
     | Inl _ \<Rightarrow> to_lowercase h value)"

definition expver_canon :: "host \<Rightarrow> string option \<Rightarrow> string \<Rightarrow> string \<Rightarrow> err + string" where
  "expver_canon h dflt f value =
    (if value = [] then
       (case dflt of
          Some d \<Rightarrow> Inr (canonicalize_expver h d)
        | None \<Rightarrow> bail (field_msg f '' cannot be empty''))
     else Inr (canonicalize_expver h value))"

section \<open>Times\<close>

definition two_digits :: "char \<Rightarrow> char \<Rightarrow> nat" where
  "two_digits a b = (byte a - 48) * 10 + (byte b - 48)"

definition hours_msg :: "string \<Rightarrow> nat \<Rightarrow> string" where
  "hours_msg f n = field_msg f ('' has invalid hours: '' @ show_nat n @
                                ''. Hours must be 0-23 in 24-hour format'')"

definition minutes_msg :: "string \<Rightarrow> nat \<Rightarrow> string" where
  "minutes_msg f n = field_msg f ('' has invalid minutes: '' @ show_nat n @ ''. Minutes must be 0-59'')"

definition handle_hour_only_format :: "string \<Rightarrow> string \<Rightarrow> err + string option" where
  "handle_hour_only_format value f =
    (if value \<noteq> [] \<and> length value \<le> 2 \<and> list_all is_digit value
     then bind_res (with_context (''Invalid hour value '' @ qt value @ '' in field '' @ qt f)
                     (map_err (\<lambda>e. [int_error_text e]) (parse_unsigned u32_max value))) (\<lambda>hour.
            if hour > 23 then bail (hours_msg f (nat hour))
            else Inr (Some (pad_zero 2 (show_nat (nat hour)) @ ''00'')))
     else Inr None)"

text \<open>
  The captures of \<open>^(\d{1,2}):(\d{2})$\<close> and \<open>^(\d{2})(\d{2})$\<close> on ASCII digits. The regex
  class also matches other Unicode digits, which the integer parser then rejects, so such
  a value is refused too, only with the text of the other message.
\<close>

definition colon_captures :: "string \<Rightarrow> (string \<times> string) option" where
  "colon_captures value =
    (case split_once CHR '':'' value of
       Some (hs, ms) \<Rightarrow>
         if (length hs = 1 \<or> length hs = 2) \<and> length ms = 2 \<and> list_all is_digit hs \<and> list_all is_digit ms
         then Some (hs, ms) else None
     | None \<Rightarrow> None)"

definition compact_captures :: "string \<Rightarrow> (string \<times> string) option" where
  "compact_captures value =
    (if length value = 4 \<and> list_all is_digit value then Some (take 2 value, drop 2 value) else None)"

definition parse_part :: "string \<Rightarrow> string \<Rightarrow> string \<Rightarrow> err + nat" where
  "parse_part what part f =
     map_res nat (with_context (''Invalid '' @ what @ '' '' @ qt part @ '' in field '' @ qt f)
       (map_err (\<lambda>e. [int_error_text e]) (parse_unsigned u32_max part)))"

definition check_time :: "string \<Rightarrow> string \<times> string \<Rightarrow> err + (nat \<times> nat)" where
  "check_time f caps =
     bind_res (parse_part ''hours'' (fst caps) f) (\<lambda>hours.
     bind_res (parse_part ''minutes'' (snd caps) f) (\<lambda>minutes.
       if hours > 23 then bail (hours_msg f hours)
       else if minutes > 59 then bail (minutes_msg f minutes)
       else Inr (hours, minutes)))"

definition handle_colon_format :: "string \<Rightarrow> string \<Rightarrow> err + string" where
  "handle_colon_format value f =
    (case colon_captures value of
       Some caps \<Rightarrow>
         map_res (\<lambda>(hours, minutes). pad_zero 2 (show_nat hours) @ pad_zero 2 (show_nat minutes))
           (check_time f caps)
     | None \<Rightarrow> bail (field_msg f ('' has invalid HH:MM format '' @ qt value @
                 ''. Expected format: HH:MM (e.g., 14:30, 9:05)'')))"

definition handle_compact_format :: "string \<Rightarrow> string \<Rightarrow> err + string" where
  "handle_compact_format value f =
    (case compact_captures value of
       Some caps \<Rightarrow> map_res (\<lambda>_. value) (check_time f caps)
     | None \<Rightarrow> bail (field_msg f ('' has invalid HHMM format '' @ qt value @
                 ''. Expected format: HHMM with exactly 4 digits (e.g., 1430, 0905)'')))"

definition time_canon :: "string \<Rightarrow> string \<Rightarrow> err + string" where
  "time_canon f value =
     bind_res (handle_hour_only_format value f) (\<lambda>r.
       case r of
         Some t \<Rightarrow> Inr t
       | None \<Rightarrow>
           if CHR '':'' \<in> set value then handle_colon_format value f
           else if length value = 4 then handle_compact_format value f
           else bail (field_msg f ('' has invalid time format '' @ qt value @
                                   ''. Expected: H, HH, HH:MM, or HHMM'')))"

section \<open>Dates\<close>

record 'd chrono =
  parse_from_str :: "string \<Rightarrow> string \<Rightarrow> 'd option"
  format_date :: "string \<Rightarrow> 'd \<Rightarrow> string"

definition parse_date :: "'d chrono \<Rightarrow> string \<Rightarrow> string \<Rightarrow> err + 'd" where
  "parse_date c value f =
    (case parse_from_str c value ''%Y-%m-%d'' of
       Some d \<Rightarrow> Inr d
     | None \<Rightarrow>
    (case parse_from_str c value ''%Y%m%d'' of
       Some d \<Rightarrow> Inr d
     | None \<Rightarrow>
    (case parse_from_str c value ''%Y-%j'' of
       Some d \<Rightarrow> Inr d
     | None \<Rightarrow> bail (field_msg f ('' contains invalid date '' @ qt value @
                  ''. Expected: YYYY-MM-DD, YYYYMMDD, or YYYY-DDD'')))))"

definition date_canon :: "'d chrono \<Rightarrow> string \<Rightarrow> string \<Rightarrow> string \<Rightarrow> err + string" where
  "date_canon c canonical_format f value =
     bind_res (with_context (''Failed to parse date value for field '' @ qt f) (parse_date c value f)) (\<lambda>d.
       if canonical_format = ''%Y%m%d'' then Inr (format_date c ''%Y%m%d'' d)
       else if canonical_format = ''%Y-%m-%d'' then Inr (format_date c ''%Y-%m-%d'' d)
       else bail (''Unsupported date format '' @ qt canonical_format @ '' for field '' @ qt f))"

section \<open>The contract of a field validator\<close>

locale field_validator =
  fixes canon :: "string \<Rightarrow> err + string"
    and domain :: "string \<Rightarrow> bool"
  assumes closed: "domain v \<Longrightarrow> canon v = Inr w \<Longrightarrow> domain w"
    and idem: "domain v \<Longrightarrow> canon v = Inr w \<Longrightarrow> canon w = Inr w"
begin

lemma stable: "domain v \<Longrightarrow> canon v = Inr w \<Longrightarrow> canon w = Inr w' \<Longrightarrow> w' = w"
  by (simp add: idem)

text \<open>Two spellings reach the same token exactly when their canonical forms agree.\<close>
lemma same_token:
  assumes "domain u" "domain v" "canon u = Inr x" "canon v = Inr y"
  shows "canon x = canon y \<longleftrightarrow> x = y"
  using idem [OF assms(1,3)] idem [OF assms(2,4)] by simp

end

lemma string_canon_Inr: "string_canon mx f v = Inr w \<Longrightarrow> w = v \<and> v \<noteq> []"
  by (auto simp: string_canon_def split: option.splits if_splits)

interpretation string_field: field_validator "string_canon mx f" "\<lambda>_. True" for mx f
  by unfold_locales (auto dest: string_canon_Inr)

lemma enum_canon_Inr:
  "enum_canon h vs f v = Inr w \<Longrightarrow> w = to_lowercase h v \<and> w \<in> to_lowercase h ` set vs"
  by (auto simp: enum_canon_def Let_def list_ex_iff split: if_splits) (metis image_eqI)

interpretation enum_field: field_validator "enum_canon h vs f" "list_all is_ascii" for h vs f
proof (unfold_locales, goal_cases)
  case (1 v w)
  then show ?case using enum_canon_Inr [OF 1(2)] by (simp add: to_lowercase_ascii)
next
  case (2 v w)
  then show ?case using enum_canon_Inr [OF 2(2)]
    by (auto simp: enum_canon_def Let_def to_lowercase_idem_ascii split: if_splits)
qed

lemma int_canon_Inr:
  assumes "int_canon rng f v = Inr w"
  shows "\<exists>i. parse_i64 v = Inr i \<and> w = show_int i \<and> is_i64 i \<and>
             (\<forall>mn mx. rng = Some (mn, mx) \<longrightarrow> mn \<le> i \<and> i \<le> mx)"
proof -
  obtain i where i: "parse_i64 v = Inr i"
    using assms by (auto simp: int_canon_def result_simps)
  then have "w = show_int i \<and> (\<forall>mn mx. rng = Some (mn, mx) \<longrightarrow> mn \<le> i \<and> i \<le> mx)"
    using assms by (cases rng) (auto simp: int_canon_def split: if_splits)
  then show ?thesis using i parse_i64_range by blast
qed

lemma int_canon_show:
  "is_i64 i \<Longrightarrow> \<forall>mn mx. rng = Some (mn, mx) \<longrightarrow> mn \<le> i \<and> i \<le> mx \<Longrightarrow>
   int_canon rng f (show_int i) = Inr (show_int i)"
  by (auto simp: int_canon_def parse_i64_show split: option.splits)

interpretation int_field: field_validator "int_canon rng f" "\<lambda>_. True" for rng f
  by unfold_locales (auto dest!: int_canon_Inr intro!: int_canon_show)

lemma canonicalize_expver_idem:
  assumes "list_all is_ascii v"
  shows "canonicalize_expver h (canonicalize_expver h v) = canonicalize_expver h v"
proof (cases "parse_unsigned u32_max v")
  case (Inl e)
  then show ?thesis using assms
    by (simp add: canonicalize_expver_def to_lowercase_ascii parse_unsigned_lower)
next
  case (Inr n)
  then have "0 \<le> n \<and> n \<le> u32_max" by (auto dest: parse_unsigned_range)
  then show ?thesis using Inr
    by (simp add: canonicalize_expver_def parse_unsigned_pad_zero)
qed

lemma list_all_digit_ascii: "list_all is_digit s \<Longrightarrow> list_all is_ascii s"
  by (auto simp: list_all_iff is_digit_def is_ascii_def)

lemma canonicalize_expver_ascii:
  "list_all is_ascii v \<Longrightarrow> list_all is_ascii (canonicalize_expver h v)"
  using pad_zero_digits [of 4] list_all_digit_ascii
  by (auto simp: canonicalize_expver_def to_lowercase_ascii split: sum.splits)

lemma canonicalize_expver_not_Nil:
  "list_all is_ascii v \<Longrightarrow> v \<noteq> [] \<Longrightarrow> canonicalize_expver h v \<noteq> []"
  by (auto simp: canonicalize_expver_def to_lowercase_ascii to_ascii_lowercase_def pad_zero_def
      split: sum.splits)

interpretation expver_field: field_validator "expver_canon h None f" "list_all is_ascii" for h f
proof (unfold_locales, goal_cases)
  case (1 v w)
  then show ?case
    by (auto simp: expver_canon_def canonicalize_expver_ascii split: if_splits)
next
  case (2 v w)
  then have "v \<noteq> []" "w = canonicalize_expver h v" by (auto simp: expver_canon_def split: if_splits)
  then show ?case using 2(1) canonicalize_expver_not_Nil [of v h]
    by (simp add: expver_canon_def canonicalize_expver_idem)
qed

section \<open>Canonical times\<close>

definition canonical_time :: "string \<Rightarrow> bool" where
  "canonical_time w =
    (length w = 4 \<and> list_all is_digit w \<and> two_digits (w ! 0) (w ! 1) \<le> 23 \<and>
     two_digits (w ! 2) (w ! 3) \<le> 59)"

lemma length_2_conv: "length xs = 2 \<longleftrightarrow> (\<exists>a b. xs = [a, b])"
  by (auto simp: numeral_2_eq_2 length_Suc_conv)

lemma pad2: "n < 100 \<Longrightarrow> pad_zero 2 (show_nat n) = [char_of (48 + n div 10), char_of (48 + n mod 10)]"
proof (cases "n < 10")
  case True
  then show ?thesis by (subst show_nat.simps) (simp add: pad_zero_def char_of_48)
next
  case False
  assume "n < 100"
  moreover from this have "n div 10 < 10" by simp
  moreover from this have "show_nat (n div 10) = [char_of (48 + n div 10)]"
    by (subst show_nat.simps) simp
  ultimately show ?thesis using False
    by (subst show_nat.simps) (simp add: pad_zero_def)
qed

lemma pad2_props:
  "n < 100 \<Longrightarrow> length (pad_zero 2 (show_nat n)) = 2 \<and> list_all is_digit (pad_zero 2 (show_nat n)) \<and>
    two_digits (pad_zero 2 (show_nat n) ! 0) (pad_zero 2 (show_nat n) ! 1) = n"
  using pad_zero_digits [of 2 n] by (auto simp: pad2 two_digits_def)

lemma parse_two_digits:
  "is_digit a \<Longrightarrow> is_digit b \<Longrightarrow> parse_unsigned u32_max [a, b] = Inr (int (two_digits a b))"
  by (subst digits_parse_unsigned) (auto simp: digit_val_def is_digit_def two_digits_def)

lemma canonical_timeI:
  "hours \<le> 23 \<Longrightarrow> minutes \<le> 59 \<Longrightarrow>
   canonical_time (pad_zero 2 (show_nat hours) @ pad_zero 2 (show_nat minutes))"
  using pad2_props [of hours] pad2_props [of minutes]
  by (auto simp: canonical_time_def length_2_conv)

lemma check_time_Inr:
  "check_time f caps = Inr (hours, minutes) \<Longrightarrow> hours \<le> 23 \<and> minutes \<le> 59"
  by (auto simp: check_time_def result_simps split: if_splits)

lemma compact_canonical:
  assumes "handle_compact_format value f = Inr w"
  shows "canonical_time w"
proof -
  obtain h m where c: "length value = 4" "list_all is_digit value" "w = value"
      "check_time f (take 2 value, drop 2 value) = Inr (h, m)"
    using assms
    by (auto simp: handle_compact_format_def compact_captures_def result_simps split: option.splits if_splits)
  then obtain a b x y where v: "value = [a, b, x, y]"
    by (auto simp: eval_nat_numeral length_Suc_conv)
  then show ?thesis using c check_time_Inr [OF c(4)]
    by (auto simp: canonical_time_def check_time_def parse_part_def parse_two_digits result_simps split: if_splits)
qed

lemma time_canon_canonical:
  assumes "time_canon f v = Inr w"
  shows "canonical_time w"
proof (cases "handle_hour_only_format v f")
  case (Inl e)
  then show ?thesis using assms by (simp add: time_canon_def)
next
  case (Inr r)
  show ?thesis
  proof (cases r)
    case (Some t)
    then obtain hour where "0 \<le> hour" "hour \<le> 23" "t = pad_zero 2 (show_nat (nat hour)) @ ''00''"
      using Inr by (auto simp: handle_hour_only_format_def result_simps split: if_splits
          dest: parse_unsigned_range)
    moreover have "''00'' = pad_zero 2 (show_nat 0)" by (simp add: pad2 char_of_48)
    ultimately show ?thesis using assms Inr Some canonical_timeI [of "nat hour" 0]
      by (simp add: time_canon_def)
  next
    case None
    then show ?thesis using assms Inr
      by (auto simp: time_canon_def handle_colon_format_def result_simps
          intro: compact_canonical canonical_timeI dest!: check_time_Inr split: if_splits option.splits)
  qed
qed

lemma time_canon_fixpoint:
  assumes "canonical_time w"
  shows "time_canon f w = Inr w"
proof -
  obtain a b x y where w: "w = [a, b, x, y]"
    using assms by (auto simp: canonical_time_def eval_nat_numeral length_Suc_conv)
  have d: "is_digit a" "is_digit b" "is_digit x" "is_digit y"
    using assms by (auto simp: canonical_time_def w)
  then have "CHR '':'' \<notin> set w" by (auto simp: w is_digit_def)
  moreover have "check_time f ([a, b], [x, y]) = Inr (two_digits a b, two_digits x y)"
    using assms d by (auto simp: canonical_time_def w check_time_def parse_part_def parse_two_digits)
  ultimately show ?thesis using d
    by (auto simp: time_canon_def handle_hour_only_format_def handle_compact_format_def
        compact_captures_def w)
qed

interpretation time_field: field_validator "time_canon f" "\<lambda>_. True" for f
  by unfold_locales (auto intro: time_canon_fixpoint time_canon_canonical)

end
