(* ===== verification/Spatial.thy ===== *)
theory Spatial
  imports Validators
begin

text \<open>
  Spatial values: coordinates (\<open>coordinate.rs\<close>), points (\<open>point.rs\<close>), polygons
  (\<open>polygon.rs\<close>) and point clouds (\<open>point_cloud.rs\<close>) of \<open>aviso-validators/src\<close>, and
  the metadata that travels beside a notification (\<open>src/notification/spatial.rs\<close>).
  Coordinates are kept in API order, latitude first. Polygons and rectangles of the
  \<open>geo\<close> crate are the parameters of the record \<open>geo\<close>, in \<open>x = lon, y = lat\<close> order.
\<close>

type_synonym coordinate = "f64 \<times> f64"

record ('poly, 'rect) geo =
  geo_polygon :: "(f64 \<times> f64) list \<Rightarrow> 'poly"
  geo_bounding_rect :: "'poly \<Rightarrow> 'rect option"
  geo_rect :: "f64 \<times> f64 \<Rightarrow> f64 \<times> f64 \<Rightarrow> 'rect"
  rect_min :: "'rect \<Rightarrow> f64 \<times> f64"
  rect_max :: "'rect \<Rightarrow> f64 \<times> f64"
  rect_intersects :: "'rect \<Rightarrow> 'rect \<Rightarrow> bool"
  poly_intersects :: "'poly \<Rightarrow> 'poly \<Rightarrow> bool"
  poly_intersects_point :: "'poly \<Rightarrow> f64 \<times> f64 \<Rightarrow> bool"
  poly_contains_point :: "'poly \<Rightarrow> f64 \<times> f64 \<Rightarrow> bool"

section \<open>Coordinates\<close>

datatype coordinate_error =
    InvalidShape
  | NotNumber string
  | NotFinite string
  | LatitudeOutOfRange f64
  | LongitudeOutOfRange f64

fun coordinate_error_text :: "coordinate_error \<Rightarrow> string" where
  "coordinate_error_text InvalidShape = ''coordinate must be a two-element array [lat,lon]''"
| "coordinate_error_text (NotNumber c) = c @ '' must be a number''"
| "coordinate_error_text (NotFinite c) = c @ '' must be finite''"
| "coordinate_error_text (LatitudeOutOfRange v) =
     ''latitude '' @ f64_show v @ '' is outside the valid range [-90, 90]''"
| "coordinate_error_text (LongitudeOutOfRange v) =
     ''longitude '' @ f64_show v @ '' is outside the valid range [-180, 180]''"

definition in_closed :: "rat \<Rightarrow> rat \<Rightarrow> f64 \<Rightarrow> bool" where
  "in_closed lo hi x = (f64_le (Fin lo) x \<and> f64_le x (Fin hi))"

abbreviation lat_ok :: "f64 \<Rightarrow> bool" where "lat_ok x \<equiv> in_closed (-90) 90 x"
abbreviation lon_ok :: "f64 \<Rightarrow> bool" where "lon_ok x \<equiv> in_closed (-180) 180 x"

definition validate_coordinate :: "f64 \<Rightarrow> f64 \<Rightarrow> coordinate_error + coordinate" where
  "validate_coordinate lat lon =
    (if \<not> is_finite lat then Inl (NotFinite ''latitude'')
     else if \<not> is_finite lon then Inl (NotFinite ''longitude'')
     else if \<not> lat_ok lat then Inl (LatitudeOutOfRange lat)
     else if \<not> lon_ok lon then Inl (LongitudeOutOfRange lon)
     else Inr (lat, lon))"

definition parse_component :: "json \<Rightarrow> string \<Rightarrow> coordinate_error + f64" where
  "parse_component v component =
    (case as_f64 v of
       None \<Rightarrow> Inl (NotNumber component)
     | Some x \<Rightarrow> if \<not> is_finite x then Inl (NotFinite component) else Inr x)"

definition parse_coordinate :: "json \<Rightarrow> coordinate_error + coordinate" where
  "parse_coordinate v =
    (case as_array v of
       Some [a, b] \<Rightarrow>
         bind_res (parse_component a ''latitude'') (\<lambda>lat.
         bind_res (parse_component b ''longitude'') (\<lambda>lon.
         validate_coordinate lat lon))
     | _ \<Rightarrow> Inl InvalidShape)"

definition coordinate_to_json :: "coordinate \<Rightarrow> coordinate_error + json" where
  "coordinate_to_json c =
     bind_res (validate_coordinate (fst c) (snd c)) (\<lambda>(lat, lon).
     bind_res (of_option (NotFinite ''latitude'') (json_of_f64 lat)) (\<lambda>jlat.
     bind_res (of_option (NotFinite ''longitude'') (json_of_f64 lon)) (\<lambda>jlon.
     Inr (JArray [jlat, jlon]))))"

definition coordinates_to_json :: "coordinate list \<Rightarrow> coordinate_error + json" where
  "coordinates_to_json cs =
     map_res JArray (collect_res (map (\<lambda>(lat, lon).
       bind_res (validate_coordinate lat lon) coordinate_to_json) cs))"

section \<open>Points\<close>

definition coord_err :: "coordinate_error + 'a \<Rightarrow> err + 'a" where
  "coord_err r = map_err (\<lambda>e. [coordinate_error_text e]) r"

text \<open>The outermost message, which is what formatting an \<open>anyhow::Error\<close> with \<open>{}\<close> prints.\<close>
definition outer_msg :: "err \<Rightarrow> string" where
  "outer_msg e = (case e of [] \<Rightarrow> [] | m # _ \<Rightarrow> m)"

definition two_parts :: "string \<Rightarrow> err + (string \<times> string)" where
  "two_parts inner =
    (case map trim (split_on CHR '','' inner) of
       [lat_str, lon_str] \<Rightarrow> Inr (lat_str, lon_str)
     | _ # _ # _ \<Rightarrow> bail (''Point must contain exactly two values: '' @ qt ''lat,lon'')
     | _ \<Rightarrow> bail (''Point must be in '' @ qt ''lat,lon'' @ '' format''))"

definition strip_outer_parens :: "string \<Rightarrow> string" where
  "strip_outer_parens s =
    (case Option.bind (strip_prefix ''('' s) (strip_suffix '')'') of Some t \<Rightarrow> t | None \<Rightarrow> s)"

text \<open>
  A text that starts with a bracket is read as JSON. What the reader returns then is an
  array or an error: a JSON text that starts with a bracket is never a string, so the call
  back into the text parser that \<open>parse_point_value\<close> and \<open>parse_polygon_value\<close> make on a
  string value is not reached from here.
\<close>

definition point_array :: "json \<Rightarrow> err + coordinate" where
  "point_array v =
    (case v of
       JArray _ \<Rightarrow> coord_err (parse_coordinate v)
     | _ \<Rightarrow> bail ''point must be a two-element array [lat,lon] or a compatible string'')"

definition parse_point_coordinates :: "host \<Rightarrow> string \<Rightarrow> err + coordinate" where
  "parse_point_coordinates h value =
    (let trimmed = trim value in
     if trimmed = [] then bail ''Point coordinate string cannot be empty''
     else if starts_with ''['' trimmed then
       (case json_parse h trimmed of
          Inl e \<Rightarrow> bail (''invalid point JSON array: '' @ e)
        | Inr v \<Rightarrow> point_array v)
     else
       bind_res (two_parts (trim (strip_outer_parens trimmed))) (\<lambda>(lat_str, lon_str).
       bind_res (of_option [''Invalid latitude value: '' @ lat_str] (parse_f64 lat_str)) (\<lambda>lat.
       bind_res (of_option [''Invalid longitude value: '' @ lon_str] (parse_f64 lon_str)) (\<lambda>lon.
       coord_err (validate_coordinate lat lon)))))"

definition parse_point_value :: "host \<Rightarrow> json \<Rightarrow> err + coordinate" where
  "parse_point_value h v =
    (case v of JString s \<Rightarrow> parse_point_coordinates h s | _ \<Rightarrow> point_array v)"

definition point_json_canon :: "host \<Rightarrow> json \<Rightarrow> string \<Rightarrow> err + json" where
  "point_json_canon h v f =
     bind_res (map_err (\<lambda>e. [''field '' @ qt f @ '' must be a valid point: '' @ outer_msg e])
                (parse_point_value h v)) (\<lambda>c. coord_err (coordinate_to_json c))"

definition point_canon :: "host \<Rightarrow> string \<Rightarrow> string \<Rightarrow> err + string" where
  "point_canon h value f =
     map_res (\<lambda>(lat, lon). f64_show lat @ '','' @ f64_show lon) (parse_point_coordinates h value)"

section \<open>Polygons\<close>

fun parse_polygon_points :: "nat \<Rightarrow> json list \<Rightarrow> err + coordinate list" where
  "parse_polygon_points i [] = Inr []"
| "parse_polygon_points i (p # ps) =
    (case parse_coordinate p of
       Inl e \<Rightarrow> bail (''polygon point '' @ show_nat i @ '' is invalid: '' @ coordinate_error_text e)
     | Inr c \<Rightarrow> map_res (Cons c) (parse_polygon_points (Suc i) ps))"

definition polygon_array :: "json \<Rightarrow> err + coordinate list" where
  "polygon_array v =
    (case v of
       JArray ps \<Rightarrow> parse_polygon_points 0 ps
     | _ \<Rightarrow> bail ''polygon must be an array of [lat,lon] points or a compatible string'')"

fun parse_coord_parts :: "string list \<Rightarrow> err + coordinate list" where
  "parse_coord_parts [] = Inr []"
| "parse_coord_parts [_] = bail ''polygon coordinates must be in lat,lon pairs''"
| "parse_coord_parts (a # b # rest) =
    (case parse_f64 (trim a) of
       None \<Rightarrow> bail (''could not parse latitude '' @ qt (trim a) @ '' as a number'')
     | Some lat \<Rightarrow>
    (case parse_f64 (trim b) of
       None \<Rightarrow> bail (''could not parse longitude '' @ qt (trim b) @ '' as a number'')
     | Some lon \<Rightarrow>
       if \<not> lat_ok lat then bail (''latitude '' @ f64_show lat @ '' is outside the valid range [-90, 90]'')
       else if \<not> lon_ok lon then bail (''longitude '' @ f64_show lon @ '' is outside the valid range [-180, 180]'')
       else map_res (Cons (lat, lon)) (parse_coord_parts rest)))"

definition polygon_inner :: "string \<Rightarrow> err + string" where
  "polygon_inner raw =
    (case (starts_with ''('' raw, ends_with '')'' raw) of
       (True, True) \<Rightarrow> Inr (take (length raw - 2) (drop 1 raw))
     | (False, False) \<Rightarrow> Inr raw
     | (True, False) \<Rightarrow> bail (''polygon coordinate string has opening '' @ qt ''('' @
                             '' but is missing the closing '' @ qt '')'')
     | (False, True) \<Rightarrow> bail (''polygon coordinate string has closing '' @ qt '')'' @
                             '' but is missing the opening '' @ qt ''(''))"

definition parse_polygon_coordinates :: "host \<Rightarrow> string \<Rightarrow> err + coordinate list" where
  "parse_polygon_coordinates h s =
    (let raw = trim s in
     if raw = [] then bail ''polygon coordinate string is empty''
     else if starts_with ''['' raw then
       (case json_parse h raw of
          Inl e \<Rightarrow> bail (''invalid polygon JSON array: '' @ e)
        | Inr v \<Rightarrow> polygon_array v)
     else
       bind_res (polygon_inner raw) (\<lambda>inner.
         if CHR ''('' \<in> set inner \<or> CHR '')'' \<in> set inner
         then bail (''polygon coordinate string must have at most one outer pair of parentheses; nested '' @
                    qt ''('' @ '' or '' @ qt '')'' @ '' are not allowed'')
         else if trim inner = [] then bail ''polygon coordinate string is empty between parentheses''
         else (let parts = split_on CHR '','' (trim inner) in
           if odd (length parts)
           then bail ''polygon coordinates must be in lat,lon pairs (got an odd number of values)''
           else parse_coord_parts parts)))"

definition parse_polygon_value :: "host \<Rightarrow> json \<Rightarrow> err + coordinate list" where
  "parse_polygon_value h v =
    (case v of JString s \<Rightarrow> parse_polygon_coordinates h s | _ \<Rightarrow> polygon_array v)"

definition coord_eq :: "coordinate \<Rightarrow> coordinate \<Rightarrow> bool" where
  "coord_eq a b = (f64_eq (fst a) (fst b) \<and> f64_eq (snd a) (snd b))"

definition validate_polygon_geometry :: "coordinate list \<Rightarrow> err + unit" where
  "validate_polygon_geometry cs =
    (if length cs < 4
     then bail ''polygon must have at least 4 coordinate pairs (3 unique vertices plus a closing repeat of the first vertex)''
     else bind_res (of_option [''polygon has no first coordinate''] (first_of cs)) (\<lambda>a.
          bind_res (of_option [''polygon has no last coordinate''] (last_of cs)) (\<lambda>b.
            if \<not> coord_eq a b
            then bail ''polygon must be closed (first and last coordinates must be identical)''
            else Inr ())))"

definition polygon_err :: "string \<Rightarrow> err + 'a \<Rightarrow> err + 'a" where
  "polygon_err f r = map_err (\<lambda>e. [''field '' @ qt f @ '' must be a valid polygon: '' @ outer_msg e]) r"

definition polygon_canon :: "host \<Rightarrow> string \<Rightarrow> string \<Rightarrow> err + string" where
  "polygon_canon h value f =
     bind_res (polygon_err f (parse_polygon_coordinates h value)) (\<lambda>cs.
     bind_res (polygon_err f (validate_polygon_geometry cs)) (\<lambda>_. Inr value))"

definition polygon_json_canon :: "host \<Rightarrow> json \<Rightarrow> string \<Rightarrow> err + json" where
  "polygon_json_canon h v f =
     bind_res (polygon_err f (parse_polygon_value h v)) (\<lambda>cs.
     bind_res (polygon_err f (validate_polygon_geometry cs)) (\<lambda>_.
     coord_err (coordinates_to_json cs)))"

section \<open>Point clouds\<close>

definition HARD_MAX_POINTS :: nat where "HARD_MAX_POINTS = 10000"
definition DEFAULT_MAX_POINTS :: nat where "DEFAULT_MAX_POINTS = 10000"
definition MAX_SERIALIZED_POINT_CLOUD_BYTES :: nat where
  "MAX_SERIALIZED_POINT_CLOUD_BYTES = 60 * 1024"

datatype point_cloud_error =
    InvalidMaxPoints string nat nat
  | NotArray string
  | EmptyCloud string
  | TooManyPoints string nat nat
  | InvalidPoint string nat coordinate_error
  | SerializedSizeExceeded string nat nat
  | Canonicalization string coordinate_error

fun point_cloud_error_chain :: "point_cloud_error \<Rightarrow> err" where
  "point_cloud_error_chain (InvalidMaxPoints f configured hard) =
     [''field '' @ qt f @ '' max_points must be between 1 and '' @ show_nat hard @ '', got '' @ show_nat configured]"
| "point_cloud_error_chain (NotArray f) =
     [''field '' @ qt f @ '' must be a JSON array of [lat,lon] points'']"
| "point_cloud_error_chain (EmptyCloud f) =
     [''field '' @ qt f @ '' point cloud must contain at least one point'']"
| "point_cloud_error_chain (TooManyPoints f actual mx) =
     [''field '' @ qt f @ '' point cloud contains '' @ show_nat actual @ '' points, maximum is '' @ show_nat mx]"
| "point_cloud_error_chain (InvalidPoint f i e) =
     [''field '' @ qt f @ '' point '' @ show_nat i @ '' is invalid: '' @ coordinate_error_text e,
      coordinate_error_text e]"
| "point_cloud_error_chain (SerializedSizeExceeded f actual mx) =
     [''field '' @ qt f @ '' point cloud canonical JSON is '' @ show_nat actual @
      '' bytes, maximum is '' @ show_nat mx @ '' bytes'']"
| "point_cloud_error_chain (Canonicalization f e) =
     [''field '' @ qt f @ '' point cloud canonicalization failed: '' @ coordinate_error_text e,
      coordinate_error_text e]"

fun parse_cloud_points :: "string \<Rightarrow> nat \<Rightarrow> json list \<Rightarrow> point_cloud_error + coordinate list" where
  "parse_cloud_points f i [] = Inr []"
| "parse_cloud_points f i (p # ps) =
    (case parse_coordinate p of
       Inl e \<Rightarrow> Inl (InvalidPoint f i e)
     | Inr c \<Rightarrow> map_res (Cons c) (parse_cloud_points f (Suc i) ps))"

definition parse_cloud_coordinates :: "json \<Rightarrow> nat \<Rightarrow> string \<Rightarrow> point_cloud_error + coordinate list" where
  "parse_cloud_coordinates v max_points f =
    (if max_points = 0 \<or> max_points > HARD_MAX_POINTS
     then Inl (InvalidMaxPoints f max_points HARD_MAX_POINTS)
     else bind_res (of_option (NotArray f) (as_array v)) (\<lambda>points.
       if points = [] then Inl (EmptyCloud f)
       else if length points > max_points then Inl (TooManyPoints f (length points) max_points)
       else parse_cloud_points f 0 points))"

definition validate_serialized_size :: "string \<Rightarrow> nat \<Rightarrow> point_cloud_error + unit" where
  "validate_serialized_size f actual =
    (if actual > MAX_SERIALIZED_POINT_CLOUD_BYTES
     then Inl (SerializedSizeExceeded f actual MAX_SERIALIZED_POINT_CLOUD_BYTES) else Inr ())"

definition validate_cloud ::
  "host \<Rightarrow> json \<Rightarrow> nat \<Rightarrow> string \<Rightarrow> point_cloud_error + (coordinate list \<times> json)" where
  "validate_cloud h v max_points f =
     bind_res (parse_cloud_coordinates v max_points f) (\<lambda>cs.
     bind_res (map_err (Canonicalization f) (coordinates_to_json cs)) (\<lambda>canonical.
     bind_res (validate_serialized_size f (length (json_print h canonical))) (\<lambda>_.
     Inr (cs, canonical))))"

definition cloud_canon :: "host \<Rightarrow> json \<Rightarrow> nat \<Rightarrow> string \<Rightarrow> point_cloud_error + json" where
  "cloud_canon h v max_points f = map_res snd (validate_cloud h v max_points f)"

section \<open>Spatial metadata\<close>

datatype spatial_geometry = GPolygon string | GPointCloud string

record spatial_metadata =
  bounding_box :: string
  geometry :: spatial_geometry

definition extend_box :: "f64 \<times> f64 \<times> f64 \<times> f64 \<Rightarrow> coordinate \<Rightarrow> f64 \<times> f64 \<times> f64 \<times> f64" where
  "extend_box b c =
    (case b of (mnlat, mnlon, mxlat, mxlon) \<Rightarrow>
       (f64_min mnlat (fst c), f64_min mnlon (snd c), f64_max mxlat (fst c), f64_max mxlon (snd c)))"

definition bounding_box_of :: "coordinate \<Rightarrow> coordinate list \<Rightarrow> f64 \<times> f64 \<times> f64 \<times> f64" where
  "bounding_box_of c cs = foldl extend_box (fst c, snd c, fst c, snd c) cs"

definition show_box :: "f64 \<times> f64 \<times> f64 \<times> f64 \<Rightarrow> string" where
  "show_box b =
    (case b of (a, b, c, d) \<Rightarrow>
       f64_show a @ '','' @ f64_show b @ '','' @ f64_show c @ '','' @ f64_show d)"

definition calculate_bounding_box_string :: "coordinate list \<Rightarrow> err + string" where
  "calculate_bounding_box_string cs =
    (case cs of
       [] \<Rightarrow> bail ''Cannot calculate bounding box for empty coordinates''
     | c # rest \<Rightarrow> Inr (show_box (bounding_box_of c rest)))"

definition from_polygon :: "coordinate list \<Rightarrow> string \<Rightarrow> err + spatial_metadata" where
  "from_polygon cs canonical =
     map_res (\<lambda>b. \<lparr>bounding_box = b, geometry = GPolygon canonical\<rparr>) (calculate_bounding_box_string cs)"

definition from_point_cloud :: "coordinate list \<Rightarrow> string \<Rightarrow> err + spatial_metadata" where
  "from_point_cloud cs canonical =
     map_res (\<lambda>b. \<lparr>bounding_box = b, geometry = GPointCloud canonical\<rparr>) (calculate_bounding_box_string cs)"

section \<open>Facts\<close>

lemma validate_coordinate_Inr:
  "validate_coordinate lat lon = Inr c \<longleftrightarrow>
   c = (lat, lon) \<and> is_finite lat \<and> is_finite lon \<and> lat_ok lat \<and> lon_ok lon"
  by (auto simp: validate_coordinate_def)

definition coordinate_ok :: "coordinate \<Rightarrow> bool" where
  "coordinate_ok c = (is_finite (fst c) \<and> is_finite (snd c) \<and> lat_ok (fst c) \<and> lon_ok (snd c))"

lemma in_closed_finite: "in_closed lo hi x \<Longrightarrow> is_finite x"
  by (cases x rule: f64_cases) (auto simp: in_closed_def is_finite_def)

lemma parse_coordinate_ok: "parse_coordinate v = Inr c \<Longrightarrow> coordinate_ok c"
  by (auto simp: parse_coordinate_def coordinate_ok_def validate_coordinate_Inr result_simps
      split: option.splits list.splits)

lemma coordinate_to_json_ok:
  "coordinate_ok c \<Longrightarrow>
   coordinate_to_json c = Inr (JArray [JNumber (Float (fst c)), JNumber (Float (snd c))])"
  by (cases c) (simp add: coordinate_to_json_def coordinate_ok_def validate_coordinate_def json_of_f64_def)

lemma parse_coordinate_json:
  "coordinate_ok c \<Longrightarrow>
   parse_coordinate (JArray [JNumber (Float (fst c)), JNumber (Float (snd c))]) = Inr c"
  by (auto simp: parse_coordinate_def parse_component_def coordinate_ok_def validate_coordinate_def)

lemma coordinates_to_json_ok:
  assumes "\<forall>c\<in>set cs. coordinate_ok c"
  shows "coordinates_to_json cs =
         Inr (JArray (map (\<lambda>c. JArray [JNumber (Float (fst c)), JNumber (Float (snd c))]) cs))"
proof -
  have "collect_res (map (\<lambda>(lat, lon). bind_res (validate_coordinate lat lon) coordinate_to_json) cs) =
        Inr (map (\<lambda>c. JArray [JNumber (Float (fst c)), JNumber (Float (snd c))]) cs)"
    using assms
    by (intro collect_res_map_Inr)
       (auto simp: validate_coordinate_def coordinate_ok_def coordinate_to_json_ok)
  then show ?thesis by (simp add: coordinates_to_json_def)
qed

lemma parse_polygon_points_ok: "parse_polygon_points i ps = Inr cs \<Longrightarrow> c \<in> set cs \<Longrightarrow> coordinate_ok c"
  by (induction ps arbitrary: i cs) (auto simp: result_simps parse_coordinate_ok split: sum.splits)

lemma parse_polygon_points_json:
  "\<forall>c\<in>set cs. coordinate_ok c \<Longrightarrow>
   parse_polygon_points i (map (\<lambda>c. JArray [JNumber (Float (fst c)), JNumber (Float (snd c))]) cs) = Inr cs"
  by (induction cs arbitrary: i) (auto simp: parse_coordinate_json)

lemma coordinate_okI: "lat_ok lat \<Longrightarrow> lon_ok lon \<Longrightarrow> coordinate_ok (lat, lon)"
  by (auto simp: coordinate_ok_def dest: in_closed_finite)

lemma parse_coord_parts_ok: "parse_coord_parts ps = Inr cs \<Longrightarrow> c \<in> set cs \<Longrightarrow> coordinate_ok c"
  by (induction ps arbitrary: cs rule: parse_coord_parts.induct)
     (auto simp: result_simps coordinate_okI split: option.splits if_splits)

lemma parse_polygon_value_ok:
  "parse_polygon_value h v = Inr cs \<Longrightarrow> c \<in> set cs \<Longrightarrow> coordinate_ok c"
  by (auto simp: parse_polygon_value_def parse_polygon_coordinates_def polygon_array_def Let_def
      result_simps split: json.splits sum.splits if_splits
      dest: parse_polygon_points_ok parse_coord_parts_ok)

lemma parse_cloud_points_ok:
  "parse_cloud_points f i ps = Inr cs \<Longrightarrow> length cs = length ps \<and> (\<forall>c\<in>set cs. coordinate_ok c)"
  by (induction ps arbitrary: i cs) (auto simp: result_simps parse_coordinate_ok split: sum.splits)

lemma parse_cloud_points_json:
  "\<forall>c\<in>set cs. coordinate_ok c \<Longrightarrow>
   parse_cloud_points f i (map (\<lambda>c. JArray [JNumber (Float (fst c)), JNumber (Float (snd c))]) cs) = Inr cs"
  by (induction cs arbitrary: i) (auto simp: parse_coordinate_json)

definition box_covers :: "f64 \<times> f64 \<times> f64 \<times> f64 \<Rightarrow> coordinate \<Rightarrow> bool" where
  "box_covers b c =
    (case b of (mnlat, mnlon, mxlat, mxlon) \<Rightarrow>
       f64_le mnlat (fst c) \<and> f64_le mnlon (snd c) \<and> f64_le (fst c) mxlat \<and> f64_le (snd c) mxlon)"

lemma extend_box_covers:
  assumes "coordinate_ok c"
  shows "box_covers b d \<Longrightarrow> box_covers (extend_box b c) d"
    and "box_covers b d \<Longrightarrow> box_covers (extend_box b c) c"
proof -
  obtain w x y z where b: "b = (w, x, y, z)" by (cases b)
  have fin: "fst c \<noteq> NaN" "snd c \<noteq> NaN" using assms by (auto simp: coordinate_ok_def)
  assume d: "box_covers b d"
  then have nn: "w \<noteq> NaN" "x \<noteq> NaN" "y \<noteq> NaN" "z \<noteq> NaN" by (auto simp: b box_covers_def)
  note mn = f64_min_le [OF nn(1) fin(1)] f64_min_le [OF nn(2) fin(2)]
    f64_max_ge [OF nn(3) fin(1)] f64_max_ge [OF nn(4) fin(2)]
  show "box_covers (extend_box b c) d" "box_covers (extend_box b c) c"
    using d mn by (auto simp: b box_covers_def extend_box_def intro: f64_le_trans)
qed

lemma foldl_extend_box_covers:
  assumes "\<forall>c\<in>set cs. coordinate_ok c" "box_covers b d"
  shows "box_covers (foldl extend_box b cs) d \<and> (\<forall>c\<in>set cs. box_covers (foldl extend_box b cs) c)"
  using assms
proof (induction cs arbitrary: b d)
  case (Cons c cs)
  have ok: "coordinate_ok c" "\<forall>x\<in>set cs. coordinate_ok x" using Cons.prems(1) by auto
  have d: "box_covers (extend_box b c) d" "box_covers (extend_box b c) c"
    using extend_box_covers [OF ok(1)] Cons.prems(2) by blast+
  show ?case using Cons.IH [OF ok(2) d(1)] Cons.IH [OF ok(2) d(2)] by simp
qed simp

lemma bounding_box_covers:
  assumes "\<forall>d\<in>set (c # cs). coordinate_ok d" "d \<in> set (c # cs)"
  shows "box_covers (bounding_box_of c cs) d"
proof -
  have "box_covers (fst c, snd c, fst c, snd c) c"
    using assms(1) by (auto simp: box_covers_def coordinate_ok_def)
  then show ?thesis
    using foldl_extend_box_covers [of cs "(fst c, snd c, fst c, snd c)" c] assms
    by (auto simp: bounding_box_of_def)
qed

end
