(* ===== verification/Schema.thy ===== *)
theory Schema
  imports Spatial
begin

text \<open>
  The configuration types the notification core reads: \<open>src/configuration/types.rs\<close> and
  \<open>aviso-validators/src/types.rs\<close>, and the registry over them,
  \<open>src/notification/registry.rs\<close>. Field names carry a prefix per type.
\<close>

text \<open>
  JSON objects are kept in key order, so an object made from a hash map or a literal is its
  entries sorted by key.
\<close>
definition json_object :: "json alist \<Rightarrow> json" where
  "json_object entries = JObject (sort_key fst entries)"

section \<open>Event schemas\<close>

datatype validation_rules =
    StringHandler "nat option" bool
  | DateHandler string bool
  | EnumHandler "string list" bool
  | ExpverHandler "string option" bool
  | IntHandler "(int \<times> int) option" bool
  | FloatHandler "(f64 \<times> f64) option" bool
  | TimeHandler bool
  | PolygonHandler bool
  | PointCloudHandler bool nat

fun is_required :: "validation_rules \<Rightarrow> bool" where
  "is_required (StringHandler _ r) = r"
| "is_required (DateHandler _ r) = r"
| "is_required (EnumHandler _ r) = r"
| "is_required (ExpverHandler _ r) = r"
| "is_required (IntHandler _ r) = r"
| "is_required (FloatHandler _ r) = r"
| "is_required (TimeHandler r) = r"
| "is_required (PolygonHandler r) = r"
| "is_required (PointCloudHandler r _) = r"

fun is_polygon_rule :: "validation_rules \<Rightarrow> bool" where
  "is_polygon_rule (PolygonHandler _) = True"
| "is_polygon_rule _ = False"

fun is_point_cloud_rule :: "validation_rules \<Rightarrow> bool" where
  "is_point_cloud_rule (PointCloudHandler _ _) = True"
| "is_point_cloud_rule _ = False"

record payload_config =
  pc_required :: bool

record topic_config =
  tc_base :: string
  tc_key_order :: "string list"

record identifier_field_config =
  if_description :: "string option"
  if_rule :: validation_rules

record event_storage_policy =
  sp_retention_time :: "string option"
  sp_max_messages :: "int option"
  sp_max_size :: "string option"
  sp_allow_duplicates :: "bool option"
  sp_compression :: "bool option"

type_synonym realm_roles = "string list alist"

record stream_auth_config =
  sa_required :: bool
  sa_read_roles :: "realm_roles option"
  sa_write_roles :: "realm_roles option"
  sa_plugins :: "string list option"

record event_schema =
  es_max_historical :: "nat option"
  es_payload :: "payload_config option"
  es_topic :: "topic_config option"
  es_endpoint :: "topic_config option"
  es_identifier :: "identifier_field_config alist"
  es_storage_policy :: "event_storage_policy option"
  es_auth :: "stream_auth_config option"

type_synonym schema_map = "event_schema alist"

section \<open>Registry\<close>

record registry =
  reg_schemas :: schema_map
  reg_strict :: bool

definition new_registry :: registry where
  "new_registry = \<lparr>reg_schemas = [], reg_strict = False\<rparr>"

definition from_config_with_strict :: "schema_map \<Rightarrow> bool \<Rightarrow> registry" where
  "from_config_with_strict schemas strict = \<lparr>reg_schemas = schemas, reg_strict = strict\<rparr>"

definition handler_from_config :: "schema_map option \<Rightarrow> bool \<Rightarrow> registry" where
  "handler_from_config notification_schema strict =
    (case notification_schema of
       Some schemas \<Rightarrow> from_config_with_strict schemas strict
     | None \<Rightarrow> from_config_with_strict [] strict)"

definition get_schema :: "registry \<Rightarrow> string \<Rightarrow> event_schema option" where
  "get_schema r event_type = map_of (reg_schemas r) event_type"

definition get_schema_names :: "registry \<Rightarrow> string list" where
  "get_schema_names r = sort (map fst (reg_schemas r))"

definition get_identifier_keys :: "registry \<Rightarrow> string \<Rightarrow> string list" where
  "get_identifier_keys r event_type =
    (case get_schema r event_type of Some s \<Rightarrow> map fst (es_identifier s) | None \<Rightarrow> [])"

definition get_required_identifier_keys :: "registry \<Rightarrow> string \<Rightarrow> string list" where
  "get_required_identifier_keys r event_type =
    (case get_schema r event_type of
       Some s \<Rightarrow> map fst (filter (\<lambda>(k, fc). is_required (if_rule fc)) (es_identifier s))
     | None \<Rightarrow> [])"

section \<open>Operations and processing results\<close>

datatype operation = Notify | Watch | Replay

fun op_as_str :: "operation \<Rightarrow> string" where
  "op_as_str Notify = ''notify''"
| "op_as_str Watch = ''watch''"
| "op_as_str Replay = ''replay''"

definition op_from_str :: "string \<Rightarrow> err + operation" where
  "op_from_str s =
    (if s = ''notify'' then Inr Notify else if s = ''watch'' then Inr Watch
     else if s = ''replay'' then Inr Replay else bail (''Invalid operation type: '' @ s))"

definition all_operations :: "operation list" where
  "all_operations = [Notify, Watch, Replay]"

definition AVISO_TYPE_PREFIX :: string where
  "AVISO_TYPE_PREFIX = ''int.ecmwf.aviso''"

definition get_supported_types :: "string list" where
  "get_supported_types = map (\<lambda>op. AVISO_TYPE_PREFIX @ ''.'' @ op_as_str op) all_operations"

definition validate_and_extract_operation :: "string \<Rightarrow> err + operation" where
  "validate_and_extract_operation t =
    (if \<not> starts_with AVISO_TYPE_PREFIX t
     then bail (''Invalid Aviso CloudEvent type '' @ qt t @ ''. Must start with '' @ qt AVISO_TYPE_PREFIX)
     else (let part = (case Option.bind (strip_prefix AVISO_TYPE_PREFIX t) (strip_prefix ''.'') of
                         Some p \<Rightarrow> p | None \<Rightarrow> [])
           in case op_from_str part of
                Inr op \<Rightarrow> Inr op
              | Inl _ \<Rightarrow> bail (''Invalid Aviso CloudEvent operation '' @ qt part @ '' in type '' @ qt t @
                  ''. Supported operations: ['' @ join '', '' (map op_as_str all_operations) @ '']'')))"

datatype identifier_constraint =
    ICInt "int numeric_constraint"
  | ICEnum enum_constraint
  | ICFloat "f64 numeric_constraint"

record processing_result =
  pr_event_type :: string
  pr_topic :: string
  pr_params :: "string alist"
  pr_constraints :: "identifier_constraint alist"
  pr_spatial :: "spatial_metadata option"
  pr_from_schema :: bool

end
