(* ===== verification/TopicCodec.thy ===== *)
theory TopicCodec
  imports Json
begin

text \<open>
  Wire encoding of topic tokens and subjects, \<open>src/notification/topic_codec.rs\<close>. The
  reserved characters are ASCII, so the character loop of \<open>encode_token\<close> is a loop
  over bytes. A subject is the encoded tokens joined by dots. The locale
  \<open>token_codec\<close> states what the subject level relies on: decoding inverts encoding
  and an encoded token does not contain the separator.
\<close>

section \<open>Token codec\<close>

definition is_reserved_char :: "char \<Rightarrow> bool" where
  "is_reserved_char c = (c = CHR ''.'' \<or> c = CHR ''*'' \<or> c = CHR ''>'' \<or> c = CHR ''%'')"

definition from_hex :: "char \<Rightarrow> nat option" where
  "from_hex b =
    (if 48 \<le> byte b \<and> byte b \<le> 57 then Some (byte b - 48)
     else if 97 \<le> byte b \<and> byte b \<le> 102 then Some (byte b - 97 + 10)
     else if 65 \<le> byte b \<and> byte b \<le> 70 then Some (byte b - 65 + 10)
     else None)"

definition hex_upper :: "nat \<Rightarrow> char" where
  "hex_upper n = (if n < 10 then char_of (48 + n) else char_of (55 + n))"

definition hex02 :: "char \<Rightarrow> string" where
  "hex02 c = [hex_upper (byte c div 16), hex_upper (byte c mod 16)]"

fun encode_token :: "string \<Rightarrow> string" where
  "encode_token [] = []"
| "encode_token (ch # t) =
    (if is_reserved_char ch then CHR ''%'' # hex02 ch @ encode_token t
     else ch # encode_token t)"

definition non_hex :: "char \<Rightarrow> string \<Rightarrow> err + 'a" where
  "non_hex c token =
     bail (''Invalid percent-encoding: non-hex '' @ quote @ [c] @ quote @ '' in token '' @
           quote @ token @ quote)"

text \<open>The loop over \<open>i\<close>: the unread bytes, with the whole token for the messages.\<close>
fun decode_bytes :: "string \<Rightarrow> string \<Rightarrow> err + string" where
  "decode_bytes token [] = Inr []"
| "decode_bytes token (b # rest) =
    (if b = CHR ''%'' then
       (case rest of
          h # l # rest' \<Rightarrow>
            (case from_hex h of
               None \<Rightarrow> non_hex h token
             | Some hi \<Rightarrow>
                (case from_hex l of
                   None \<Rightarrow> non_hex l token
                 | Some lo \<Rightarrow>
                     map_res (Cons (char_of (hi * 16 + lo))) (decode_bytes token rest')))
        | _ \<Rightarrow> bail (''Invalid percent-encoding: trailing '' @ quote @ ''%'' @ quote @
                     '' in token '' @ quote @ token @ quote))
     else map_res (Cons b) (decode_bytes token rest))"

definition utf8_error_text :: "nat \<times> nat option \<Rightarrow> string" where
  "utf8_error_text e =
    (case e of
       (i, Some n) \<Rightarrow> ''invalid utf-8 sequence of '' @ show_nat n @ '' bytes from index '' @ show_nat i
     | (i, None) \<Rightarrow> ''incomplete utf-8 byte sequence from index '' @ show_nat i)"

definition decode_token :: "string \<Rightarrow> err + string" where
  "decode_token token =
     bind_res (decode_bytes token token) (\<lambda>out.
       case utf8_error 0 out of
         None \<Rightarrow> Inr out
       | Some e \<Rightarrow> bail (''Decoded token is not valid UTF-8 ('' @ quote @ token @ quote @ ''): '' @
                         utf8_error_text e))"

section \<open>Subjects\<close>

abbreviation dot :: char where "dot \<equiv> CHR ''.''"

definition encode_subject :: "string list \<Rightarrow> string" where
  "encode_subject parts = join [dot] (map encode_token parts)"

definition decode_subject :: "string \<Rightarrow> err + string list" where
  "decode_subject subject = collect_res (map decode_token (split_on dot subject))"

definition decode_subject_for_display :: "string \<Rightarrow> string" where
  "decode_subject_for_display subject =
    (case decode_subject subject of Inr parts \<Rightarrow> join ''.'' parts | Inl _ \<Rightarrow> subject)"

definition decode_subject_base :: "string \<Rightarrow> err + string" where
  "decode_subject_base subject =
     (let raw = hd (split_on dot subject)
      in if raw = [] then bail ''Subject cannot be empty'' else decode_token raw)"

section \<open>What the subject level needs from the token codec\<close>

locale token_codec =
  fixes enc :: "string \<Rightarrow> string"
    and dec :: "string \<Rightarrow> 'e + string"
    and text_ok :: "string \<Rightarrow> bool"
    and sep :: char
  assumes dec_enc: "text_ok t \<Longrightarrow> dec (enc t) = Inr t"
    and sep_free: "sep \<notin> set (enc t)"
begin

lemma enc_inj: "text_ok s \<Longrightarrow> text_ok t \<Longrightarrow> enc s = enc t \<longleftrightarrow> s = t"
  by (metis dec_enc sum.inject(2))

lemma split_enc:
  "ps \<noteq> [] \<Longrightarrow> split_on sep (join [sep] (map enc ps)) = map enc ps"
  by (rule split_on_join) (auto simp: sep_free)

lemma subject_roundtrip:
  "ps \<noteq> [] \<Longrightarrow> \<forall>p\<in>set ps. text_ok p \<Longrightarrow>
   collect_res (map dec (split_on sep (join [sep] (map enc ps)))) = Inr ps"
  using collect_res_map_Inr [of ps "\<lambda>p. dec (enc p)" "\<lambda>p. p"]
  by (simp add: split_enc dec_enc comp_def)

lemma subject_inj:
  assumes "ps \<noteq> []" "qs \<noteq> []" "\<forall>p\<in>set ps. text_ok p" "\<forall>q\<in>set qs. text_ok q"
  shows "join [sep] (map enc ps) = join [sep] (map enc qs) \<longleftrightarrow> ps = qs"
  using subject_roundtrip [OF assms(1,3)] subject_roundtrip [OF assms(2,4)]
  by (metis sum.inject(2))

text \<open>A byte prefix that ends in the separator is a prefix of whole tokens.\<close>
lemma subject_prefix:
  assumes "ps \<noteq> []" "qs \<noteq> []" "\<forall>p\<in>set ps. text_ok p" "\<forall>q\<in>set qs. text_ok q"
  shows "starts_with (join [sep] (map enc ps) @ [sep]) (join [sep] (map enc qs))
         \<longleftrightarrow> (\<exists>rest. rest \<noteq> [] \<and> qs = ps @ rest)"
proof
  assume "starts_with (join [sep] (map enc ps) @ [sep]) (join [sep] (map enc qs))"
  then obtain t where t: "join [sep] (map enc qs) = join [sep] (map enc ps) @ sep # t"
    by (auto simp: starts_with_iff)
  have "split_on sep (join [sep] (map enc ps) @ sep # t) = map enc ps @ split_on sep t"
    using assms(1)
  proof (induction ps)
    case (Cons p ps)
    show ?case
    proof (cases "ps = []")
      case True
      then show ?thesis by (simp add: split_on_append sep_free)
    next
      case False
      then show ?thesis using Cons.IH by (simp add: join_Cons split_on_append sep_free)
    qed
  qed simp
  then have *: "map enc qs = map enc ps @ split_on sep t"
    using t split_enc [OF assms(2)] by simp
  then obtain r1 r2 where qs: "qs = r1 @ r2" "map enc r1 = map enc ps" "map enc r2 = split_on sep t"
    by (metis map_eq_append_conv)
  have "r1 = ps"
    using qs(1,2) assms(3,4) by (intro map_inj_on [of enc r1 ps]) (auto simp: inj_on_def enc_inj)
  moreover have "r2 \<noteq> []" using qs(3) split_on_not_Nil [of sep t] by force
  ultimately show "\<exists>rest. rest \<noteq> [] \<and> qs = ps @ rest" using qs(1) by auto
next
  assume "\<exists>rest. rest \<noteq> [] \<and> qs = ps @ rest"
  then show "starts_with (join [sep] (map enc ps) @ [sep]) (join [sep] (map enc qs))"
    using assms(1) by (auto simp: join_append starts_with_iff)
qed

end

section \<open>The percent codec satisfies it\<close>

lemma byte_div_16 [simp]: "byte c div 16 < 16"
  by (rule less_mult_imp_div_less) simp

lemma from_hex_upper: "n < 16 \<Longrightarrow> from_hex (hex_upper n) = Some n"
  by (auto simp: from_hex_def hex_upper_def)

lemma hex02_decodes:
  "from_hex (hex02 c ! 0) = Some (byte c div 16)" "from_hex (hex02 c ! 1) = Some (byte c mod 16)"
  by (auto simp: hex02_def intro!: from_hex_upper)

lemma hex_upper_unreserved: "n < 16 \<Longrightarrow> \<not> is_reserved_char (hex_upper n)"
proof
  assume n: "n < 16" and "is_reserved_char (hex_upper n)"
  then have "from_hex (hex_upper n) = None"
    by (auto simp: is_reserved_char_def from_hex_def)
  then show False using n by (simp add: from_hex_upper)
qed

lemma hex02_unreserved: "x \<in> set (hex02 c) \<Longrightarrow> \<not> is_reserved_char x"
  by (auto simp: hex02_def hex_upper_unreserved)

lemma decode_bytes_hex02:
  "decode_bytes tok (CHR ''%'' # hex02 c @ s) = map_res (Cons c) (decode_bytes tok s)"
  using hex02_decodes [of c] by (simp add: hex02_def mult.commute [of _ 16])

lemma decode_bytes_encode: "decode_bytes tok (encode_token t) = Inr t"
proof (induction t)
  case (Cons c t)
  show ?case
  proof (cases "is_reserved_char c")
    case True
    then show ?thesis using Cons
      by (simp add: decode_bytes_hex02 del: decode_bytes.simps)
  next
    case False
    then show ?thesis using Cons by (auto simp: is_reserved_char_def)
  qed
qed simp

lemma decode_encode_token: "valid_utf8 t \<Longrightarrow> decode_token (encode_token t) = Inr t"
  by (simp add: decode_token_def decode_bytes_encode valid_utf8_def)

lemma encode_token_unreserved:
  "c \<in> set (encode_token t) \<Longrightarrow> \<not> is_reserved_char c \<or> c = CHR ''%''"
  by (induction t) (auto split: if_splits dest: hex02_unreserved)

interpretation percent: token_codec encode_token decode_token valid_utf8 "CHR ''.''"
  by unfold_locales (auto simp: decode_encode_token is_reserved_char_def dest: encode_token_unreserved)

lemma encode_token_id: "\<not> list_ex is_reserved_char t \<Longrightarrow> encode_token t = t"
  by (induction t) auto

lemma decode_token_valid: "decode_token s = Inr t \<Longrightarrow> valid_utf8 t"
  by (cases "utf8_error 0 t") (auto simp: decode_token_def valid_utf8_def result_simps split: option.splits)

lemma decode_subject_not_Nil: "decode_subject s \<noteq> Inr []"
proof
  assume "decode_subject s = Inr []"
  then have "length (split_on dot s) = 0"
    unfolding decode_subject_def by (metis collect_res_length length_map list.size(3))
  then show False by simp
qed

lemma decode_subject_valid:
  assumes "decode_subject s = Inr ps" "p \<in> set ps"
  shows "valid_utf8 p"
proof -
  have "map decode_token (split_on dot s) = map Inr ps"
    using assms(1) unfolding decode_subject_def by (rule collect_res_InrD)
  then have "Inr p \<in> set (map decode_token (split_on dot s))" using assms(2) by simp
  then show ?thesis by (auto dest: decode_token_valid [OF sym])
qed

lemma decode_encode_subject:
  "ps \<noteq> [] \<Longrightarrow> \<forall>p\<in>set ps. valid_utf8 p \<Longrightarrow> decode_subject (encode_subject ps) = Inr ps"
  by (simp add: decode_subject_def encode_subject_def percent.subject_roundtrip)

end
