(* ===== verification/Topics.thy ===== *)
theory Topics
  imports Schema TopicCodec
begin

text \<open>
  Building routing subjects from canonical parameters (\<open>src/notification/topic_builder.rs\<close>)
  and reading them back (\<open>src/notification/topic_parser.rs\<close>), with the validation of the
  logical base and the stream name derived from it. The global schema of the process is an
  argument.
\<close>

section \<open>Bases and bindings\<close>

definition invalid_topic_base_text :: string where
  "invalid_topic_base_text = ''topic base must match [A-Za-z0-9][A-Za-z0-9_-]*''"

definition valid_base :: "string \<Rightarrow> bool" where
  "valid_base base =
    ((case base of [] \<Rightarrow> False | b # _ \<Rightarrow> is_alphanumeric b) \<and>
     list_all (\<lambda>b. is_alphanumeric b \<or> b = CHR ''_'' \<or> b = CHR ''-'') base)"

definition validate_topic_base :: "string \<Rightarrow> err + unit" where
  "validate_topic_base base = (if valid_base base then Inr () else bail invalid_topic_base_text)"

record topic_binding =
  tb_stream_name :: string
  tb_subject_pattern :: string

definition new_binding :: "string \<Rightarrow> err + topic_binding" where
  "new_binding base =
     map_res (\<lambda>_. \<lparr>tb_stream_name = to_ascii_uppercase base, tb_subject_pattern = base @ ''.>''\<rparr>)
       (validate_topic_base base)"

section \<open>Building\<close>

fun topic_values :: "string alist \<Rightarrow> string list \<Rightarrow> err + string list" where
  "topic_values params [] = Inr []"
| "topic_values params (key # ks) =
    (case map_of params key of
       None \<Rightarrow> bail (''Missing key '' @ qt key @ '' for topic building'')
     | Some v \<Rightarrow> map_res (Cons v) (topic_values params ks))"

definition build_generic_topic :: "string \<Rightarrow> string alist \<Rightarrow> string" where
  "build_generic_topic event_type params =
    (if params = [] then event_type
     else encode_subject (event_type # List.map_filter (map_of params) (sort (map fst params))))"

definition build_topic_with_schema :: "string \<Rightarrow> event_schema \<Rightarrow> string alist \<Rightarrow> err + string" where
  "build_topic_with_schema event_type schema params =
    (case es_topic schema of
       Some tc \<Rightarrow>
         map_res (\<lambda>vs. encode_subject (tc_base tc # vs)) (topic_values params (tc_key_order tc))
     | None \<Rightarrow> Inr (build_generic_topic event_type params))"

section \<open>Parsing\<close>

fun request_of_parts :: "nat \<Rightarrow> string list \<Rightarrow> string list \<Rightarrow> string alist \<Rightarrow> string alist" where
  "request_of_parts i parts [] req = req"
| "request_of_parts i parts (key # ks) req =
     request_of_parts (Suc i) parts ks
       (case get_at parts (i + 1) of
          Some v \<Rightarrow> if v \<noteq> [] \<and> v \<noteq> ''*'' then AList.update key v req else req
        | None \<Rightarrow> req)"

definition parse_topic_with_schema :: "string \<Rightarrow> event_schema \<Rightarrow> err + string alist" where
  "parse_topic_with_schema topic schema =
     bind_res (of_option [''No topic configuration in schema''] (es_topic schema)) (\<lambda>tc.
     bind_res (decode_subject topic) (\<lambda>parts.
       if first_of parts \<noteq> Some (tc_base tc)
       then bail (''Topic '' @ qt topic @ '' does not match expected base '' @ qt (tc_base tc))
       else Inr (request_of_parts 0 parts (tc_key_order tc) [])))"

definition topic_to_request :: "schema_map option \<Rightarrow> string \<Rightarrow> string \<Rightarrow> err + string alist" where
  "topic_to_request global topic event_type =
     bind_res (of_option [''No notification schema configured''] global) (\<lambda>schemas.
     bind_res (of_option [''Unknown event type: '' @ event_type] (map_of schemas event_type)) (\<lambda>schema.
     parse_topic_with_schema topic schema))"

definition derive_event_type_from_topic :: "string \<Rightarrow> err + string" where
  "derive_event_type_from_topic topic = decode_subject_base topic"

definition derive_stream_name_from_topic :: "string \<Rightarrow> err + string" where
  "derive_stream_name_from_topic topic =
     bind_res (with_context ''Failed to derive event type for stream name''
                (derive_event_type_from_topic topic)) (\<lambda>event_type.
     map_res tb_stream_name (new_binding event_type))"

section \<open>Facts\<close>

lemma topic_values_Inr:
  "topic_values params ks = Inr vs \<longleftrightarrow> map (map_of params) ks = map Some vs"
proof (induction ks arbitrary: vs)
  case (Cons k ks)
  then show ?case by (cases vs) (auto simp: result_simps split: option.splits)
qed auto

lemma topic_values_length: "topic_values params ks = Inr vs \<Longrightarrow> length vs = length ks"
  by (auto simp: topic_values_Inr dest: arg_cong [where f = length])

lemma build_topic_Inr:
  assumes "es_topic schema = Some tc"
  shows "build_topic_with_schema et schema params = Inr topic \<longleftrightarrow>
         (\<exists>vs. map (map_of params) (tc_key_order tc) = map Some vs \<and>
               topic = encode_subject (tc_base tc # vs))"
  using assms by (auto simp: build_topic_with_schema_def result_simps topic_values_Inr)

lemma build_topic_total:
  assumes "es_topic schema = Some tc" "set (tc_key_order tc) \<subseteq> fst ` set params"
  shows "\<exists>topic. build_topic_with_schema et schema params = Inr topic"
proof -
  have "\<forall>k\<in>set (tc_key_order tc). \<exists>v. map_of params k = Some v"
    using assms(2) by (auto simp: image_iff subset_iff) (metis map_of_eq_None_iff fst_conv image_eqI not_None_eq)
  then have "map (map_of params) (tc_key_order tc) =
             map Some (map (\<lambda>k. the (map_of params k)) (tc_key_order tc))"
    by (auto simp: list_eq_iff_nth_eq)
  then show ?thesis using build_topic_Inr [OF assms(1)] by blast
qed

text \<open>The request read back: a key bound to its last non-wildcard token.\<close>
lemma map_of_request_of_parts:
  assumes "map f ks = map Some vs" "length pre = i + 1"
  shows "map_of (request_of_parts i (pre @ vs) ks req) k =
         (if k \<in> set ks \<and> f k \<noteq> Some [] \<and> f k \<noteq> Some ''*'' then f k else map_of req k)"
  using assms
proof (induction ks arbitrary: i vs req pre)
  case (Cons key ks)
  obtain v vs' where vs: "vs = v # vs'" "f key = Some v" "map f ks = map Some vs'"
    using Cons.prems(1) by (cases vs) auto
  have v: "get_at (pre @ vs) (i + 1) = Some v"
    using Cons.prems(2) vs(1) by (simp add: get_at_def nth_append)
  have IH: "map_of (request_of_parts (Suc i) ((pre @ [v]) @ vs') ks r) k =
      (if k \<in> set ks \<and> f k \<noteq> Some [] \<and> f k \<noteq> Some ''*'' then f k else map_of r k)" for r
    using Cons.IH [OF vs(3), of "pre @ [v]"] Cons.prems(2) by simp
  show ?case using IH v vs(1,2) by (simp add: map_of_update)
qed simp

definition valid_params :: "string list \<Rightarrow> string alist \<Rightarrow> bool" where
  "valid_params ks params = list_all (\<lambda>k. case map_of params k of Some v \<Rightarrow> valid_utf8 v | None \<Rightarrow> True) ks"

lemma valid_params_values:
  assumes "valid_params ks params" "map (map_of params) ks = map Some vs" "v \<in> set vs"
  shows "valid_utf8 v"
proof -
  have "Some v \<in> set (map (map_of params) ks)" using assms(2,3) by simp
  then obtain k where "k \<in> set ks" "map_of params k = Some v" by auto
  then show ?thesis using assms(1) by (auto simp: valid_params_def list_all_iff)
qed

lemma decode_built_topic:
  assumes "es_topic schema = Some tc" "build_topic_with_schema et schema params = Inr topic"
    "valid_utf8 (tc_base tc)" "valid_params (tc_key_order tc) params"
  obtains vs where "map (map_of params) (tc_key_order tc) = map Some vs"
    "decode_subject topic = Inr (tc_base tc # vs)"
proof -
  obtain vs where vs: "map (map_of params) (tc_key_order tc) = map Some vs"
      "topic = encode_subject (tc_base tc # vs)"
    using build_topic_Inr [OF assms(1)] assms(2) by blast
  have "\<forall>v\<in>set (tc_base tc # vs). valid_utf8 v"
    using assms(3) valid_params_values [OF assms(4) vs(1)] by auto
  then have "decode_subject topic = Inr (tc_base tc # vs)"
    unfolding vs(2) by (intro decode_encode_subject) auto
  then show thesis using that vs(1) by blast
qed

lemma parse_built_topic:
  assumes "es_topic schema = Some tc" "build_topic_with_schema et schema params = Inr topic"
    "valid_utf8 (tc_base tc)" "valid_params (tc_key_order tc) params"
  shows "\<exists>req. parse_topic_with_schema topic schema = Inr req \<and>
           (\<forall>k. map_of req k =
              (if k \<in> set (tc_key_order tc) \<and> map_of params k \<noteq> Some [] \<and> map_of params k \<noteq> Some ''*''
               then map_of params k else None))"
proof -
  obtain vs where vs: "map (map_of params) (tc_key_order tc) = map Some vs"
      "decode_subject topic = Inr (tc_base tc # vs)"
    using decode_built_topic [OF assms] by blast
  have "parse_topic_with_schema topic schema =
        Inr (request_of_parts 0 ([tc_base tc] @ vs) (tc_key_order tc) [])"
    using assms(1) vs(2) by (simp add: parse_topic_with_schema_def)
  then show ?thesis
    using map_of_request_of_parts [OF vs(1), of "[tc_base tc]" 0 "[]"] by auto
qed

lemma valid_utf8_ascii: "list_all is_ascii s \<Longrightarrow> valid_utf8 s"
proof -
  have "list_all is_ascii s \<Longrightarrow> utf8_error i s = None" for i
    by (induction s arbitrary: i) (auto simp: utf8_error.simps)
  then show "list_all is_ascii s \<Longrightarrow> valid_utf8 s" by (simp add: valid_utf8_def)
qed

lemma valid_base_chars: "valid_base b \<Longrightarrow> list_all (\<lambda>c. is_ascii c \<and> \<not> is_reserved_char c) b"
  by (auto simp: valid_base_def list_all_iff is_alphanumeric_def is_digit_def is_upper_def is_lower_def
      is_ascii_def is_reserved_char_def)

lemma valid_base_utf8: "valid_base b \<Longrightarrow> valid_utf8 b"
  by (auto intro!: valid_utf8_ascii dest!: valid_base_chars simp: list_all_iff)

lemma valid_base_encode [simp]: "valid_base b \<Longrightarrow> encode_token b = b"
  by (auto intro!: encode_token_id dest!: valid_base_chars simp: list_all_iff list_ex_iff)

lemma valid_base_not_Nil: "valid_base b \<Longrightarrow> b \<noteq> []"
  by (auto simp: valid_base_def)

text \<open>The base of a subject is what the event type and the stream name are derived from.\<close>
lemma derive_encoded_base:
  assumes "valid_base b"
  shows "derive_event_type_from_topic (encode_subject (b # vs)) = Inr b"
proof -
  have "hd (split_on dot (encode_subject (b # vs))) = b"
    using assms percent.split_enc [of "b # vs"] by (simp add: encode_subject_def)
  moreover have "decode_token b = Inr b"
    using decode_encode_token [OF valid_base_utf8 [OF assms]] assms by simp
  ultimately show ?thesis using valid_base_not_Nil [OF assms]
    by (simp add: derive_event_type_from_topic_def decode_subject_base_def)
qed

text \<open>The stream a published subject goes to is the one its base binds.\<close>
lemma derive_stream_built:
  assumes "es_topic schema = Some tc" "build_topic_with_schema et schema params = Inr topic"
    "valid_base (tc_base tc)"
  shows "derive_stream_name_from_topic topic = Inr (to_ascii_uppercase (tc_base tc))"
proof -
  obtain vs where "topic = encode_subject (tc_base tc # vs)"
    using build_topic_Inr [OF assms(1)] assms(2) by blast
  then show ?thesis using assms(3) derive_encoded_base [OF assms(3)]
    by (simp add: derive_stream_name_from_topic_def new_binding_def validate_topic_base_def)
qed

end
