(* ===== verification/Processor.thy ===== *)
theory Processor
  imports Topics
begin

text \<open>
  The request processor, \<open>src/notification/processor.rs\<close>: validation of the identifier
  of a notify, watch or replay request against the schema of its event type and the
  construction of its routing subject. The field loops run over the schema's identifier map
  in its iteration order; the state of a loop is the maps built so far.
\<close>

section \<open>Field values\<close>

definition scalar_identifier_value_as_string :: "host \<Rightarrow> string \<Rightarrow> json \<Rightarrow> err + string" where
  "scalar_identifier_value_as_string h f v =
    (case v of
       JString s \<Rightarrow> Inr s
     | JNumber n \<Rightarrow> Inr (number_text h n)
     | JBool b \<Rightarrow> Inr (if b then ''true'' else ''false'')
     | JNull \<Rightarrow> bail (field_msg f '' cannot be null'')
     | JArray _ \<Rightarrow> bail (field_msg f '' must be a scalar value or constraint object, got array'')
     | JObject _ \<Rightarrow> bail (field_msg f '' constraint object is not allowed in this operation''))"

definition is_object :: "json \<Rightarrow> bool" where
  "is_object v = (as_object v \<noteq> None)"

fun scalar_canon :: "host \<Rightarrow> 'd chrono \<Rightarrow> validation_rules \<Rightarrow> string \<Rightarrow> string \<Rightarrow> err + string" where
  "scalar_canon h c (StringHandler mx _) f s = string_canon mx f s"
| "scalar_canon h c (DateHandler fmt _) f s = date_canon c fmt f s"
| "scalar_canon h c (EnumHandler vs _) f s = enum_canon h vs f s"
| "scalar_canon h c (ExpverHandler d _) f s = expver_canon h d f s"
| "scalar_canon h c (IntHandler r _) f s = int_canon r f s"
| "scalar_canon h c (FloatHandler r _) f s = float_canon r f s"
| "scalar_canon h c (TimeHandler _) f s = time_canon f s"
| "scalar_canon h c (PolygonHandler _) f s = map_res (json_print h) (polygon_json_canon h (JString s) f)"
| "scalar_canon h c (PointCloudHandler _ mx) f s =
     map_res (json_print h) (map_err point_cloud_error_chain (cloud_canon h (JString s) mx f))"

definition validate_and_canonicalize_field ::
  "host \<Rightarrow> 'd chrono \<Rightarrow> string \<Rightarrow> json \<Rightarrow> validation_rules \<Rightarrow> err + string" where
  "validate_and_canonicalize_field h c f v rule =
    (case rule of
       PolygonHandler _ \<Rightarrow> map_res (json_print h) (polygon_json_canon h v f)
     | PointCloudHandler _ mx \<Rightarrow>
         map_res (json_print h) (map_err point_cloud_error_chain (cloud_canon h v mx f))
     | _ \<Rightarrow> bind_res (scalar_identifier_value_as_string h f v) (scalar_canon h c rule f))"

definition parse_identifier_constraint ::
  "host \<Rightarrow> string \<Rightarrow> json \<Rightarrow> validation_rules \<Rightarrow> err + identifier_constraint" where
  "parse_identifier_constraint h f v rule =
    (case rule of
       IntHandler r _ \<Rightarrow> map_res ICInt (parse_int_constraint f v r)
     | FloatHandler r _ \<Rightarrow> map_res ICFloat (parse_float_constraint f v r)
     | EnumHandler vs _ \<Rightarrow> map_res ICEnum (parse_enum_constraint h f v vs)
     | _ \<Rightarrow> bail (field_msg f '' does not support constraint filters; expected scalar value''))"

section \<open>Notify\<close>

definition unknown_field_msg :: "string \<Rightarrow> string \<Rightarrow> string" where
  "unknown_field_msg f operation_name =
     ''Unknown field '' @ qt f @ '' provided for '' @ operation_name @ '' operation''"

definition required_field_msg :: "string \<Rightarrow> string \<Rightarrow> string" where
  "required_field_msg f operation_name =
     ''Required field '' @ qt f @ '' missing for '' @ operation_name @ '' operation''"

type_synonym notify_acc = "string alist \<times> spatial_metadata option"

definition notify_field ::
  "host \<Rightarrow> 'd chrono \<Rightarrow> json alist \<Rightarrow> string \<Rightarrow> validation_rules \<Rightarrow> notify_acc \<Rightarrow> err + notify_acc" where
  "notify_field h c params f rule acc =
     bind_res (of_option [required_field_msg f ''notify''] (map_of params f)) (\<lambda>v.
       if is_object v
       then bail (field_msg f '' constraint object is not supported for notify operation'')
       else (case rule of
         PointCloudHandler _ mx \<Rightarrow>
           bind_res (map_err point_cloud_error_chain (validate_cloud h v mx f)) (\<lambda>(cs, canonical).
           bind_res (from_point_cloud cs (json_print h canonical)) (\<lambda>meta.
           Inr (AList.update f (json_print h canonical) (fst acc), Some meta)))
       | _ \<Rightarrow>
           bind_res (validate_and_canonicalize_field h c f v rule) (\<lambda>canonical.
           bind_res
             (if is_polygon_rule rule
              then bind_res (parse_polygon_coordinates h canonical) (\<lambda>cs.
                   map_res Some (from_polygon cs canonical))
              else Inr (snd acc)) (\<lambda>meta.
           Inr (AList.update f canonical (fst acc), meta)))))"

fun notify_fields ::
  "host \<Rightarrow> 'd chrono \<Rightarrow> json alist \<Rightarrow> identifier_field_config alist \<Rightarrow> notify_acc \<Rightarrow> err + notify_acc" where
  "notify_fields h c params [] acc = Inr acc"
| "notify_fields h c params ((f, fc) # rest) acc =
     bind_res (notify_field h c params f (if_rule fc) acc) (notify_fields h c params rest)"

definition validate_payload_requirement :: "event_schema \<Rightarrow> json option \<Rightarrow> err + unit" where
  "validate_payload_requirement schema payload =
    (if (case es_payload schema of Some pc \<Rightarrow> pc_required pc | None \<Rightarrow> False) \<and> payload = None
     then bail ''Payload is required for notify operation based on schema configuration''
     else Inr ())"

type_synonym identifier_processing =
  "string alist \<times> identifier_constraint alist \<times> spatial_metadata option"

definition process_notify_request ::
  "host \<Rightarrow> 'd chrono \<Rightarrow> event_schema \<Rightarrow> json alist \<Rightarrow> json option \<Rightarrow> err + identifier_processing" where
  "process_notify_request h c schema params payload =
    (case find (\<lambda>(f, _). \<not> has_key (es_identifier schema) f) params of
       Some (f, _) \<Rightarrow> bail (unknown_field_msg f ''notify'')
     | None \<Rightarrow>
         bind_res (notify_fields h c params (es_identifier schema) ([], None)) (\<lambda>(canonicalized, meta).
         bind_res (validate_payload_requirement schema payload) (\<lambda>_.
         Inr (canonicalized, [], meta))))"

section \<open>Watch and replay\<close>

type_synonym streaming_acc = "string alist \<times> identifier_constraint alist"

definition streaming_field ::
  "host \<Rightarrow> 'd chrono \<Rightarrow> json alist \<Rightarrow> string \<Rightarrow> string \<Rightarrow> validation_rules \<Rightarrow> streaming_acc \<Rightarrow>
   err + streaming_acc" where
  "streaming_field h c params op f rule acc =
    (case map_of params f of
       Some v \<Rightarrow>
         if is_object v
         then map_res (\<lambda>con. (AList.update f ''*'' (fst acc), AList.update f con (snd acc)))
                (parse_identifier_constraint h f v rule)
         else map_res (\<lambda>canonical. (AList.update f canonical (fst acc), snd acc))
                (validate_and_canonicalize_field h c f v rule)
     | None \<Rightarrow>
         if is_required rule then
           (if f = ''polygon'' \<and> has_key params ''point''
            then Inr (AList.update f ''*'' (fst acc), snd acc)
            else if is_point_cloud_rule rule \<and> has_key params ''polygon''
            then Inr (AList.update f ''*'' (fst acc), snd acc)
            else bail (required_field_msg f op))
         else Inr (AList.update f ''*'' (fst acc), snd acc))"

fun streaming_fields ::
  "host \<Rightarrow> 'd chrono \<Rightarrow> json alist \<Rightarrow> string \<Rightarrow> identifier_field_config alist \<Rightarrow> streaming_acc \<Rightarrow>
   err + streaming_acc" where
  "streaming_fields h c params op [] acc = Inr acc"
| "streaming_fields h c params op ((f, fc) # rest) acc =
     bind_res (streaming_field h c params op f (if_rule fc) acc) (streaming_fields h c params op rest)"

definition has_point_cloud_schema :: "event_schema \<Rightarrow> bool" where
  "has_point_cloud_schema schema =
     list_ex (\<lambda>(_, fc). is_point_cloud_rule (if_rule fc)) (es_identifier schema)"

definition is_spatial_filter :: "event_schema \<Rightarrow> string \<Rightarrow> bool" where
  "is_spatial_filter schema f =
    ((f = ''polygon'' \<and> has_point_cloud_schema schema) \<or>
     (f = ''point'' \<and>
      (case map_of (es_identifier schema) ''polygon'' of
         Some fc \<Rightarrow> is_polygon_rule (if_rule fc) | None \<Rightarrow> False)))"

definition add_point_filter :: "host \<Rightarrow> json alist \<Rightarrow> string alist \<Rightarrow> err + string alist" where
  "add_point_filter h params canonicalized =
    (case map_of params ''point'' of
       None \<Rightarrow> Inr canonicalized
     | Some point \<Rightarrow>
         if is_object point then bail (field_msg ''point'' '' constraint object is not supported'')
         else map_res (\<lambda>p. AList.update ''point'' (json_print h p) canonicalized)
                (point_json_canon h point ''point''))"

definition add_polygon_filter ::
  "host \<Rightarrow> event_schema \<Rightarrow> json alist \<Rightarrow> string alist \<Rightarrow> err + string alist" where
  "add_polygon_filter h schema params canonicalized =
    (case (if has_point_cloud_schema schema then map_of params ''polygon'' else None) of
       None \<Rightarrow> Inr canonicalized
     | Some polygon \<Rightarrow>
         map_res (\<lambda>p. AList.update ''polygon'' (json_print h p) canonicalized)
           (polygon_json_canon h polygon ''polygon''))"

definition process_streaming_request ::
  "host \<Rightarrow> 'd chrono \<Rightarrow> event_schema \<Rightarrow> json alist \<Rightarrow> string \<Rightarrow> err + identifier_processing" where
  "process_streaming_request h c schema params op =
    (if has_key params ''point_cloud''
     then bail ''identifier.point_cloud is only supported for notify operations''
     else if has_point_cloud_schema schema \<and> has_key params ''point''
     then bail ''identifier.point is not supported for point-cloud schemas; use identifier.polygon''
     else (case find (\<lambda>(f, _). \<not> has_key (es_identifier schema) f \<and> \<not> is_spatial_filter schema f) params of
       Some (f, _) \<Rightarrow> bail (unknown_field_msg f op)
     | None \<Rightarrow>
         bind_res (streaming_fields h c params op (es_identifier schema) ([], [])) (\<lambda>(canonicalized, cons).
         bind_res (add_point_filter h params canonicalized) (\<lambda>canonicalized.
         bind_res (add_polygon_filter h schema params canonicalized) (\<lambda>canonicalized.
         Inr (canonicalized, cons, None))))))"

section \<open>Event types without a schema\<close>

fun generic_notify :: "host \<Rightarrow> json alist \<Rightarrow> string alist \<Rightarrow> err + string alist" where
  "generic_notify h [] acc = Inr acc"
| "generic_notify h ((k, v) # rest) acc =
    (if is_object v
     then bail (field_msg k '' constraint object is not supported for notify operation'')
     else bind_res (scalar_identifier_value_as_string h k v) (\<lambda>s.
       if s = [] then bail (field_msg k '' cannot be empty'')
       else generic_notify h rest (AList.update k s acc)))"

fun generic_streaming :: "host \<Rightarrow> json alist \<Rightarrow> string alist \<Rightarrow> err + string alist" where
  "generic_streaming h [] acc = Inr acc"
| "generic_streaming h ((k, v) # rest) acc =
    (if is_object v
     then bail (field_msg k '' constraint object is not supported without schema'')
     else bind_res (scalar_identifier_value_as_string h k v) (\<lambda>s.
       generic_streaming h rest (AList.update k s acc)))"

definition process_generic_request :: "host \<Rightarrow> json alist \<Rightarrow> operation \<Rightarrow> err + string alist" where
  "process_generic_request h params op =
    (case op of
       Notify \<Rightarrow> generic_notify h params []
     | _ \<Rightarrow> generic_streaming h params [])"

section \<open>The request\<close>

definition base_of_schema :: "event_schema option \<Rightarrow> string \<Rightarrow> string" where
  "base_of_schema schema event_type =
    (case Option.bind schema es_topic of Some tc \<Rightarrow> tc_base tc | None \<Rightarrow> event_type)"

definition process_identifier ::
  "host \<Rightarrow> 'd chrono \<Rightarrow> registry \<Rightarrow> string \<Rightarrow> json alist \<Rightarrow> json option \<Rightarrow> operation \<Rightarrow>
   err + identifier_processing" where
  "process_identifier h c reg event_type params payload op =
    (case get_schema reg event_type of
       Some schema \<Rightarrow>
         (case op of
            Notify \<Rightarrow> process_notify_request h c schema params payload
          | Watch \<Rightarrow> process_streaming_request h c schema params ''watch''
          | Replay \<Rightarrow> process_streaming_request h c schema params ''replay'')
     | None \<Rightarrow>
         if reg_strict reg
         then bail (''unknown event type '' @ qt event_type @ ''. Configured event types: '' @
                    debug_list h (get_schema_names reg))
         else map_res (\<lambda>ps. (ps, [], None)) (process_generic_request h params op))"

definition routing_params :: "event_schema \<Rightarrow> operation \<Rightarrow> string alist \<Rightarrow> string alist" where
  "routing_params schema op canonicalized =
    (if (op = Watch \<or> op = Replay) \<and>
        (case es_topic schema of Some tc \<Rightarrow> ''polygon'' \<in> set (tc_key_order tc) | None \<Rightarrow> False) \<and>
        has_key canonicalized ''polygon''
     then AList.update ''polygon'' ''*'' canonicalized
     else canonicalized)"

definition process_request_with_values ::
  "host \<Rightarrow> 'd chrono \<Rightarrow> registry \<Rightarrow> string \<Rightarrow> json alist \<Rightarrow> json option \<Rightarrow> operation \<Rightarrow>
   err + processing_result" where
  "process_request_with_values h c reg event_type params payload op =
    (let schema = get_schema reg event_type in
     bind_res (validate_topic_base (base_of_schema schema event_type)) (\<lambda>_.
     bind_res (process_identifier h c reg event_type params payload op) (\<lambda>(canonicalized, cons, meta).
     bind_res
       (case schema of
          Some s \<Rightarrow> build_topic_with_schema event_type s (routing_params s op canonicalized)
        | None \<Rightarrow> Inr (build_generic_topic event_type canonicalized)) (\<lambda>topic.
     Inr \<lparr>pr_event_type = event_type, pr_topic = topic, pr_params = canonicalized,
          pr_constraints = cons, pr_spatial = meta, pr_from_schema = (schema \<noteq> None)\<rparr>))))"

definition process_request ::
  "host \<Rightarrow> 'd chrono \<Rightarrow> registry \<Rightarrow> string \<Rightarrow> string alist \<Rightarrow> json option \<Rightarrow> operation \<Rightarrow>
   err + processing_result" where
  "process_request h c reg event_type params payload op =
     process_request_with_values h c reg event_type (map (\<lambda>(k, v). (k, JString v)) params) payload op"

section \<open>Facts\<close>

lemma validate_field_cloud:
  "validate_and_canonicalize_field h c f v (PointCloudHandler r mx) =
   bind_res (map_err point_cloud_error_chain (validate_cloud h v mx f)) (\<lambda>p. Inr (json_print h (snd p)))"
  by (cases "validate_cloud h v mx f") (simp_all add: validate_and_canonicalize_field_def cloud_canon_def)

lemma notify_field_token:
  assumes "notify_field h c params f rule acc = Inr acc'"
  shows "\<exists>v w. map_of params f = Some v \<and> \<not> is_object v \<and>
           validate_and_canonicalize_field h c f v rule = Inr w \<and> fst acc' = AList.update f w (fst acc)"
proof (cases "is_point_cloud_rule rule")
  case True
  then obtain r mx where "rule = PointCloudHandler r mx" by (cases rule) auto
  then show ?thesis using assms
    by (auto simp: notify_field_def result_simps validate_field_cloud split: if_splits)
next
  case False
  then show ?thesis using assms
    by (cases rule) (auto simp: notify_field_def result_simps split: if_splits)
qed

lemma notify_fields_map:
  assumes "wf_map idfs" "notify_fields h c params idfs acc = Inr acc'"
  shows "(\<forall>f fc. map_of idfs f = Some fc \<longrightarrow>
            (\<exists>v w. map_of params f = Some v \<and> \<not> is_object v \<and>
               validate_and_canonicalize_field h c f v (if_rule fc) = Inr w \<and>
               map_of (fst acc') f = Some w)) \<and>
         (\<forall>f. map_of idfs f = None \<longrightarrow> map_of (fst acc') f = map_of (fst acc) f)"
  using assms
proof (induction idfs arbitrary: acc)
  case (Cons x rest)
  obtain f fc where x: "x = (f, fc)" by (cases x)
  obtain acc1 where a: "notify_field h c params f (if_rule fc) acc = Inr acc1"
      "notify_fields h c params rest acc1 = Inr acc'"
    using Cons.prems(2) by (auto simp: x result_simps)
  have f: "map_of rest f = None" using Cons.prems(1) by (simp add: x map_of_eq_None_iff)
  note IH = Cons.IH [OF _ a(2)]
  obtain v w where "map_of params f = Some v" "\<not> is_object v"
      "validate_and_canonicalize_field h c f v (if_rule fc) = Inr w" "fst acc1 = AList.update f w (fst acc)"
    using notify_field_token [OF a(1)] by blast
  then show ?case using IH f Cons.prems(1) by (auto simp: x map_of_update)
qed simp

lemma process_notify_map:
  assumes "wf_map (es_identifier schema)" "process_notify_request h c schema params payload = Inr (ps, cons, meta)"
  shows "(\<forall>f fc. map_of (es_identifier schema) f = Some fc \<longrightarrow>
            (\<exists>v w. map_of params f = Some v \<and> \<not> is_object v \<and>
               validate_and_canonicalize_field h c f v (if_rule fc) = Inr w \<and> map_of ps f = Some w)) \<and>
         (\<forall>f. map_of (es_identifier schema) f = None \<longrightarrow> map_of ps f = None) \<and> cons = []"
proof -
  have "notify_fields h c params (es_identifier schema) ([], None) = Inr (ps, meta)" "cons = []"
    using assms(2) by (auto simp: process_notify_request_def result_simps split: option.splits)
  then show ?thesis using notify_fields_map [OF assms(1)] by fastforce
qed

lemma notify_known_fields:
  assumes "process_notify_request h c schema params payload = Inr r" "(f, v) \<in> set params"
  shows "has_key (es_identifier schema) f"
proof -
  have "find (\<lambda>(f, _). \<not> has_key (es_identifier schema) f) params = None"
    using assms(1) by (auto simp: process_notify_request_def split: option.splits)
  then show ?thesis using assms(2) by (auto simp: find_None_iff simp del: has_key_iff)
qed

definition streaming_value ::
  "host \<Rightarrow> 'd chrono \<Rightarrow> json alist \<Rightarrow> string \<Rightarrow> validation_rules \<Rightarrow> string \<Rightarrow> bool" where
  "streaming_value h c params f rule w =
    (case map_of params f of
       Some v \<Rightarrow> if is_object v then w = ''*'' else validate_and_canonicalize_field h c f v rule = Inr w
     | None \<Rightarrow> w = ''*'')"

definition streaming_constraint ::
  "host \<Rightarrow> json alist \<Rightarrow> string \<Rightarrow> validation_rules \<Rightarrow> identifier_constraint option \<Rightarrow> bool" where
  "streaming_constraint h params f rule con =
    (case map_of params f of
       Some v \<Rightarrow> if is_object v then (\<exists>x. con = Some x \<and> parse_identifier_constraint h f v rule = Inr x)
                 else con = None
     | None \<Rightarrow> con = None)"

lemma streaming_field_cases:
  assumes "streaming_field h c params op f rule acc = Inr acc'"
  shows "(\<exists>w. fst acc' = AList.update f w (fst acc) \<and> streaming_value h c params f rule w) \<and>
    (\<exists>con. streaming_constraint h params f rule con \<and>
       snd acc' = (case con of Some x \<Rightarrow> AList.update f x (snd acc) | None \<Rightarrow> snd acc))"
  using assms
  by (auto simp: streaming_field_def streaming_value_def streaming_constraint_def result_simps
      split: option.splits if_splits)

lemma streaming_fields_map:
  assumes "wf_map idfs" "streaming_fields h c params op idfs acc = Inr acc'"
  shows "(\<forall>f fc. map_of idfs f = Some fc \<longrightarrow>
            (\<exists>w. map_of (fst acc') f = Some w \<and> streaming_value h c params f (if_rule fc) w)) \<and>
         (\<forall>f. map_of idfs f = None \<longrightarrow>
            map_of (fst acc') f = map_of (fst acc) f \<and> map_of (snd acc') f = map_of (snd acc) f)"
  using assms
proof (induction idfs arbitrary: acc)
  case (Cons x rest)
  obtain f fc where x: "x = (f, fc)" by (cases x)
  obtain acc1 where a: "streaming_field h c params op f (if_rule fc) acc = Inr acc1"
      "streaming_fields h c params op rest acc1 = Inr acc'"
    using Cons.prems(2) by (auto simp: x result_simps)
  have f: "map_of rest f = None" using Cons.prems(1) by (simp add: x map_of_eq_None_iff)
  note IH = Cons.IH [OF _ a(2)]
  obtain w con where "fst acc1 = AList.update f w (fst acc)" "streaming_value h c params f (if_rule fc) w"
      "snd acc1 = (case con of Some y \<Rightarrow> AList.update f y (snd acc) | None \<Rightarrow> snd acc)"
    using streaming_field_cases [OF a(1)] by blast
  then show ?case using IH f Cons.prems(1) by (auto simp: x map_of_update split: option.splits)
qed simp

lemma streaming_fields_constraints:
  assumes "wf_map idfs" "streaming_fields h c params op idfs acc = Inr acc'"
    "map_of idfs f = Some fc" "map_of (snd acc) f = None"
  shows "streaming_constraint h params f (if_rule fc) (map_of (snd acc') f)"
  using assms
proof (induction idfs arbitrary: acc)
  case (Cons x rest)
  obtain g gc where x: "x = (g, gc)" by (cases x)
  obtain acc1 where a: "streaming_field h c params op g (if_rule gc) acc = Inr acc1"
      "streaming_fields h c params op rest acc1 = Inr acc'"
    using Cons.prems(2) by (auto simp: x result_simps)
  obtain con where con: "streaming_constraint h params g (if_rule gc) con"
      "snd acc1 = (case con of Some y \<Rightarrow> AList.update g y (snd acc) | None \<Rightarrow> snd acc)"
    using streaming_field_cases [OF a(1)] by blast
  have wf: "wf_map rest" using Cons.prems(1) by (simp add: x)
  show ?case
  proof (cases "f = g")
    case True
    then have "map_of rest f = None" using Cons.prems(1) by (simp add: x map_of_eq_None_iff)
    then have "map_of (snd acc') f = map_of (snd acc1) f"
      using streaming_fields_map [OF wf a(2)] by blast
    then show ?thesis using con True Cons.prems(3,4) by (cases con) (auto simp: x map_of_update)
  next
    case False
    then have "map_of (snd acc1) f = None"
      using con(2) Cons.prems(4) by (cases con) (auto simp: map_of_update)
    then show ?thesis using Cons.IH [OF wf a(2)] Cons.prems(3) False by (simp add: x)
  qed
qed simp

lemma add_point_filter_other:
  "add_point_filter h params m = Inr m' \<Longrightarrow> f \<noteq> ''point'' \<Longrightarrow> map_of m' f = map_of m f"
  by (auto simp: add_point_filter_def result_simps map_of_update split: option.splits if_splits)

lemma add_polygon_filter_other:
  "add_polygon_filter h schema params m = Inr m' \<Longrightarrow> f \<noteq> ''polygon'' \<Longrightarrow> map_of m' f = map_of m f"
  by (auto simp: add_polygon_filter_def result_simps map_of_update split: option.splits if_splits)

lemma process_streaming_parts:
  assumes "process_streaming_request h c schema params op = Inr (ps, cons, meta)"
  obtains canon where "streaming_fields h c params op (es_identifier schema) ([], []) = Inr (canon, cons)"
    "\<forall>f. f \<noteq> ''point'' \<and> f \<noteq> ''polygon'' \<longrightarrow> map_of ps f = map_of canon f" "meta = None"
proof -
  obtain canon m where m: "streaming_fields h c params op (es_identifier schema) ([], []) = Inr (canon, cons)"
      "add_point_filter h params canon = Inr m" "add_polygon_filter h schema params m = Inr ps" "meta = None"
    using assms
    by (auto simp: process_streaming_request_def result_simps split: if_splits option.splits)
  then show thesis using that add_point_filter_other add_polygon_filter_other by metis
qed

end
