(* ===== verification/Matcher.thy ===== *)
theory Matcher
  imports Processor
begin

text \<open>
  Pattern analysis and filtering for watch and replay,
  \<open>src/notification/wildcard_matcher.rs\<close>. A watch subject is split into a coarse pattern
  for the backend and the decoded token pattern for the application filter; identifier
  constraints and the spatial filter are applied to each candidate. The global schema is
  the argument \<open>global\<close>; geometry is the record \<open>geo\<close>.
\<close>

section \<open>Patterns\<close>

definition coarse_pattern :: "string \<Rightarrow> string list \<Rightarrow> string" where
  "coarse_pattern watch_topic full =
    (case position (\<lambda>part. part = ''*'') full of
       Some pos \<Rightarrow>
         if pos > 1 then encode_subject (take pos full) @ ''.>''
         else encode_token (case first_of full of Some b \<Rightarrow> b | None \<Rightarrow> ''unknown'') @ ''.>''
     | None \<Rightarrow>
         if length full > 1 then encode_subject (take (length full - 1) full) @ ''.>''
         else watch_topic @ ''.>'')"

definition analyze_watch_pattern :: "string \<Rightarrow> err + (string \<times> string list)" where
  "analyze_watch_pattern watch_topic =
     bind_res (with_context (''Failed to decode watch topic pattern '' @ qt watch_topic)
                (decode_subject watch_topic)) (\<lambda>full.
     Inr (coarse_pattern watch_topic full, full))"

definition generate_backend_subscription_pattern :: "string \<Rightarrow> string" where
  "generate_backend_subscription_pattern watch_topic =
    (case analyze_watch_pattern watch_topic of Inr (p, _) \<Rightarrow> p | Inl _ \<Rightarrow> watch_topic @ ''.>'')"

definition matches_watch_pattern :: "string \<Rightarrow> string list \<Rightarrow> bool" where
  "matches_watch_pattern notification_topic watch_pattern =
    (case decode_subject notification_topic of
       Inl _ \<Rightarrow> False
     | Inr parts \<Rightarrow>
         length parts = length watch_pattern \<and>
         list_all (\<lambda>(n, p). \<not> (p \<noteq> ''*'' \<and> p \<noteq> n)) (zip parts watch_pattern))"

section \<open>Identifier constraints\<close>

definition matches_constraint_value :: "host \<Rightarrow> string \<Rightarrow> identifier_constraint \<Rightarrow> bool" where
  "matches_constraint_value h raw con =
    (case con of
       ICInt c \<Rightarrow> (case parse_i64 raw of Inr v \<Rightarrow> int_matches c v | Inl _ \<Rightarrow> False)
     | ICEnum c \<Rightarrow> enum_matches h c raw
     | ICFloat c \<Rightarrow> (case parse_f64 raw of Some v \<Rightarrow> float_matches c v | None \<Rightarrow> False))"

fun resolve_event_type :: "string \<Rightarrow> schema_map \<Rightarrow> string option" where
  "resolve_event_type topic_base [] = None"
| "resolve_event_type topic_base ((event_type, schema) # rest) =
    (case es_topic schema of
       Some tc \<Rightarrow> if tc_base tc = topic_base then Some event_type else resolve_event_type topic_base rest
     | None \<Rightarrow> resolve_event_type topic_base rest)"

definition resolve_event_type_from_topic_base :: "string list \<Rightarrow> schema_map \<Rightarrow> string option" where
  "resolve_event_type_from_topic_base decoded schemas =
     Option.bind (first_of decoded) (\<lambda>b. resolve_event_type b schemas)"

definition constraint_on_token ::
  "host \<Rightarrow> topic_config \<Rightarrow> string list \<Rightarrow> string \<times> identifier_constraint \<Rightarrow> bool" where
  "constraint_on_token h tc decoded fc =
    (case position (\<lambda>key. key = fst fc) (tc_key_order tc) of
       None \<Rightarrow> False
     | Some p \<Rightarrow>
    (case get_at decoded (p + 1) of
       None \<Rightarrow> False
     | Some raw \<Rightarrow>
         if raw = [] \<or> raw = ''*'' then False else matches_constraint_value h raw (snd fc)))"

definition matches_identifier_constraints_fast_path ::
  "host \<Rightarrow> string list \<Rightarrow> string \<Rightarrow> identifier_constraint alist \<Rightarrow> schema_map \<Rightarrow> bool option" where
  "matches_identifier_constraints_fast_path h decoded event_type cons schemas =
     Option.bind (map_of schemas event_type) (\<lambda>schema.
     Option.bind (es_topic schema) (\<lambda>tc.
       if first_of decoded \<noteq> Some (tc_base tc) then Some False
       else Some (list_all (constraint_on_token h tc decoded) cons)))"

definition matches_identifier_map ::
  "host \<Rightarrow> string alist \<Rightarrow> identifier_constraint alist \<Rightarrow> bool" where
  "matches_identifier_map h identifier cons =
     list_all (\<lambda>(f, con). case map_of identifier f of
       None \<Rightarrow> False | Some raw \<Rightarrow> matches_constraint_value h raw con) cons"

definition matches_identifier_constraints ::
  "host \<Rightarrow> schema_map option \<Rightarrow> string \<Rightarrow> identifier_constraint alist \<Rightarrow> bool" where
  "matches_identifier_constraints h global topic cons =
    (case global of
       None \<Rightarrow> False
     | Some schemas \<Rightarrow>
    (case decode_subject topic of
       Inl _ \<Rightarrow> False
     | Inr decoded \<Rightarrow>
    (case resolve_event_type_from_topic_base decoded schemas of
       None \<Rightarrow> False
     | Some event_type \<Rightarrow>
    (case matches_identifier_constraints_fast_path h decoded event_type cons schemas of
       Some matched \<Rightarrow> matched
     | None \<Rightarrow>
    (case topic_to_request global topic event_type of
       Inl _ \<Rightarrow> False
     | Inr identifier \<Rightarrow> matches_identifier_map h identifier cons)))))"

section \<open>The spatial filter\<close>

definition SPATIAL_GEOMETRY_METADATA_KEY :: string where
  "SPATIAL_GEOMETRY_METADATA_KEY = ''spatial_geometry''"
definition SPATIAL_BBOX_METADATA_KEY :: string where
  "SPATIAL_BBOX_METADATA_KEY = ''spatial_bbox''"
definition SPATIAL_POINT_CLOUD_METADATA_KEY :: string where
  "SPATIAL_POINT_CLOUD_METADATA_KEY = ''spatial_point_cloud''"

abbreviation swap_lonlat :: "coordinate \<Rightarrow> f64 \<times> f64" where
  "swap_lonlat c \<equiv> (snd c, fst c)"

record ('poly, 'rect) prepared_filter =
  pf_polygon :: 'poly
  pf_bounding_box :: 'rect

definition prepare_spatial_filter ::
  "host \<Rightarrow> ('poly, 'rect) geo \<Rightarrow> string alist \<Rightarrow> ('poly, 'rect) prepared_filter option" where
  "prepare_spatial_filter h g request =
     Option.bind (map_of request ''polygon'') (\<lambda>request_polygon.
       if request_polygon = ''*'' then None
       else Option.bind (ok (parse_polygon_coordinates h request_polygon)) (\<lambda>cs.
         (let polygon = geo_polygon g (map swap_lonlat cs)
          in map_option (\<lambda>b. \<lparr>pf_polygon = polygon, pf_bounding_box = b\<rparr>)
               (geo_bounding_rect g polygon))))"

definition parse_bbox :: "('poly, 'rect) geo \<Rightarrow> string \<Rightarrow> 'rect option" where
  "parse_bbox g s =
    (case collect_opt (map (\<lambda>part. parse_f64 (trim part)) (split_on CHR '','' s)) of
       Some [min_lat, min_lon, max_lat, max_lon] \<Rightarrow> Some (geo_rect g (min_lon, min_lat) (max_lon, max_lat))
     | _ \<Rightarrow> None)"

definition extract_candidate_bbox :: "('poly, 'rect) geo \<Rightarrow> string alist option \<Rightarrow> 'rect option" where
  "extract_candidate_bbox g metadata =
     Option.bind metadata (\<lambda>m. Option.bind (map_of m SPATIAL_BBOX_METADATA_KEY) (parse_bbox g))"

definition bbox_contains_point :: "('poly, 'rect) geo \<Rightarrow> 'rect \<Rightarrow> f64 \<Rightarrow> f64 \<Rightarrow> bool" where
  "bbox_contains_point g b lon lat =
    (f64_le (fst (rect_min g b)) lon \<and> f64_le lon (fst (rect_max g b)) \<and>
     f64_le (snd (rect_min g b)) lat \<and> f64_le lat (snd (rect_max g b)))"

definition parse_polygon_geometry_str :: "host \<Rightarrow> ('poly, 'rect) geo \<Rightarrow> string \<Rightarrow> 'poly option" where
  "parse_polygon_geometry_str h g s =
     map_option (\<lambda>cs. geo_polygon g (map swap_lonlat cs)) (ok (parse_polygon_coordinates h s))"

definition geojson_pair :: "json \<Rightarrow> coordinate option" where
  "geojson_pair pair =
     Option.bind (Option.bind (json_at 0 pair) as_f64) (\<lambda>lat.
     Option.bind (Option.bind (json_at 1 pair) as_f64) (\<lambda>lon. Some (lat, lon)))"

definition extract_polygon_from_geojson :: "('poly, 'rect) geo \<Rightarrow> json alist \<Rightarrow> 'poly option" where
  "extract_polygon_from_geojson g obj =
     Option.bind (Option.bind (map_of obj ''type'') as_str) (\<lambda>geo_type.
       if geo_type \<noteq> ''Polygon'' then None
       else Option.bind (map_of obj ''coordinates'') (\<lambda>coords.
            Option.bind (Option.bind (as_array coords) first_of) (\<lambda>outer.
            Option.bind (as_array outer) (\<lambda>inner.
              (let cs = List.map_filter geojson_pair inner
               in if length cs < 3 then None else Some (geo_polygon g (map swap_lonlat cs)))))))"

definition try_polygon_from_metadata ::
  "host \<Rightarrow> ('poly, 'rect) geo \<Rightarrow> string alist option \<Rightarrow> 'poly option" where
  "try_polygon_from_metadata h g metadata =
     Option.bind metadata (\<lambda>m.
     Option.bind (map_of m SPATIAL_GEOMETRY_METADATA_KEY) (parse_polygon_geometry_str h g))"

definition try_polygon_from_payload :: "host \<Rightarrow> ('poly, 'rect) geo \<Rightarrow> string \<Rightarrow> 'poly option" where
  "try_polygon_from_payload h g payload =
     Option.bind (ok (json_parse h payload)) (\<lambda>v.
     Option.bind (json_get ''spatial_geometry'' v) (\<lambda>geom.
       case as_object geom of
         Some obj \<Rightarrow> extract_polygon_from_geojson g obj
       | None \<Rightarrow> Option.bind (as_str geom) (parse_polygon_geometry_str h g)))"

definition extract_candidate_polygon ::
  "host \<Rightarrow> ('poly, 'rect) geo \<Rightarrow> string alist option \<Rightarrow> string \<Rightarrow> 'poly option" where
  "extract_candidate_polygon h g metadata payload =
    (case try_polygon_from_metadata h g metadata of
       Some p \<Rightarrow> Some p
     | None \<Rightarrow> try_polygon_from_payload h g payload)"

definition extract_candidate_point_cloud :: "host \<Rightarrow> string alist option \<Rightarrow> coordinate list option" where
  "extract_candidate_point_cloud h metadata =
     Option.bind metadata (\<lambda>m.
     Option.bind (map_of m SPATIAL_POINT_CLOUD_METADATA_KEY) (\<lambda>serialized.
     Option.bind (ok (json_parse h serialized)) (\<lambda>v.
     ok (parse_cloud_coordinates v HARD_MAX_POINTS ''point_cloud''))))"

definition matches_point_spatial_filter ::
  "host \<Rightarrow> ('poly, 'rect) geo \<Rightarrow> string \<Rightarrow> string alist option \<Rightarrow> string \<Rightarrow> bool" where
  "matches_point_spatial_filter h g request_point metadata payload =
    (case parse_point_coordinates h request_point of
       Inl _ \<Rightarrow> False
     | Inr (lat, lon) \<Rightarrow>
         if (case extract_candidate_bbox g metadata of
               Some b \<Rightarrow> \<not> bbox_contains_point g b lon lat | None \<Rightarrow> False)
         then False
         else (case extract_candidate_polygon h g metadata payload of
                 None \<Rightarrow> False
               | Some poly \<Rightarrow> poly_contains_point g poly (lon, lat)))"

definition matches_polygon_spatial_filter ::
  "host \<Rightarrow> ('poly, 'rect) geo \<Rightarrow> ('poly, 'rect) prepared_filter option \<Rightarrow> string alist option \<Rightarrow> string \<Rightarrow> bool" where
  "matches_polygon_spatial_filter h g prepared metadata payload =
    (case prepared of
       None \<Rightarrow> False
     | Some flt \<Rightarrow>
    (case extract_candidate_bbox g metadata of
       None \<Rightarrow> False
     | Some b \<Rightarrow>
         if \<not> rect_intersects g b (pf_bounding_box flt) then False
         else (case extract_candidate_point_cloud h metadata of
                 Some cloud \<Rightarrow> list_ex (\<lambda>c. poly_intersects_point g (pf_polygon flt) (swap_lonlat c)) cloud
               | None \<Rightarrow>
            (case extract_candidate_polygon h g metadata payload of
               None \<Rightarrow> False
             | Some poly \<Rightarrow> poly_intersects g poly (pf_polygon flt)))))"

section \<open>All filters of a request\<close>

definition matches_notification_filters_prepared ::
  "host \<Rightarrow> ('poly, 'rect) geo \<Rightarrow> schema_map option \<Rightarrow> string \<Rightarrow> string alist \<Rightarrow>
   identifier_constraint alist \<Rightarrow> ('poly, 'rect) prepared_filter option \<Rightarrow> string alist option \<Rightarrow> string \<Rightarrow> bool" where
  "matches_notification_filters_prepared h g global topic request cons prepared metadata payload =
    (if cons \<noteq> [] \<and> \<not> matches_identifier_constraints h global topic cons then False
     else (let has_explicit_polygon = (case map_of request ''polygon'' of
                 Some p \<Rightarrow> p \<noteq> ''*'' | None \<Rightarrow> False) in
       if has_explicit_polygon \<and> has_key request ''point'' then False
       else (case map_of request ''point'' of
               Some p \<Rightarrow> matches_point_spatial_filter h g p metadata payload
             | None \<Rightarrow>
            (case map_of request ''polygon'' of
               None \<Rightarrow> True
             | Some p \<Rightarrow>
                 if p = ''*'' then True
                 else matches_polygon_spatial_filter h g prepared metadata payload))))"

definition matches_notification_filters ::
  "host \<Rightarrow> ('poly, 'rect) geo \<Rightarrow> schema_map option \<Rightarrow> string \<Rightarrow> string alist \<Rightarrow>
   identifier_constraint alist \<Rightarrow> string alist option \<Rightarrow> string \<Rightarrow> bool" where
  "matches_notification_filters h g global topic request cons metadata payload =
     matches_notification_filters_prepared h g global topic request cons
       (prepare_spatial_filter h g request) metadata payload"

section \<open>Facts\<close>

lemma matches_watch_pattern_iff:
  assumes "decode_subject topic = Inr parts"
  shows "matches_watch_pattern topic pat \<longleftrightarrow>
         length parts = length pat \<and> (\<forall>i<length pat. pat ! i = ''*'' \<or> pat ! i = parts ! i)"
  using assms by (auto simp: matches_watch_pattern_def list_all_length)

lemma map_Some_nth:
  assumes "map f ks = map Some vs" "i < length ks"
  shows "f (ks ! i) = Some (vs ! i)"
proof -
  have "map f ks ! i = map Some vs ! i" using assms(1) by simp
  moreover have "length vs = length ks" using arg_cong [OF assms(1), of length] by simp
  ultimately show ?thesis using assms(2) by simp
qed

lemma all_keys_nth: "(\<forall>k\<in>set ks. P k) \<longleftrightarrow> (\<forall>i<length ks. P (ks ! i))"
  by (metis in_set_conv_nth)

text \<open>Two subjects built from the same topic configuration.\<close>
lemma built_topics_match:
  assumes "es_topic schema = Some tc" "valid_utf8 (tc_base tc)"
    "build_topic_with_schema et schema pn = Inr tn" "valid_params (tc_key_order tc) pn"
    "build_topic_with_schema et' schema pw = Inr tw" "valid_params (tc_key_order tc) pw"
  shows "\<exists>full. analyze_watch_pattern tw = Inr (coarse_pattern tw full, full) \<and>
           length full = Suc (length (tc_key_order tc)) \<and>
           (matches_watch_pattern tn full \<longleftrightarrow>
            (\<forall>k\<in>set (tc_key_order tc). map_of pw k = Some ''*'' \<or> map_of pw k = map_of pn k))"
proof -
  let ?ks = "tc_key_order tc"
  obtain vn where vn: "map (map_of pn) ?ks = map Some vn" "decode_subject tn = Inr (tc_base tc # vn)"
    using decode_built_topic [OF assms(1,3,2,4)] by blast
  obtain vw where vw: "map (map_of pw) ?ks = map Some vw" "decode_subject tw = Inr (tc_base tc # vw)"
    using decode_built_topic [OF assms(1,5,2,6)] by blast
  have len: "length vn = length ?ks" "length vw = length ?ks"
    using vn(1) vw(1) by (metis length_map)+
  have "matches_watch_pattern tn (tc_base tc # vw) \<longleftrightarrow>
        (\<forall>i<length ?ks. vw ! i = ''*'' \<or> vw ! i = vn ! i)"
    using matches_watch_pattern_iff [OF vn(2), of "tc_base tc # vw"] len
    by (auto simp: less_Suc_eq_0_disj)
  also have "\<dots> \<longleftrightarrow> (\<forall>i<length ?ks. map_of pw (?ks ! i) = Some ''*'' \<or> map_of pw (?ks ! i) = map_of pn (?ks ! i))"
    using map_Some_nth [OF vn(1)] map_Some_nth [OF vw(1)] by auto
  finally show ?thesis using vw(2) len
    by (auto simp: analyze_watch_pattern_def all_keys_nth)
qed

text \<open>The subjects a coarse pattern \<open>prefix.>\<close> selects: one or more further tokens.\<close>
definition covers :: "string \<Rightarrow> string \<Rightarrow> bool" where
  "covers pattern subject =
    (case strip_suffix ''>'' pattern of
       Some p \<Rightarrow> starts_with p subject \<and> length p < length subject
     | None \<Rightarrow> subject = pattern)"

lemma strip_suffix_append [simp]: "strip_suffix t (s @ t) = Some s"
  by (simp add: strip_suffix_def ends_with_def)

lemma covers_gt: "covers (p @ ''.>'') subject \<longleftrightarrow> starts_with (p @ ''.'') subject \<and> length p + 1 < length subject"
  using strip_suffix_append [of "''>''" "p @ ''.''"] by (simp add: covers_def)

lemma strict_prefix_covers:
  assumes "ps \<noteq> []" "qs = ps @ rest" "rest \<noteq> []" "encode_subject rest \<noteq> []"
  shows "covers (encode_subject ps @ ''.>'') (encode_subject qs)"
  using assms by (auto simp: covers_gt encode_subject_def join_append starts_with_iff)

lemma take_match:
  assumes "length parts = length pat" "\<forall>i<length pat. pat ! i = ''*'' \<or> pat ! i = parts ! i"
    "n \<le> length pat" "\<forall>i<n. pat ! i \<noteq> ''*''"
  shows "take n pat = take n parts"
proof (rule nth_equalityI)
  show "length (take n pat) = length (take n parts)" using assms(1) by simp
  fix i assume "i < length (take n pat)"
  then have "i < length pat" "pat ! i \<noteq> ''*''" "i < n" using assms(3,4) by auto
  then show "take n pat ! i = take n parts ! i" using assms(2) by (metis nth_take)
qed

lemma coarse_prefix:
  assumes "length full > 1"
  obtains n where "0 < n" "n < length full" "\<forall>i<n. 0 < i \<longrightarrow> full ! i \<noteq> ''*''"
    "coarse_pattern tw full = encode_subject (take n full) @ ''.>''"
proof (cases "position (\<lambda>part. part = ''*'') full")
  case None
  then have "\<forall>x\<in>set full. x \<noteq> ''*''" by (simp add: position_None_iff)
  then show thesis using that [of "length full - 1"] assms None
    by (auto simp: coarse_pattern_def)
next
  case (Some pos)
  then have pos: "pos < length full" "\<forall>j<pos. full ! j \<noteq> ''*''" by (auto dest: position_SomeD)
  show thesis
  proof (cases "pos > 1")
    case True
    then show thesis using that [of pos] pos Some by (auto simp: coarse_pattern_def)
  next
    case False
    obtain b r where "full = b # r" using assms by (cases full) auto
    then show thesis using that [of 1] False Some assms
      by (simp add: coarse_pattern_def encode_subject_def)
  qed
qed

lemma coarse_covers:
  assumes "matches_watch_pattern (encode_subject parts) full" "parts \<noteq> []" "\<forall>p\<in>set parts. valid_utf8 p"
    "length full > 1" "hd full \<noteq> ''*''" "list_all (\<lambda>p. p \<noteq> []) parts"
  shows "covers (coarse_pattern tw full) (encode_subject parts)"
proof -
  have dec: "decode_subject (encode_subject parts) = Inr parts"
    using assms(2,3) by (rule decode_encode_subject)
  note m = assms(1) [unfolded matches_watch_pattern_iff [OF dec]]
  obtain n where n: "0 < n" "n < length full" "\<forall>i<n. 0 < i \<longrightarrow> full ! i \<noteq> ''*''"
      "coarse_pattern tw full = encode_subject (take n full) @ ''.>''"
    using coarse_prefix [OF assms(4)] by blast
  have "\<forall>i<n. full ! i \<noteq> ''*''" using n(3) assms(4,5) by (metis gr0I hd_conv_nth list.size(3) not_less_zero)
  then have tk: "take n full = take n parts" using take_match [of parts full n] m n(2) by simp
  obtain r rs where rs: "drop n parts = r # rs" using m n(2) by (cases "drop n parts") auto
  then have "r \<in> set parts" by (metis in_set_dropD list.set_intros(1))
  then have "r \<noteq> []" using assms(6) by (auto simp: list_all_iff)
  then have "encode_token r \<noteq> []" by (cases r) auto
  then have "encode_subject (drop n parts) \<noteq> []"
    unfolding encode_subject_def rs by (cases rs) (auto simp: join_Cons)
  moreover have "take n parts \<noteq> []" using n(1) assms(2) by simp
  ultimately show ?thesis unfolding n(4) tk
    using strict_prefix_covers [of "take n parts" parts "drop n parts"] rs
    by (metis append_take_drop_id list.distinct(1))
qed

section \<open>The fast path for constraints\<close>

lemma map_of_request_of_parts_distinct:
  assumes "distinct ks"
  shows "map_of (request_of_parts i parts ks req) k =
    (case position (\<lambda>x. x = k) ks of
       None \<Rightarrow> map_of req k
     | Some p \<Rightarrow> (case get_at parts (i + p + 1) of
         None \<Rightarrow> map_of req k
       | Some v \<Rightarrow> if v = [] \<or> v = ''*'' then map_of req k else Some v))"
  using assms
proof (induction ks arbitrary: i req)
  case (Cons key ks)
  show ?case
  proof (cases "key = k")
    case True
    then have "position (\<lambda>x. x = k) ks = None" using Cons.prems by (auto simp: position_None_iff)
    then show ?thesis using Cons True by (auto simp: map_of_update split: option.splits)
  next
    case False
    then show ?thesis using Cons
      by (auto simp: map_of_update split: option.splits)
  qed
qed simp

lemma fast_path_fallback:
  assumes "map_of schemas et = Some schema" "es_topic schema = Some tc" "decode_subject topic = Inr decoded"
    "distinct (tc_key_order tc)"
  shows "matches_identifier_constraints_fast_path h decoded et cons schemas =
         Some (case topic_to_request (Some schemas) topic et of
                 Inr identifier \<Rightarrow> matches_identifier_map h identifier cons | Inl _ \<Rightarrow> False)"
proof (cases "first_of decoded = Some (tc_base tc)")
  case False
  then show ?thesis using assms
    by (simp add: matches_identifier_constraints_fast_path_def topic_to_request_def parse_topic_with_schema_def bail_def)
next
  case True
  have "constraint_on_token h tc decoded fc \<longleftrightarrow>
      (case map_of (request_of_parts 0 decoded (tc_key_order tc) []) (fst fc) of
         None \<Rightarrow> False | Some raw \<Rightarrow> matches_constraint_value h raw (snd fc))" for fc
    by (simp add: constraint_on_token_def map_of_request_of_parts_distinct [OF assms(4)] split: option.splits)
  then have "list_all (constraint_on_token h tc decoded) cons =
      matches_identifier_map h (request_of_parts 0 decoded (tc_key_order tc) []) cons"
    by (simp add: matches_identifier_map_def list_all_iff split_beta)
  then show ?thesis using assms True
    by (simp add: matches_identifier_constraints_fast_path_def topic_to_request_def parse_topic_with_schema_def)
qed

lemma resolve_event_type_Some:
  assumes "resolve_event_type b schemas = Some et" "wf_map schemas"
  shows "\<exists>schema tc. map_of schemas et = Some schema \<and> es_topic schema = Some tc \<and> tc_base tc = b"
  using assms
proof (induction schemas)
  case (Cons x rest)
  obtain e s where x: "x = (e, s)" by (cases x)
  show ?case
  proof (cases "\<exists>tc. es_topic s = Some tc \<and> tc_base tc = b")
    case True
    then show ?thesis using Cons.prems by (auto simp: x)
  next
    case False
    then have r: "resolve_event_type b rest = Some et"
      using Cons.prems(1) by (auto simp: x split: option.splits if_splits)
    have "e \<notin> fst ` set rest" "wf_map rest" using Cons.prems(2) by (auto simp: x)
    then obtain schema tc where "map_of rest et = Some schema" "es_topic schema = Some tc" "tc_base tc = b"
      using Cons.IH [OF r] by blast
    moreover have "et \<noteq> e" using \<open>map_of rest et = Some schema\<close> \<open>e \<notin> fst ` set rest\<close>
      by (metis map_of_eq_None_iff option.discI)
    ultimately show ?thesis by (simp add: x)
  qed
qed simp

fun bases_of :: "schema_map \<Rightarrow> string list" where
  "bases_of [] = []"
| "bases_of ((_, s) # rest) =
    (case es_topic s of Some tc \<Rightarrow> tc_base tc # bases_of rest | None \<Rightarrow> bases_of rest)"

lemma bases_of_mem: "(et, s) \<in> set m \<Longrightarrow> es_topic s = Some tc \<Longrightarrow> tc_base tc \<in> set (bases_of m)"
  by (induction m) (auto split: option.splits)

lemma resolve_event_type_unique:
  assumes "distinct (bases_of schemas)" "(et, schema) \<in> set schemas" "es_topic schema = Some tc"
  shows "resolve_event_type (tc_base tc) schemas = Some et"
  using assms
proof (induction schemas)
  case (Cons x rest)
  obtain e s where x: "x = (e, s)" by (cases x)
  show ?case
  proof (cases "(et, schema) = (e, s)")
    case True
    then show ?thesis using Cons.prems(3) by (simp add: x)
  next
    case False
    then have inr: "(et, schema) \<in> set rest" using Cons.prems(2) by (auto simp: x)
    then show ?thesis
      using Cons.IH [OF _ inr Cons.prems(3)] bases_of_mem [OF inr Cons.prems(3)] Cons.prems(1)
      by (auto simp: x split: option.splits)
  qed
qed simp

end
