(* ===== verification/Routing.thy ===== *)
theory Routing
  imports Matcher
begin

text \<open>
  Properties of the routing core: the token codec, subjects and their patterns, the request
  processor and the watch filters, with a small weather schema on which each is applied.
\<close>

section \<open>A schema to apply the properties to\<close>

definition sample_host :: host where
  "sample_host = \<lparr>json_parse = (\<lambda>_. Inl ''no JSON''), json_print = (\<lambda>_. []), uni_lower = (\<lambda>s. s),
                  debug_str = (\<lambda>s. s)\<rparr>"

definition sample_chrono :: "unit chrono" where
  "sample_chrono = \<lparr>parse_from_str = (\<lambda>_ _. None), format_date = (\<lambda>_ _. [])\<rparr>"

definition sample_topic :: topic_config where
  "sample_topic = \<lparr>tc_base = ''weather'', tc_key_order = [''region'', ''step'']\<rparr>"

definition sample_schema :: event_schema where
  "sample_schema = \<lparr>es_max_historical = None, es_payload = None, es_topic = Some sample_topic,
     es_endpoint = None,
     es_identifier = [(''step'', \<lparr>if_description = None, if_rule = StringHandler None False\<rparr>),
                      (''region'', \<lparr>if_description = None, if_rule = EnumHandler [''North'', ''south''] True\<rparr>)],
     es_storage_policy = None, es_auth = None\<rparr>"

definition sample_registry :: registry where
  "sample_registry = \<lparr>reg_schemas = [(''wx'', sample_schema)], reg_strict = True\<rparr>"

definition sample_notify :: "json alist" where
  "sample_notify = [(''region'', JString ''NORTH''), (''step'', JString ''a.b'')]"

definition sample_watch :: "json alist" where
  "sample_watch = [(''region'', JString ''north'')]"

lemmas sample_defs = sample_host_def sample_chrono_def sample_topic_def sample_schema_def
  sample_registry_def sample_notify_def sample_watch_def

lemmas process_defs = process_request_with_values_def process_identifier_def get_schema_def
  base_of_schema_def validate_topic_base_def valid_base_def is_alphanumeric_def is_digit_def
  is_upper_def is_lower_def process_notify_request_def process_streaming_request_def
  notify_field_def streaming_field_def validate_and_canonicalize_field_def
  scalar_identifier_value_as_string_def string_canon_def enum_canon_def to_lowercase_def
  to_ascii_lowercase_def ascii_lower_def is_ascii_def is_object_def validate_payload_requirement_def
  build_topic_with_schema_def routing_params_def encode_subject_def is_reserved_char_def
  hex02_def hex_upper_def has_point_cloud_schema_def is_spatial_filter_def add_point_filter_def
  add_polygon_filter_def char_of_def bit_0 bit_Suc

lemma sample_notify_result:
  "process_request_with_values sample_host sample_chrono sample_registry ''wx'' sample_notify None Notify =
   Inr \<lparr>pr_event_type = ''wx'', pr_topic = ''weather.north.a%2Eb'',
        pr_params = [(''step'', ''a.b''), (''region'', ''north'')], pr_constraints = [],
        pr_spatial = None, pr_from_schema = True\<rparr>"
  by (simp add: sample_defs process_defs)

lemma sample_watch_result:
  "process_request_with_values sample_host sample_chrono sample_registry ''wx'' sample_watch None Watch =
   Inr \<lparr>pr_event_type = ''wx'', pr_topic = ''weather.north.%2A'',
        pr_params = [(''step'', ''*''), (''region'', ''north'')], pr_constraints = [],
        pr_spatial = None, pr_from_schema = True\<rparr>"
  by (simp add: sample_defs process_defs)

section \<open>Routing of notifications to watches\<close>

text \<open>
  What the watch request \<open>pw\<close> says about field \<open>k\<close>: nothing, a constraint object (applied
  after routing), or a value whose canonical form is the wildcard or that of the notification.
\<close>
definition selects ::
  "host \<Rightarrow> 'd chrono \<Rightarrow> event_schema \<Rightarrow> json alist \<Rightarrow> json alist \<Rightarrow> string \<Rightarrow> bool" where
  "selects h c schema pw pn k =
    (case (map_of pw k, map_of pn k, map_of (es_identifier schema) k) of
       (None, _, _) \<Rightarrow> True
     | (Some v, Some n, Some fc) \<Rightarrow>
         is_object v \<or>
         (case (validate_and_canonicalize_field h c k v (if_rule fc),
                validate_and_canonicalize_field h c k n (if_rule fc)) of
            (Inr w, Inr w') \<Rightarrow> w = ''*'' \<or> w = w' | _ \<Rightarrow> False)
     | _ \<Rightarrow> False)"

lemma process_success:
  assumes "map_of (reg_schemas reg) et = Some schema" "es_topic schema = Some tc"
    "process_request_with_values h c reg et params payload op = Inr r"
  shows "valid_base (tc_base tc) \<and>
    process_identifier h c reg et params payload op = Inr (pr_params r, pr_constraints r, pr_spatial r) \<and>
    build_topic_with_schema et schema (routing_params schema op (pr_params r)) = Inr (pr_topic r)"
  using assms
  by (auto simp: process_request_with_values_def get_schema_def base_of_schema_def
      validate_topic_base_def result_simps Let_def split: if_splits)

lemma valid_params_routing:
  "valid_params ks m \<Longrightarrow> valid_params ks (routing_params schema op m)"
  by (auto simp: valid_params_def routing_params_def list_all_iff map_of_update valid_utf8_def utf8_error.simps
      is_ascii_def split: option.splits)

lemma routing_params_map:
  assumes "es_topic schema = Some tc" "k \<in> set (tc_key_order tc)" "map_of m k \<noteq> None" "op \<noteq> Notify"
  shows "map_of (routing_params schema op m) k = (if k = ''polygon'' then Some ''*'' else map_of m k)"
  using assms
  by (cases op) (auto simp: routing_params_def map_of_update has_key_def simp del: has_key_iff)

lemma notify_params:
  assumes "map_of (reg_schemas reg) et = Some schema" "es_topic schema = Some tc"
    "wf_map (es_identifier schema)"
    "process_request_with_values h c reg et pn payload Notify = Inr r"
    "map_of (es_identifier schema) k = Some fc"
  shows "\<exists>v w. map_of pn k = Some v \<and> \<not> is_object v \<and>
    validate_and_canonicalize_field h c k v (if_rule fc) = Inr w \<and> map_of (pr_params r) k = Some w"
proof -
  have "process_notify_request h c schema pn payload = Inr (pr_params r, pr_constraints r, pr_spatial r)"
    using process_success [OF assms(1,2,4)] assms(1)
    by (simp add: process_identifier_def get_schema_def)
  then show ?thesis using process_notify_map [OF assms(3)] assms(5) by blast
qed

lemma process_identifier_streaming:
  assumes "map_of (reg_schemas reg) et = Some schema" "op \<noteq> Notify"
  shows "process_identifier h c reg et pw payload op =
         process_streaming_request h c schema pw (op_as_str op)"
  using assms by (cases op) (auto simp: process_identifier_def get_schema_def)

lemma streaming_params:
  assumes "map_of (reg_schemas reg) et = Some schema" "es_topic schema = Some tc" "op \<noteq> Notify"
    "wf_map (es_identifier schema)"
    "process_request_with_values h c reg et pw payload op = Inr r"
    "map_of (es_identifier schema) k = Some fc" "k \<noteq> ''point''" "k \<noteq> ''polygon''"
  shows "\<exists>w. map_of (pr_params r) k = Some w \<and> streaming_value h c pw k (if_rule fc) w"
proof -
  have "process_streaming_request h c schema pw (op_as_str op) =
        Inr (pr_params r, pr_constraints r, pr_spatial r)"
    using process_success [OF assms(1,2,5)] process_identifier_streaming [OF assms(1,3)] by metis
  then obtain canon where
    "streaming_fields h c pw (op_as_str op) (es_identifier schema) ([], []) = Inr (canon, pr_constraints r)"
    "\<forall>f. f \<noteq> ''point'' \<and> f \<noteq> ''polygon'' \<longrightarrow> map_of (pr_params r) f = map_of canon f"
    by (rule process_streaming_parts)
  then show ?thesis
    using streaming_fields_map [OF assms(4)] assms(6,7,8) by (metis fst_conv)
qed

lemma routing_value_polygon:
  assumes "map_of (reg_schemas reg) et = Some schema" "es_topic schema = Some tc" "op \<noteq> Notify"
    "process_request_with_values h c reg et pw payload op = Inr r"
    "''polygon'' \<in> set (tc_key_order tc)"
  shows "map_of (routing_params schema op (pr_params r)) ''polygon'' = Some ''*''"
proof -
  obtain vs where "map (map_of (routing_params schema op (pr_params r))) (tc_key_order tc) = map Some vs"
    using process_success [OF assms(1,2,4)] build_topic_Inr [OF assms(2)] by blast
  then have "map_of (routing_params schema op (pr_params r)) ''polygon'' \<in> set (map Some vs)"
    using assms(5) by (metis image_eqI list.set_map)
  then show ?thesis
    using assms(2,3,5)
    by (cases op) (auto simp: routing_params_def map_of_update has_key_def simp del: has_key_iff
        split: if_splits)
qed

lemma watch_routes:
  assumes "map_of (reg_schemas reg) et = Some schema" "es_topic schema = Some tc"
    "wf_map (es_identifier schema)" "set (tc_key_order tc) \<subseteq> fst ` set (es_identifier schema)"
    "''point'' \<notin> set (tc_key_order tc)" "op \<noteq> Notify"
    "process_request_with_values h c reg et pn payload Notify = Inr rn"
    "process_request_with_values h c reg et pw payload' op = Inr rw"
    "valid_params (tc_key_order tc) (pr_params rn)" "valid_params (tc_key_order tc) (pr_params rw)"
  shows "\<exists>coarse full. analyze_watch_pattern (pr_topic rw) = Inr (coarse, full) \<and>
    (matches_watch_pattern (pr_topic rn) full \<longleftrightarrow>
     (\<forall>k\<in>set (tc_key_order tc). k = ''polygon'' \<or> selects h c schema pw pn k))"
proof -
  note n = process_success [OF assms(1,2,7)] and w = process_success [OF assms(1,2,8)]
  have rn: "routing_params schema Notify (pr_params rn) = pr_params rn"
    by (simp add: routing_params_def)
  let ?rw = "routing_params schema op (pr_params rw)"
  obtain full where full: "analyze_watch_pattern (pr_topic rw) = Inr (coarse_pattern (pr_topic rw) full, full)"
     "matches_watch_pattern (pr_topic rn) full \<longleftrightarrow>
      (\<forall>k\<in>set (tc_key_order tc). map_of ?rw k = Some ''*'' \<or> map_of ?rw k = map_of (pr_params rn) k)"
    using built_topics_match [OF assms(2) _ _ assms(9), of et "pr_topic rn" et ?rw "pr_topic rw"]
      n w valid_base_utf8 valid_params_routing [OF assms(10)] by (auto simp: rn)
  have "map_of ?rw k = Some ''*'' \<or> map_of ?rw k = map_of (pr_params rn) k \<longleftrightarrow>
        k = ''polygon'' \<or> selects h c schema pw pn k" if k: "k \<in> set (tc_key_order tc)" for k
  proof (cases "k = ''polygon''")
    case True
    then show ?thesis using routing_value_polygon [OF assms(1,2,6,8)] k by simp
  next
    case False
    obtain fc where fc: "map_of (es_identifier schema) k = Some fc"
      using k assms(4) by (metis map_of_eq_None_iff not_None_eq subsetD)
    have "k \<noteq> ''point''" using k assms(5) by metis
    then obtain x where x: "map_of (pr_params rw) k = Some x" "streaming_value h c pw k (if_rule fc) x"
      using streaming_params [OF assms(1,2,6,3,8) fc _ False] by blast
    then have "map_of ?rw k = Some x" using routing_params_map [OF assms(2) k _ assms(6)] False by simp
    moreover obtain v y where "map_of pn k = Some v"
        "validate_and_canonicalize_field h c k v (if_rule fc) = Inr y" "map_of (pr_params rn) k = Some y"
      using notify_params [OF assms(1,2,3,7) fc] by blast
    ultimately show ?thesis using False fc x(2)
      by (auto simp: selects_def streaming_value_def split: option.splits if_splits)
  qed
  then show ?thesis using full by auto
qed

text \<open>
  C3: routing is exact. When a notify and a watch (or replay) request of the same event type
  are accepted, the subject of the notification matches the decoded pattern of the watch
  exactly when every field of the key order is selected: it is the polygon (filtered
  afterwards by geometry), the watch leaves it out or gives a constraint object, or both
  values have the same canonical form (or the canonical form is the wildcard).
\<close>
theorem notify_watch_routing:
  assumes "map_of (reg_schemas reg) et = Some schema" "es_topic schema = Some tc"
    "wf_map (es_identifier schema)" "set (tc_key_order tc) \<subseteq> fst ` set (es_identifier schema)"
    "''point'' \<notin> set (tc_key_order tc)" "op \<noteq> Notify"
    "process_request_with_values h c reg et pn payload Notify = Inr rn"
    "process_request_with_values h c reg et pw payload' op = Inr rw"
    "valid_params (tc_key_order tc) (pr_params rn)" "valid_params (tc_key_order tc) (pr_params rw)"
  shows "\<exists>coarse full. analyze_watch_pattern (pr_topic rw) = Inr (coarse, full) \<and>
    (matches_watch_pattern (pr_topic rn) full \<longleftrightarrow>
     (\<forall>k\<in>set (tc_key_order tc). k = ''polygon'' \<or> selects h c schema pw pn k))"
  by (rule watch_routes [OF assms])

lemma sample_decoded:
  "decode_subject ''weather.north.%2A'' = Inr [''weather'', ''north'', ''*'']"
  "decode_subject ''weather.north.a%2Eb'' = Inr [''weather'', ''north'', ''a.b'']"
  by (simp_all add: decode_subject_def decode_token_def from_hex_def utf8_error.simps is_ascii_def
      char_of_def bit_0 bit_Suc)

lemma sample_valid_params:
  "valid_params (tc_key_order sample_topic) [(''step'', ''a.b''), (''region'', ''north'')]"
  "valid_params (tc_key_order sample_topic) [(''step'', ''*''), (''region'', ''north'')]"
  by (simp_all add: valid_params_def sample_defs valid_utf8_def utf8_error.simps is_ascii_def)

lemma sample_analyzed:
  "analyze_watch_pattern ''weather.north.%2A'' = Inr (''weather.north.>'', [''weather'', ''north'', ''*''])"
  by (simp add: analyze_watch_pattern_def sample_decoded coarse_pattern_def encode_subject_def is_reserved_char_def)

theorem notify_watch_routing_witness:
  "matches_watch_pattern ''weather.north.a%2Eb'' [''weather'', ''north'', ''*''] \<longleftrightarrow>
   selects sample_host sample_chrono sample_schema sample_watch sample_notify ''region'' \<and>
   selects sample_host sample_chrono sample_schema sample_watch sample_notify ''step''"
  using notify_watch_routing [OF _ _ _ _ _ _ sample_notify_result sample_watch_result,
      of sample_schema sample_topic] sample_valid_params sample_analyzed
  by (simp add: sample_registry_def sample_schema_def sample_topic_def)

section \<open>The wire form of subjects\<close>

text \<open>
  C17: the subject codec is lossless and safe. Any non-empty list of tokens is read back from
  its subject unchanged; the subject has one dot-separated piece per token, and no token,
  whatever it contains, brings a NATS wildcard onto the wire.
\<close>
theorem subject_codec:
  assumes "ps \<noteq> []" "\<forall>p\<in>set ps. valid_utf8 p"
  shows "decode_subject (encode_subject ps) = Inr ps \<and>
    length (split_on dot (encode_subject ps)) = length ps \<and>
    CHR ''*'' \<notin> set (encode_subject ps) \<and> CHR ''>'' \<notin> set (encode_subject ps)"
proof -
  have "c \<in> set (encode_subject qs) \<Longrightarrow> c \<noteq> CHR ''*'' \<and> c \<noteq> CHR ''>''" for c qs
    by (induction qs rule: join.induct [of _ "[dot]"])
       (auto simp: encode_subject_def is_reserved_char_def dest: encode_token_unreserved)
  then show ?thesis using assms decode_encode_subject [OF assms] percent.split_enc [OF assms(1)]
    by (auto simp: encode_subject_def)
qed

theorem subject_codec_witness:
  "decode_subject (encode_subject [''a.b'', ''*'', ''>%'']) = Inr [''a.b'', ''*'', ''>%''] \<and>
   encode_subject [''a.b'', ''*'', ''>%''] = ''a%2Eb.%2A.%3E%25''"
  using subject_codec [of "[''a.b'', ''*'', ''>%'']"]
  by (simp add: valid_utf8_def utf8_error.simps is_ascii_def encode_subject_def is_reserved_char_def
      hex02_def hex_upper_def char_of_def bit_0 bit_Suc)

lemma built_topic_tokens:
  assumes "es_topic schema = Some tc" "build_topic_with_schema et schema m = Inr topic"
    "valid_base (tc_base tc)" "valid_params (tc_key_order tc) m"
  obtains vs where "map (map_of m) (tc_key_order tc) = map Some vs" "length vs = length (tc_key_order tc)"
    "topic = encode_subject (tc_base tc # vs)" "\<forall>v\<in>set (tc_base tc # vs). valid_utf8 v"
    "decode_subject topic = Inr (tc_base tc # vs)"
proof -
  obtain vs where vs: "map (map_of m) (tc_key_order tc) = map Some vs" "topic = encode_subject (tc_base tc # vs)"
    using build_topic_Inr [OF assms(1)] assms(2) by blast
  have val: "\<forall>v\<in>set (tc_base tc # vs). valid_utf8 v"
    using valid_base_utf8 [OF assms(3)] valid_params_values [OF assms(4) vs(1)] by auto
  have "length vs = length (tc_key_order tc)" using arg_cong [OF vs(1), of length] by simp
  moreover have "decode_subject topic = Inr (tc_base tc # vs)"
    unfolding vs(2) using val by (intro decode_encode_subject) auto
  ultimately show thesis using that vs val by blast
qed

lemma watch_covered:
  assumes "map_of (reg_schemas reg) et = Some schema" "es_topic schema = Some tc" "tc_key_order tc \<noteq> []"
    "process_request_with_values h c reg et pn payload Notify = Inr rn"
    "process_request_with_values h c reg et pw payload' op = Inr rw"
    "valid_params (tc_key_order tc) (pr_params rn)" "valid_params (tc_key_order tc) (pr_params rw)"
    "\<forall>k\<in>set (tc_key_order tc). map_of (pr_params rn) k \<noteq> Some []"
    "analyze_watch_pattern (pr_topic rw) = Inr (coarse, full)" "matches_watch_pattern (pr_topic rn) full"
  shows "covers coarse (pr_topic rn)"
proof -
  note n = process_success [OF assms(1,2,4)] and w = process_success [OF assms(1,2,5)]
  have "build_topic_with_schema et schema (pr_params rn) = Inr (pr_topic rn)"
    using n by (simp add: routing_params_def)
  then obtain vn where vn: "map (map_of (pr_params rn)) (tc_key_order tc) = map Some vn"
      "pr_topic rn = encode_subject (tc_base tc # vn)" "\<forall>v\<in>set (tc_base tc # vn). valid_utf8 v"
    using built_topic_tokens [OF assms(2) _ _ assms(6)] n by metis
  obtain vw where vw: "length vw = length (tc_key_order tc)" "decode_subject (pr_topic rw) = Inr (tc_base tc # vw)"
    using built_topic_tokens [OF assms(2) _ _ valid_params_routing [OF assms(7)]] w by metis
  have full: "full = tc_base tc # vw" "coarse = coarse_pattern (pr_topic rw) full"
    using assms(9) vw(2) by (auto simp: analyze_watch_pattern_def)
  have base: "tc_base tc \<noteq> ''*''" "tc_base tc \<noteq> []"
    using n by (auto simp: valid_base_def is_alphanumeric_def is_digit_def is_upper_def is_lower_def)
  have "v \<noteq> []" if "v \<in> set vn" for v
  proof -
    have "Some v \<in> map_of (pr_params rn) ` set (tc_key_order tc)"
      using that vn(1) by (metis image_eqI list.set_map)
    then show ?thesis using assms(8) by auto
  qed
  then have "list_all (\<lambda>p. p \<noteq> []) (tc_base tc # vn)" using base by (auto simp: list_all_iff)
  then show ?thesis
    using coarse_covers [of "tc_base tc # vn" full] assms(3,10) vn(2,3) vw(1) base(1)
    by (simp add: full)
qed

text \<open>
  C16: the coarse pattern never hides a match. When the event type routes on at least one
  field, every notification that matches the decoded pattern of a watch is also covered by
  the coarse pattern the backend is asked for, so filtering in two stages loses nothing.
\<close>
theorem coarse_pattern_covers:
  assumes "map_of (reg_schemas reg) et = Some schema" "es_topic schema = Some tc" "tc_key_order tc \<noteq> []"
    "process_request_with_values h c reg et pn payload Notify = Inr rn"
    "process_request_with_values h c reg et pw payload' op = Inr rw"
    "valid_params (tc_key_order tc) (pr_params rn)" "valid_params (tc_key_order tc) (pr_params rw)"
    "\<forall>k\<in>set (tc_key_order tc). map_of (pr_params rn) k \<noteq> Some []"
    "analyze_watch_pattern (pr_topic rw) = Inr (coarse, full)" "matches_watch_pattern (pr_topic rn) full"
  shows "covers coarse (pr_topic rn)"
  by (rule watch_covered [OF assms])

theorem coarse_pattern_covers_witness:
  "covers ''weather.north.>'' ''weather.north.a%2Eb''"
proof -
  have m: "matches_watch_pattern ''weather.north.a%2Eb'' [''weather'', ''north'', ''*'']"
    by (simp add: matches_watch_pattern_def sample_decoded)
  show ?thesis
    using coarse_pattern_covers [OF _ _ _ sample_notify_result sample_watch_result,
        of sample_schema sample_topic] sample_valid_params sample_analyzed m
    by (simp add: sample_registry_def sample_schema_def sample_topic_def)
qed

text \<open>
  An event type that routes on no field is the exception. Its subject is the bare base,
  which matches its own watch pattern, but the coarse pattern asks for a further token and
  does not cover it: a watch on such an event type is never handed its notifications by a
  backend that filters by subject.
\<close>
lemma bare_base_not_covered:
  assumes "valid_base b"
  shows "analyze_watch_pattern b = Inr (b @ ''.>'', [b]) \<and> matches_watch_pattern b [b] \<and>
         \<not> covers (b @ ''.>'') b"
proof -
  have b: "b \<noteq> ''*''"
    using assms by (auto simp: valid_base_def is_alphanumeric_def is_digit_def is_upper_def is_lower_def)
  have dec: "decode_subject b = Inr [b]"
    using decode_encode_subject [of "[b]"] valid_base_utf8 [OF assms] assms by (simp add: encode_subject_def)
  show ?thesis using b
    by (auto simp: analyze_watch_pattern_def dec coarse_pattern_def matches_watch_pattern_def covers_gt
        starts_with_iff)
qed

lemma bare_base_not_covered_witness:
  "matches_watch_pattern ''alerts'' [''alerts''] \<and> \<not> covers ''alerts.>'' ''alerts''"
  using bare_base_not_covered [of "''alerts''"]
  by (simp add: valid_base_def is_alphanumeric_def is_digit_def is_upper_def is_lower_def)

text \<open>
  Reading a subject back. From the subject of an accepted notification the parser
  recovers, for every field of the key order, the canonical value that was routed; only an
  empty value or the literal wildcard is taken as absent.
\<close>
lemma topic_parses_back:
  assumes "map_of (reg_schemas reg) et = Some schema" "es_topic schema = Some tc"
    "process_request_with_values h c reg et pn payload Notify = Inr rn"
    "valid_params (tc_key_order tc) (pr_params rn)"
  shows "\<exists>req. topic_to_request (Some (reg_schemas reg)) (pr_topic rn) et = Inr req \<and>
           (\<forall>k. map_of req k =
              (if k \<in> set (tc_key_order tc) \<and> map_of (pr_params rn) k \<noteq> Some [] \<and>
                  map_of (pr_params rn) k \<noteq> Some ''*''
               then map_of (pr_params rn) k else None))"
proof -
  have "build_topic_with_schema et schema (pr_params rn) = Inr (pr_topic rn)" "valid_utf8 (tc_base tc)"
    using process_success [OF assms(1,2,3)] valid_base_utf8 by (auto simp: routing_params_def)
  from parse_built_topic [OF assms(2) this assms(4)] show ?thesis
    using assms(1) by (simp add: topic_to_request_def)
qed

lemma topic_parses_back_witness:
  "\<exists>req. topic_to_request (Some (reg_schemas sample_registry)) ''weather.north.a%2Eb'' ''wx'' = Inr req \<and>
         map_of req ''step'' = Some ''a.b''"
proof -
  have v: "valid_params (tc_key_order sample_topic) [(''step'', ''a.b''), (''region'', ''north'')]"
    by (simp add: valid_params_def sample_defs valid_utf8_def utf8_error.simps is_ascii_def)
  have s: "map_of (reg_schemas sample_registry) ''wx'' = Some sample_schema" "es_topic sample_schema = Some sample_topic"
    by (simp_all add: sample_registry_def sample_schema_def)
  obtain req where "topic_to_request (Some (reg_schemas sample_registry)) ''weather.north.a%2Eb'' ''wx'' = Inr req"
     "map_of req ''step'' = (if ''step'' \<in> set (tc_key_order sample_topic) then Some ''a.b'' else None)"
    using topic_parses_back [OF s sample_notify_result] v by auto
  then show ?thesis by (auto simp: sample_topic_def)
qed

end
