(* ===== verification/Filtering.thy ===== *)
theory Filtering
  imports Routing
begin

text \<open>
  Properties of what is accepted and what is delivered: field canonicalisation, notify
  requests, identifier constraints and the spatial filters.
\<close>

section \<open>Canonical values\<close>

text \<open>The rules whose canonical form does not depend on floats, dates or geometry.\<close>
fun stable_rule :: "validation_rules \<Rightarrow> bool" where
  "stable_rule (StringHandler _ _) = True"
| "stable_rule (EnumHandler _ _) = True"
| "stable_rule (ExpverHandler d _) = (d = None)"
| "stable_rule (IntHandler _ _) = True"
| "stable_rule (TimeHandler _) = True"
| "stable_rule _ = False"

text \<open>
  Canonicalisation is stable. For string, enumeration, integer, time and experiment
  version fields, an accepted ASCII value has a canonical form that the same rule accepts
  again unchanged, so a producer and a subscriber that spell a value differently, or reuse
  the canonical form, are routed to the same token.
\<close>
lemma scalar_canon_stable:
  assumes "stable_rule rule" "list_all is_ascii s" "scalar_canon h c rule f s = Inr w"
  shows "scalar_canon h c rule f w = Inr w"
proof (cases rule)
  case (StringHandler mx r)
  then show ?thesis using assms(3) string_field.idem [of mx f s w] by simp
next
  case (EnumHandler vs r)
  then show ?thesis using assms(2,3) enum_field.idem [of s h vs f w] by simp
next
  case (ExpverHandler d r)
  then show ?thesis using assms expver_field.idem [of s h f w] by simp
next
  case (IntHandler rg r)
  then show ?thesis using assms(3) int_field.idem [of rg f s w] by simp
next
  case (TimeHandler r)
  then show ?thesis using assms(3) time_field.idem [of f s w] by simp
qed (use assms(1) in auto)

lemma scalar_canon_stable_witness:
  "scalar_canon sample_host sample_chrono (ExpverHandler None True) ''expver'' ''0042'' = Inr ''0042''"
proof -
  have "show_nat 42 = ''42''"
    by (subst show_nat.simps, subst show_nat.simps) (simp add: char_of_def bit_0 bit_Suc)
  then have "scalar_canon sample_host sample_chrono (ExpverHandler None True) ''expver'' ''42'' = Inr ''0042''"
    by (simp add: expver_canon_def canonicalize_expver_def parse_unsigned_def digit_val_def is_digit_def
        pad_zero_def numeral_2_eq_2 numeral_eq_Suc)
  then show ?thesis
    using scalar_canon_stable [of "ExpverHandler None True" "''42''"] by (simp add: is_ascii_def)
qed

text \<open>
  Times reach the wire as valid four digit times. Whatever accepted spelling a time has
  (hour, hour and minute with a colon, or compact), its canonical form is four ASCII digits
  with an hour of at most 23 and a minute of at most 59, and is its own canonical form.
\<close>
lemma time_canonical:
  assumes "time_canon f v = Inr w"
  shows "length w = 4 \<and> list_all is_digit w \<and> two_digits (w ! 0) (w ! 1) \<le> 23 \<and>
         two_digits (w ! 2) (w ! 3) \<le> 59 \<and> time_canon f w = Inr w"
  using time_canon_canonical [OF assms] time_canon_fixpoint [of w f] by (simp add: canonical_time_def)

lemma time_sample: "time_canon f ''9:05'' = Inr ''0905''"
proof -
  have "show_nat 9 = ''9''" "show_nat 5 = ''5''"
    by (subst show_nat.simps, simp add: char_of_def bit_0 bit_Suc)+
  then show ?thesis
    by (simp add: time_canon_def handle_hour_only_format_def handle_colon_format_def colon_captures_def
        check_time_def parse_part_def parse_unsigned_def digit_val_def is_digit_def pad_zero_def
        numeral_2_eq_2)
qed

section \<open>Accepted notifications\<close>

text \<open>
  C23: an accepted notification is complete and exact. It names precisely the identifier
  fields of the schema, none of them as a constraint object; the stored value of each is the
  canonical form of the value sent; no constraint is attached; and where the schema requires
  a payload there is one.
\<close>
theorem notify_exact:
  assumes "wf_map (es_identifier schema)" "process_notify_request h c schema params payload = Inr (ps, cons, meta)"
  shows "fst ` set params = fst ` set (es_identifier schema) \<and> cons = [] \<and>
    (\<forall>f fc. map_of (es_identifier schema) f = Some fc \<longrightarrow>
       (\<exists>v w. map_of params f = Some v \<and> \<not> is_object v \<and>
          validate_and_canonicalize_field h c f v (if_rule fc) = Inr w \<and> map_of ps f = Some w)) \<and>
    (es_payload schema = Some \<lparr>pc_required = True\<rparr> \<longrightarrow> payload \<noteq> None)"
proof -
  note m = process_notify_map [OF assms]
  have "fst ` set params \<subseteq> fst ` set (es_identifier schema)"
    using notify_known_fields [OF assms(2)] by auto
  moreover have "fst ` set (es_identifier schema) \<subseteq> fst ` set params"
  proof
    fix f assume "f \<in> fst ` set (es_identifier schema)"
    then obtain fc where "map_of (es_identifier schema) f = Some fc"
      by (metis map_of_eq_None_iff not_None_eq)
    then have "map_of params f \<noteq> None" using m by fastforce
    then show "f \<in> fst ` set params" by (simp add: map_of_eq_None_iff)
  qed
  moreover have "es_payload schema = Some \<lparr>pc_required = True\<rparr> \<Longrightarrow> payload \<noteq> None"
    using assms(2)
    by (auto simp: process_notify_request_def validate_payload_requirement_def result_simps split: option.splits if_splits)
  ultimately show ?thesis using m by blast
qed

theorem notify_exact_witness:
  "fst ` set sample_notify = {''step'', ''region''}"
proof -
  have "process_notify_request sample_host sample_chrono sample_schema sample_notify None =
        Inr ([(''step'', ''a.b''), (''region'', ''north'')], [], None)"
    by (simp add: sample_defs process_defs)
  then show ?thesis
    using notify_exact [of sample_schema sample_host sample_chrono sample_notify None]
    by (simp add: sample_schema_def)
qed

text \<open>
  Without a schema, the subject does not depend on map iteration order. Two requests
  with the same key-value pairs, however the hash map orders them, build the same subject.
\<close>
lemma generic_topic_order_independent:
  assumes "set m = set m'" "wf_map m" "wf_map m'"
  shows "build_generic_topic et m = build_generic_topic et m'"
proof -
  have "map_of m = map_of m'" using assms by (metis map_of_eqI map_of_is_SomeI map_of_SomeD ext not_None_eq)
  moreover have "sort (map fst m) = sort (map fst m')"
    by (rule sorted_distinct_set_unique) (use assms in auto)
  moreover have "m = [] \<longleftrightarrow> m' = []" using assms(1) by auto
  ultimately show ?thesis by (simp add: build_generic_topic_def)
qed

section \<open>Identifier constraints\<close>

text \<open>
  C22: the fast path is the slow path. For an event type with a topic whose key order has no
  duplicates, evaluating constraints on the decoded tokens gives the answer that rebuilding
  the identifier map and looking every field up in it gives, and it always gives one.
\<close>
theorem constraint_fast_path_exact:
  assumes "map_of schemas et = Some schema" "es_topic schema = Some tc" "decode_subject topic = Inr decoded"
    "distinct (tc_key_order tc)"
  shows "matches_identifier_constraints_fast_path h decoded et cons schemas =
         Some (case topic_to_request (Some schemas) topic et of
                 Inr identifier \<Rightarrow> matches_identifier_map h identifier cons | Inl _ \<Rightarrow> False)"
  using assms by (rule fast_path_fallback)

lemma decode_sample: "decode_subject ''weather.north.7'' = Inr [''weather'', ''north'', ''7'']"
  by (simp add: decode_subject_def decode_token_def utf8_error.simps is_ascii_def)

theorem constraint_fast_path_exact_witness:
  "matches_identifier_constraints_fast_path sample_host [''weather'', ''north'', ''7''] ''wx''
     [(''step'', ICInt (CGte 5))] (reg_schemas sample_registry) =
   Some (case topic_to_request (Some (reg_schemas sample_registry)) ''weather.north.7'' ''wx'' of
           Inr identifier \<Rightarrow> matches_identifier_map sample_host identifier [(''step'', ICInt (CGte 5))]
         | Inl _ \<Rightarrow> False)"
  by (rule constraint_fast_path_exact [OF _ _ decode_sample])
     (auto simp: sample_registry_def sample_schema_def sample_topic_def)

lemma constraints_see_values:
  assumes "wf_map (reg_schemas reg)" "distinct (bases_of (reg_schemas reg))"
    "map_of (reg_schemas reg) et = Some schema" "es_topic schema = Some tc" "distinct (tc_key_order tc)"
    "process_request_with_values h c reg et pn payload Notify = Inr rn"
    "valid_params (tc_key_order tc) (pr_params rn)"
  shows "matches_identifier_constraints h (Some (reg_schemas reg)) (pr_topic rn) cons \<longleftrightarrow>
    (\<forall>(f, con)\<in>set cons. f \<in> set (tc_key_order tc) \<and>
       (\<exists>w. map_of (pr_params rn) f = Some w \<and> w \<noteq> [] \<and> w \<noteq> ''*'' \<and> matches_constraint_value h w con))"
proof -
  have b: "build_topic_with_schema et schema (pr_params rn) = Inr (pr_topic rn)" "valid_utf8 (tc_base tc)"
    using process_success [OF assms(3,4,6)] valid_base_utf8 by (auto simp: routing_params_def)
  obtain vs where dec: "decode_subject (pr_topic rn) = Inr (tc_base tc # vs)"
    using decode_built_topic [OF assms(4) b assms(7)] by blast
  have "resolve_event_type_from_topic_base (tc_base tc # vs) (reg_schemas reg) = Some et"
    using resolve_event_type_unique [OF assms(2) map_of_SomeD [OF assms(3)] assms(4)]
    by (simp add: resolve_event_type_from_topic_base_def)
  moreover obtain req where req: "topic_to_request (Some (reg_schemas reg)) (pr_topic rn) et = Inr req"
      "\<forall>k. map_of req k = (if k \<in> set (tc_key_order tc) \<and> map_of (pr_params rn) k \<noteq> Some [] \<and>
             map_of (pr_params rn) k \<noteq> Some ''*'' then map_of (pr_params rn) k else None)"
    using parse_built_topic [OF assms(4) b assms(7)] assms(3) by (auto simp: topic_to_request_def)
  ultimately have "matches_identifier_constraints h (Some (reg_schemas reg)) (pr_topic rn) cons =
      matches_identifier_map h req cons"
    using fast_path_fallback [OF assms(3,4) dec assms(5)] dec
    by (simp add: matches_identifier_constraints_def)
  then show ?thesis using req(2)
    by (auto simp: matches_identifier_map_def list_all_iff split: option.splits if_splits)
qed

text \<open>
  C21: constraints see the canonical value. With topic bases unique across the schema map,
  the constraints of a request hold of an accepted notification exactly when each names a
  field of the key order whose routed value is present and satisfies it.
\<close>
theorem constraints_decide:
  assumes "wf_map (reg_schemas reg)" "distinct (bases_of (reg_schemas reg))"
    "map_of (reg_schemas reg) et = Some schema" "es_topic schema = Some tc" "distinct (tc_key_order tc)"
    "process_request_with_values h c reg et pn payload Notify = Inr rn"
    "valid_params (tc_key_order tc) (pr_params rn)"
  shows "matches_identifier_constraints h (Some (reg_schemas reg)) (pr_topic rn) cons \<longleftrightarrow>
    (\<forall>(f, con)\<in>set cons. f \<in> set (tc_key_order tc) \<and>
       (\<exists>w. map_of (pr_params rn) f = Some w \<and> w \<noteq> [] \<and> w \<noteq> ''*'' \<and> matches_constraint_value h w con))"
  by (rule constraints_see_values [OF assms])

theorem constraints_decide_witness:
  "matches_identifier_constraints sample_host (Some (reg_schemas sample_registry)) ''weather.north.a%2Eb''
     [(''region'', ICEnum (EnumIn [''south'', ''north'']))]"
proof -
  have "valid_params (tc_key_order sample_topic) [(''step'', ''a.b''), (''region'', ''north'')]"
    by (simp add: valid_params_def sample_defs valid_utf8_def utf8_error.simps is_ascii_def)
  then show ?thesis
    using constraints_decide [OF _ _ _ _ _ sample_notify_result, of sample_schema sample_topic
        "[(''region'', ICEnum (EnumIn [''south'', ''north'']))]"]
    by (simp add: sample_registry_def sample_schema_def sample_topic_def matches_constraint_value_def
        to_lowercase_def is_ascii_def to_ascii_lowercase_def ascii_lower_def is_upper_def)
qed

text \<open>
  A parsed constraint stays inside the schema. Every operand of an integer constraint
  that was accepted for a field with a range lies in the range (bounds included), and an
  accepted enumeration constraint can only match values the schema allows.
\<close>
lemma constraint_operands_allowed:
  assumes "parse_int_constraint f v (Some (mn, mx)) = Inr c" "parse_enum_constraint h f' v' allowed = Inr e"
  shows "(\<forall>x\<in>set (operands c). mn \<le> x \<and> x \<le> mx) \<and>
         (\<forall>s. enum_matches h e s \<longrightarrow> to_lowercase h s \<in> to_lowercase h ` set allowed)"
  using int_constraint_in_range [OF assms(1)] enum_constraint_allowed [OF assms(2)] by blast

section \<open>Spatial values\<close>

text \<open>
  A canonical polygon is a polygon. An accepted polygon has at least four points, every
  point is finite and inside the latitude and longitude ranges, the first and the last agree,
  and its canonical JSON is read back as the same points and accepted unchanged.
\<close>
lemma polygon_canonical:
  assumes "polygon_json_canon h v f = Inr j"
  shows "\<exists>cs. parse_polygon_value h j = Inr cs \<and> 4 \<le> length cs \<and> (\<forall>c\<in>set cs. coordinate_ok c) \<and>
           coord_eq (hd cs) (last cs) \<and> polygon_json_canon h j f = Inr j"
proof -
  obtain cs where cs: "parse_polygon_value h v = Inr cs" "validate_polygon_geometry cs = Inr ()"
      "coordinates_to_json cs = Inr j"
    using assms by (auto simp: polygon_json_canon_def polygon_err_def coord_err_def result_simps)
  have ok: "\<forall>c\<in>set cs. coordinate_ok c" using parse_polygon_value_ok [OF cs(1)] by blast
  then have "parse_polygon_value h j = Inr cs"
    using cs(3) by (auto simp: coordinates_to_json_ok parse_polygon_value_def polygon_array_def parse_polygon_points_json)
  moreover have "4 \<le> length cs \<and> coord_eq (hd cs) (last cs)"
    using cs(2) by (cases cs) (auto simp: validate_polygon_geometry_def last_of_def split: if_splits)
  ultimately show ?thesis using ok cs(2,3)
    by (auto simp: polygon_json_canon_def polygon_err_def coord_err_def)
qed

definition sample_ring :: json where
  "sample_ring = JArray (map (\<lambda>(a, b). JArray [JNumber (Float (Fin a)), JNumber (Float (Fin b))])
     [(0, 0), (10, 0), (10, 10), (0, 0)])"

lemma sample_ring_canon: "polygon_json_canon sample_host sample_ring ''polygon'' = Inr sample_ring"
  by (simp add: polygon_json_canon_def polygon_err_def sample_ring_def parse_polygon_value_def polygon_array_def
      parse_coordinate_def parse_component_def is_finite_def validate_coordinate_def in_closed_def
      validate_polygon_geometry_def last_of_def coord_eq_def f64_eq_def coordinates_to_json_def coordinate_to_json_def
      json_of_f64_def coord_err_def)

lemma polygon_canonical_witness:
  "\<exists>cs. parse_polygon_value sample_host sample_ring = Inr cs \<and> 4 \<le> length cs"
  using polygon_canonical [OF sample_ring_canon] by blast

text \<open>
  Point clouds are bounded. An accepted cloud holds between one point and the configured
  maximum, which is at most ten thousand; every point is finite and in range; its canonical
  JSON is at most 61440 bytes long, and validating it again gives the same cloud.
\<close>
lemma point_cloud_bounded:
  assumes "validate_cloud h v max_points f = Inr (cs, j)"
  shows "1 \<le> length cs \<and> length cs \<le> max_points \<and> max_points \<le> 10000 \<and> (\<forall>c\<in>set cs. coordinate_ok c) \<and>
         length (json_print h j) \<le> 61440 \<and> validate_cloud h j max_points f = Inr (cs, j)"
proof -
  have p: "parse_cloud_coordinates v max_points f = Inr cs" "coordinates_to_json cs = Inr j"
      "validate_serialized_size f (length (json_print h j)) = Inr ()"
    using assms by (auto simp: validate_cloud_def result_simps)
  then obtain points where pts: "parse_cloud_points f 0 points = Inr cs" "points \<noteq> []"
      "length points \<le> max_points" "0 < max_points" "max_points \<le> HARD_MAX_POINTS"
    by (auto simp: parse_cloud_coordinates_def result_simps split: if_splits)
  note ok = parse_cloud_points_ok [OF pts(1)]
  have j: "j = JArray (map (\<lambda>c. JArray [JNumber (Float (fst c)), JNumber (Float (snd c))]) cs)"
    using ok p(2) by (simp add: coordinates_to_json_ok)
  have "cs \<noteq> []" using ok pts(2) by auto
  then have "parse_cloud_coordinates j max_points f = Inr cs"
    using ok pts(3,4,5) by (simp add: parse_cloud_coordinates_def j parse_cloud_points_json)
  moreover have "length (json_print h j) \<le> 61440"
    using p(3) by (auto simp: validate_serialized_size_def MAX_SERIALIZED_POINT_CLOUD_BYTES_def split: if_splits)
  ultimately show ?thesis using ok pts p(2,3) \<open>cs \<noteq> []\<close>
    by (auto simp: validate_cloud_def HARD_MAX_POINTS_def Suc_le_eq)
qed

text \<open>
  The stored bounding box covers the geometry. The box computed from accepted
  coordinates has every one of them inside it, so the box prefilter of a watch never
  discards a candidate for a vertex that is really in range.
\<close>
lemma bounding_box_sound:
  assumes "\<forall>d\<in>set (c # cs). coordinate_ok d"
  shows "calculate_bounding_box_string (c # cs) = Inr (show_box (bounding_box_of c cs)) \<and>
         (\<forall>d\<in>set (c # cs). box_covers (bounding_box_of c cs) d)"
  using bounding_box_covers [OF assms] by (simp add: calculate_bounding_box_string_def)

lemma bounding_box_sound_witness:
  "box_covers (bounding_box_of (Fin 5, Fin (-3)) [(Fin 1, Fin 2)]) (Fin 1, Fin 2) \<and>
   bounding_box_of (Fin 5, Fin (-3)) [(Fin 1, Fin 2)] = (Fin 1, Fin (-3), Fin 5, Fin 2)"
  using bounding_box_sound [of "(Fin 5, Fin (-3))" "[(Fin 1, Fin 2)]"]
  by (simp add: coordinate_ok_def is_finite_def in_closed_def bounding_box_of_def extend_box_def f64_min_def f64_max_def)

definition sample_geo :: "((f64 \<times> f64) list, (f64 \<times> f64) \<times> (f64 \<times> f64)) geo" where
  "sample_geo = \<lparr>geo_polygon = (\<lambda>cs. cs), geo_bounding_rect = (\<lambda>_. None), geo_rect = Pair, rect_min = fst,
     rect_max = snd, rect_intersects = (\<lambda>_ _. True), poly_intersects = (\<lambda>_ _. True),
     poly_intersects_point = (\<lambda>_ _. True), poly_contains_point = (\<lambda>_ _. True)\<rparr>"

end
