(* ===== verification/Auth.thy ===== *)
theory Auth
  imports Schema
begin

text \<open>
  Authentication and authorization: \<open>src/auth/mod.rs\<close>, \<open>src/auth/client.rs\<close>,
  \<open>src/auth/middleware.rs\<close> and the stream checks of \<open>src/routes/streaming.rs\<close>. The record
  \<open>auth_world\<close> holds what is outside: the validation of a token by the JWT library under a
  secret, the reading of a header value as text, the reply of the authentication service,
  and the derived readers of its response body. A request carries its path and the raw
  \<open>Authorization\<close> header; a response is its status, headers and JSON body.
\<close>

section \<open>Users and tokens\<close>

record user =
  u_username :: string
  u_realm :: "string option"
  u_roles :: "string list"
  u_attributes :: "string alist"

definition has_any_role :: "user \<Rightarrow> realm_roles \<Rightarrow> bool" where
  "has_any_role u realm_roles =
    (if realm_roles = [] then True
     else (case u_realm u of
       None \<Rightarrow> False
     | Some realm \<Rightarrow>
    (case map_of realm_roles realm of
       None \<Rightarrow> False
     | Some allowed \<Rightarrow>
         if list_ex (\<lambda>r. r = ''*'') allowed then True
         else list_ex (\<lambda>role. list_ex (\<lambda>required. required = role) allowed) (u_roles u))))"

definition is_admin :: "user \<Rightarrow> realm_roles \<Rightarrow> bool" where
  "is_admin u admin_roles = has_any_role u admin_roles"

record jwt_claims =
  cl_sub :: "string option"
  cl_iss :: "string option"
  cl_exp :: nat
  cl_iat :: "nat option"
  cl_username :: "string option"
  cl_realm :: "string option"
  cl_roles :: "string list"
  cl_attributes :: "string alist"

datatype user_extraction_error = MissingUsername

definition user_of_claims :: "jwt_claims \<Rightarrow> user_extraction_error + user" where
  "user_of_claims c =
     bind_res (of_option MissingUsername
                 (case cl_username c of Some n \<Rightarrow> Some n | None \<Rightarrow> cl_sub c)) (\<lambda>username.
     Inr \<lparr>u_username = username, u_realm = cl_realm c, u_roles = cl_roles c, u_attributes = cl_attributes c\<rparr>)"

definition eq_ignore_ascii_case :: "string \<Rightarrow> string \<Rightarrow> bool" where
  "eq_ignore_ascii_case a b = (to_ascii_lowercase a = to_ascii_lowercase b)"

definition extract_bearer_token_from_str :: "string \<Rightarrow> string option" where
  "extract_bearer_token_from_str value =
    (case split_whitespace (trim value) of
       [scheme, token] \<Rightarrow> if eq_ignore_ascii_case scheme ''Bearer'' then Some token else None
     | _ \<Rightarrow> None)"

section \<open>The outside\<close>

record authenticate_response =
  ar_token :: "string option"
  ar_jwt :: "string option"
  ar_access_token :: "string option"

record http_reply =
  re_status :: nat
  re_authorization :: "string option"
  re_body :: "string + string"

record auth_world =
  w_header_text :: "string \<Rightarrow> string option"
  w_validate_jwt :: "string \<Rightarrow> string \<Rightarrow> jwt_claims option"
  w_send :: "string \<Rightarrow> string \<Rightarrow> string + http_reply"
  w_read_response :: "string \<Rightarrow> authenticate_response option"
  w_read_string :: "string \<Rightarrow> string option"

definition extract_bearer_token :: "auth_world \<Rightarrow> string \<Rightarrow> string option" where
  "extract_bearer_token w header = Option.bind (w_header_text w header) extract_bearer_token_from_str"

section \<open>The client of the authentication service\<close>

datatype auth_client_error =
  ClientBuild string | Transport string | ClientUnauthorized | ClientForbidden | UnexpectedStatus nat | MissingToken

definition is_base64url_segment :: "string \<Rightarrow> bool" where
  "is_base64url_segment s =
    (s \<noteq> [] \<and> list_all (\<lambda>ch. is_alphanumeric ch \<or> ch = CHR ''-'' \<or> ch = CHR ''_'') s)"

definition is_jwt_like :: "string \<Rightarrow> bool" where
  "is_jwt_like v =
    (case split_on CHR ''.'' v of
       [a, b, c] \<Rightarrow> is_base64url_segment a \<and> is_base64url_segment b \<and> is_base64url_segment c
     | _ \<Rightarrow> False)"

definition parse_jwt_from_authorization_header :: "string \<Rightarrow> string option" where
  "parse_jwt_from_authorization_header v =
     Option.bind (extract_bearer_token_from_str v) (\<lambda>token. if is_jwt_like token then Some token else None)"

definition first_some :: "'a option list \<Rightarrow> 'a option" where
  "first_some xs = first_of (List.map_filter (\<lambda>x. x) xs)"

definition parse_jwt_from_response :: "auth_world \<Rightarrow> string \<Rightarrow> string option" where
  "parse_jwt_from_response w body =
    (let trimmed = trim body;
         from_object = Option.bind (w_read_response w trimmed) (\<lambda>r.
           Option.bind (first_some [ar_token r, ar_jwt r, ar_access_token r]) (\<lambda>v.
             if is_jwt_like (trim v) then Some (trim v) else None));
         from_string = Option.bind (w_read_string w trimmed) (\<lambda>v.
           if is_jwt_like (trim v) then Some (trim v) else None)
     in if trimmed = [] then None
        else case from_object of Some t \<Rightarrow> Some t
        | None \<Rightarrow> (case from_string of Some t \<Rightarrow> Some t
        | None \<Rightarrow> if is_jwt_like trimmed then Some trimmed else None))"

definition trim_end_slashes :: "string \<Rightarrow> string" where
  "trim_end_slashes s = rev (dropWhile (\<lambda>c. c = CHR ''/'') (rev s))"

definition authenticate_url :: "string \<Rightarrow> string" where
  "authenticate_url base_url = trim_end_slashes base_url @ ''/authenticate''"

definition authenticate :: "auth_world \<Rightarrow> string \<Rightarrow> string \<Rightarrow> auth_client_error + string" where
  "authenticate w url authorization_value =
    (case w_send w url authorization_value of
       Inl e \<Rightarrow> Inl (Transport e)
     | Inr reply \<Rightarrow>
         if re_status reply = 401 then Inl ClientUnauthorized
         else if re_status reply = 403 then Inl ClientForbidden
         else if \<not> (200 \<le> re_status reply \<and> re_status reply < 300) then Inl (UnexpectedStatus (re_status reply))
         else (case Option.bind (Option.bind (re_authorization reply) (w_header_text w))
                      parse_jwt_from_authorization_header of
           Some jwt \<Rightarrow> Inr jwt
         | None \<Rightarrow>
             bind_res (map_err Transport (re_body reply)) (\<lambda>body.
               of_option MissingToken (parse_jwt_from_response w body))))"

section \<open>The middleware\<close>

datatype auth_mode = Direct | TrustedProxy

record auth_settings =
  as_enabled :: bool
  as_mode :: auth_mode
  as_url :: string
  as_jwt_secret :: string
  as_admin_roles :: realm_roles
  as_timeout_ms :: nat

definition default_auth_settings :: auth_settings where
  "default_auth_settings = \<lparr>as_enabled = False, as_mode = Direct, as_url = [], as_jwt_secret = [],
     as_admin_roles = [], as_timeout_ms = 5000\<rparr>"

record http_request =
  rq_path :: string
  rq_authorization :: "string option"
  rq_id :: string

record http_response =
  hr_status :: nat
  hr_headers :: "(string \<times> string) list"
  hr_body :: json

datatype auth_failure = Unauthorized string | Forbidden string | ServiceUnavailable string

fun status_code :: "auth_failure \<Rightarrow> nat" where
  "status_code (Unauthorized _) = 401"
| "status_code (Forbidden _) = 403"
| "status_code (ServiceUnavailable _) = 503"

fun failure_reason :: "auth_failure \<Rightarrow> string" where
  "failure_reason (Unauthorized _) = ''unauthorized''"
| "failure_reason (Forbidden _) = ''forbidden''"
| "failure_reason (ServiceUnavailable _) = ''service_unavailable''"

fun failure_message :: "auth_failure \<Rightarrow> string" where
  "failure_message (Unauthorized m) = m"
| "failure_message (Forbidden m) = m"
| "failure_message (ServiceUnavailable m) = m"

fun failure_code :: "auth_failure \<Rightarrow> string" where
  "failure_code (Unauthorized _) = ''UNAUTHORIZED''"
| "failure_code (Forbidden _) = ''FORBIDDEN''"
| "failure_code (ServiceUnavailable _) = ''SERVICE_UNAVAILABLE''"

definition error_body :: "string \<Rightarrow> string \<Rightarrow> string \<Rightarrow> string \<Rightarrow> json" where
  "error_body code error msg request_id = json_object
     [(''code'', JString code), (''error'', JString error), (''message'', JString msg),
      (''request_id'', JString request_id)]"

definition www_authenticate_headers :: "auth_mode \<Rightarrow> (string \<times> string) list" where
  "www_authenticate_headers mode =
     (''WWW-Authenticate'', ''Bearer'') # (if mode = Direct then [(''WWW-Authenticate'', ''Basic'')] else [])"

definition unauthorized_response :: "auth_mode \<Rightarrow> string \<Rightarrow> string \<Rightarrow> http_response" where
  "unauthorized_response mode msg request_id =
     \<lparr>hr_status = 401, hr_headers = www_authenticate_headers mode,
      hr_body = error_body ''UNAUTHORIZED'' ''unauthorized'' msg request_id\<rparr>"

fun failure_response :: "auth_mode \<Rightarrow> string \<Rightarrow> auth_failure \<Rightarrow> http_response" where
  "failure_response mode request_id (Unauthorized m) = unauthorized_response mode m request_id"
| "failure_response mode request_id f =
     \<lparr>hr_status = status_code f, hr_headers = [],
      hr_body = error_body (failure_code f) (failure_reason f) (failure_message f) request_id\<rparr>"

definition user_from_remote_token :: "auth_world \<Rightarrow> string \<Rightarrow> auth_settings \<Rightarrow> auth_failure + user" where
  "user_from_remote_token w token settings =
     bind_res (of_option (Unauthorized ''Invalid or expired token'')
                 (w_validate_jwt w token (as_jwt_secret settings))) (\<lambda>claims.
     map_err (\<lambda>_. Unauthorized ''Token is missing required user claims'') (user_of_claims claims))"

text \<open>\<open>client\<close> is the URL of the built client, if there is one.\<close>
definition authenticate_user ::
  "auth_world \<Rightarrow> string \<Rightarrow> auth_settings \<Rightarrow> string option \<Rightarrow> auth_failure + user" where
  "authenticate_user w credentials settings client =
    (case client of
       None \<Rightarrow> Inl (ServiceUnavailable ''Authentication service is not configured correctly'')
     | Some url \<Rightarrow>
    (case authenticate w url credentials of
       Inr token \<Rightarrow> user_from_remote_token w token settings
     | Inl ClientUnauthorized \<Rightarrow> Inl (Unauthorized ''Invalid or expired token'')
     | Inl ClientForbidden \<Rightarrow> Inl (Forbidden ''Token validation was denied'')
     | Inl _ \<Rightarrow> Inl (ServiceUnavailable ''Authentication service temporarily unavailable'')))"

definition resolve_direct_credentials :: "auth_world \<Rightarrow> http_request \<Rightarrow> auth_failure + string option" where
  "resolve_direct_credentials w req =
    (case rq_authorization req of
       None \<Rightarrow> Inr None
     | Some authorization \<Rightarrow>
         bind_res (of_option (Unauthorized ''Authorization header is not valid UTF-8'')
                     (w_header_text w authorization)) (\<lambda>raw.
           let value = trim raw in
           if value = [] then Inl (Unauthorized ''Authorization header cannot be empty'')
           else (case split_once CHR '' '' value of
             None \<Rightarrow> Inl (Unauthorized ''Authorization header must use Bearer or Basic scheme'')
           | Some (scheme, credentials) \<Rightarrow>
               if \<not> eq_ignore_ascii_case scheme ''Bearer'' \<and> \<not> eq_ignore_ascii_case scheme ''Basic''
               then Inl (Unauthorized ''Authorization header must use Bearer or Basic scheme'')
               else if trim credentials = []
               then Inl (Unauthorized ''Authorization header credentials cannot be empty'')
               else Inr (Some value))))"

definition resolve_trusted_proxy_token :: "auth_world \<Rightarrow> http_request \<Rightarrow> auth_failure + string option" where
  "resolve_trusted_proxy_token w req =
    (case rq_authorization req of
       None \<Rightarrow> Inr None
     | Some authorization \<Rightarrow>
         bind_res (of_option (Unauthorized ''Authorization header must use Bearer token'')
                     (extract_bearer_token w authorization)) (\<lambda>token.
           if trim token = [] then Inl (Unauthorized ''Authorization header cannot contain an empty token'')
           else Inr (Some token)))"

definition resolve_user ::
  "auth_world \<Rightarrow> http_request \<Rightarrow> auth_settings \<Rightarrow> string option \<Rightarrow> bool \<Rightarrow> auth_failure + user option" where
  "resolve_user w req settings client is_admin_path =
     bind_res
       (case as_mode settings of
          Direct \<Rightarrow>
            (case resolve_direct_credentials w req of
               Inr (Some credentials) \<Rightarrow> map_res Some (authenticate_user w credentials settings client)
             | Inr None \<Rightarrow> Inr None
             | Inl failure \<Rightarrow> if is_admin_path then Inl failure else Inr None)
        | TrustedProxy \<Rightarrow>
            (case resolve_trusted_proxy_token w req of
               Inr (Some token) \<Rightarrow> map_res Some (user_from_remote_token w token settings)
             | Inr None \<Rightarrow> Inr None
             | Inl failure \<Rightarrow> if is_admin_path then Inl failure else Inr None)) (\<lambda>user.
     if user = None \<and> is_admin_path then Inl (Unauthorized ''Authorization header is required'')
     else Inr user)"

text \<open>What the middleware inserts into the request, and the metric label it counts.\<close>
record auth_context =
  ac_enabled :: bool
  ac_mode :: auth_mode

datatype middleware_result =
    Forwarded auth_context "user option" "string option"
  | Refused http_response string

definition build_auth_client :: "auth_settings \<Rightarrow> (string \<Rightarrow> bool) \<Rightarrow> string option" where
  "build_auth_client settings client_builds =
    (if as_enabled settings \<and> as_mode settings = Direct \<and> trim (as_url settings) \<noteq> [] \<and>
        client_builds (as_url settings)
     then Some (authenticate_url (as_url settings)) else None)"

definition middleware_call ::
  "auth_world \<Rightarrow> auth_settings \<Rightarrow> string option \<Rightarrow> http_request \<Rightarrow> middleware_result" where
  "middleware_call w settings client req =
    (if \<not> as_enabled settings
     then Forwarded \<lparr>ac_enabled = False, ac_mode = as_mode settings\<rparr> None None
     else (let context = \<lparr>ac_enabled = True, ac_mode = as_mode settings\<rparr> in
       if starts_with ''/api/v1/schema'' (rq_path req) then Forwarded context None None
       else (let is_admin_path = starts_with ''/api/v1/admin'' (rq_path req) in
         case resolve_user w req settings client is_admin_path of
           Inl failure \<Rightarrow> Refused (failure_response (as_mode settings) (rq_id req) failure) (failure_reason failure)
         | Inr (Some user) \<Rightarrow>
             if is_admin_path \<and> \<not> is_admin user (as_admin_roles settings)
             then Refused (failure_response (as_mode settings) (rq_id req)
                    (Forbidden ''User does not have required administrative role'')) ''forbidden''
             else Forwarded context (Some user) (Some ''success'')
         | Inr None \<Rightarrow> Forwarded context None None)))"

definition log_actor :: "user option \<Rightarrow> string \<times> string" where
  "log_actor u =
    (case u of
       Some user \<Rightarrow> (u_username user, case u_realm user of Some r \<Rightarrow> r | None \<Rightarrow> ''none'')
     | None \<Rightarrow> (''anonymous'', ''none''))"

section \<open>Checks of a stream\<close>

datatype stream_operation = ReadStream | WriteStream

definition forbidden_response :: "string \<Rightarrow> string \<Rightarrow> http_response" where
  "forbidden_response msg request_id =
     \<lparr>hr_status = 403, hr_headers = [], hr_body = error_body ''FORBIDDEN'' ''forbidden'' msg request_id\<rparr>"

definition internal_error_response :: "string \<Rightarrow> string \<Rightarrow> http_response" where
  "internal_error_response msg request_id =
     \<lparr>hr_status = 500, hr_headers = [], hr_body = error_body ''INTERNAL_ERROR'' ''internal_error'' msg request_id\<rparr>"

text \<open>The request context a handler sees: what the middleware inserted, and the application data.\<close>
record handler_context =
  hc_auth :: "auth_context option"
  hc_user :: "user option"
  hc_settings :: "auth_settings option"
  hc_request_id :: string

definition is_auth_enabled :: "handler_context \<Rightarrow> bool" where
  "is_auth_enabled c = (case hc_auth c of Some a \<Rightarrow> ac_enabled a | None \<Rightarrow> False)"

definition stream_auth_of :: "schema_map option \<Rightarrow> string \<Rightarrow> stream_auth_config option" where
  "stream_auth_of global event_type =
     Option.bind global (\<lambda>m. Option.bind (map_of m event_type) es_auth)"

definition enforce_stream_auth ::
  "handler_context \<Rightarrow> schema_map option \<Rightarrow> string \<Rightarrow> stream_operation \<Rightarrow> http_response + unit" where
  "enforce_stream_auth c global event_type op =
    (if \<not> is_auth_enabled c then Inr ()
     else (case stream_auth_of global event_type of
       None \<Rightarrow> Inr ()
     | Some auth \<Rightarrow>
         if \<not> sa_required auth then Inr ()
         else (case hc_user c of
           None \<Rightarrow> Inl (unauthorized_response (case hc_auth c of Some a \<Rightarrow> ac_mode a | None \<Rightarrow> Direct)
                     ''Authentication is required for this stream'' (hc_request_id c))
         | Some user \<Rightarrow>
         (case hc_settings c of
           None \<Rightarrow> Inl (internal_error_response ''Server configuration error'' (hc_request_id c))
         | Some settings \<Rightarrow>
             (let admin = is_admin user (as_admin_roles settings) in
              case op of
                ReadStream \<Rightarrow>
                  (case sa_read_roles auth of
                     Some roles \<Rightarrow>
                       if \<not> admin \<and> \<not> has_any_role user roles
                       then Inl (forbidden_response ''User does not have required read role for this stream'' (hc_request_id c))
                       else Inr ()
                   | None \<Rightarrow> Inr ())
              | WriteStream \<Rightarrow>
                  (case sa_write_roles auth of
                     Some roles \<Rightarrow>
                       if \<not> admin \<and> \<not> has_any_role user roles
                       then Inl (forbidden_response ''User does not have required write role for this stream'' (hc_request_id c))
                       else Inr ()
                   | None \<Rightarrow>
                       if \<not> admin
                       then Inl (forbidden_response ''Only administrators can write to this stream'' (hc_request_id c))
                       else Inr ()))))))"

definition enforce_known_event_type_inner ::
  "bool \<Rightarrow> schema_map option \<Rightarrow> string \<Rightarrow> string \<Rightarrow> http_response + unit" where
  "enforce_known_event_type_inner strict schema_map request_id event_type =
    (if \<not> strict then Inr ()
     else if (case schema_map of Some m \<Rightarrow> has_key m event_type | None \<Rightarrow> False) then Inr ()
     else Inl \<lparr>hr_status = 400, hr_headers = [], hr_body = json_object
       [(''code'', JString ''UNKNOWN_EVENT_TYPE''), (''error'', JString ''unknown_event_type''),
        (''message'', JString (''unknown event type '' @ qt event_type)),
        (''configured_event_types'', JArray (map JString
           (case schema_map of Some m \<Rightarrow> sort (map fst m) | None \<Rightarrow> []))),
        (''request_id'', JString request_id)]\<rparr>)"

definition enforce_known_event_type ::
  "bool \<Rightarrow> schema_map option \<Rightarrow> string \<Rightarrow> string \<Rightarrow> http_response + unit" where
  "enforce_known_event_type strict schema_map request_id event_type =
    (if \<not> strict then Inr ()
     else if (case schema_map of Some m \<Rightarrow> has_key m event_type | None \<Rightarrow> False) then Inr ()
     else enforce_known_event_type_inner True schema_map request_id event_type)"

definition bucket_event_type_for_observability :: "schema_map option \<Rightarrow> string \<Rightarrow> string" where
  "bucket_event_type_for_observability global event_type =
    (if (case global of Some m \<Rightarrow> has_key m event_type | None \<Rightarrow> False) then event_type else ''generic'')"

end
