(* ===== verification/NotificationBackend.thy ===== *)
theory NotificationBackend
  imports Matcher
begin

text \<open>
  The backend interface: the message and batch types of \<open>src/notification_backend/mod.rs\<close>,
  \<open>replay.rs\<close> and \<open>src/types/response.rs\<close>, and the locale \<open>history_backend\<close> with what the
  replay stream relies on: a batch is the first page of the history selected by its
  parameters, in strictly ascending sequence order. Sequences are natural numbers and
  timestamps integers, in nanoseconds.
\<close>

section \<open>Messages and batches\<close>

record message =
  m_sequence :: nat
  m_topic :: string
  m_payload :: string
  m_timestamp :: "int option"
  m_metadata :: "string alist option"

datatype delete_result = Deleted | DeleteNotFound
datatype wipe_result = Wiped | WipeNotFound

datatype start_at = LiveOnly | StartSequence nat | StartDate int
datatype end_at = EndLatest | EndSequence nat | EndDate int

definition as_replay_cursor :: "start_at \<Rightarrow> nat option \<times> int option" where
  "as_replay_cursor s =
    (case s of StartSequence n \<Rightarrow> (Some n, None) | StartDate d \<Rightarrow> (None, Some d) | LiveOnly \<Rightarrow> (None, None))"

record batch_params =
  bp_topic :: string
  bp_start_at :: start_at
  bp_limit :: nat
  bp_end_sequence :: nat

definition new_batch_params :: "string \<Rightarrow> nat \<Rightarrow> batch_params" where
  "new_batch_params topic limit =
     \<lparr>bp_topic = topic, bp_start_at = LiveOnly, bp_limit = limit, bp_end_sequence = nat u64_max\<rparr>"

record batch_result =
  br_messages :: "message list"
  br_has_more :: bool
  br_last_sequence :: "nat option"
  br_next_sequence :: "nat option"
  br_batch_size :: nat

definition max_sequence :: "message list \<Rightarrow> nat option" where
  "max_sequence ms = (if ms = [] then None else Some (Max (m_sequence ` set ms)))"

definition new_batch_result :: "message list \<Rightarrow> nat \<Rightarrow> batch_result" where
  "new_batch_result ms requested =
     \<lparr>br_messages = ms, br_has_more = (length ms = requested), br_last_sequence = max_sequence ms,
      br_next_sequence = map_option Suc (max_sequence ms), br_batch_size = length ms\<rparr>"

definition empty_batch_result :: batch_result where
  "empty_batch_result = \<lparr>br_messages = [], br_has_more = False, br_last_sequence = None,
     br_next_sequence = None, br_batch_size = 0\<rparr>"

definition with_sequence :: "nat \<Rightarrow> batch_params \<Rightarrow> batch_params" where
  "with_sequence n p = p\<lparr>bp_start_at := StartSequence n\<rparr>"

definition with_date :: "int \<Rightarrow> batch_params \<Rightarrow> batch_params" where
  "with_date d p = p\<lparr>bp_start_at := StartDate d\<rparr>"

definition with_start_at :: "start_at \<Rightarrow> batch_params \<Rightarrow> batch_params" where
  "with_start_at st p = p\<lparr>bp_start_at := st\<rparr>"

definition with_end_sequence :: "nat \<Rightarrow> batch_params \<Rightarrow> batch_params" where
  "with_end_sequence n p = p\<lparr>bp_end_sequence := n\<rparr>"

section \<open>Capabilities\<close>

record capabilities =
  cap_retention_time :: bool
  cap_max_messages :: bool
  cap_max_size :: bool
  cap_allow_duplicates :: bool
  cap_compression :: bool

definition JETSTREAM_CAPABILITIES :: capabilities where
  "JETSTREAM_CAPABILITIES = \<lparr>cap_retention_time = True, cap_max_messages = True, cap_max_size = True,
     cap_allow_duplicates = True, cap_compression = True\<rparr>"

definition IN_MEMORY_CAPABILITIES :: capabilities where
  "IN_MEMORY_CAPABILITIES = \<lparr>cap_retention_time = False, cap_max_messages = False, cap_max_size = False,
     cap_allow_duplicates = False, cap_compression = False\<rparr>"

definition capabilities_for_backend_kind :: "string \<Rightarrow> capabilities option" where
  "capabilities_for_backend_kind kind =
    (if kind = ''jetstream'' then Some JETSTREAM_CAPABILITIES
     else if kind = ''in_memory'' then Some IN_MEMORY_CAPABILITIES else None)"

section \<open>What replay relies on\<close>

text \<open>Whether a start cursor selects a message.\<close>
definition starts_at :: "start_at \<Rightarrow> message \<Rightarrow> bool" where
  "starts_at st m =
    (case st of
       StartSequence n \<Rightarrow> n > 0 \<longrightarrow> n \<le> m_sequence m
     | StartDate d \<Rightarrow> (case m_timestamp m of Some ts \<Rightarrow> d \<le> ts | None \<Rightarrow> False)
     | LiveOnly \<Rightarrow> True)"

abbreviation ascending :: "message list \<Rightarrow> bool" where
  "ascending ms \<equiv> sorted_wrt (\<lambda>a b. m_sequence a < m_sequence b) ms"

definition eligible :: "batch_params \<Rightarrow> message list \<Rightarrow> message list" where
  "eligible p ms = filter (\<lambda>m. m_sequence m \<le> bp_end_sequence p \<and> starts_at (bp_start_at p) m) ms"

text \<open>The first page of the history \<open>ms\<close>, with the cursor of the next one.\<close>
definition page_of :: "batch_params \<Rightarrow> message list \<Rightarrow> batch_result" where
  "page_of p ms =
     (let page = take (bp_limit p) (eligible p ms);
          last_seq = map_option m_sequence (last_of page)
      in \<lparr>br_messages = page, br_has_more = (bp_limit p < length (eligible p ms)),
          br_last_sequence = last_seq, br_next_sequence = map_option Suc last_seq,
          br_batch_size = length page\<rparr>)"

locale history_backend =
  fixes inv :: "'s \<Rightarrow> bool"
    and history :: "'s \<Rightarrow> string \<Rightarrow> err + message list"
    and fetch :: "'s \<Rightarrow> batch_params \<Rightarrow> err + batch_result"
    and last_stored :: "'s \<Rightarrow> string \<Rightarrow> err + nat"
  assumes history_ascending: "inv s \<Longrightarrow> history s topic = Inr ms \<Longrightarrow> ascending ms"
    and history_positive: "inv s \<Longrightarrow> history s topic = Inr ms \<Longrightarrow> m \<in> set ms \<Longrightarrow> 1 \<le> m_sequence m"
    and fetch_page: "inv s \<Longrightarrow> history s (bp_topic p) = Inr ms \<Longrightarrow> fetch s p = Inr (page_of p ms)"
    and fetch_failed: "inv s \<Longrightarrow> history s (bp_topic p) = Inl e \<Longrightarrow> fetch s p = Inl e"
    and last_stored_bound: "inv s \<Longrightarrow> history s topic = Inr ms \<Longrightarrow>
          (\<exists>n. last_stored s topic = Inr n \<and> (\<forall>m\<in>set ms. m_sequence m \<le> n))"
begin

lemma page_bounds:
  assumes "inv s" "history s (bp_topic p) = Inr ms" "fetch s p = Inr r"
  shows "length (br_messages r) \<le> bp_limit p" "set (br_messages r) \<subseteq> set ms"
    "\<And>m. m \<in> set (br_messages r) \<Longrightarrow> m_sequence m \<le> bp_end_sequence p \<and> starts_at (bp_start_at p) m"
  using fetch_page [OF assms(1,2)] assms(3)
  by (auto simp: page_of_def Let_def eligible_def dest: in_set_takeD)

end

section \<open>Lists in sequence order\<close>

lemma ascending_unique:
  assumes "ascending xs" "ascending ys" "set xs = set ys"
  shows "xs = ys"
proof -
  let ?f = "map m_sequence"
  have "sorted (?f xs) \<and> distinct (?f xs)" if "ascending xs" for xs
    using that strict_sorted_iff [of "?f xs"] by (simp add: sorted_wrt_map)
  then have "?f xs = ?f ys"
    using assms by (intro sorted_distinct_set_unique) auto
  moreover have "inj_on m_sequence (set xs)"
    using assms(1) by (auto simp: inj_on_def in_set_conv_nth sorted_wrt_iff_nth_less)
      (metis less_irrefl linorder_neqE_nat)
  ultimately show ?thesis using assms(3) by (simp add: inj_on_map_eq_map)
qed

lemma ascending_appendD:
  assumes "ascending (xs @ ys)" "x \<in> set xs" "y \<in> set ys"
  shows "m_sequence x < m_sequence y"
  using assms by (simp add: sorted_wrt_append)

lemma ascending_last:
  assumes "ascending xs" "x \<in> set xs"
  shows "m_sequence x \<le> m_sequence (last xs)"
proof -
  have "xs \<noteq> []" using assms(2) by auto
  then have "ascending (butlast xs @ [last xs])" using assms(1) by simp
  moreover have "x \<in> set (butlast xs) \<or> x = last xs"
    using assms(2) \<open>xs \<noteq> []\<close> by (metis append_butlast_last_id Un_iff set_append list.set(2) insertE empty_iff list.set(1))
  ultimately show ?thesis by (auto simp: sorted_wrt_append)
qed

end
