(* ===== verification/Requests.thy ===== *)
theory Requests
  imports Processor NotificationBackend
begin

text \<open>
  The request type and the validation of its start and end, \<open>src/types/request.rs\<close> and
  \<open>src/types/end_at.rs\<close>, the parsing of a request body, \<open>src/handlers/validation.rs\<close>, and the
  shared processing of watch and replay requests, \<open>src/handlers/request_processor.rs\<close>. The
  date readers are the \<open>chrono\<close> crate's, in the record \<open>date_reader\<close>: timestamps are
  nanoseconds since the epoch. Turning a JSON value into a request is the derived
  deserializer, \<open>read_request\<close>.
\<close>

record notification_request =
  nr_event_type :: string
  nr_identifier :: "json alist"
  nr_from_id :: "string option"
  nr_from_date :: "string option"
  nr_to_id :: "string option"
  nr_to_date :: "string option"
  nr_payload :: "json option"

record date_reader =
  dr_from_timestamp :: "int \<Rightarrow> nat \<Rightarrow> int option"
  dr_rfc3339 :: "string \<Rightarrow> int option"
  dr_zoned :: "string \<Rightarrow> string \<Rightarrow> int option"
  dr_naive :: "string \<Rightarrow> string \<Rightarrow> int option"
  dr_show :: "int \<Rightarrow> string"

section \<open>Dates\<close>

definition DATE_EXAMPLES :: "string list" where
  "DATE_EXAMPLES = [''2025-06-09T13:15:00Z'', ''2025-06-09 13:15:00+00:00'', ''2025-06-09 13:15:00'',
     ''1740509903'', ''1740509903710'']"

definition zoned_formats :: "string list" where
  "zoned_formats = [''%Y-%m-%d %H:%M:%S%:z'', ''%Y-%m-%d %H:%M:%S%.f%:z'']"

definition naive_formats :: "string list" where
  "naive_formats = [''%Y-%m-%dT%H:%M:%S'', ''%Y-%m-%dT%H:%M:%S%.f'', ''%Y-%m-%d %H:%M:%S'', ''%Y-%m-%d %H:%M:%S%.f'']"

definition all_digits :: "string \<Rightarrow> bool" where
  "all_digits s = (s \<noteq> [] \<and> list_all is_digit s)"

definition parse_unix :: "date_reader \<Rightarrow> string \<Rightarrow> err + int" where
  "parse_unix d digits =
     (let significant = dropWhile (\<lambda>c. c = CHR ''0'') digits;
          digit_count = (if significant = [] then 1 else length significant)
      in bind_res (map_err (\<lambda>e. [''failed to parse unix timestamp '' @ qt digits @ '': '' @ int_error_text e])
                    (parse_i64 digits)) (\<lambda>v.
           if digit_count \<le> 11
           then of_option [''invalid unix seconds timestamp '' @ qt digits] (dr_from_timestamp d v 0)
           else of_option [''invalid unix milliseconds timestamp '' @ qt digits]
                  (dr_from_timestamp d (v div 1000) (nat (v mod 1000) * 1000000))))"

definition first_date :: "int option list \<Rightarrow> int option" where
  "first_date rs = first_of (List.map_filter (\<lambda>r. r) rs)"

definition parse_date_flexible :: "date_reader \<Rightarrow> string \<Rightarrow> err + int" where
  "parse_date_flexible d date_str =
     (let trimmed = trim date_str;
          unsigned = (case strip_prefix ''+'' trimmed of Some s \<Rightarrow> s | None \<Rightarrow> trimmed)
      in if (case strip_prefix ''-'' trimmed of Some s \<Rightarrow> all_digits s | None \<Rightarrow> False)
         then bail (''negative unix timestamps are not supported: '' @ qt trimmed)
         else if all_digits unsigned then parse_unix d unsigned
         else of_option [''expected ISO-8601 datetime (RFC3339/space-separated with optional timezone) '' @
                         ''or unix epoch seconds/milliseconds'']
                (first_date (dr_rfc3339 d trimmed # map (dr_zoned d trimmed) zoned_formats @
                             map (dr_naive d trimmed) naive_formats)))"

section \<open>Fields\<close>

definition all_field_names :: "string list" where
  "all_field_names = [''event_type'', ''identifier'', ''from_id'', ''from_date'', ''to_id'', ''to_date'', ''payload'']"

definition is_valid_field :: "string \<Rightarrow> bool" where
  "is_valid_field f = (f \<in> set all_field_names)"

definition validate_known_fields :: "host \<Rightarrow> json \<Rightarrow> err + unit" where
  "validate_known_fields h v =
    (case Option.bind (as_object v) (\<lambda>m. find (\<lambda>(k, _). \<not> is_valid_field k) m) of
       Some (k, _) \<Rightarrow> bail (''Unknown field '' @ qt k @ '' in request. Allowed fields: '' @ debug_list h all_field_names)
     | None \<Rightarrow> Inr ())"

definition parse_sequence_field :: "string \<Rightarrow> string option \<Rightarrow> err + nat option" where
  "parse_sequence_field f v =
    (case v of
       None \<Rightarrow> Inr None
     | Some s \<Rightarrow>
         if trim s = []
         then bail (f @ '' cannot be empty. Provide a valid sequence number or omit the field'')
         else (case parse_u64 s of
                 Inr n \<Rightarrow> Inr (Some n)
               | Inl _ \<Rightarrow> bail (f @ '' must be a valid positive integer. Got: '' @ qt s @
                   ''. Valid examples: '' @ qt ''1'' @ '', '' @ qt ''123'' @ '', '' @ qt ''9999'')))"

definition parse_date_field :: "date_reader \<Rightarrow> string \<Rightarrow> string option \<Rightarrow> err + int option" where
  "parse_date_field d f v =
    (case v of
       None \<Rightarrow> Inr None
     | Some s \<Rightarrow>
         if trim s = []
         then bail (f @ '' cannot be empty. Provide a valid datetime/timestamp or omit the field'')
         else map_res Some (map_err (\<lambda>e. [f @ '' must be a valid datetime/timestamp. Got: '' @ qt s @ ''. Error: '' @
                outer_msg e @ ''. Valid examples: '' @ join '', '' (map qt DATE_EXAMPLES)])
              (parse_date_flexible d s)))"

section \<open>Start and end\<close>

definition validate_watch_parameters :: "date_reader \<Rightarrow> notification_request \<Rightarrow> err + nat option \<times> int option" where
  "validate_watch_parameters d r =
     bind_res (parse_sequence_field ''from_id'' (nr_from_id r)) (\<lambda>parsed_id.
     bind_res (parse_date_field d ''from_date'' (nr_from_date r)) (\<lambda>parsed_date.
       if parsed_id \<noteq> None \<and> parsed_date \<noteq> None
       then bail (''Cannot specify both from_id and from_date. Please provide only one replay parameter. '' @
              ''Use from_id for sequence-based replay or from_date for time-based replay.'')
       else Inr (parsed_id, parsed_date)))"

definition validate_start_at :: "date_reader \<Rightarrow> notification_request \<Rightarrow> err + start_at" where
  "validate_start_at d r =
     map_res (\<lambda>(parsed_id, parsed_date).
       case parsed_id of
         Some n \<Rightarrow> StartSequence n
       | None \<Rightarrow> (case parsed_date of Some t \<Rightarrow> StartDate t | None \<Rightarrow> LiveOnly))
       (validate_watch_parameters d r)"

definition has_end_point :: "notification_request \<Rightarrow> bool" where
  "has_end_point r = (nr_to_id r \<noteq> None \<or> nr_to_date r \<noteq> None)"

definition reject_end_point :: "string \<Rightarrow> notification_request \<Rightarrow> err + unit" where
  "reject_end_point endpoint r =
    (if has_end_point r
     then bail (''to_id and to_date are only supported for the replay endpoint, not '' @ endpoint) else Inr ())"

definition validate_end_at :: "date_reader \<Rightarrow> notification_request \<Rightarrow> start_at \<Rightarrow> err + end_at" where
  "validate_end_at d r start_at =
     bind_res (parse_sequence_field ''to_id'' (nr_to_id r)) (\<lambda>to_id.
     bind_res (parse_date_field d ''to_date'' (nr_to_date r)) (\<lambda>to_date.
       case to_id of
         Some n \<Rightarrow>
           if to_date \<noteq> None
           then bail (''Cannot specify both to_id and to_date. Please provide only one replay end '' @
                  ''parameter. Use to_id for a sequence-based end or to_date for a time-based end.'')
           else (case start_at of
                   StartSequence from_id \<Rightarrow>
                     if n < from_id
                     then bail (''to_id ('' @ show_nat n @ '') must not be lower than from_id ('' @ show_nat from_id @ '')'')
                     else Inr (EndSequence n)
                 | _ \<Rightarrow> Inr (EndSequence n))
       | None \<Rightarrow>
           (case to_date of
              Some t \<Rightarrow>
                (case start_at of
                   StartDate from_date \<Rightarrow>
                     if t < from_date
                     then bail (''to_date ('' @ dr_show d t @ '') must not be earlier than from_date ('' @ dr_show d from_date @ '')'')
                     else Inr (EndDate t)
                 | _ \<Rightarrow> Inr (EndDate t))
            | None \<Rightarrow> Inr EndLatest)))"

definition validate_spatial_filters :: "host \<Rightarrow> notification_request \<Rightarrow> err + unit" where
  "validate_spatial_filters h r =
    (if has_key (nr_identifier r) ''polygon'' \<and> has_key (nr_identifier r) ''point''
     then bail (''Cannot specify both identifier.polygon and identifier.point. Provide only one spatial filter.'')
     else (case map_of (nr_identifier r) ''point'' of
       None \<Rightarrow> Inr ()
     | Some point \<Rightarrow>
         map_res (\<lambda>_. ()) (map_err (\<lambda>e. [''identifier.point must be a valid [lat,lon] coordinate pair or compatible string: '' @ outer_msg e])
           (parse_point_value h point))))"

section \<open>Bodies\<close>

datatype request_parse_error = InvalidJson string | UnknownField err | InvalidShape string

fun parse_error_text :: "request_parse_error \<Rightarrow> string" where
  "parse_error_text (InvalidJson e) = ''JSON parsing failed: '' @ e"
| "parse_error_text (UnknownField e) = ''Request contains unknown fields: '' @ outer_msg e"
| "parse_error_text (InvalidShape e) = ''Request deserialization failed: '' @ e"

definition parse_and_validate_request ::
  "host \<Rightarrow> (json \<Rightarrow> string + notification_request) \<Rightarrow> string \<Rightarrow> request_parse_error + notification_request" where
  "parse_and_validate_request h read_request body =
     bind_res (map_err InvalidJson (json_parse h body)) (\<lambda>v.
     bind_res (map_err UnknownField (validate_known_fields h v)) (\<lambda>_.
     map_err InvalidShape (read_request v)))"

section \<open>Watch and replay requests\<close>

record validation_config =
  vc_require_replay_params :: bool
  vc_operation :: operation

definition for_watch :: validation_config where
  "for_watch = \<lparr>vc_require_replay_params = False, vc_operation = Watch\<rparr>"

definition for_replay :: validation_config where
  "for_replay = \<lparr>vc_require_replay_params = True, vc_operation = Replay\<rparr>"

record streaming_context =
  sc_event_type :: string
  sc_topic :: string
  sc_params :: "string alist"
  sc_constraints :: "identifier_constraint alist"
  sc_start_at :: start_at
  sc_end_at :: end_at
  sc_request_id :: string
  sc_from_schema :: bool

definition validate_replay_parameters ::
  "host \<Rightarrow> date_reader \<Rightarrow> notification_request \<Rightarrow> validation_config \<Rightarrow> err + start_at \<times> end_at" where
  "validate_replay_parameters h d r config =
     bind_res (validate_spatial_filters h r) (\<lambda>_.
     bind_res (validate_start_at d r) (\<lambda>start_at.
     bind_res
       (case vc_operation config of
          Replay \<Rightarrow> Inr ()
        | Watch \<Rightarrow> reject_end_point ''/watch'' r
        | Notify \<Rightarrow> reject_end_point ''/notification'' r) (\<lambda>_.
     if vc_require_replay_params config \<and> start_at = LiveOnly
     then bail (''Replay endpoint requires either from_id or from_date parameter. '' @
            ''Use from_id for sequence-based replay or from_date for time-based replay.'')
     else bind_res (validate_end_at d r start_at) (\<lambda>end_at. Inr (start_at, end_at)))))"

definition process_streaming ::
  "host \<Rightarrow> 'd chrono \<Rightarrow> date_reader \<Rightarrow> schema_map option \<Rightarrow> bool \<Rightarrow> notification_request \<Rightarrow> string \<Rightarrow>
   validation_config \<Rightarrow> err + streaming_context" where
  "process_streaming h c d global strict r request_id config =
     bind_res (validate_replay_parameters h d r config) (\<lambda>(start_at, end_at).
     bind_res (process_request_with_values h c (handler_from_config global strict)
                 (nr_event_type r) (nr_identifier r) None (vc_operation config)) (\<lambda>res.
     Inr \<lparr>sc_event_type = pr_event_type res, sc_topic = pr_topic res, sc_params = pr_params res,
          sc_constraints = pr_constraints res, sc_start_at = start_at, sc_end_at = end_at,
          sc_request_id = request_id, sc_from_schema = pr_from_schema res\<rparr>))"

end
