(* ===== verification/ApiErrors.thy ===== *)
theory ApiErrors
  imports Auth Requests
begin

text \<open>
  The error model of the HTTP interface, \<open>src/error.rs\<close>: the stable error codes, the errors of
  parsing, validation, processing and stream set-up, their status codes and their bodies.
\<close>

section \<open>Codes\<close>

datatype api_error_code =
    InvalidJsonCode | UnknownFieldCode | InvalidRequestShape
  | InvalidNotificationRequest | InvalidWatchRequest | InvalidReplayRequest
  | NotificationProcessingFailed | NotificationStorageFailed | SseStreamInitializationFailed
  | InternalErrorCode

fun code_as_str :: "api_error_code \<Rightarrow> string" where
  "code_as_str InvalidJsonCode = ''INVALID_JSON''"
| "code_as_str UnknownFieldCode = ''UNKNOWN_FIELD''"
| "code_as_str InvalidRequestShape = ''INVALID_REQUEST_SHAPE''"
| "code_as_str InvalidNotificationRequest = ''INVALID_NOTIFICATION_REQUEST''"
| "code_as_str InvalidWatchRequest = ''INVALID_WATCH_REQUEST''"
| "code_as_str InvalidReplayRequest = ''INVALID_REPLAY_REQUEST''"
| "code_as_str NotificationProcessingFailed = ''NOTIFICATION_PROCESSING_FAILED''"
| "code_as_str NotificationStorageFailed = ''NOTIFICATION_STORAGE_FAILED''"
| "code_as_str SseStreamInitializationFailed = ''SSE_STREAM_INITIALIZATION_FAILED''"
| "code_as_str InternalErrorCode = ''INTERNAL_ERROR''"

datatype request_kind = NotificationKind | WatchKind | ReplayKind

fun request_code :: "request_kind \<Rightarrow> api_error_code" where
  "request_code NotificationKind = InvalidNotificationRequest"
| "request_code WatchKind = InvalidWatchRequest"
| "request_code ReplayKind = InvalidReplayRequest"

fun request_label :: "request_kind \<Rightarrow> string" where
  "request_label NotificationKind = ''Invalid Notification Request''"
| "request_label WatchKind = ''Invalid Watch Request''"
| "request_label ReplayKind = ''Invalid Replay Request''"

datatype processing_kind = NotificationProcessing | NotificationStorage

fun processing_code :: "processing_kind \<Rightarrow> api_error_code" where
  "processing_code NotificationProcessing = NotificationProcessingFailed"
| "processing_code NotificationStorage = NotificationStorageFailed"

fun processing_label :: "processing_kind \<Rightarrow> string" where
  "processing_label NotificationProcessing = ''Notification Processing Failed''"
| "processing_label NotificationStorage = ''Notification Storage Failed''"

section \<open>Errors and responses\<close>

text \<open>The code, the label, the request id and the cause; a stream error carries its topic.\<close>
datatype api_error =
    ParseError api_error_code string string request_parse_error
  | ValidationError api_error_code string string err
  | ProcessingError api_error_code string string err
  | SseError api_error_code string string err

fun parse_code :: "request_parse_error \<Rightarrow> api_error_code" where
  "parse_code (InvalidJson _) = InvalidJsonCode"
| "parse_code (UnknownField _) = UnknownFieldCode"
| "parse_code (InvalidShape _) = InvalidRequestShape"

definition api_parse :: "request_kind \<Rightarrow> request_parse_error \<Rightarrow> string \<Rightarrow> api_error" where
  "api_parse kind source request_id = ParseError (parse_code source) (request_label kind) request_id source"

definition api_validation :: "request_kind \<Rightarrow> err \<Rightarrow> string \<Rightarrow> api_error" where
  "api_validation kind source request_id =
     ValidationError (request_code kind) (request_label kind) request_id source"

definition api_processing :: "processing_kind \<Rightarrow> err \<Rightarrow> string \<Rightarrow> api_error" where
  "api_processing kind source request_id =
     ProcessingError (processing_code kind) (processing_label kind) request_id source"

definition api_sse :: "string \<Rightarrow> string \<Rightarrow> err \<Rightarrow> api_error" where
  "api_sse topic request_id source = SseError SseStreamInitializationFailed topic request_id source"

fun api_status :: "api_error \<Rightarrow> nat" where
  "api_status (ParseError _ _ _ _) = 400"
| "api_status (ValidationError _ _ _ _) = 400"
| "api_status (ProcessingError _ _ _ _) = 500"
| "api_status (SseError _ _ _ _) = 500"

definition error_summary :: "err \<Rightarrow> string \<times> string \<times> string list" where
  "error_summary e =
     (let msg = (case first_of e of Some m \<Rightarrow> m | None \<Rightarrow> ''Unknown error'');
          details = (case last_of e of Some m \<Rightarrow> m | None \<Rightarrow> msg)
      in (msg, details, e))"

definition failure_json :: "string \<Rightarrow> string \<Rightarrow> string \<Rightarrow> string \<Rightarrow> string \<Rightarrow> json alist" where
  "failure_json code label msg details request_id =
     [(''code'', JString code), (''error'', JString label), (''message'', JString msg),
      (''details'', JString details), (''request_id'', JString request_id)]"

fun error_response :: "api_error \<Rightarrow> http_response" where
  "error_response (ParseError code label request_id source) =
     (let msg = parse_error_text source in
      \<lparr>hr_status = api_status (ParseError code label request_id source), hr_headers = [],
       hr_body = json_object (failure_json (code_as_str code) label msg msg request_id)\<rparr>)"
| "error_response (ValidationError code label request_id source) =
     (case error_summary source of (msg, details, _) \<Rightarrow>
      \<lparr>hr_status = api_status (ValidationError code label request_id source), hr_headers = [],
       hr_body = json_object (failure_json (code_as_str code) label msg details request_id)\<rparr>)"
| "error_response (ProcessingError code label request_id source) =
     (case error_summary source of (msg, details, _) \<Rightarrow>
      \<lparr>hr_status = api_status (ProcessingError code label request_id source), hr_headers = [],
       hr_body = json_object (failure_json (code_as_str code) label msg details request_id)\<rparr>)"
| "error_response (SseError code topic request_id source) =
     (case error_summary source of (msg, details, _) \<Rightarrow>
      \<lparr>hr_status = api_status (SseError code topic request_id source), hr_headers = [],
       hr_body = json_object (failure_json (code_as_str code) ''SSE stream creation failed'' msg details request_id @
         [(''topic'', JString (decode_subject_for_display topic))])\<rparr>)"

definition request_parse_error_response :: "request_kind \<Rightarrow> request_parse_error \<Rightarrow> string \<Rightarrow> http_response" where
  "request_parse_error_response kind e request_id = error_response (api_parse kind e request_id)"

definition request_validation_error_response :: "request_kind \<Rightarrow> err \<Rightarrow> string \<Rightarrow> http_response" where
  "request_validation_error_response kind e request_id = error_response (api_validation kind e request_id)"

definition processing_error_response :: "processing_kind \<Rightarrow> err \<Rightarrow> string \<Rightarrow> http_response" where
  "processing_error_response kind e request_id = error_response (api_processing kind e request_id)"

definition sse_error_response :: "err \<Rightarrow> string \<Rightarrow> string \<Rightarrow> http_response" where
  "sse_error_response e topic request_id = error_response (api_sse topic request_id e)"

lemma error_response_status [simp]: "hr_status (error_response e) = api_status e"
  by (cases e) (simp_all add: error_summary_def Let_def)

lemma response_status [simp]:
  "hr_status (request_parse_error_response k pe rid) = 400"
  "hr_status (request_validation_error_response k e rid) = 400"
  "hr_status (processing_error_response pk e rid) = 500"
  "hr_status (sse_error_response e topic rid) = 500"
  by (simp_all del: error_response.simps add: request_parse_error_response_def request_validation_error_response_def
      processing_error_response_def sse_error_response_def api_parse_def api_validation_def
      api_processing_def api_sse_def)

end
