(* ===== verification/Ecpds.thy ===== *)
theory Ecpds
  imports Auth
begin

text \<open>
  The ECPDS destination check, \<open>aviso-ecpds/src/client.rs\<close>, \<open>cache.rs\<close>, \<open>checker.rs\<close> and
  \<open>enforce_ecpds_auth\<close> of \<open>src/routes/streaming.rs\<close>. What a server answers is an argument:
  the reply of the HTTP library, with the body read by its JSON reader. The cache library is
  a map from usernames to destination lists that may lose entries at any time.
\<close>

section \<open>Errors and outcomes\<close>

datatype fetch_outcome =
  FSuccess | FUnauthorized | FForbidden | FClientError | FServerError | FInvalidResponse | FUnreachable

fun outcome_label :: "fetch_outcome \<Rightarrow> string" where
  "outcome_label FSuccess = ''success''"
| "outcome_label FUnauthorized = ''http_401''"
| "outcome_label FForbidden = ''http_403''"
| "outcome_label FClientError = ''http_4xx''"
| "outcome_label FServerError = ''http_5xx''"
| "outcome_label FInvalidResponse = ''invalid_response''"
| "outcome_label FUnreachable = ''unreachable''"

fun outcome_rank :: "fetch_outcome \<Rightarrow> nat" where
  "outcome_rank FUnauthorized = 6"
| "outcome_rank FForbidden = 5"
| "outcome_rank FClientError = 4"
| "outcome_rank FInvalidResponse = 3"
| "outcome_rank FServerError = 2"
| "outcome_rank FUnreachable = 1"
| "outcome_rank FSuccess = 0"

definition pessimistic_max :: "fetch_outcome \<Rightarrow> fetch_outcome \<Rightarrow> fetch_outcome" where
  "pessimistic_max a b = (if outcome_rank b > outcome_rank a then b else a)"

text \<open>The rank orders the outcomes, so that the worst of several is their maximum.\<close>
lemma outcome_rank_inject: "outcome_rank a = outcome_rank b \<Longrightarrow> a = b"
  by (cases a; cases b) simp_all

instantiation fetch_outcome :: linorder
begin

definition less_eq_fetch_outcome :: "fetch_outcome \<Rightarrow> fetch_outcome \<Rightarrow> bool" where
  "less_eq_fetch_outcome a b = (outcome_rank a \<le> outcome_rank b)"

definition less_fetch_outcome :: "fetch_outcome \<Rightarrow> fetch_outcome \<Rightarrow> bool" where
  "less_fetch_outcome a b = (outcome_rank a < outcome_rank b)"

instance
  by standard (auto simp: less_eq_fetch_outcome_def less_fetch_outcome_def intro: outcome_rank_inject)

end

lemma pessimistic_max_max: "pessimistic_max a b = max a b"
  by (auto simp: pessimistic_max_def max_def less_eq_fetch_outcome_def intro: outcome_rank_inject)

datatype deny_reason = DestinationNotInList | MatchKeyMissing

fun deny_label :: "deny_reason \<Rightarrow> string" where
  "deny_label DestinationNotInList = ''deny_destination''"
| "deny_label MatchKeyMissing = ''deny_match_key_missing''"

datatype ecpds_error =
    EcpdsUnavailable fetch_outcome
  | AccessDenied deny_reason string
  | InvalidResponse nat string
  | InvalidServerUrl string string
  | HttpClientBuild string
  | HttpError nat "nat option" string

fun error_outcome :: "ecpds_error \<Rightarrow> fetch_outcome" where
  "error_outcome (HttpError _ status _) =
    (case status of
       Some s \<Rightarrow>
         if s = 401 then FUnauthorized else if s = 403 then FForbidden
         else if 400 \<le> s \<and> s < 500 then FClientError
         else if 500 \<le> s \<and> s < 600 then FServerError else FServerError
     | None \<Rightarrow> FUnreachable)"
| "error_outcome (InvalidResponse _ _) = FInvalidResponse"
| "error_outcome (EcpdsUnavailable o1) = o1"
| "error_outcome (AccessDenied _ _) = FUnreachable"
| "error_outcome (InvalidServerUrl _ _) = FUnreachable"
| "error_outcome (HttpClientBuild _) = FUnreachable"

section \<open>One server\<close>

text \<open>
  The reply to a request, or the transport error; the status as the HTTP library writes it, and the body as the JSON reader returns it for
  the expected fields \<open>destinationList\<close> and \<open>success\<close>, or its error.
\<close>
record ecpds_reply =
  er_status :: nat
  er_status_text :: string
  er_body :: "string + json list \<times> string"

definition dquote :: string where "dquote = [char_of (34 :: nat)]"

definition active_destination :: "string \<Rightarrow> json \<Rightarrow> string option" where
  "active_destination target_field r =
    (if json_get ''active'' r \<noteq> Some (JBool True) then None
     else Option.bind (json_get target_field r) as_str)"

definition fetch_from_server ::
  "host \<Rightarrow> string \<Rightarrow> nat \<Rightarrow> string + ecpds_reply \<Rightarrow> ecpds_error + string list" where
  "fetch_from_server h target_field i answer =
    (case answer of
       Inl e \<Rightarrow> Inl (HttpError i None e)
     | Inr reply \<Rightarrow>
         if \<not> (200 \<le> er_status reply \<and> er_status reply < 300)
         then Inl (HttpError i (Some (er_status reply)) (''HTTP '' @ er_status_text reply))
         else bind_res (map_err (InvalidResponse i) (er_body reply)) (\<lambda>(records, success).
           if success \<noteq> ''yes''
           then Inl (InvalidResponse i (''ECPDS reported success='' @ debug_str h success @
                  '' (expected '' @ dquote @ ''yes'' @ dquote @ ''); treating as upstream failure''))
           else Inr (List.map_filter (active_destination target_field) records)))"

section \<open>Configuration and construction\<close>

datatype outage_policy = Strict | AnySuccess

record ecpds_config =
  ec_username :: string
  ec_password :: string
  ec_target_field :: string
  ec_match_key :: string
  ec_cache_ttl_seconds :: nat
  ec_max_entries :: nat
  ec_request_timeout_seconds :: nat
  ec_connect_timeout_seconds :: nat
  ec_partial_outage_policy :: outage_policy
  ec_servers :: "string list"

definition default_cache_ttl :: nat where "default_cache_ttl = 300"
definition default_max_entries :: nat where "default_max_entries = 10000"
definition default_request_timeout :: nat where "default_request_timeout = 30"
definition default_connect_timeout :: nat where "default_connect_timeout = 5"

text \<open>
  Building the client: \<open>build_http\<close> is the HTTP library's builder with the two timeouts and
  \<open>parse_url\<close> its URL parser; the first server that does not parse fails the construction.
\<close>
definition new_ecpds_client ::
  "(nat \<Rightarrow> nat \<Rightarrow> string + unit) \<Rightarrow> (string \<Rightarrow> string + 'url) \<Rightarrow> ecpds_config \<Rightarrow> ecpds_error + 'url list" where
  "new_ecpds_client build_http parse_url config =
     bind_res (map_err HttpClientBuild
       (build_http (ec_request_timeout_seconds config) (ec_connect_timeout_seconds config))) (\<lambda>_.
     collect_res (map (\<lambda>s. map_err (InvalidServerUrl s) (parse_url s)) (ec_servers config)))"

section \<open>Merging\<close>

definition worse :: "fetch_outcome option \<Rightarrow> fetch_outcome \<Rightarrow> fetch_outcome" where
  "worse prev o1 = (case prev of None \<Rightarrow> o1 | Some p \<Rightarrow> pessimistic_max p o1)"

text \<open>The loop of both policies: the union, whether any server answered, the worst failure.\<close>
fun merge_results ::
  "(ecpds_error + string list) list \<Rightarrow> string set \<times> bool \<times> fetch_outcome option \<Rightarrow>
   string set \<times> bool \<times> fetch_outcome option" where
  "merge_results [] acc = acc"
| "merge_results (Inr dests # rs) (acc, any, worst) = merge_results rs (acc \<union> set dests, True, worst)"
| "merge_results (Inl e # rs) (acc, any, worst) =
     merge_results rs (acc, any, Some (worse worst (error_outcome e)))"

definition merge_strict :: "(ecpds_error + string list) list \<Rightarrow> ecpds_error + string set \<times> fetch_outcome" where
  "merge_strict results =
    (if results = [] then Inl (EcpdsUnavailable FUnreachable)
     else (case merge_results results ({}, False, None) of (acc, any, worst) \<Rightarrow>
       (case worst of
          Some o1 \<Rightarrow> Inl (EcpdsUnavailable o1)
        | None \<Rightarrow> Inr (acc, FSuccess))))"

definition merge_any_success :: "(ecpds_error + string list) list \<Rightarrow> ecpds_error + string set \<times> fetch_outcome" where
  "merge_any_success results =
    (case merge_results results ({}, False, None) of (acc, any, worst) \<Rightarrow>
       if \<not> any then Inl (EcpdsUnavailable (case worst of Some o1 \<Rightarrow> o1 | None \<Rightarrow> FUnreachable))
       else Inr (acc, case worst of Some o1 \<Rightarrow> o1 | None \<Rightarrow> FSuccess))"

text \<open>\<open>answers\<close> are the answers of the configured servers, in their order.\<close>
definition fetch_user_destinations ::
  "host \<Rightarrow> outage_policy \<Rightarrow> string \<Rightarrow> (string + ecpds_reply) list \<Rightarrow> ecpds_error + string set \<times> fetch_outcome" where
  "fetch_user_destinations h policy target_field answers =
    (if answers = [] then Inl (EcpdsUnavailable FUnreachable)
     else (let results = map (\<lambda>(i, a). fetch_from_server h target_field i a) (enumerate 0 answers)
           in case policy of Strict \<Rightarrow> merge_strict results | AnySuccess \<Rightarrow> merge_any_success results))"

section \<open>The cache\<close>

type_synonym dest_cache = "string \<Rightarrow> string set option"

datatype cache_outcome = CacheHit | MissCoalesced | MissFetched fetch_outcome

fun cache_label :: "cache_outcome \<Rightarrow> string" where
  "cache_label CacheHit = ''hit''"
| "cache_label MissCoalesced = ''miss_coalesced''"
| "cache_label (MissFetched _) = ''miss_fetched''"

text \<open>The error a waiter receives that shares another caller's fetch.\<close>
fun clone_ecpds_error :: "ecpds_error \<Rightarrow> ecpds_error" where
  "clone_ecpds_error (HttpClientBuild _) = EcpdsUnavailable FUnreachable"
| "clone_ecpds_error (InvalidServerUrl _ _) = EcpdsUnavailable FUnreachable"
| "clone_ecpds_error e = e"

text \<open>
  What the single flight of the cache library does for a caller whose first lookup missed:
  it runs this caller's fetch, or hands over what another caller's fetch returned.
  \<open>shared\<close> says whether the error object is held by other waiters as well.
\<close>
datatype flight =
    RunsFetch "ecpds_error + string set \<times> fetch_outcome" bool
  | JoinsFetch "ecpds_error + string set" bool

definition unshare :: "bool \<Rightarrow> ecpds_error \<Rightarrow> ecpds_error" where
  "unshare shared e = (if shared then clone_ecpds_error e else e)"

definition try_get_or_fetch ::
  "dest_cache \<Rightarrow> string \<Rightarrow> flight \<Rightarrow> (cache_outcome \<times> (ecpds_error + string set)) \<times> dest_cache" where
  "try_get_or_fetch cache username flight =
    (case cache username of
       Some cached \<Rightarrow> ((CacheHit, Inr cached), cache)
     | None \<Rightarrow>
    (case flight of
       RunsFetch (Inr (dests, o1)) _ \<Rightarrow> ((MissFetched o1, Inr dests), cache(username \<mapsto> dests))
     | RunsFetch (Inl e) shared \<Rightarrow> ((MissFetched (error_outcome e), Inl (unshare shared e)), cache)
     | JoinsFetch r shared \<Rightarrow> ((MissCoalesced, map_err (unshare shared) r), cache)))"

section \<open>The checker\<close>

record access_check_result =
  acr_cache_outcome :: "cache_outcome option"
  acr_result :: "ecpds_error + unit"

definition check_access ::
  "string \<Rightarrow> dest_cache \<Rightarrow> string \<Rightarrow> string alist \<Rightarrow> flight \<Rightarrow> access_check_result \<times> dest_cache" where
  "check_access match_key cache username identifier flight =
    (case map_of identifier match_key of
       None \<Rightarrow> (\<lparr>acr_cache_outcome = None, acr_result = Inl (AccessDenied MatchKeyMissing
                 (''Required field '' @ qt match_key @ '' not found in request identifiers''))\<rparr>, cache)
     | Some destination \<Rightarrow>
         (case try_get_or_fetch cache username flight of ((outcome, fetched), cache') \<Rightarrow>
           (\<lparr>acr_cache_outcome = Some outcome, acr_result = bind_res fetched (\<lambda>dests.
               if destination \<in> dests then Inr ()
               else Inl (AccessDenied DestinationNotInList
                 (''User '' @ qt username @ '' does not have access to destination '' @ qt destination)))\<rparr>, cache')))"

section \<open>The route check\<close>

definition ecpds_service_unavailable_response :: "string \<Rightarrow> http_response" where
  "ecpds_service_unavailable_response request_id =
     \<lparr>hr_status = 503, hr_headers = [], hr_body = error_body ''SERVICE_UNAVAILABLE'' ''service_unavailable''
        ''ECPDS service is inaccessible'' request_id\<rparr>"

definition has_ecpds_plugin :: "schema_map option \<Rightarrow> string \<Rightarrow> bool" where
  "has_ecpds_plugin global event_type =
    (case Option.bind (stream_auth_of global event_type) sa_plugins of
       Some plugins \<Rightarrow> list_ex (\<lambda>p. p = ''ecpds'') plugins | None \<Rightarrow> False)"

text \<open>The counters the check increments, in order; every one of them is a metric of the server.\<close>
datatype ecpds_count = CountHit | CountMiss | CountFetch string | CountDecision string

definition cache_counts :: "cache_outcome option \<Rightarrow> ecpds_count list" where
  "cache_counts outcome =
    (case outcome of
       None \<Rightarrow> []
     | Some CacheHit \<Rightarrow> [CountHit]
     | Some MissCoalesced \<Rightarrow> [CountMiss]
     | Some (MissFetched o1) \<Rightarrow> [CountMiss, CountFetch (outcome_label o1)])"

text \<open>\<open>checker\<close> is the match key of the configured checker, if there is one.\<close>
definition enforce_ecpds_auth ::
  "handler_context \<Rightarrow> schema_map option \<Rightarrow> string \<Rightarrow> string alist \<Rightarrow> string option \<Rightarrow> dest_cache \<Rightarrow> flight \<Rightarrow>
   (http_response + unit) \<times> dest_cache \<times> ecpds_count list" where
  "enforce_ecpds_auth c global event_type params checker cache flight =
    (if \<not> has_ecpds_plugin global event_type then (Inr (), cache, [])
     else (case hc_user c of
       None \<Rightarrow> (Inr (), cache, [])
     | Some user \<Rightarrow>
    (case hc_settings c of
       None \<Rightarrow> (Inl (internal_error_response ''Server configuration error'' (hc_request_id c)), cache,
               [CountDecision ''error''])
     | Some settings \<Rightarrow>
    if is_admin user (as_admin_roles settings) then (Inr (), cache, [CountDecision ''admin_bypass''])
    else (case checker of
       None \<Rightarrow> (Inl (internal_error_response ''Server configuration error'' (hc_request_id c)), cache,
               [CountDecision ''error''])
     | Some match_key \<Rightarrow>
    (case check_access match_key cache (u_username user) params flight of (access, cache') \<Rightarrow>
      (let counts = cache_counts (acr_cache_outcome access) in
       case acr_result access of
         Inr _ \<Rightarrow> (Inr (), cache', counts @ [CountDecision ''allow''])
       | Inl (AccessDenied reason msg) \<Rightarrow>
           (Inl (forbidden_response msg (hc_request_id c)), cache', counts @ [CountDecision (deny_label reason)])
       | Inl (EcpdsUnavailable _) \<Rightarrow>
           (Inl (ecpds_service_unavailable_response (hc_request_id c)), cache', counts @ [CountDecision ''unavailable''])
       | Inl _ \<Rightarrow>
           (Inl (internal_error_response ''ECPDS check failed unexpectedly'' (hc_request_id c)), cache',
            counts @ [CountDecision ''error''])))))))"

section \<open>Merging, as sets\<close>

definition granted :: "(ecpds_error + string list) list \<Rightarrow> string set" where
  "granted rs = {d. \<exists>ds. Inr ds \<in> set rs \<and> d \<in> set ds}"

definition failures :: "(ecpds_error + string list) list \<Rightarrow> fetch_outcome list" where
  "failures rs = List.map_filter (\<lambda>r. case r of Inl e \<Rightarrow> Some (error_outcome e) | Inr _ \<Rightarrow> None) rs"

lemma granted_simps [simp]:
  "granted [] = {}" "granted (Inl e # rs) = granted rs" "granted (Inr ds # rs) = set ds \<union> granted rs"
  by (auto simp: granted_def)

lemma failures_simps [simp]:
  "failures [] = []" "failures (Inl e # rs) = error_outcome e # failures rs" "failures (Inr ds # rs) = failures rs"
  by (simp_all add: failures_def List.map_filter_def)

lemma set_failures: "set (failures rs) = {error_outcome e | e. Inl e \<in> set rs}"
proof (induction rs)
  case (Cons r rs)
  then show ?case by (cases r) auto
qed simp

lemma failures_Nil_iff: "failures rs = [] \<longleftrightarrow> list_all (\<lambda>r. ok r \<noteq> None) rs"
  by (induction rs) (auto split: sum.splits simp: failures_def List.map_filter_def)

lemma merge_results_eq:
  "merge_results rs (acc, any, worst) =
     (acc \<union> granted rs, any \<or> list_ex (\<lambda>r. ok r \<noteq> None) rs,
      fold (\<lambda>o1 w. Some (worse w o1)) (failures rs) worst)"
proof (induction rs arbitrary: acc any worst)
  case (Cons r rs)
  then show ?case by (cases r) (auto simp: Un_assoc)
qed simp

lemma fold_worse_None: "fold (\<lambda>o1 w. Some (worse w o1)) os w = None \<longleftrightarrow> os = [] \<and> w = None"
  by (induction os arbitrary: w) auto

lemma fold_worse_Some: "fold (\<lambda>o1 w. Some (worse w o1)) os (Some o2) = Some (fold max os o2)"
  by (induction os arbitrary: o2) (simp_all add: worse_def pessimistic_max_max max.commute)

text \<open>The loop reports the worst failure.\<close>
lemma worst_is_Max:
  "fold (\<lambda>o1 w. Some (worse w o1)) os None = (if os = [] then None else Some (Max (set os)))"
proof (cases os)
  case (Cons x xs)
  have "fold max xs x = Max (set (x # xs))" by (rule Max.set_eq_fold [symmetric])
  moreover have "worse None x = x" by (simp add: worse_def)
  ultimately show ?thesis by (simp add: Cons fold_worse_Some)
qed simp

text \<open>The merged result of a policy.\<close>
lemma merge_strict_Inr:
  "merge_strict rs = Inr (acc, o1) \<longleftrightarrow> rs \<noteq> [] \<and> failures rs = [] \<and> acc = granted rs \<and> o1 = FSuccess"
  using fold_worse_None [of "failures rs" None]
  by (auto simp: merge_strict_def merge_results_eq split: option.splits)

lemma merge_any_success_Inr:
  "merge_any_success rs = Inr (acc, o1) \<longleftrightarrow>
   list_ex (\<lambda>r. ok r \<noteq> None) rs \<and> acc = granted rs \<and>
   o1 = (case fold (\<lambda>o1 w. Some (worse w o1)) (failures rs) None of Some o2 \<Rightarrow> o2 | None \<Rightarrow> FSuccess)"
  by (auto simp: merge_any_success_def merge_results_eq)

section \<open>Runs of the cache\<close>

text \<open>
  The events of a process: a caller fetches and its result is cached, or an entry is lost.
  The first component is the list of successful fetches so far, each with its username and destinations.
\<close>
inductive cache_step :: "(string \<times> string set) list \<Rightarrow> dest_cache \<Rightarrow> (string \<times> string set) list \<Rightarrow> dest_cache \<Rightarrow> bool" where
  Fetched: "try_get_or_fetch cache username (RunsFetch (Inr (dests, o1)) shared) = (r, cache') \<Longrightarrow>
     cache_step fetches cache (if cache username = None then (username, dests) # fetches else fetches) cache'"
| Failed: "try_get_or_fetch cache username (RunsFetch (Inl e) shared) = (r, cache') \<Longrightarrow>
     cache_step fetches cache fetches cache'"
| Joined: "try_get_or_fetch cache username (JoinsFetch result shared) = (r, cache') \<Longrightarrow>
     cache_step fetches cache fetches cache'"
| Lost: "cache_step fetches cache fetches (cache(username := None))"

inductive cache_reachable :: "(string \<times> string set) list \<Rightarrow> dest_cache \<Rightarrow> bool" where
  Empty: "cache_reachable [] (\<lambda>_. None)"
| Step: "cache_reachable fetches cache \<Longrightarrow> cache_step fetches cache fetches' cache' \<Longrightarrow> cache_reachable fetches' cache'"

inductive_cases cache_stepE: "cache_step fetches cache fetches' cache'"

text \<open>Every cached list is the result of a successful fetch for that user.\<close>
lemma cache_entries_fetched:
  "cache_reachable fetches cache \<Longrightarrow> cache username = Some dests \<Longrightarrow> (username, dests) \<in> set fetches"
proof (induction arbitrary: username dests rule: cache_reachable.induct)
  case (Step fetches cache fetches' cache')
  from Step.hyps(2) show ?case
    by (cases rule: cache_step.cases)
      (use Step in \<open>auto simp: try_get_or_fetch_def split: option.splits if_splits\<close>)
qed simp

end
