(* ===== verification/Backend.thy ===== *)
theory Backend
  imports NotificationBackend "HOL-Library.Multiset"
begin

text \<open>
  The in-memory backend (\<open>src/notification_backend/in_memory\<close>). The state is the record
  the mutex guards; every operation runs under the lock, so an operation is one state
  transition. The map of topics is a list of entries in iteration order. The clock reading
  of an operation is an argument, in nanoseconds. The \<open>u64\<close> counter of sequences starts at
  one and grows by one per stored message.
\<close>

section \<open>State of the in-memory backend\<close>

record mem_config =
  max_history_per_topic :: nat
  max_topics :: nat
  enable_metrics :: bool

record topic_state =
  t_messages :: "message list"
  t_total :: nat

record mem_state =
  topics :: "topic_state alist"
  next_sequence :: nat

definition new_topic_state :: topic_state where
  "new_topic_state = \<lparr>t_messages = [], t_total = 0\<rparr>"

definition new_mem_state :: mem_state where
  "new_mem_state = \<lparr>topics = [], next_sequence = 1\<rparr>"

text \<open>\<open>saturating_mul\<close> and \<open>clamp\<close> of the broadcast channel's capacity.\<close>
definition channel_capacity :: "mem_config \<Rightarrow> nat" where
  "channel_capacity cfg =
     (let requested = min (max_history_per_topic cfg * max_topics cfg) (nat u64_max)
      in max 1024 (min 65536 requested))"

record mem_stats =
  st_total_topics :: nat
  st_total_messages :: nat
  st_total_received :: nat
  st_max_history_per_topic :: nat
  st_max_topics :: nat

definition get_stats :: "mem_config \<Rightarrow> mem_state \<Rightarrow> mem_stats" where
  "get_stats cfg s = \<lparr>st_total_topics = length (topics s),
     st_total_messages = sum_list (map (\<lambda>(_, t). length (t_messages t)) (topics s)),
     st_total_received = sum_list (map (\<lambda>(_, t). t_total t) (topics s)),
     st_max_history_per_topic = max_history_per_topic cfg, st_max_topics = max_topics cfg\<rparr>"

section \<open>Storing\<close>

definition last_activity :: "int \<Rightarrow> topic_state \<Rightarrow> int" where
  "last_activity now t =
    (case Option.bind (last_of (t_messages t)) m_timestamp of Some ts \<Rightarrow> ts | None \<Rightarrow> now)"

text \<open>\<open>min_by_key\<close>: the first entry with the least key.\<close>
fun oldest_topic :: "int \<Rightarrow> topic_state alist \<Rightarrow> (string \<times> int) option" where
  "oldest_topic now [] = None"
| "oldest_topic now ((k, t) # rest) =
    (case oldest_topic now rest of
       Some (k', a) \<Rightarrow> if a < last_activity now t then Some (k', a) else Some (k, last_activity now t)
     | None \<Rightarrow> Some (k, last_activity now t))"

definition enforce_topic_limit :: "mem_config \<Rightarrow> int \<Rightarrow> topic_state alist \<Rightarrow> topic_state alist" where
  "enforce_topic_limit cfg now ts =
    (if length ts \<ge> max_topics cfg
     then (case oldest_topic now ts of Some (k, _) \<Rightarrow> AList.delete k ts | None \<Rightarrow> ts)
     else ts)"

definition push_message :: "mem_config \<Rightarrow> message \<Rightarrow> topic_state \<Rightarrow> topic_state" where
  "push_message cfg m t =
     \<lparr>t_messages = (if length (t_messages t) \<ge> max_history_per_topic cfg
                    then drop 1 (t_messages t) else t_messages t) @ [m],
      t_total = t_total t + 1\<rparr>"

text \<open>The new state and the message handed to the live subscribers.\<close>
definition store_message ::
  "mem_config \<Rightarrow> int \<Rightarrow> string \<Rightarrow> string \<Rightarrow> string alist option \<Rightarrow> mem_state \<Rightarrow> mem_state \<times> message" where
  "store_message cfg now topic payload metadata s =
     (let sequence = next_sequence s;
          ts = (if has_key (topics s) topic then topics s else enforce_topic_limit cfg now (topics s));
          t = (case map_of ts topic of Some t \<Rightarrow> t | None \<Rightarrow> new_topic_state);
          m = \<lparr>m_sequence = sequence, m_topic = topic, m_payload = payload, m_timestamp = Some now,
               m_metadata = metadata\<rparr>
      in (\<lparr>topics = AList.update topic (push_message cfg m t) ts, next_sequence = sequence + 1\<rparr>, m))"

definition put_messages :: "mem_config \<Rightarrow> int \<Rightarrow> string \<Rightarrow> string \<Rightarrow> mem_state \<Rightarrow> mem_state \<times> message" where
  "put_messages cfg now topic payload s = store_message cfg now topic payload None s"

definition put_message_with_headers ::
  "mem_config \<Rightarrow> int \<Rightarrow> string \<Rightarrow> string alist option \<Rightarrow> string \<Rightarrow> mem_state \<Rightarrow> mem_state \<times> message" where
  "put_message_with_headers cfg now topic headers payload s = store_message cfg now topic payload headers s"

section \<open>Wiping and deleting\<close>

definition wipe_stream :: "host \<Rightarrow> string \<Rightarrow> mem_state \<Rightarrow> wipe_result \<times> mem_state" where
  "wipe_stream h stream_key s =
     (let prefix = encode_token (to_lowercase h stream_key) @ ''.'';
          hit = (\<lambda>k. starts_with prefix (to_lowercase h k))
      in if filter (\<lambda>(k, _). hit k) (topics s) = [] then (WipeNotFound, s)
         else (Wiped, s\<lparr>topics := filter (\<lambda>(k, _). \<not> hit k) (topics s)\<rparr>))"

definition wipe_all :: "mem_state \<Rightarrow> mem_state" where
  "wipe_all s = s\<lparr>topics := []\<rparr>"

definition remove_at :: "nat \<Rightarrow> 'a list \<Rightarrow> 'a list" where
  "remove_at i xs = take i xs @ drop (Suc i) xs"

fun delete_in_topics :: "(string \<Rightarrow> bool) \<Rightarrow> nat \<Rightarrow> topic_state alist \<Rightarrow> topic_state alist option" where
  "delete_in_topics hit n [] = None"
| "delete_in_topics hit n ((k, t) # rest) =
    (case (if hit k then position (\<lambda>m. m_sequence m = n) (t_messages t) else None) of
       Some i \<Rightarrow> Some ((k, t\<lparr>t_messages := remove_at i (t_messages t)\<rparr>) # rest)
     | None \<Rightarrow> map_option (Cons (k, t)) (delete_in_topics hit n rest))"

definition delete_message :: "host \<Rightarrow> string \<Rightarrow> nat \<Rightarrow> mem_state \<Rightarrow> delete_result \<times> mem_state" where
  "delete_message h stream_key n s =
     (let encoded = encode_token (to_lowercase h stream_key);
          hit = (\<lambda>k. to_lowercase h k = encoded \<or> starts_with (encoded @ ''.'') (to_lowercase h k))
      in case delete_in_topics hit n (topics s) of
           Some ts \<Rightarrow> (Deleted, s\<lparr>topics := ts\<rparr>)
         | None \<Rightarrow> (DeleteNotFound, s))"

section \<open>Reading\<close>

definition all_messages :: "mem_state \<Rightarrow> message list" where
  "all_messages s = concat (map (\<lambda>(_, t). t_messages t) (topics s))"

definition matching_messages :: "mem_state \<Rightarrow> string list \<Rightarrow> message list" where
  "matching_messages s pattern = filter (\<lambda>m. matches_watch_pattern (m_topic m) pattern) (all_messages s)"

definition get_messages_batch :: "mem_state \<Rightarrow> batch_params \<Rightarrow> err + batch_result" where
  "get_messages_batch s p =
     bind_res (analyze_watch_pattern (bp_topic p)) (\<lambda>(_, pattern).
       let messages = filter (\<lambda>m. m_sequence m \<le> bp_end_sequence p) (matching_messages s pattern);
           messages = filter (starts_at (bp_start_at p)) messages
       in if messages = [] then Inr empty_batch_result
          else (let sorted = sort_key m_sequence messages;
                    page = take (bp_limit p) sorted;
                    r = new_batch_result page (bp_limit p)
                in Inr (r\<lparr>br_has_more := length sorted > bp_limit p,
                          br_next_sequence := map_option Suc (br_last_sequence r)\<rparr>)))"

definition history_end :: "mem_state \<Rightarrow> string \<Rightarrow> err + nat" where
  "history_end s topic = bind_res (analyze_watch_pattern topic) (\<lambda>_. Inr (next_sequence s - 1))"

definition first_sequence_after :: "mem_state \<Rightarrow> string \<Rightarrow> int \<Rightarrow> err + nat option" where
  "first_sequence_after s topic after =
     bind_res (analyze_watch_pattern topic) (\<lambda>(_, pattern).
       let later = filter (\<lambda>m. case m_timestamp m of Some ts \<Rightarrow> after < ts | None \<Rightarrow> False)
                     (matching_messages s pattern)
       in Inr (if later = [] then None else Some (Min (m_sequence ` set later))))"

text \<open>
  A subscription reads the live channel from the moment it was made, so what it can deliver
  is a function of the messages broadcast later: those that match its pattern, in order,
  apart from the ones the channel reports as skipped when the reader lags.
\<close>
record subscription =
  sub_pattern :: "string list"
  sub_history_end :: nat

definition subscribe_to_topic :: "mem_state \<Rightarrow> string \<Rightarrow> err + subscription" where
  "subscribe_to_topic s topic =
     bind_res (analyze_watch_pattern topic) (\<lambda>(_, pattern).
       Inr \<lparr>sub_pattern = pattern, sub_history_end = next_sequence s - 1\<rparr>)"

datatype recv_event = Received message | Lagged nat | ChannelClosed

fun subscription_stream :: "string list \<Rightarrow> recv_event list \<Rightarrow> message list" where
  "subscription_stream pattern [] = []"
| "subscription_stream pattern (Received m # es) =
    (if matches_watch_pattern (m_topic m) pattern
     then m # subscription_stream pattern es else subscription_stream pattern es)"
| "subscription_stream pattern (Lagged _ # es) = subscription_stream pattern es"
| "subscription_stream pattern (ChannelClosed # es) = []"

section \<open>The invariant\<close>

definition topic_inv :: "mem_config \<Rightarrow> nat \<Rightarrow> string \<times> topic_state \<Rightarrow> bool" where
  "topic_inv cfg n kt =
    (case kt of (k, t) \<Rightarrow>
      (\<forall>m\<in>set (t_messages t). m_topic m = k \<and> 1 \<le> m_sequence m \<and> m_sequence m < n) \<and>
      sorted_wrt (\<lambda>a b. m_sequence a < m_sequence b) (t_messages t) \<and>
      length (t_messages t) \<le> max 1 (max_history_per_topic cfg) \<and>
      length (t_messages t) \<le> t_total t)"

text \<open>A sequence number belongs to one topic.\<close>
definition one_topic :: "mem_state \<Rightarrow> bool" where
  "one_topic s =
    (\<forall>m\<in>set (all_messages s). \<forall>m'\<in>set (all_messages s).
       m_sequence m = m_sequence m' \<longrightarrow> m_topic m = m_topic m')"

definition mem_inv :: "mem_config \<Rightarrow> mem_state \<Rightarrow> bool" where
  "mem_inv cfg s =
    (wf_map (topics s) \<and> 1 \<le> next_sequence s \<and> length (topics s) \<le> max 1 (max_topics cfg) \<and>
     (\<forall>kt\<in>set (topics s). topic_inv cfg (next_sequence s) kt) \<and> one_topic s)"

lemma one_topic_mono:
  "one_topic s \<Longrightarrow> set (all_messages s') \<subseteq> set (all_messages s) \<Longrightarrow> one_topic s'"
  unfolding one_topic_def by blast

text \<open>
  One transition with the messages it broadcasts. A rehash changes only the iteration order
  of the topic map, so that what is proved does not rest on that order.
\<close>
inductive mem_step :: "host \<Rightarrow> mem_config \<Rightarrow> mem_state \<Rightarrow> message list \<Rightarrow> mem_state \<Rightarrow> bool"
  for h :: host and cfg :: mem_config where
  Store: "store_message cfg now topic payload metadata s = (s', m) \<Longrightarrow> mem_step h cfg s [m] s'"
| WipeStream: "wipe_stream h key s = (r, s') \<Longrightarrow> mem_step h cfg s [] s'"
| WipeAll: "mem_step h cfg s [] (wipe_all s)"
| Delete: "delete_message h key n s = (r, s') \<Longrightarrow> mem_step h cfg s [] s'"
| Rehash: "mset ts = mset (topics s) \<Longrightarrow> mem_step h cfg s [] (s\<lparr>topics := ts\<rparr>)"

inductive mem_run :: "host \<Rightarrow> mem_config \<Rightarrow> mem_state \<Rightarrow> message list \<Rightarrow> mem_state \<Rightarrow> bool"
  for h :: host and cfg :: mem_config where
  Stop: "mem_run h cfg s [] s"
| More: "mem_run h cfg s sent s1 \<Longrightarrow> mem_step h cfg s1 new s2 \<Longrightarrow> mem_run h cfg s (sent @ new) s2"

inductive_cases mem_stepE: "mem_step h cfg s new s'"

lemma all_messages_iff: "m \<in> set (all_messages s) \<longleftrightarrow> (\<exists>k t. (k, t) \<in> set (topics s) \<and> m \<in> set (t_messages t))"
  by (auto simp: all_messages_def)

lemma mem_inv_topic:
  assumes "mem_inv cfg s" "(k, t) \<in> set (topics s)"
  shows "\<And>m. m \<in> set (t_messages t) \<Longrightarrow> m_topic m = k \<and> 1 \<le> m_sequence m \<and> m_sequence m < next_sequence s"
    and "sorted_wrt (\<lambda>a b. m_sequence a < m_sequence b) (t_messages t)"
    and "length (t_messages t) \<le> max 1 (max_history_per_topic cfg)"
    and "length (t_messages t) \<le> t_total t"
  using assms by (auto simp: mem_inv_def topic_inv_def)

lemma mem_inv_message:
  assumes "mem_inv cfg s" "m \<in> set (all_messages s)"
  shows "1 \<le> m_sequence m \<and> m_sequence m < next_sequence s"
  using assms mem_inv_topic by (auto simp: all_messages_iff)

text \<open>Keeping only part of what is stored keeps the invariant.\<close>
definition keeps :: "topic_state \<Rightarrow> topic_state \<Rightarrow> bool" where
  "keeps t' t =
    (set (t_messages t') \<subseteq> set (t_messages t) \<and> length (t_messages t') \<le> length (t_messages t) \<and>
     sorted_wrt (\<lambda>a b. m_sequence a < m_sequence b) (t_messages t') \<and> t_total t' = t_total t)"

lemma mem_inv_shrink:
  assumes "mem_inv cfg s" "wf_map ts'" "length ts' \<le> length (topics s)"
    "\<And>k t'. (k, t') \<in> set ts' \<Longrightarrow> \<exists>t. (k, t) \<in> set (topics s) \<and> keeps t' t"
  shows "mem_inv cfg (s\<lparr>topics := ts'\<rparr>)"
proof -
  have "topic_inv cfg (next_sequence s) (k, t')" if k: "(k, t') \<in> set ts'" for k t'
  proof -
    obtain t where t: "(k, t) \<in> set (topics s)" "keeps t' t" using assms(4) [OF k] by blast
    note i = mem_inv_topic [OF assms(1) t(1)]
    show ?thesis using i(1) order_trans [OF _ i(3)] order_trans [OF _ i(4)] t(2)
      by (auto simp: topic_inv_def keeps_def)
  qed
  moreover have "set (all_messages (s\<lparr>topics := ts'\<rparr>)) \<subseteq> set (all_messages s)"
    using assms(4) by (auto simp: all_messages_iff keeps_def) (metis subsetD)
  moreover have "1 \<le> next_sequence s" "length (topics s) \<le> max 1 (max_topics cfg)" "one_topic s"
    using assms(1) by (simp_all add: mem_inv_def)
  ultimately show ?thesis using assms(2,3) one_topic_mono by (auto simp: mem_inv_def)
qed

lemma mem_inv_subset:
  assumes "mem_inv cfg s" "wf_map ts'" "length ts' \<le> length (topics s)" "set ts' \<subseteq> set (topics s)"
  shows "mem_inv cfg (s\<lparr>topics := ts'\<rparr>)"
proof (rule mem_inv_shrink [OF assms(1,2,3)])
  fix k t' assume "(k, t') \<in> set ts'"
  then show "\<exists>t. (k, t) \<in> set (topics s) \<and> keeps t' t"
    using assms(4) mem_inv_topic(2) [OF assms(1), of k t'] by (auto simp: keeps_def)
qed

lemma wf_map_filter: "wf_map m \<Longrightarrow> wf_map (filter P m)"
  by (induction m) auto

lemma mem_inv_init: "mem_inv cfg new_mem_state"
  by (simp add: mem_inv_def new_mem_state_def all_messages_def one_topic_def)

lemma mem_inv_filter: "mem_inv cfg s \<Longrightarrow> mem_inv cfg (s\<lparr>topics := filter P (topics s)\<rparr>)"
  by (rule mem_inv_subset) (simp_all add: mem_inv_def wf_map_filter)

lemma mem_inv_wipe_stream: "mem_inv cfg s \<Longrightarrow> wipe_stream h key s = (r, s') \<Longrightarrow> mem_inv cfg s'"
  by (auto simp: wipe_stream_def Let_def mem_inv_filter split: if_splits)

lemma mem_inv_wipe_all: "mem_inv cfg s \<Longrightarrow> mem_inv cfg (wipe_all s)"
  unfolding wipe_all_def by (rule mem_inv_subset) auto

lemma mem_inv_rehash:
  assumes "mem_inv cfg s" "mset ts = mset (topics s)"
  shows "mem_inv cfg (s\<lparr>topics := ts\<rparr>)"
proof (rule mem_inv_subset [OF assms(1)])
  have "mset (map fst ts) = mset (map fst (topics s))" using assms(2) by simp
  then show "wf_map ts" using assms(1) by (metis mem_inv_def mset_eq_imp_distinct_iff)
  show "length ts \<le> length (topics s)" using mset_eq_length [OF assms(2)] by simp
  show "set ts \<subseteq> set (topics s)" using mset_eq_setD [OF assms(2)] by simp
qed

lemma remove_at_props:
  assumes "sorted_wrt P xs"
  shows "set (remove_at i xs) \<subseteq> set xs" "length (remove_at i xs) \<le> length xs" "sorted_wrt P (remove_at i xs)"
proof -
  show "set (remove_at i xs) \<subseteq> set xs"
    by (auto simp: remove_at_def dest: in_set_takeD in_set_dropD)
  show "length (remove_at i xs) \<le> length xs" by (simp add: remove_at_def)
  have "sorted_wrt P (take i xs @ drop i xs)" using assms by simp
  then have "sorted_wrt P (take i xs)" "sorted_wrt P (drop (Suc i) xs)"
      "\<forall>x\<in>set (take i xs). \<forall>y\<in>set (drop i xs). P x y"
    by (auto simp: sorted_wrt_append sorted_wrt_drop [OF assms] simp del: append_take_drop_id)
  moreover have "set (drop (Suc i) xs) \<subseteq> set (drop i xs)" by (rule set_drop_subset_set_drop) simp
  ultimately show "sorted_wrt P (remove_at i xs)" by (auto simp: remove_at_def sorted_wrt_append)
qed

lemma delete_in_topics_props:
  assumes "delete_in_topics hit n ts = Some ts'"
  shows "map fst ts' = map fst ts \<and>
    (\<forall>k t'. (k, t') \<in> set ts' \<longrightarrow> (k, t') \<in> set ts \<or>
       (\<exists>t i. (k, t) \<in> set ts \<and> t' = t\<lparr>t_messages := remove_at i (t_messages t)\<rparr>))"
  using assms
proof (induction ts arbitrary: ts')
  case (Cons x rest)
  obtain k t where x: "x = (k, t)" by (cases x)
  show ?case
  proof (cases "if hit k then position (\<lambda>m. m_sequence m = n) (t_messages t) else None")
    case None
    then obtain r where "delete_in_topics hit n rest = Some r" "ts' = (k, t) # r"
      using Cons.prems by (auto simp: x)
    then show ?thesis using Cons.IH by (auto simp: x)
  next
    case (Some i)
    then have "ts' = (k, t\<lparr>t_messages := remove_at i (t_messages t)\<rparr>) # rest"
      using Cons.prems by (simp add: x)
    then show ?thesis by (auto simp: x)
  qed
qed simp

lemma mem_inv_delete:
  assumes "mem_inv cfg s" "delete_message h key n s = (r, s')"
  shows "mem_inv cfg s'"
proof (cases "s' = s")
  case False
  then obtain hit ts' where d: "delete_in_topics hit n (topics s) = Some ts'" "s' = s\<lparr>topics := ts'\<rparr>"
    using assms(2) by (auto simp: delete_message_def Let_def split: option.splits)
  note p = delete_in_topics_props [OF d(1)]
  show ?thesis unfolding d(2)
  proof (rule mem_inv_shrink [OF assms(1)])
    show "wf_map ts'" using p assms(1) by (simp add: mem_inv_def)
    show "length ts' \<le> length (topics s)" using p by (metis length_map order_refl)
    fix k t' assume "(k, t') \<in> set ts'"
    then obtain t where t: "(k, t) \<in> set (topics s)" "t' = t \<or> (\<exists>i. t' = t\<lparr>t_messages := remove_at i (t_messages t)\<rparr>)"
      using p by blast
    note srt = mem_inv_topic(2) [OF assms(1) t(1)]
    have "keeps (t\<lparr>t_messages := remove_at i (t_messages t)\<rparr>) t" for i
      using remove_at_props [OF srt, of i] by (simp add: keeps_def)
    moreover have "keeps t t" using srt by (simp add: keeps_def)
    ultimately show "\<exists>t. (k, t) \<in> set (topics s) \<and> keeps t' t" using t by blast
  qed
qed (use assms(1) in simp)

section \<open>Storing keeps the invariant\<close>

lemma set_update_cases:
  assumes "wf_map ts" "(k', v') \<in> set (AList.update k v ts)"
  shows "(k' = k \<and> v' = v) \<or> (k' \<noteq> k \<and> (k', v') \<in> set ts)"
proof -
  have "map_of (AList.update k v ts) k' = Some v'" using assms by (simp add: map_of_is_SomeI)
  then show ?thesis by (auto simp: map_of_update map_of_SomeD split: if_splits)
qed

lemma length_update: "length (AList.update k v ts) = (if k \<in> fst ` set ts then length ts else Suc (length ts))"
  by (induction ts) auto

lemma oldest_topic_mem: "oldest_topic now ts = Some (k, a) \<Longrightarrow> k \<in> fst ` set ts"
  by (induction ts arbitrary: k a) (auto split: option.splits if_splits prod.splits)

lemma oldest_topic_None: "oldest_topic now ts = None \<longleftrightarrow> ts = []"
  by (cases ts) (auto split: option.splits)

lemma oldest_topic_least:
  assumes "oldest_topic now ts = Some (k, a)"
  shows "(\<exists>t. (k, t) \<in> set ts \<and> a = last_activity now t) \<and> (\<forall>(k', t')\<in>set ts. a \<le> last_activity now t')"
  using assms
proof (induction ts arbitrary: k a)
  case (Cons x rest)
  obtain kx tx where x: "x = (kx, tx)" by (cases x)
  show ?case
  proof (cases "oldest_topic now rest")
    case None
    then show ?thesis using Cons.prems by (simp add: x oldest_topic_None)
  next
    case (Some p)
    obtain k' a' where p: "p = (k', a')" by (cases p)
    note ih = Cons.IH [OF Some [unfolded p]]
    show ?thesis
    proof (cases "a' < last_activity now tx")
      case True
      then have "k = k'" "a = a'" using Cons.prems by (simp_all add: x Some p)
      then show ?thesis using ih True by (auto simp: x)
    next
      case False
      then have "k = kx" "a = last_activity now tx" using Cons.prems by (simp_all add: x Some p)
      then show ?thesis using ih False by (fastforce simp: x)
    qed
  qed
qed simp

lemma wf_map_delete: "wf_map ts \<Longrightarrow> wf_map (AList.delete k ts)"
  by (rule distinct_delete)

lemma length_delete_less: "k \<in> fst ` set ts \<Longrightarrow> length (AList.delete k ts) < length ts"
  by (induction ts) (auto simp: AList.length_delete_le le_imp_less_Suc)

lemma enforce_topic_limit_subset:
  "set (enforce_topic_limit cfg now ts) \<subseteq> set ts \<and> (wf_map ts \<longrightarrow> wf_map (enforce_topic_limit cfg now ts))"
  by (auto simp: enforce_topic_limit_def wf_map_delete wf_map_filter AList.delete_eq split: option.splits)

lemma enforce_topic_limit_length:
  "length (enforce_topic_limit cfg now ts) \<le> length ts \<and>
   (length ts \<le> max 1 (max_topics cfg) \<longrightarrow> Suc (length (enforce_topic_limit cfg now ts)) \<le> max 1 (max_topics cfg))"
proof (cases "oldest_topic now ts")
  case None
  then show ?thesis by (auto simp: oldest_topic_None enforce_topic_limit_def)
next
  case (Some p)
  then obtain k a where p: "oldest_topic now ts = Some (k, a)" by (cases p) auto
  show ?thesis using length_delete_less [OF oldest_topic_mem [OF p]]
    by (auto simp: enforce_topic_limit_def p)
qed

lemma topic_inv_Suc: "topic_inv cfg n kt \<Longrightarrow> topic_inv cfg (Suc n) kt"
  by (auto simp: topic_inv_def less_Suc_eq)

lemma topic_inv_push:
  assumes "topic_inv cfg n (k, t)" "m_topic m = k" "m_sequence m = n" "1 \<le> n"
  shows "topic_inv cfg (Suc n) (k, push_message cfg m t)"
proof -
  let ?xs = "if length (t_messages t) \<ge> max_history_per_topic cfg then drop 1 (t_messages t) else t_messages t"
  have "set ?xs \<subseteq> set (t_messages t)" by (auto dest: in_set_dropD)
  moreover have "sorted_wrt (\<lambda>a b. m_sequence a < m_sequence b) ?xs"
    using assms(1) by (auto simp: topic_inv_def sorted_wrt_drop)
  moreover have "length ?xs < max 1 (max_history_per_topic cfg)"
    using assms(1) by (auto simp: topic_inv_def)
  moreover have "length ?xs \<le> t_total t" using assms(1) by (auto simp: topic_inv_def)
  ultimately show ?thesis using assms
    by (auto simp: topic_inv_def push_message_def sorted_wrt_append less_Suc_eq subset_iff)
qed

lemma store_topics:
  assumes "mem_inv cfg s" "ts = (if has_key (topics s) topic then topics s else enforce_topic_limit cfg now (topics s))"
  shows "mem_inv cfg (s\<lparr>topics := ts\<rparr>) \<and> length (AList.update topic v ts) \<le> max 1 (max_topics cfg)"
proof -
  have wf: "wf_map (topics s)" and len: "length (topics s) \<le> max 1 (max_topics cfg)"
    using assms(1) by (simp_all add: mem_inv_def)
  have sub: "set ts \<subseteq> set (topics s)" "wf_map ts" "length ts \<le> length (topics s)"
    using enforce_topic_limit_subset [of cfg now "topics s"] enforce_topic_limit_length [of cfg now "topics s"] wf
    by (auto simp: assms(2))
  have "length (AList.update topic v ts) \<le> max 1 (max_topics cfg)"
    using len enforce_topic_limit_length [of cfg now "topics s"]
    by (auto simp: assms(2) length_update)
  then show ?thesis using mem_inv_subset [OF assms(1) sub(2,3,1)] by simp
qed

lemma mem_inv_store:
  assumes "mem_inv cfg s" "store_message cfg now topic payload metadata s = (s', m)"
  shows "mem_inv cfg s'"
proof -
  let ?n = "next_sequence s"
  define ts where "ts = (if has_key (topics s) topic then topics s else enforce_topic_limit cfg now (topics s))"
  define t where "t = (case map_of ts topic of Some t \<Rightarrow> t | None \<Rightarrow> new_topic_state)"
  have m: "m_sequence m = ?n" "m_topic m = topic" and
    s': "s' = \<lparr>topics = AList.update topic (push_message cfg m t) ts, next_sequence = Suc ?n\<rparr>"
    using assms(2) unfolding store_message_def Let_def ts_def [symmetric] t_def [symmetric] by auto
  note st = store_topics [OF assms(1) ts_def]
  have i: "mem_inv cfg (s\<lparr>topics := ts\<rparr>)" using st by blast
  then have wf: "wf_map ts" and n: "1 \<le> ?n" and ti: "\<forall>kt\<in>set ts. topic_inv cfg ?n kt"
      and one: "one_topic (s\<lparr>topics := ts\<rparr>)"
    by (simp_all add: mem_inv_def)
  have t: "topic_inv cfg ?n (topic, t) \<and> (t_messages t = [] \<or> (topic, t) \<in> set ts)"
  proof (cases "map_of ts topic")
    case None
    then show ?thesis by (simp add: t_def new_topic_state_def topic_inv_def)
  next
    case (Some t')
    then show ?thesis using ti map_of_SomeD [OF Some] by (auto simp: t_def)
  qed
  have inv: "topic_inv cfg (Suc ?n) (k, v)" if "(k, v) \<in> set (topics s')" for k v
    using set_update_cases [OF wf, of k v topic "push_message cfg m t"] that ti topic_inv_Suc
      topic_inv_push [of cfg ?n topic t m] t m n
    by (auto simp: s')
  have push: "set (t_messages (push_message cfg m t)) \<subseteq> insert m (set (t_messages t))"
    by (auto simp: push_message_def dest: in_set_dropD)
  have "set (all_messages s') \<subseteq> insert m (set (all_messages (s\<lparr>topics := ts\<rparr>)))"
  proof
    fix x assume "x \<in> set (all_messages s')"
    then obtain k v where kv: "(k, v) \<in> set (AList.update topic (push_message cfg m t) ts)" "x \<in> set (t_messages v)"
      by (auto simp: all_messages_iff s')
    show "x \<in> insert m (set (all_messages (s\<lparr>topics := ts\<rparr>)))"
      using set_update_cases [OF wf kv(1)] kv(2) t push by (auto simp: all_messages_iff)
  qed
  moreover have "m_sequence x < ?n" if "x \<in> set (all_messages (s\<lparr>topics := ts\<rparr>))" for x
    using mem_inv_message [OF i that] by simp
  ultimately have "one_topic s'" using one m(1) unfolding one_topic_def by (smt (verit) insertE less_irrefl subsetD)
  moreover have "wf_map (topics s')" using wf by (simp add: s')
  moreover have "length (topics s') \<le> max 1 (max_topics cfg)" using st by (simp add: s')
  ultimately show ?thesis using inv n by (auto simp: mem_inv_def s')
qed

lemma mem_inv_step: "mem_step h cfg s new s' \<Longrightarrow> mem_inv cfg s \<Longrightarrow> mem_inv cfg s'"
  by (induction rule: mem_step.induct)
     (auto intro: mem_inv_store mem_inv_wipe_stream mem_inv_wipe_all mem_inv_delete mem_inv_rehash)

lemma mem_inv_run: "mem_run h cfg s sent s' \<Longrightarrow> mem_inv cfg s \<Longrightarrow> mem_inv cfg s'"
  by (induction rule: mem_run.induct) (auto intro: mem_inv_step)

section \<open>The history of a topic pattern\<close>

definition mem_history :: "mem_state \<Rightarrow> string \<Rightarrow> err + message list" where
  "mem_history s topic =
     map_res (\<lambda>(_, pattern). sort_key m_sequence (matching_messages s pattern)) (analyze_watch_pattern topic)"

lemma all_messages_cong: "topics s = topics s' \<Longrightarrow> all_messages s = all_messages s'"
  by (simp add: all_messages_def)

lemma sequences_distinct:
  assumes "mem_inv cfg s"
  shows "distinct (map m_sequence (all_messages s))"
proof -
  have "distinct (map m_sequence (concat (map (\<lambda>(_, t). t_messages t) ts)))"
    if "set ts \<subseteq> set (topics s)" "wf_map ts" for ts
    using that
  proof (induction ts)
    case (Cons x ts)
    obtain k t where x: "x = (k, t)" by (cases x)
    have kt: "(k, t) \<in> set (topics s)" and rest: "set ts \<subseteq> set (topics s)" "wf_map ts" and new: "k \<notin> fst ` set ts"
      using Cons.prems by (auto simp: x)
    have "ascending (t_messages t)" using mem_inv_topic(2) [OF assms kt] .
    then have "distinct (map m_sequence (t_messages t))"
      using strict_sorted_iff [of "map m_sequence (t_messages t)"] by (simp add: sorted_wrt_map)
    moreover have "m_sequence m \<noteq> m_sequence m'"
      if m: "m \<in> set (t_messages t)" and m': "(k', t') \<in> set ts" "m' \<in> set (t_messages t')" for m m' k' t'
    proof
      assume eq: "m_sequence m = m_sequence m'"
      have k't': "(k', t') \<in> set (topics s)" using m' rest by auto
      have "m \<in> set (all_messages s)" "m' \<in> set (all_messages s)"
        using m m' kt k't' by (auto simp: all_messages_iff)
      then have "m_topic m = m_topic m'" using assms eq unfolding mem_inv_def one_topic_def by blast
      then have "k = k'" using mem_inv_topic(1) [OF assms kt m] mem_inv_topic(1) [OF assms k't' m'(2)] by simp
      then show False using new m'(1) by (metis fst_conv image_eqI)
    qed
    ultimately show ?case using Cons.IH [OF rest] by (auto simp: x)
  qed simp
  then show ?thesis using assms by (simp add: all_messages_def mem_inv_def)
qed

lemma sort_ascending:
  assumes "distinct (map m_sequence ms)"
  shows "ascending (sort_key m_sequence ms)"
proof -
  have "sorted (map m_sequence (sort_key m_sequence ms))" by simp
  moreover have "distinct (map m_sequence (sort_key m_sequence ms))"
    using assms by (metis distinct_map distinct_sort set_sort)
  ultimately have "sorted_wrt (<) (map m_sequence (sort_key m_sequence ms))"
    by (simp add: strict_sorted_iff)
  then show ?thesis by (simp add: sorted_wrt_map)
qed

lemma mem_history_ascending:
  assumes "mem_inv cfg s" "mem_history s topic = Inr ms"
  shows "ascending ms"
proof -
  have "distinct (map m_sequence (filter P (all_messages s)))" for P
    using sequences_distinct [OF assms(1)] by (rule distinct_map_filter)
  then show ?thesis using assms(2)
    by (auto simp: mem_history_def matching_messages_def result_simps sort_ascending)
qed

lemma mem_history_set:
  assumes "mem_history s topic = Inr ms" "analyze_watch_pattern topic = Inr (c, pattern)"
  shows "set ms = {m \<in> set (all_messages s). matches_watch_pattern (m_topic m) pattern}"
  using assms by (auto simp: mem_history_def matching_messages_def)

lemma max_sequence_last:
  assumes "ascending ms"
  shows "max_sequence ms = map_option m_sequence (last_of ms)"
proof (cases "ms = []")
  case False
  then have "Max (m_sequence ` set ms) = m_sequence (last ms)"
    using ascending_last [OF assms] by (intro Max_eqI) auto
  then show ?thesis using False by (simp add: max_sequence_def last_of_def)
qed (simp add: max_sequence_def)

lemma mem_fetch_page:
  assumes "mem_inv cfg s" "mem_history s (bp_topic p) = Inr ms"
  shows "get_messages_batch s p = Inr (page_of p ms)"
proof -
  obtain c pattern where pat: "analyze_watch_pattern (bp_topic p) = Inr (c, pattern)"
      "ms = sort_key m_sequence (matching_messages s pattern)"
    using assms(2) by (auto simp: mem_history_def result_simps)
  define el where "el = filter (starts_at (bp_start_at p))
     (filter (\<lambda>m. m_sequence m \<le> bp_end_sequence p) (matching_messages s pattern))"
  have el: "eligible p ms = sort_key m_sequence el"
    by (simp add: eligible_def pat(2) el_def filter_sort conj_commute)
  have asc: "ascending (take (bp_limit p) (eligible p ms))"
    using mem_history_ascending [OF assms]
    by (metis append_take_drop_id eligible_def sorted_wrt_append sorted_wrt_filter)
  have nil: "eligible p ms = [] \<longleftrightarrow> el = []" by (metis el set_empty set_sort)
  have batch: "get_messages_batch s p =
    (if el = [] then Inr empty_batch_result
     else Inr ((new_batch_result (take (bp_limit p) (sort_key m_sequence el)) (bp_limit p))
            \<lparr>br_has_more := length (sort_key m_sequence el) > bp_limit p,
             br_next_sequence := map_option Suc (br_last_sequence
               (new_batch_result (take (bp_limit p) (sort_key m_sequence el)) (bp_limit p)))\<rparr>))"
    by (simp only: get_messages_batch_def pat(1) bind_res.simps prod.case Let_def el_def)
  show ?thesis
    using max_sequence_last [OF asc] nil
    by (simp add: batch page_of_def Let_def new_batch_result_def empty_batch_result_def el)
qed

lemma mem_history_failed:
  "mem_history s (bp_topic p) = Inl e \<Longrightarrow> get_messages_batch s p = Inl e"
  by (auto simp: mem_history_def get_messages_batch_def result_simps)

lemma mem_history_bound:
  assumes "mem_inv cfg s" "mem_history s topic = Inr ms"
  shows "\<exists>n. history_end s topic = Inr n \<and> (\<forall>m\<in>set ms. m_sequence m \<le> n)"
proof -
  obtain c pattern where pat: "analyze_watch_pattern topic = Inr (c, pattern)"
    using assms(2) by (auto simp: mem_history_def result_simps)
  have "m_sequence m \<le> next_sequence s - 1" if "m \<in> set ms" for m
    using mem_inv_message [OF assms(1)] mem_history_set [OF assms(2) pat] that by fastforce
  then show ?thesis by (simp add: history_end_def pat)
qed

interpretation mem: history_backend "mem_inv cfg" mem_history get_messages_batch history_end for cfg
proof unfold_locales
  fix s topic ms m p e
  show "mem_inv cfg s \<Longrightarrow> mem_history s topic = Inr ms \<Longrightarrow> ascending ms"
    by (rule mem_history_ascending)
  show "mem_inv cfg s \<Longrightarrow> mem_history s topic = Inr ms \<Longrightarrow> m \<in> set ms \<Longrightarrow> 1 \<le> m_sequence m"
    by (auto simp: mem_history_def matching_messages_def result_simps dest!: mem_inv_message)
  show "mem_inv cfg s \<Longrightarrow> mem_history s (bp_topic p) = Inr ms \<Longrightarrow> get_messages_batch s p = Inr (page_of p ms)"
    by (rule mem_fetch_page)
  show "mem_inv cfg s \<Longrightarrow> mem_history s (bp_topic p) = Inl e \<Longrightarrow> get_messages_batch s p = Inl e"
    by (rule mem_history_failed)
  show "mem_inv cfg s \<Longrightarrow> mem_history s topic = Inr ms \<Longrightarrow>
        \<exists>n. history_end s topic = Inr n \<and> (\<forall>m\<in>set ms. m_sequence m \<le> n)"
    by (rule mem_history_bound)
qed

section \<open>What a transition does to the stored messages\<close>

lemma store_message_broadcast:
  assumes "store_message cfg now topic payload metadata s = (s', m)"
  shows "m = \<lparr>m_sequence = next_sequence s, m_topic = topic, m_payload = payload,
           m_timestamp = Some now, m_metadata = metadata\<rparr> \<and> next_sequence s' = Suc (next_sequence s)"
  using assms by (auto simp: store_message_def Let_def simp del: has_key_iff)

lemma store_message_topics:
  assumes "store_message cfg now topic payload metadata s = (s', m)"
    "ts = (if has_key (topics s) topic then topics s else enforce_topic_limit cfg now (topics s))"
    "t = (case map_of ts topic of Some t \<Rightarrow> t | None \<Rightarrow> new_topic_state)"
  shows "topics s' = AList.update topic (push_message cfg m t) ts"
  using assms(1) unfolding store_message_def Let_def assms(2) [symmetric] assms(3) [symmetric] by auto

lemma store_message_stored:
  assumes "store_message cfg now topic payload metadata s = (s', m)"
  shows "m \<in> set (all_messages s')"
proof -
  define ts where "ts = (if has_key (topics s) topic then topics s else enforce_topic_limit cfg now (topics s))"
  define t where "t = (case map_of ts topic of Some t \<Rightarrow> t | None \<Rightarrow> new_topic_state)"
  have "map_of (topics s') topic = Some (push_message cfg m t)"
    by (simp add: store_message_topics [OF assms ts_def t_def] map_of_update)
  then have "(topic, push_message cfg m t) \<in> set (topics s')" by (rule map_of_SomeD)
  moreover have "m \<in> set (t_messages (push_message cfg m t))" by (simp add: push_message_def)
  ultimately show ?thesis unfolding all_messages_iff by blast
qed

lemma store_message_messages:
  assumes "mem_inv cfg s" "store_message cfg now topic payload metadata s = (s', m)"
  shows "set (all_messages s') \<subseteq> insert m (set (all_messages s))"
proof
  fix x assume "x \<in> set (all_messages s')"
  define ts where "ts = (if has_key (topics s) topic then topics s else enforce_topic_limit cfg now (topics s))"
  define t where "t = (case map_of ts topic of Some t \<Rightarrow> t | None \<Rightarrow> new_topic_state)"
  have top: "topics s' = AList.update topic (push_message cfg m t) ts"
    by (rule store_message_topics [OF assms(2) ts_def t_def])
  have sub: "set ts \<subseteq> set (topics s)" and wf: "wf_map ts"
    using enforce_topic_limit_subset [of cfg now "topics s"] assms(1)
    by (auto simp: ts_def mem_inv_def)
  have t: "t_messages t = [] \<or> (topic, t) \<in> set ts"
    by (auto simp: t_def new_topic_state_def split: option.splits dest: map_of_SomeD)
  obtain k v where kv: "(k, v) \<in> set (AList.update topic (push_message cfg m t) ts)" "x \<in> set (t_messages v)"
    using \<open>x \<in> set (all_messages s')\<close> by (auto simp: all_messages_iff top)
  have push: "set (t_messages (push_message cfg m t)) \<subseteq> insert m (set (t_messages t))"
    by (auto simp: push_message_def dest: in_set_dropD)
  show "x \<in> insert m (set (all_messages s))"
    using set_update_cases [OF wf kv(1)] kv(2) t push sub by (auto simp: all_messages_iff)
qed

lemma wipe_stream_messages:
  "wipe_stream h key s = (r, s') \<Longrightarrow>
   set (all_messages s') \<subseteq> set (all_messages s) \<and> next_sequence s' = next_sequence s"
  by (auto simp: wipe_stream_def Let_def all_messages_def split: if_splits)

lemma delete_message_messages:
  assumes "mem_inv cfg s" "delete_message h key n s = (r, s')"
  shows "set (all_messages s') \<subseteq> set (all_messages s) \<and> next_sequence s' = next_sequence s"
proof (cases "s' = s")
  case False
  then obtain hit ts' where d: "delete_in_topics hit n (topics s) = Some ts'" "s' = s\<lparr>topics := ts'\<rparr>"
    using assms(2) by (auto simp: delete_message_def Let_def split: option.splits)
  have "x \<in> set (all_messages s)" if "x \<in> set (all_messages s')" for x
  proof -
    obtain k t' where "(k, t') \<in> set ts'" "x \<in> set (t_messages t')"
      using \<open>x \<in> set (all_messages s')\<close> by (auto simp: all_messages_iff d(2))
    then show ?thesis using delete_in_topics_props [OF d(1)]
      by (fastforce simp: all_messages_iff remove_at_def dest: in_set_takeD in_set_dropD)
  qed
  then show ?thesis by (auto simp: d(2))
qed simp

lemma mem_step_messages:
  assumes "mem_step h cfg s new s'" "mem_inv cfg s"
  shows "map m_sequence new = [next_sequence s..<next_sequence s'] \<and>
         set (all_messages s') \<subseteq> set (all_messages s) \<union> set new"
  using assms
proof (cases rule: mem_step.cases)
  case (Store now topic payload metadata m)
  then show ?thesis using store_message_broadcast [OF Store(2)] store_message_messages [OF assms(2) Store(2)]
    by auto
next
  case (WipeStream key r)
  then show ?thesis using wipe_stream_messages by (metis le_supI1 list.simps(8) upt_conv_Nil order_refl)
next
  case WipeAll
  then show ?thesis by (simp add: wipe_all_def all_messages_def)
next
  case (Delete key n r)
  then show ?thesis using delete_message_messages [OF assms(2)]
    by (metis le_supI1 list.simps(8) upt_conv_Nil order_refl)
next
  case (Rehash ts)
  then have "set ts = set (topics s)" by (metis set_mset_mset)
  then show ?thesis using Rehash by (auto simp: all_messages_iff)
qed

lemma mem_step_mono: "mem_step h cfg s new s' \<Longrightarrow> mem_inv cfg s \<Longrightarrow> next_sequence s \<le> next_sequence s'"
  by (induction rule: mem_step.induct)
     (auto simp: wipe_all_def dest: store_message_broadcast wipe_stream_messages delete_message_messages)

lemma upt_join: "i \<le> j \<Longrightarrow> j \<le> k \<Longrightarrow> [i..<j] @ [j..<k] = [i..<k]"
  by (metis le_Suc_ex upt_add_eq_append)

lemma mem_run_messages:
  "mem_run h cfg s sent s' \<Longrightarrow> mem_inv cfg s \<Longrightarrow>
   map m_sequence sent = [next_sequence s..<next_sequence s'] \<and> next_sequence s \<le> next_sequence s' \<and>
   set (all_messages s') \<subseteq> set (all_messages s) \<union> set sent"
proof (induction rule: mem_run.induct)
  case (More s sent s1 new s2)
  note inv = mem_inv_run [OF More.hyps(1) More.prems]
  note step = mem_step_messages [OF More.hyps(2) inv] and mono = mem_step_mono [OF More.hyps(2) inv]
  show ?case using More.IH [OF More.prems] step mono upt_join
    by (auto simp: subset_iff intro: le_trans)
qed simp

end
