(* ===== verification/Routes.thy ===== *)
theory Routes
  imports ApiErrors Ecpds Backend
begin

text \<open>
  The notification, watch and replay endpoints: \<open>src/handlers/notification_processor.rs\<close>,
  \<open>src/handlers/storage.rs\<close>, \<open>src/routes/notify.rs\<close>, \<open>watch.rs\<close> and \<open>replay.rs\<close>, and the limit
  and strictness lookups of \<open>src/configuration/global.rs\<close>. A handler is a function of the
  request context, the body and the state of the backend; it returns its response, the
  metrics it counts and the new state. The streams themselves are opened by the functions
  of \<open>src/sse/\<close>, which are arguments here.
\<close>

record 'd server =
  sv_host :: host
  sv_chrono :: "'d chrono"
  sv_dates :: date_reader
  sv_read_request :: "json \<Rightarrow> string + notification_request"
  sv_global :: "schema_map option"
  sv_strict :: bool
  sv_default_limit :: nat
  sv_processed_at :: string

definition resolve_notification_schema_strict :: "bool option \<Rightarrow> schema_map option \<Rightarrow> bool" where
  "resolve_notification_schema_strict explicit schema =
    (case explicit of Some b \<Rightarrow> b
     | None \<Rightarrow> (case schema of Some m \<Rightarrow> m \<noteq> [] | None \<Rightarrow> False))"

definition replay_limit_for_event_type :: "schema_map option \<Rightarrow> nat \<Rightarrow> string \<Rightarrow> nat" where
  "replay_limit_for_event_type global default_limit event_type =
    (case Option.bind (Option.bind global (\<lambda>m. map_of m event_type)) es_max_historical of
       Some n \<Rightarrow> n | None \<Rightarrow> default_limit)"

section \<open>Processing a notification\<close>

datatype notification_error_kind = ValidationKind | ProcessingKind

text \<open>The typed test for an invalid topic base looks at the innermost error, here at its text.\<close>
definition is_notification_validation_error :: "err \<Rightarrow> bool" where
  "is_notification_validation_error e =
    (if last_of e = Some invalid_topic_base_text then True
     else list_ex (\<lambda>cause.
       let msg = to_ascii_lowercase cause in
       starts_with ''required field '' msg \<or> starts_with ''payload is required'' msg \<or>
       str_contains ''unknown event type'' msg \<or> starts_with (''field '' @ quote) msg \<or>
       str_contains ''must be a valid'' msg) e)"

definition process_notification_request ::
  "'d server \<Rightarrow> string \<Rightarrow> json alist \<Rightarrow> json option \<Rightarrow> operation \<Rightarrow>
   (notification_error_kind \<times> err) + processing_result" where
  "process_notification_request sv event_type params payload op =
     map_err (\<lambda>e. (if is_notification_validation_error e then ValidationKind else ProcessingKind, e))
       (process_request_with_values (sv_host sv) (sv_chrono sv) (handler_from_config (sv_global sv) (sv_strict sv))
          event_type params payload op)"

section \<open>Storing it\<close>

text \<open>The two writing operations of the backend trait.\<close>
record 's writer =
  wr_put_messages :: "string \<Rightarrow> string \<Rightarrow> 's \<Rightarrow> (err + unit) \<times> 's"
  wr_put_message_with_headers :: "string \<Rightarrow> string alist option \<Rightarrow> string \<Rightarrow> 's \<Rightarrow> (err + unit) \<times> 's"

definition spatial_headers :: "spatial_metadata \<Rightarrow> string alist" where
  "spatial_headers meta =
     (case geometry meta of
        GPolygon polygon \<Rightarrow> AList.update SPATIAL_GEOMETRY_METADATA_KEY polygon
      | GPointCloud cloud \<Rightarrow> AList.update SPATIAL_POINT_CLOUD_METADATA_KEY cloud)
     (AList.update SPATIAL_BBOX_METADATA_KEY (bounding_box meta) [])"

definition save_to_backend :: "'s writer \<Rightarrow> processing_result \<Rightarrow> string \<Rightarrow> 's \<Rightarrow> (err + unit) \<times> 's" where
  "save_to_backend wr res payload s =
    (case pr_spatial res of
       Some meta \<Rightarrow> wr_put_message_with_headers wr (pr_topic res) (Some (spatial_headers meta)) payload s
     | None \<Rightarrow> wr_put_messages wr (pr_topic res) payload s)"

section \<open>The notification endpoint\<close>

text \<open>What an endpoint returns; a metric is the event type label and the status label.\<close>
record 's outcome =
  oc_response :: http_response
  oc_metrics :: "(string \<times> string) list"
  oc_state :: 's

definition payload_text :: "host \<Rightarrow> json option \<Rightarrow> string" where
  "payload_text h payload = (case payload of Some v \<Rightarrow> json_print h v | None \<Rightarrow> ''null'')"

definition notification_response :: "'d server \<Rightarrow> string \<Rightarrow> http_response" where
  "notification_response sv request_id =
     \<lparr>hr_status = 200, hr_headers = [], hr_body = json_object
        [(''status'', JString ''success''), (''request_id'', JString request_id),
         (''processed_at'', JString (sv_processed_at sv))]\<rparr>"

text \<open>An early return: the response and the metric it counts.\<close>
abbreviation refuse :: "string \<Rightarrow> string \<Rightarrow> http_response \<Rightarrow> http_response \<times> (string \<times> string) list" where
  "refuse label status response \<equiv> (response, [(label, status)])"

fun processing_refusal :: "string \<Rightarrow> notification_error_kind \<times> err \<Rightarrow> http_response" where
  "processing_refusal rid (ValidationKind, e) = request_validation_error_response NotificationKind e rid"
| "processing_refusal rid (ProcessingKind, e) = processing_error_response NotificationProcessing e rid"

text \<open>The checks of \<open>notify\<close>, in their order, up to the processed request.\<close>
definition notify_checks ::
  "'d server \<Rightarrow> handler_context \<Rightarrow> string \<Rightarrow>
   http_response \<times> (string \<times> string) list + notification_request \<times> processing_result" where
  "notify_checks sv c body =
    (let rid = hc_request_id c; label = bucket_event_type_for_observability (sv_global sv) in
     bind_res (map_err (\<lambda>e. refuse ''unknown'' ''error'' (request_parse_error_response NotificationKind e rid))
                 (parse_and_validate_request (sv_host sv) (sv_read_request sv) body)) (\<lambda>r.
     bind_res (map_err (refuse ''unknown'' ''rejected'')
                 (enforce_known_event_type (sv_strict sv) (sv_global sv) rid (nr_event_type r))) (\<lambda>_.
     bind_res (map_err (\<lambda>e. refuse (label (nr_event_type r)) ''error'' (request_validation_error_response NotificationKind e rid))
                 (reject_end_point ''/notification'' r)) (\<lambda>_.
     bind_res (if has_key (nr_identifier r) ''point''
               then Inl (refuse (label (nr_event_type r)) ''error'' (request_validation_error_response NotificationKind
                 [''identifier.point is only supported for watch/replay endpoints, not /notification''] rid))
               else Inr ()) (\<lambda>_.
     bind_res (map_err (refuse (label (nr_event_type r)) ''rejected'')
                 (enforce_stream_auth c (sv_global sv) (nr_event_type r) WriteStream)) (\<lambda>_.
     bind_res (map_err (\<lambda>e. refuse (label (nr_event_type r)) ''error'' (processing_refusal rid e))
                 (process_notification_request sv (nr_event_type r) (nr_identifier r) (nr_payload r) Notify)) (\<lambda>res.
     Inr (r, res))))))))"

definition notify ::
  "'d server \<Rightarrow> 's writer \<Rightarrow> handler_context \<Rightarrow> string \<Rightarrow> 's \<Rightarrow> 's outcome" where
  "notify sv wr c body s =
    (case notify_checks sv c body of
       Inl (response, metrics) \<Rightarrow> \<lparr>oc_response = response, oc_metrics = metrics, oc_state = s\<rparr>
     | Inr (r, res) \<Rightarrow>
         (let label = bucket_event_type_for_observability (sv_global sv) (nr_event_type r) in
          case save_to_backend wr res (payload_text (sv_host sv) (nr_payload r)) s of
            (Inl e, s') \<Rightarrow>
              \<lparr>oc_response = processing_error_response NotificationStorage e (hc_request_id c),
               oc_metrics = [(label, ''error'')], oc_state = s'\<rparr>
          | (Inr _, s') \<Rightarrow>
              \<lparr>oc_response = notification_response sv (hc_request_id c),
               oc_metrics = [(label, ''success'')], oc_state = s'\<rparr>))"

section \<open>The streaming endpoints\<close>

text \<open>
  The outcome of a streaming request: an error response, or the opened stream with the
  processed request. \<open>se_counts\<close> are the counters of the ECPDS check.
\<close>
datatype 'b stream_outcome = Answered http_response | Streaming streaming_context 'b

record 'b stream_exit =
  sx_outcome :: "'b stream_outcome"
  sx_cache :: dest_cache
  sx_counts :: "ecpds_count list"

text \<open>The steps of both endpoints up to the processed request.\<close>
definition stream_checks ::
  "'d server \<Rightarrow> request_kind \<Rightarrow> validation_config \<Rightarrow> handler_context \<Rightarrow> string \<Rightarrow> http_response + streaming_context" where
  "stream_checks sv kind config c body =
    (let rid = hc_request_id c in
     bind_res (map_err (\<lambda>e. request_parse_error_response kind e rid)
                 (parse_and_validate_request (sv_host sv) (sv_read_request sv) body)) (\<lambda>r.
     bind_res (enforce_known_event_type (sv_strict sv) (sv_global sv) rid (nr_event_type r)) (\<lambda>_.
     bind_res (enforce_stream_auth c (sv_global sv) (nr_event_type r) ReadStream) (\<lambda>_.
     map_err (\<lambda>e. request_validation_error_response kind e rid)
       (process_streaming (sv_host sv) (sv_chrono sv) (sv_dates sv) (sv_global sv) (sv_strict sv) r rid config)))))"

text \<open>
  With the ECPDS check, which comes last; \<open>flight\<close> says what the cache library does for this
  caller, should the check miss the cache.
\<close>
definition admit_stream ::
  "'d server \<Rightarrow> request_kind \<Rightarrow> validation_config \<Rightarrow> handler_context \<Rightarrow> string option \<Rightarrow> dest_cache \<Rightarrow>
   flight \<Rightarrow> string \<Rightarrow> (http_response + streaming_context) \<times> dest_cache \<times> ecpds_count list" where
  "admit_stream sv kind config c checker cache flight body =
    (case stream_checks sv kind config c body of
       Inl response \<Rightarrow> (Inl response, cache, [])
     | Inr context \<Rightarrow>
         (case enforce_ecpds_auth c (sv_global sv) (sc_event_type context) (sc_params context) checker cache flight of
            (verdict, cache', counts) \<Rightarrow> (map_res (\<lambda>_. context) verdict, cache', counts)))"

text \<open>
  \<open>open_history\<close> and \<open>open_live\<close> are \<open>create_historical_then_live_stream\<close> and
  \<open>create_watch_sse_stream\<close>, with the limit of delivered notifications as an argument.
\<close>
definition watch ::
  "'d server \<Rightarrow> (streaming_context \<Rightarrow> nat \<Rightarrow> err + 'b) \<Rightarrow> (streaming_context \<Rightarrow> err + 'b) \<Rightarrow> handler_context \<Rightarrow>
   string option \<Rightarrow> dest_cache \<Rightarrow> flight \<Rightarrow> string \<Rightarrow> 'b stream_exit" where
  "watch sv open_history open_live c checker cache flight body =
    (case admit_stream sv WatchKind for_watch c checker cache flight body of
       (Inl response, cache', counts) \<Rightarrow>
         \<lparr>sx_outcome = Answered response, sx_cache = cache', sx_counts = counts\<rparr>
     | (Inr context, cache', counts) \<Rightarrow>
         (case (if sc_start_at context \<noteq> LiveOnly
                then open_history context
                       (replay_limit_for_event_type (sv_global sv) (sv_default_limit sv) (sc_event_type context))
                else open_live context) of
            Inr stream \<Rightarrow> \<lparr>sx_outcome = Streaming context stream, sx_cache = cache', sx_counts = counts\<rparr>
          | Inl e \<Rightarrow> \<lparr>sx_outcome = Answered (sse_error_response e (sc_topic context) (hc_request_id c)),
                     sx_cache = cache', sx_counts = counts\<rparr>))"

definition replay ::
  "'d server \<Rightarrow> (streaming_context \<Rightarrow> nat \<Rightarrow> err + 'b) \<Rightarrow> handler_context \<Rightarrow>
   string option \<Rightarrow> dest_cache \<Rightarrow> flight \<Rightarrow> string \<Rightarrow> 'b stream_exit" where
  "replay sv open_replay c checker cache flight body =
    (case admit_stream sv ReplayKind for_replay c checker cache flight body of
       (Inl response, cache', counts) \<Rightarrow>
         \<lparr>sx_outcome = Answered response, sx_cache = cache', sx_counts = counts\<rparr>
     | (Inr context, cache', counts) \<Rightarrow>
         (case open_replay context
                 (replay_limit_for_event_type (sv_global sv) (sv_default_limit sv) (sc_event_type context)) of
            Inr stream \<Rightarrow> \<lparr>sx_outcome = Streaming context stream, sx_cache = cache', sx_counts = counts\<rparr>
          | Inl e \<Rightarrow> \<lparr>sx_outcome = Answered (sse_error_response e (sc_topic context) (hc_request_id c)),
                     sx_cache = cache', sx_counts = counts\<rparr>))"

section \<open>The in-memory backend as the writer\<close>

definition mem_writer :: "mem_config \<Rightarrow> int \<Rightarrow> mem_state writer" where
  "mem_writer cfg now =
     \<lparr>wr_put_messages = (\<lambda>topic payload s. (Inr (), fst (put_messages cfg now topic payload s))),
      wr_put_message_with_headers = (\<lambda>topic headers payload s.
        (Inr (), fst (put_message_with_headers cfg now topic headers payload s)))\<rparr>"

end
