(* ===== verification/Units.thy ===== *)
theory Units
  imports Json
begin

text \<open>
  The duration and size literals of the configuration, \<open>src/configuration/units.rs\<close>: the
  readers with their checked multiplications, and what they accept, exactly. A duration is
  its number of seconds.
\<close>

section \<open>Readers\<close>

definition checked_mul_u64 :: "nat \<Rightarrow> nat \<Rightarrow> nat option" where
  "checked_mul_u64 a b = (if is_u64 (a * b) then Some (a * b) else None)"

definition checked_mul_i64 :: "int \<Rightarrow> int \<Rightarrow> int option" where
  "checked_mul_i64 a b = (if is_i64 (a * b) then Some (a * b) else None)"

text \<open>\<open>split_at(find(|ch| !ch.is_ascii_digit()))\<close>, or the error when every character is a digit.\<close>
definition split_digits :: "string \<Rightarrow> string \<Rightarrow> string + string \<times> string" where
  "split_digits what s =
    (if list_all is_digit s then Inl (what @ '' must include a unit suffix'')
     else Inr (takeWhile is_digit s, dropWhile is_digit s))"

text \<open>The seconds of a value and a lower-case unit.\<close>
definition scale_duration :: "nat \<Rightarrow> string \<Rightarrow> string + nat" where
  "scale_duration v u =
    (let overflow = of_option ''duration overflow'' in
     if u = ''s'' then Inr v
     else if u = ''m'' then overflow (checked_mul_u64 v 60)
     else if u = ''h'' then overflow (checked_mul_u64 v (60 * 60))
     else if u = ''d'' then overflow (checked_mul_u64 v (24 * 60 * 60))
     else if u = ''w'' then overflow (checked_mul_u64 v (7 * 24 * 60 * 60))
     else Inl ''duration unit must be one of: s, m, h, d, w'')"

definition parse_duration_spec :: "string \<Rightarrow> string + nat" where
  "parse_duration_spec input =
    (let trimmed = trim input in
     if trimmed = [] then Inl ''duration must not be empty''
     else bind_res (split_digits ''duration'' trimmed) (\<lambda>(value_str, unit).
       if unit = [] then Inl ''duration must include a unit suffix''
       else bind_res (map_err (\<lambda>_. ''duration value must be an integer'') (parse_u64 value_str)) (\<lambda>v.
         scale_duration v (to_ascii_lowercase unit))))"

text \<open>\<open>i64::try_from(duration.as_nanos())\<close>\<close>
definition parse_retention_time_spec :: "string \<Rightarrow> string + nat" where
  "parse_retention_time_spec input =
     bind_res (parse_duration_spec input) (\<lambda>d.
       if \<not> is_i64 (int d * 1000000000)
       then Inl ''retention duration exceeds signed 64-bit nanoseconds (maximum 9223372036s)''
       else Inr d)"

definition size_multiplier :: "string \<Rightarrow> int option" where
  "size_multiplier unit =
    (if unit = ''K'' then Some 1000 else if unit = ''M'' then Some 1000000
     else if unit = ''G'' then Some 1000000000 else if unit = ''T'' then Some 1000000000000
     else if unit = ''Ki'' then Some 1024 else if unit = ''Mi'' then Some 1048576
     else if unit = ''Gi'' then Some 1073741824 else if unit = ''Ti'' then Some 1099511627776
     else None)"

definition parse_size_spec :: "string \<Rightarrow> string + int" where
  "parse_size_spec input =
    (let trimmed = trim input in
     if trimmed = [] then Inl ''size must not be empty''
     else bind_res (split_digits ''size'' trimmed) (\<lambda>(value_str, unit).
       if unit = [] then Inl ''size must include a unit suffix''
       else bind_res (map_err (\<lambda>_. ''size value must be an integer'') (parse_i64 value_str)) (\<lambda>v.
         if v \<le> 0 then Inl ''size value must be greater than zero''
         else bind_res (of_option ''size unit must be one of: K, Ki, M, Mi, G, Gi, T, Ti'' (size_multiplier unit)) (\<lambda>k.
           of_option ''size overflow'' (checked_mul_i64 v k)))))"

section \<open>Numbers in digits\<close>

lemma foldl_digits_mono:
  "list_all is_digit ds \<Longrightarrow> 0 \<le> acc \<Longrightarrow> acc \<le> foldl (\<lambda>a c. a * 10 + (int (byte c) - 48)) acc ds"
proof (induction ds arbitrary: acc)
  case (Cons c ds)
  have "48 \<le> int (byte c)" using Cons.prems by (simp add: is_digit_def)
  then show ?case using Cons.IH [of "acc * 10 + (int (byte c) - 48)"] Cons.prems by simp
qed simp

lemma parse_pos_digits:
  "list_all is_digit ds \<Longrightarrow> 0 \<le> acc \<Longrightarrow> acc \<le> mx \<Longrightarrow>
   parse_pos mx acc ds =
     (if foldl (\<lambda>a c. a * 10 + (int (byte c) - 48)) acc ds \<le> mx
      then Inr (foldl (\<lambda>a c. a * 10 + (int (byte c) - 48)) acc ds) else Inl PosOverflow)"
proof (induction ds arbitrary: acc)
  case (Cons c ds)
  have d: "is_digit c" "list_all is_digit ds" using Cons.prems by auto
  then have "48 \<le> int (byte c)" by (simp add: is_digit_def)
  then have next_acc: "0 \<le> acc * 10 + (int (byte c) - 48)" using Cons.prems by simp
  show ?case
  proof (cases "acc * 10 + (int (byte c) - 48) \<le> mx")
    case True
    then show ?thesis using Cons.IH [OF d(2) next_acc] d by (simp add: digit_val_def)
  next
    case False
    then show ?thesis using foldl_digits_mono [OF d(2) next_acc] d by (simp add: digit_val_def)
  qed
qed simp

lemma digits_val_nonneg: "list_all is_digit ds \<Longrightarrow> 0 \<le> digits_val ds"
  using foldl_digits_mono [of ds 0] by (simp add: digits_val_def)

lemma parse_u64_digits:
  "ds \<noteq> [] \<Longrightarrow> list_all is_digit ds \<Longrightarrow>
   parse_u64 ds = (if digits_val ds \<le> u64_max then Inr (nat (digits_val ds)) else Inl PosOverflow)"
  using parse_pos_digits [of ds 0 u64_max]
  by (simp add: parse_u64_def digits_parse_unsigned digits_val_def)

lemma parse_i64_digits:
  assumes "ds \<noteq> []" "list_all is_digit ds"
  shows "parse_i64 ds = (if digits_val ds \<le> i64_max then Inr (digits_val ds) else Inl PosOverflow)"
proof -
  obtain c r where ds: "ds = c # r" using assms(1) by (cases ds) auto
  then have "c \<noteq> CHR ''+''" "c \<noteq> CHR ''-''" using assms(2) by (auto simp: is_digit_def)
  then have "parse_i64 ds = parse_pos i64_max 0 ds" by (simp add: parse_i64_def parse_signed_def ds)
  then show ?thesis using parse_pos_digits [OF assms(2), of 0 i64_max] by (simp add: digits_val_def)
qed

lemma split_digits_Inr_iff:
  "split_digits what s = Inr (ds, u) \<longleftrightarrow>
   s = ds @ u \<and> list_all is_digit ds \<and> u \<noteq> [] \<and> \<not> is_digit (hd u)"
proof
  assume "split_digits what s = Inr (ds, u)"
  then have s: "\<not> list_all is_digit s" "ds = takeWhile is_digit s" "u = dropWhile is_digit s"
    by (auto simp: split_digits_def split: if_splits)
  then have "u \<noteq> []" by (auto simp: list_all_iff)
  then show "s = ds @ u \<and> list_all is_digit ds \<and> u \<noteq> [] \<and> \<not> is_digit (hd u)"
    using s hd_dropWhile [of is_digit s] by (auto simp: list_all_iff dest: set_takeWhileD)
next
  assume a: "s = ds @ u \<and> list_all is_digit ds \<and> u \<noteq> [] \<and> \<not> is_digit (hd u)"
  then obtain c r where "u = c # r" "\<not> is_digit c" by (cases u) auto
  moreover from a have "\<And>x. x \<in> set ds \<Longrightarrow> is_digit x" by (simp add: list_all_iff)
  ultimately show "split_digits what s = Inr (ds, u)"
    using a by (simp add: split_digits_def takeWhile_append2 dropWhile_append2)
qed

section \<open>What the readers accept\<close>

definition duration_unit :: "string \<Rightarrow> nat option" where
  "duration_unit u = map_of [(''s'', 1), (''m'', 60), (''h'', 3600), (''d'', 86400), (''w'', 604800)] u"

text \<open>A literal: digits, then a unit.\<close>
definition literal :: "string \<Rightarrow> (string \<Rightarrow> 'k option) \<Rightarrow> string \<Rightarrow> 'k \<Rightarrow> bool" where
  "literal ds unit_of s k =
    (\<exists>u. trim s = ds @ u \<and> ds \<noteq> [] \<and> list_all is_digit ds \<and> unit_of u = Some k)"

lemma duration_unit_start:
  "duration_unit (to_ascii_lowercase u) = Some k \<Longrightarrow> u \<noteq> [] \<and> \<not> is_digit (hd u) \<and> 1 \<le> k"
  by (cases u)
    (auto simp: duration_unit_def to_ascii_lowercase_def ascii_lower_def is_upper_def is_digit_def char_of_def
      split: if_splits)

lemma size_multiplier_start:
  "size_multiplier u = Some k \<Longrightarrow> u \<noteq> [] \<and> \<not> is_digit (hd u) \<and> 1 \<le> k"
  by (auto simp: size_multiplier_def is_digit_def split: if_splits)

lemma literal_iff:
  assumes "\<And>u k. unit_of u = Some k \<Longrightarrow> u \<noteq> [] \<and> \<not> is_digit (hd u)"
  shows "literal ds unit_of s k \<longleftrightarrow>
    trim s \<noteq> [] \<and> (\<exists>u. split_digits what (trim s) = Inr (ds, u) \<and> ds \<noteq> [] \<and> unit_of u = Some k)"
  using assms by (auto simp: literal_def split_digits_Inr_iff)

lemma scaled_u64:
  assumes "1 \<le> k" "is_u64 (n * k)"
  shows "is_u64 n"
proof -
  have "n \<le> n * k" using assms(1) by simp
  then have "int n \<le> int (n * k)" by (rule of_nat_mono)
  then show ?thesis using assms(2) unfolding is_u64_def by linarith
qed

lemma scale_duration_iff:
  "is_u64 v \<Longrightarrow> scale_duration v u = Inr d \<longleftrightarrow> (\<exists>k. duration_unit u = Some k \<and> d = v * k \<and> is_u64 d)"
  by (auto simp: scale_duration_def duration_unit_def checked_mul_u64_def Let_def result_simps)

lemma parse_u64_digits_iff:
  assumes "list_all is_digit ds"
  shows "parse_u64 ds = Inr v \<longleftrightarrow> ds \<noteq> [] \<and> v = nat (digits_val ds) \<and> is_u64 v"
proof (cases "ds = []")
  case True
  then show ?thesis by (simp add: parse_u64_def parse_unsigned_def)
next
  case False
  then show ?thesis using parse_u64_digits [OF False assms] digits_val_nonneg [OF assms]
    by (auto simp: is_u64_def)
qed

lemma parse_i64_digits_iff:
  assumes "list_all is_digit ds"
  shows "parse_i64 ds = Inr v \<longleftrightarrow> ds \<noteq> [] \<and> v = digits_val ds \<and> v \<le> i64_max"
proof (cases "ds = []")
  case True
  then show ?thesis by (simp add: parse_i64_def parse_signed_def)
next
  case False
  then show ?thesis using parse_i64_digits [OF False assms] by auto
qed

lemma parse_duration_exact:
  "parse_duration_spec s = Inr d \<longleftrightarrow>
   (\<exists>ds k. literal ds (\<lambda>u. duration_unit (to_ascii_lowercase u)) s k \<and> d = nat (digits_val ds) * k \<and> is_u64 d)"
    (is "?l \<longleftrightarrow> ?r")
proof
  assume ?l
  then obtain ds u v where a: "split_digits ''duration'' (trim s) = Inr (ds, u)" "parse_u64 ds = Inr v"
      "scale_duration v (to_ascii_lowercase u) = Inr d"
    by (auto simp: parse_duration_spec_def Let_def result_simps split: if_splits)
  then have b: "trim s = ds @ u" "list_all is_digit ds" by (auto simp: split_digits_Inr_iff)
  have c: "ds \<noteq> []" "v = nat (digits_val ds)" "is_u64 v" using a(2) parse_u64_digits_iff [OF b(2)] by auto
  then obtain k where "duration_unit (to_ascii_lowercase u) = Some k" "d = v * k" "is_u64 d"
    using a(3) by (auto simp: scale_duration_iff)
  then show ?r using b c by (auto simp: literal_def)
next
  assume ?r
  then obtain ds k u where a: "trim s = ds @ u" "ds \<noteq> []" "list_all is_digit ds"
      "duration_unit (to_ascii_lowercase u) = Some k" "d = nat (digits_val ds) * k" "is_u64 d"
    by (auto simp: literal_def)
  note u = duration_unit_start [OF a(4)]
  have v: "is_u64 (nat (digits_val ds))" using scaled_u64 [of k "nat (digits_val ds)"] u a by simp
  then have "parse_u64 ds = Inr (nat (digits_val ds))" using a by (simp add: parse_u64_digits_iff)
  moreover have "split_digits ''duration'' (trim s) = Inr (ds, u)" using a u by (simp add: split_digits_Inr_iff)
  moreover have "scale_duration (nat (digits_val ds)) (to_ascii_lowercase u) = Inr d"
    using a v by (simp add: scale_duration_iff)
  ultimately show ?l using a u by (simp add: parse_duration_spec_def Let_def)
qed

lemma parse_size_exact:
  "parse_size_spec s = Inr b \<longleftrightarrow>
   (\<exists>ds k. literal ds size_multiplier s k \<and> b = digits_val ds * k \<and> 0 < b \<and> b \<le> i64_max)"
    (is "?l \<longleftrightarrow> ?r")
proof
  assume ?l
  then obtain ds u v k where a: "split_digits ''size'' (trim s) = Inr (ds, u)" "parse_i64 ds = Inr v"
      "0 < v" "size_multiplier u = Some k" "b = v * k" "is_i64 b"
    by (auto simp: parse_size_spec_def Let_def result_simps checked_mul_i64_def split: if_splits)
  then have c: "trim s = ds @ u" "list_all is_digit ds" by (auto simp: split_digits_Inr_iff)
  then have "ds \<noteq> []" "v = digits_val ds" using a(2) parse_i64_digits_iff [of ds] by auto
  moreover have "0 < v * k" using a(3) size_multiplier_start [OF a(4)] by simp
  ultimately show ?r using a c by (auto simp: literal_def is_i64_def)
next
  assume ?r
  then obtain ds k u where a: "trim s = ds @ u" "ds \<noteq> []" "list_all is_digit ds"
      "size_multiplier u = Some k" "b = digits_val ds * k" "0 < b" "b \<le> i64_max"
    by (auto simp: literal_def)
  note u = size_multiplier_start [OF a(4)]
  have pos: "0 < digits_val ds" using a(5,6) u by (simp add: zero_less_mult_iff)
  then have "digits_val ds * 1 \<le> digits_val ds * k" using u by (intro mult_left_mono) auto
  then have "parse_i64 ds = Inr (digits_val ds)" using a by (simp add: parse_i64_digits_iff)
  moreover have "split_digits ''size'' (trim s) = Inr (ds, u)" using a u by (simp add: split_digits_Inr_iff)
  moreover have "checked_mul_i64 (digits_val ds) k = Some b" using a by (simp add: checked_mul_i64_def is_i64_def)
  ultimately show ?l using a u pos by (simp add: parse_size_spec_def Let_def)
qed

text \<open>The units of a size, as the documentation lists them.\<close>
definition size_units :: "int alist" where
  "size_units = [(''K'', 10 ^ 3), (''Ki'', 2 ^ 10), (''M'', 10 ^ 6), (''Mi'', 2 ^ 20), (''G'', 10 ^ 9), (''Gi'', 2 ^ 30),
     (''T'', 10 ^ 12), (''Ti'', 2 ^ 40)]"

lemma size_multiplier_units: "size_multiplier = map_of size_units"
  by (rule ext) (simp add: size_multiplier_def size_units_def)

section \<open>Properties\<close>

text \<open>
  C20: the literals of the configuration, exactly. A retention time is accepted exactly when,
  white space around it aside, it is a non-empty run of digits and one of the units s, m, h, d
  and w in either case, and the product is at most 9223372036 seconds; the result is the
  product. A size is accepted exactly when it is digits and one of K, M, G, T (powers of
  1000) and Ki, Mi, Gi, Ti (powers of 1024), and the product is positive and fits in 63 bits: the checked arithmetic neither wraps nor
  rejects a value that fits.
\<close>
theorem literals_exact:
  "(parse_retention_time_spec s = Inr d \<longleftrightarrow>
     (\<exists>ds k. literal ds (\<lambda>u. duration_unit (to_ascii_lowercase u)) s k \<and>
        d = nat (digits_val ds) * k \<and> d \<le> 9223372036)) \<and>
   (parse_size_spec s = Inr b \<longleftrightarrow>
     (\<exists>ds k. literal ds (map_of size_units) s k \<and> b = digits_val ds * k \<and> 0 < b \<and> b \<le> i64_max))"
proof -
  have "parse_retention_time_spec s = Inr d \<longleftrightarrow> parse_duration_spec s = Inr d \<and> is_i64 (int d * 1000000000)"
    by (auto simp: parse_retention_time_spec_def result_simps split: if_splits)
  moreover have "is_i64 (int d * 1000000000) \<longleftrightarrow> d \<le> 9223372036" by (auto simp: is_i64_def)
  moreover have "d \<le> 9223372036 \<Longrightarrow> is_u64 d" by (simp add: is_u64_def)
  ultimately show ?thesis unfolding parse_duration_exact parse_size_exact size_multiplier_units by auto
qed

end
