(* ===== verification/Configuration.thy ===== *)
theory Configuration
  imports Units Topics Ecpds NotificationBackend
begin

text \<open>
  The settings of the server, \<open>src/configuration/types.rs\<close>, and the checks that a
  configuration passes before the server starts: \<open>src/configuration/validation.rs\<close>,
  \<open>topic_validation.rs\<close>, \<open>homepage.rs\<close>, the construction of the ECPDS checker in
  \<open>global.rs\<close>, in the order of \<open>Application::build\<close> in \<open>src/startup.rs\<close>. Maps are visited in
  the order of their entries; the URL parser is an argument.
\<close>

section \<open>Settings\<close>

record homepage_settings =
  hp_client_documentation_url :: string
  hp_client_repository_url :: string
  hp_server_documentation_url :: string
  hp_server_repository_url :: string

definition default_homepage_settings :: homepage_settings where
  "default_homepage_settings =
     \<lparr>hp_client_documentation_url = ''https://sites.ecmwf.int/docs/aviso-client/main/'',
      hp_client_repository_url = ''https://github.com/ecmwf/aviso-client'',
      hp_server_documentation_url = ''https://sites.ecmwf.int/docs/aviso-server/main/'',
      hp_server_repository_url = ''https://github.com/ecmwf/aviso-server''\<rparr>"

record application_settings =
  ap_homepage :: homepage_settings
  ap_host :: string
  ap_port :: nat
  ap_base_url :: string
  ap_static_files_path :: string

record watch_endpoint_settings =
  we_sse_heartbeat_interval_sec :: nat
  we_connection_max_duration_sec :: nat
  we_replay_batch_size :: nat
  we_max_historical_notifications :: nat
  we_replay_batch_delay_ms :: nat
  we_concurrent_notification_processing :: nat

definition default_watch_endpoint_settings :: watch_endpoint_settings where
  "default_watch_endpoint_settings =
     \<lparr>we_sse_heartbeat_interval_sec = 30, we_connection_max_duration_sec = 3600,
      we_replay_batch_size = 100, we_max_historical_notifications = 10000,
      we_replay_batch_delay_ms = 100, we_concurrent_notification_processing = 15\<rparr>"

text \<open>A positive integer where the type is \<open>NonZeroUsize\<close>, in the width of \<open>usize\<close>.\<close>
definition deserialize_positive_usize :: "nat \<Rightarrow> nat option" where
  "deserialize_positive_usize n = (if n = 0 \<or> \<not> is_u64 n then None else Some n)"

datatype storage_type = FileStorage | MemoryStorage
datatype retention_policy = Limits | Interest | Workqueue
datatype discard_policy = OldMessages | NewMessages

record jetstream_settings =
  js_nats_url :: "string option"
  js_token :: "string option"
  js_timeout_seconds :: "nat option"
  js_retry_attempts :: "nat option"
  js_max_messages :: "int option"
  js_max_bytes :: "int option"
  js_retention_time :: "string option"
  js_storage_type :: "storage_type option"
  js_replicas :: "nat option"
  js_retention_policy :: "retention_policy option"
  js_discard_policy :: "discard_policy option"
  js_max_reconnect_attempts :: "nat option"
  js_reconnect_delay_ms :: "nat option"
  js_publish_retry_attempts :: "nat option"
  js_publish_retry_base_delay_ms :: "nat option"

record in_memory_settings =
  im_max_history_per_topic :: "nat option"
  im_max_topics :: "nat option"
  im_enable_metrics :: "bool option"

record backend_settings =
  bs_kind :: string
  bs_in_memory :: "in_memory_settings option"
  bs_jetstream :: "jetstream_settings option"

record metrics_settings =
  ms_enabled :: bool
  ms_host :: string
  ms_port :: "nat option"

definition default_metrics_settings :: metrics_settings where
  "default_metrics_settings = \<lparr>ms_enabled = False, ms_host = ''127.0.0.1'', ms_port = None\<rparr>"

datatype otlp_protocol = Grpc | Http

record otlp_settings =
  ot_enabled :: bool
  ot_endpoint :: "string option"
  ot_protocol :: otlp_protocol

record logging_settings =
  lg_level :: string
  lg_format :: string
  lg_otlp :: "otlp_settings option"

record settings =
  st_application :: application_settings
  st_backend :: backend_settings
  st_logging :: "logging_settings option"
  st_schema :: "schema_map option"
  st_strict :: "bool option"
  st_watch :: watch_endpoint_settings
  st_auth :: auth_settings
  st_metrics :: metrics_settings
  st_ecpds :: "ecpds_config option"

text \<open>The schema as the API shows it.\<close>
record api_event_schema =
  ae_payload :: "payload_config option"
  ae_identifier :: "identifier_field_config alist"

definition api_schema_of :: "event_schema \<Rightarrow> api_event_schema" where
  "api_schema_of s = \<lparr>ae_payload = es_payload s,
     ae_identifier = map (\<lambda>(key, fc). (key, \<lparr>if_description = if_description fc, if_rule = if_rule fc\<rparr>)) (es_identifier s)\<rparr>"

section \<open>Checks\<close>

definition bail_if :: "bool \<Rightarrow> string \<Rightarrow> err + unit" where
  "bail_if b msg = (if b then bail msg else Inr ())"

text \<open>A loop whose body may fail: the first failure wins.\<close>
fun for_each :: "('a \<Rightarrow> err + unit) \<Rightarrow> 'a list \<Rightarrow> err + unit" where
  "for_each f [] = Inr ()"
| "for_each f (x # xs) = bind_res (f x) (\<lambda>_. for_each f xs)"

lemma bail_if_Inr [simp]: "bail_if b msg = Inr u \<longleftrightarrow> \<not> b"
  by (simp add: bail_if_def)

lemma for_each_Inr: "for_each f xs = Inr u \<longleftrightarrow> (\<forall>x\<in>set xs. f x = Inr ())"
  by (induction xs) (auto simp: result_simps)

definition schema_msg :: "string \<Rightarrow> string \<Rightarrow> string" where
  "schema_msg event_type rest = ''Schema '' @ qt event_type @ '' '' @ rest"

definition validate_realm_roles :: "string \<Rightarrow> realm_roles \<Rightarrow> err + unit" where
  "validate_realm_roles field_name realm_roles =
     for_each (\<lambda>(realm, roles).
       bind_res (bail_if (trim realm = [])
                   (field_name @ '' must not contain empty or whitespace-only realm keys'')) (\<lambda>_.
       bind_res (bail_if (realm \<noteq> trim realm)
                   (field_name @ '' realm '' @ qt realm @ '' must not have leading or trailing whitespace'')) (\<lambda>_.
       bind_res (bail_if (roles = []) (field_name @ '' realm '' @ qt realm @ '' must have at least one role'')) (\<lambda>_.
       for_each (\<lambda>role.
         bind_res (bail_if (trim role = []) (field_name @ '' realm '' @ qt realm @
                     '' must not contain empty or whitespace-only role entries'')) (\<lambda>_.
         bail_if (role \<noteq> trim role) (field_name @ '' realm '' @ qt realm @ '' role '' @ qt role @
                     '' must not have leading or trailing whitespace''))) roles)))) realm_roles"

text \<open>The guards on one schema's spatial handlers, in the order of the loop body.\<close>
definition check_spatial_schema :: "string \<times> event_schema \<Rightarrow> err + unit" where
  "check_spatial_schema = (\<lambda>(event_type, schema).
     bind_res (for_each (\<lambda>(name, field).
         bail_if (is_polygon_rule (if_rule field) \<and> name \<noteq> ''polygon'') (schema_msg event_type
           (''PolygonHandler must use the reserved identifier key '' @ qt ''polygon'' @
            ''; multiple or renamed geometries are not supported''))) (es_identifier schema)) (\<lambda>_.
     bind_res (bail_if (case map_of (es_identifier schema) ''polygon'' of
                          Some field \<Rightarrow> \<not> is_polygon_rule (if_rule field) | None \<Rightarrow> False)
         (schema_msg event_type (''reserves identifier key '' @ qt ''polygon'' @ '' for PolygonHandler''))) (\<lambda>_.
     (let handlers = filter (\<lambda>(_, field). is_point_cloud_rule (if_rule field)) (es_identifier schema) in
      bind_res (bail_if (length handlers > 1) (schema_msg event_type ''may define only one PointCloudHandler'')) (\<lambda>_.
      case first_of handlers of
        Some (field_name, field) \<Rightarrow>
          bind_res (bail_if (field_name \<noteq> ''point_cloud'') (schema_msg event_type
            (''PointCloudHandler must use the reserved identifier key '' @ qt ''point_cloud''))) (\<lambda>_.
          bind_res (bail_if (has_key (es_identifier schema) ''polygon'') (schema_msg event_type
            (''uses PointCloudHandler, so '' @ qt ''polygon'' @
             '' is reserved for watch/replay filters and must not be declared''))) (\<lambda>_.
          bind_res (bail_if (es_topic schema = None) (schema_msg event_type
            ''uses PointCloudHandler and must define topic configuration'')) (\<lambda>_.
          (case if_rule field of
             PointCloudHandler _ max_points \<Rightarrow>
               bind_res (bail_if (max_points = 0 \<or> max_points > HARD_MAX_POINTS) (schema_msg event_type
                 (''point_cloud max_points must be between 1 and '' @ show_nat HARD_MAX_POINTS @
                  '', got '' @ show_nat max_points))) (\<lambda>_.
               bail_if (case es_topic schema of
                          Some topic \<Rightarrow> list_ex (\<lambda>key. key = ''point_cloud'') (tc_key_order topic) | None \<Rightarrow> False)
                 (schema_msg event_type
                   (''topic.key_order must not contain reserved spatial key '' @ qt ''point_cloud'')))
           | _ \<Rightarrow> Inr ()))))
      | None \<Rightarrow>
          bail_if (has_key (es_identifier schema) ''point_cloud'') (schema_msg event_type
            (''reserves identifier key '' @ qt ''point_cloud'' @ '' for PointCloudHandler'')))))))"

text \<open>The schemas of the settings, none when the section is absent.\<close>
definition schemas_of :: "settings \<Rightarrow> schema_map" where
  "schemas_of st = (case st_schema st of Some m \<Rightarrow> m | None \<Rightarrow> [])"

definition validate_spatial_schema_settings :: "settings \<Rightarrow> err + unit" where
  "validate_spatial_schema_settings st = for_each check_spatial_schema (schemas_of st)"

definition validate_auth_settings :: "auth_settings \<Rightarrow> err + unit" where
  "validate_auth_settings auth =
    (if \<not> as_enabled auth then Inr ()
     else
      bind_res (bail_if (as_url auth \<noteq> trim (as_url auth))
        ''auth.auth_o_tron_url must not have leading or trailing whitespace'') (\<lambda>_.
      bind_res (bail_if (as_jwt_secret auth \<noteq> trim (as_jwt_secret auth))
        ''auth.jwt_secret must not have leading or trailing whitespace'') (\<lambda>_.
      (let auth_o_tron_url = trim (as_url auth); jwt_secret = trim (as_jwt_secret auth) in
       bind_res (bail_if (as_timeout_ms auth = 0) ''auth.timeout_ms must be greater than zero'') (\<lambda>_.
       bind_res (bail_if (as_admin_roles auth = [])
         ''auth.enabled=true requires auth.admin_roles to contain at least one realm'') (\<lambda>_.
       bind_res (for_each (\<lambda>(realm, roles). bail_if (roles = [])
         (''auth.admin_roles realm '' @ qt realm @ '' must have at least one role'')) (as_admin_roles auth)) (\<lambda>_.
       bind_res (validate_realm_roles ''auth.admin_roles'' (as_admin_roles auth)) (\<lambda>_.
       case as_mode auth of
         Direct \<Rightarrow> bail_if (auth_o_tron_url = [] \<or> jwt_secret = [])
           ''auth.mode=direct requires both auth.auth_o_tron_url and auth.jwt_secret to be configured''
       | TrustedProxy \<Rightarrow> bail_if (jwt_secret = [])
           ''auth.mode=trusted_proxy requires auth.jwt_secret to be configured''))))))))"

section \<open>Plugins and stream rules\<close>

record plugin_meta =
  pm_name :: string
  pm_required_feature :: "string option"
  pm_compiled :: bool

text \<open>\<open>ecpds_feature\<close> is whether the build has the Cargo feature.\<close>
definition PLUGINS :: "bool \<Rightarrow> plugin_meta list" where
  "PLUGINS ecpds_feature =
     [\<lparr>pm_name = ''ecpds'', pm_required_feature = Some ''ecpds'', pm_compiled = ecpds_feature\<rparr>]"

definition known_plugin :: "bool \<Rightarrow> string \<Rightarrow> plugin_meta option" where
  "known_plugin ecpds_feature name = find (\<lambda>p. pm_name p = name) (PLUGINS ecpds_feature)"

definition known_plugin_names :: "bool \<Rightarrow> string list" where
  "known_plugin_names ecpds_feature = map pm_name (PLUGINS ecpds_feature)"

definition check_plugin :: "host \<Rightarrow> bool \<Rightarrow> string \<Rightarrow> string \<Rightarrow> err + unit" where
  "check_plugin h ecpds_feature event_type plugin =
    (case known_plugin ecpds_feature plugin of
       None \<Rightarrow> bail (schema_msg event_type (''auth.plugins references unknown plugin '' @ qt plugin @
                 ''. Known plugins: '' @ debug_list h (known_plugin_names ecpds_feature)))
     | Some meta \<Rightarrow>
         (case pm_required_feature meta of
            Some required_feature \<Rightarrow> bail_if (\<not> pm_compiled meta) (schema_msg event_type
              (''auth.plugins references plugin '' @ qt plugin @ '', which requires the '' @ qt required_feature @
               '' Cargo feature. Rebuild aviso-server with `--features '' @ required_feature @
               ''` or remove the plugin from this stream's auth config.''))
          | None \<Rightarrow> Inr ()))"

definition check_stream_plugins :: "host \<Rightarrow> bool \<Rightarrow> string \<times> event_schema \<Rightarrow> err + unit" where
  "check_stream_plugins h ecpds_feature = (\<lambda>(event_type, schema).
    (case es_auth schema of
       None \<Rightarrow> Inr ()
     | Some stream_auth \<Rightarrow>
    (case sa_plugins stream_auth of
       None \<Rightarrow> Inr ()
     | Some plugins \<Rightarrow>
         bind_res (bail_if (plugins = []) (schema_msg event_type
           ''auth.plugins must not be empty; omit the field instead of setting plugins: []'')) (\<lambda>_.
         bind_res (for_each (check_plugin h ecpds_feature event_type) plugins) (\<lambda>_.
         bail_if (\<not> sa_required stream_auth) (schema_msg event_type
           (''auth.plugins is set but auth.required is false. Plugins only run after stream-level auth '' @
            ''passes; set auth.required=true or remove the plugins list.'')))))))"

definition validate_stream_plugin_settings :: "host \<Rightarrow> bool \<Rightarrow> settings \<Rightarrow> err + unit" where
  "validate_stream_plugin_settings h ecpds_feature st =
     for_each (check_stream_plugins h ecpds_feature) (schemas_of st)"

definition check_role_map :: "string \<Rightarrow> string \<Rightarrow> string \<Rightarrow> realm_roles option \<Rightarrow> err + unit" where
  "check_role_map event_type field hint roles =
    (case roles of
       None \<Rightarrow> Inr ()
     | Some m \<Rightarrow>
         bind_res (bail_if (m = []) (schema_msg event_type (field @ '' must not be an empty map; '' @ hint))) (\<lambda>_.
         validate_realm_roles (schema_msg event_type field) m))"

definition check_stream_auth :: "bool \<Rightarrow> string \<times> event_schema \<Rightarrow> err + unit" where
  "check_stream_auth auth_enabled = (\<lambda>(event_type, schema).
    (case es_auth schema of
       None \<Rightarrow> Inr ()
     | Some sa \<Rightarrow>
         bind_res (check_role_map event_type ''auth.read_roles''
           ''remove the field to allow any authenticated user to read'' (sa_read_roles sa)) (\<lambda>_.
         bind_res (check_role_map event_type ''auth.write_roles''
           ''remove the field to restrict writes to admins only'' (sa_write_roles sa)) (\<lambda>_.
         (let some_roles = (\<lambda>r. case r of Some m \<Rightarrow> m \<noteq> [] | None \<Rightarrow> False);
              has_roles = some_roles (sa_read_roles sa) \<or> some_roles (sa_write_roles sa) in
          if auth_enabled
          then bail_if (\<not> sa_required sa \<and> has_roles) (schema_msg event_type
            (''sets auth roles while auth.required=false; '' @
             ''set auth.required=true or remove the role lists''))
          else bind_res (bail_if (sa_required sa) (schema_msg event_type
            (''sets auth.required=true but auth is globally disabled. '' @
             ''Enable auth.enabled=true or remove schema auth config.''))) (\<lambda>_.
               bail_if has_roles (schema_msg event_type
            (''sets auth roles but auth is globally disabled. '' @
             ''Enable auth.enabled=true or remove schema auth config.''))))))))"

definition validate_stream_auth_settings :: "settings \<Rightarrow> err + unit" where
  "validate_stream_auth_settings st =
     for_each (check_stream_auth (as_enabled (st_auth st))) (schemas_of st)"

definition validate_metrics_settings :: "settings \<Rightarrow> err + unit" where
  "validate_metrics_settings st =
    (if \<not> ms_enabled (st_metrics st) then Inr ()
     else bind_res (of_option [''metrics.port is required when metrics.enabled=true''] (ms_port (st_metrics st))) (\<lambda>port.
       bind_res (bail_if (port = 0) ''metrics.port must not be 0'') (\<lambda>_.
       bail_if (port = ap_port (st_application st)) ''metrics.port must differ from application.port'')))"

section \<open>Topics\<close>

text \<open>The loop over \<open>topic.key_order\<close> with the set of keys seen so far.\<close>
fun check_key_order :: "string \<Rightarrow> event_schema \<Rightarrow> string list \<Rightarrow> string list \<Rightarrow> err + string list" where
  "check_key_order event_type schema seen [] = Inr seen"
| "check_key_order event_type schema seen (key # ks) =
    (if key = ''point_cloud''
     then bail (schema_msg event_type (''topic.key_order must not contain reserved spatial key '' @ qt ''point_cloud''))
     else if \<not> has_key (es_identifier schema) key
     then bail (schema_msg event_type (''topic.key_order contains undeclared identifier '' @ qt key))
     else if key \<in> set seen
     then bail (schema_msg event_type (''topic.key_order contains duplicate identifier '' @ qt key))
     else check_key_order event_type schema (key # seen) ks)"

definition check_topic_schema :: "string \<times> event_schema \<Rightarrow> err + unit" where
  "check_topic_schema = (\<lambda>(event_type, schema).
    (case es_topic schema of
       None \<Rightarrow> Inr ()
     | Some topic \<Rightarrow>
         bind_res (bail_if (tc_key_order topic = []) (schema_msg event_type ''topic.key_order must not be empty'')) (\<lambda>_.
         bind_res (check_key_order event_type schema [] (tc_key_order topic)) (\<lambda>seen.
         for_each (\<lambda>(key, field).
           bail_if (key \<notin> set seen \<and> \<not> (is_polygon_rule (if_rule field) \<or> is_point_cloud_rule (if_rule field)))
             (schema_msg event_type (''topic.key_order must include identifier '' @ qt key)))
           (es_identifier schema)))))"

definition validate_topic_schema_settings :: "settings \<Rightarrow> err + unit" where
  "validate_topic_schema_settings st = for_each check_topic_schema (schemas_of st)"

definition base_of :: "string \<times> event_schema \<Rightarrow> string" where
  "base_of = (\<lambda>(event_type, schema).
     case es_topic schema of None \<Rightarrow> event_type | Some topic \<Rightarrow> tc_base topic)"

text \<open>The first loop of \<open>validate_schema_storage_policy_support\<close>: one owner per stream name.\<close>
fun check_topic_bases :: "string alist \<Rightarrow> schema_map \<Rightarrow> err + unit" where
  "check_topic_bases owners [] = Inr ()"
| "check_topic_bases owners ((event_type, schema) # rest) =
    (let base = base_of (event_type, schema) in
     bind_res (map_err (\<lambda>error. [schema_msg event_type (''has invalid topic base: '' @ outer_msg error)])
                (new_binding base)) (\<lambda>binding.
     let base_key = tb_stream_name binding in
     (case map_of owners base_key of
        Some previous_owner \<Rightarrow> bail (''Schemas '' @ qt previous_owner @ '' and '' @ qt event_type @
          '' both define topic base '' @ qt base)
      | None \<Rightarrow> check_topic_bases (AList.update base_key event_type owners) rest)))"

section \<open>Storage policies\<close>

definition policy_msg :: "string \<Rightarrow> string \<Rightarrow> string" where
  "policy_msg event_type rest = schema_msg event_type (''storage_policy.'' @ rest)"

definition validate_policy_fields ::
  "string \<Rightarrow> string \<Rightarrow> event_storage_policy \<Rightarrow> capabilities \<Rightarrow> err + unit" where
  "validate_policy_fields backend_kind event_type policy caps =
    (let unsupported = (\<lambda>name. policy_msg event_type
           (name @ '' is not supported by backend '' @ qt backend_kind)) in
     bind_res (case sp_retention_time policy of
         None \<Rightarrow> Inr ()
       | Some retention_time \<Rightarrow>
           bind_res (map_err (\<lambda>e. [policy_msg event_type (''retention_time is invalid: '' @ e)])
             (parse_retention_time_spec retention_time)) (\<lambda>retention.
           bail_if (retention = 0) (policy_msg event_type ''retention_time must be greater than zero''))) (\<lambda>_.
     bind_res (case sp_max_size policy of
         None \<Rightarrow> Inr ()
       | Some max_size \<Rightarrow>
           map_res (\<lambda>_. ()) (map_err (\<lambda>e. [policy_msg event_type (''max_size is invalid: '' @ e)])
             (parse_size_spec max_size))) (\<lambda>_.
     bind_res (bail_if (case sp_max_messages policy of Some n \<Rightarrow> n \<le> 0 | None \<Rightarrow> False)
         (policy_msg event_type ''max_messages must be greater than zero'')) (\<lambda>_.
     bind_res (bail_if (sp_retention_time policy \<noteq> None \<and> \<not> cap_retention_time caps)
         (unsupported ''retention_time'')) (\<lambda>_.
     bind_res (bail_if (sp_max_messages policy \<noteq> None \<and> \<not> cap_max_messages caps)
         (unsupported ''max_messages'')) (\<lambda>_.
     bind_res (bail_if (sp_max_size policy \<noteq> None \<and> \<not> cap_max_size caps)
         (unsupported ''max_size'')) (\<lambda>_.
     bind_res (bail_if (sp_allow_duplicates policy \<noteq> None \<and> \<not> cap_allow_duplicates caps)
         (unsupported ''allow_duplicates'')) (\<lambda>_.
     bail_if (sp_compression policy \<noteq> None \<and> \<not> cap_compression caps)
         (unsupported ''compression'')))))))))"

text \<open>The second loop: one policy per base, each with supported fields.\<close>
fun check_policies :: "string \<Rightarrow> capabilities \<Rightarrow> string alist \<Rightarrow> schema_map \<Rightarrow> err + unit" where
  "check_policies kind caps owners [] = Inr ()"
| "check_policies kind caps owners ((event_type, schema) # rest) =
    (case es_storage_policy schema of
       None \<Rightarrow> check_policies kind caps owners rest
     | Some policy \<Rightarrow>
         bind_res (of_option [schema_msg event_type ''defines storage_policy but has no topic configuration'']
                    (es_topic schema)) (\<lambda>topic.
         let base_key = to_ascii_lowercase (tc_base topic) in
         (case map_of owners base_key of
            Some previous_owner \<Rightarrow> bail (''Schemas '' @ qt previous_owner @ '' and '' @ qt event_type @
              '' both define storage_policy for topic base '' @ qt (tc_base topic))
          | None \<Rightarrow>
              bind_res (validate_policy_fields kind event_type policy caps) (\<lambda>_.
              check_policies kind caps (AList.update base_key event_type owners) rest))))"

definition validate_schema_storage_policy_support :: "settings \<Rightarrow> err + unit" where
  "validate_schema_storage_policy_support st =
    (let kind = bs_kind (st_backend st) in
     bind_res (of_option [''Unknown notification_backend kind: '' @ kind] (capabilities_for_backend_kind kind)) (\<lambda>caps.
     bind_res (bail_if (kind = ''jetstream'' \<and>
           Option.bind (bs_jetstream (st_backend st)) js_retention_policy = Some Workqueue)
         (''notification_backend.jetstream.retention_policy '' @ qt ''workqueue'' @
          '' is not supported for backend defaults or schema storage policies: workqueue retention does not '' @
          ''support Aviso's independent watch/replay consumers; use '' @ qt ''limits'' @ '' or '' @ qt ''interest'')) (\<lambda>_.
     case st_schema st of
       None \<Rightarrow> Inr ()
     | Some schema_map \<Rightarrow>
         bind_res (check_topic_bases [] schema_map) (\<lambda>_. check_policies kind caps [] schema_map))))"

section \<open>URLs\<close>

text \<open>What the checks read of a parsed URL; the parser is the URL library's.\<close>
record parsed_url =
  pu_scheme :: string
  pu_username :: string
  pu_password :: "string option"
  pu_host :: "string option"
  pu_query :: "string option"
  pu_fragment :: "string option"

definition homepage_urls :: "homepage_settings \<Rightarrow> (string \<times> string) list" where
  "homepage_urls hp =
     [(''client_documentation_url'', hp_client_documentation_url hp),
      (''client_repository_url'', hp_client_repository_url hp),
      (''server_documentation_url'', hp_server_documentation_url hp),
      (''server_repository_url'', hp_server_repository_url hp)]"

definition validate_homepage :: "(string \<Rightarrow> string + parsed_url) \<Rightarrow> homepage_settings \<Rightarrow> err + unit" where
  "validate_homepage parse_url hp =
     for_each (\<lambda>(field, v).
       let valid = (case parse_url v of
           Inr url \<Rightarrow> (pu_scheme url = ''http'' \<or> pu_scheme url = ''https'') \<and> pu_host url \<noteq> None \<and>
             pu_username url = [] \<and> pu_password url = None
         | Inl _ \<Rightarrow> False)
       in bail_if (\<not> valid) (''application.homepage.'' @ field @
            '' must be an absolute HTTP(S) URL with a host and no embedded credentials'')) (homepage_urls hp)"

section \<open>The ECPDS section\<close>

text \<open>Whether an event schema names the plugin.\<close>
definition uses_ecpds :: "event_schema \<Rightarrow> bool" where
  "uses_ecpds schema =
    (case Option.bind (es_auth schema) sa_plugins of
       Some plugins \<Rightarrow> list_ex (\<lambda>p. p = ''ecpds'') plugins | None \<Rightarrow> False)"

definition ecpds_streams :: "settings \<Rightarrow> string list" where
  "ecpds_streams st = map fst (filter (\<lambda>(_, schema). uses_ecpds schema) (schemas_of st))"

definition server_msg :: "nat \<Rightarrow> string \<Rightarrow> string \<Rightarrow> string" where
  "server_msg i server rest = ''ecpds.servers['' @ show_nat i @ ''] '' @ qt server @ '' '' @ rest"

definition check_server :: "(string \<Rightarrow> string + parsed_url) \<Rightarrow> nat \<times> string \<Rightarrow> err + unit" where
  "check_server parse_url = (\<lambda>(i, server).
     bind_res (bail_if (trim server = []) (''ecpds.servers['' @ show_nat i @ ''] must not be empty or whitespace'')) (\<lambda>_.
     bind_res (map_err (\<lambda>e. [server_msg i server (''is not a valid URL: '' @ e)]) (parse_url server)) (\<lambda>parsed.
     bind_res
       (if pu_scheme parsed = ''https'' then Inr ()
        else if pu_scheme parsed = ''http''
        then (let host = (case pu_host parsed of Some x \<Rightarrow> x | None \<Rightarrow> []);
                  is_loopback = host = ''127.0.0.1'' \<or> host = ''[::1]'' \<or> host = ''localhost''
              in bail_if (\<not> is_loopback) (server_msg i server
                (''uses plain http:// to a non-loopback host. '' @
                 ''The ECPDS plugin authenticates with HTTP Basic Auth (service-account '' @
                 ''credentials), so plain http would send those credentials and per-user '' @
                 ''destination lookups over the network without TLS. Use https:// for any '' @
                 ''reachable host; http:// is accepted only for loopback ({127.0.0.1, '' @
                 ''[::1], localhost}) for local testing.'')))
        else bail (server_msg i server (''has unsupported scheme '' @ qt (pu_scheme parsed) @
                 ''; only '' @ qt ''http'' @ '' (loopback only) and '' @ qt ''https'' @ '' are accepted''))) (\<lambda>_.
     bind_res (bail_if (pu_query parsed \<noteq> None) (server_msg i server
       (''must not contain a query string; the plugin appends '' @ qt ''?id=<username>'' @ '' itself''))) (\<lambda>_.
     bail_if (pu_fragment parsed \<noteq> None) (server_msg i server ''must not contain a URL fragment''))))))"

definition check_text :: "string \<Rightarrow> string \<Rightarrow> err + unit" where
  "check_text name v =
     bind_res (bail_if (trim v = []) (''ecpds.'' @ name @ '' must not be empty or whitespace'')) (\<lambda>_.
     bail_if (v \<noteq> trim v) (''ecpds.'' @ name @ '' must not have leading or trailing whitespace''))"

text \<open>A white space character, a slash or NUL anywhere in a name.\<close>
definition not_bare :: "string \<Rightarrow> bool" where
  "not_bare s = (list_ex (\<lambda>w. str_contains w s) white_space_seqs \<or> list_ex (\<lambda>c. c = CHR ''/'' \<or> c = CHR 0x00) s)"

definition check_ecpds_fields :: "ecpds_config \<Rightarrow> err + unit" where
  "check_ecpds_fields config =
     bind_res (check_text ''username'' (ec_username config)) (\<lambda>_.
     bind_res (check_text ''password'' (ec_password config)) (\<lambda>_.
     bind_res (check_text ''target_field'' (ec_target_field config)) (\<lambda>_.
     bind_res (bail_if (trim (ec_match_key config) = []) ''ecpds.match_key must not be empty or whitespace'') (\<lambda>_.
     bind_res (bail_if (not_bare (ec_match_key config)) (''ecpds.match_key '' @ qt (ec_match_key config) @
       '' must be a single bare identifier name; whitespace, '' @ qt ''/'' @ '' and NUL are not allowed'')) (\<lambda>_.
     bind_res (bail_if (ec_cache_ttl_seconds config = 0) ''ecpds.cache_ttl_seconds must be greater than zero'') (\<lambda>_.
     bind_res (bail_if (ec_max_entries config = 0) ''ecpds.max_entries must be greater than zero'') (\<lambda>_.
     bind_res (bail_if (ec_request_timeout_seconds config = 0)
       ''ecpds.request_timeout_seconds must be greater than zero'') (\<lambda>_.
     bail_if (ec_connect_timeout_seconds config = 0)
       ''ecpds.connect_timeout_seconds must be greater than zero''))))))))"

definition key_in_schema :: "string \<Rightarrow> string \<Rightarrow> string \<Rightarrow> string" where
  "key_in_schema match_key stream_name rest =
     ''ecpds.match_key '' @ qt match_key @ '' in schema '' @ qt stream_name @ '' '' @ rest"

definition check_ecpds_stream :: "string \<Rightarrow> schema_map \<Rightarrow> string \<Rightarrow> err + unit" where
  "check_ecpds_stream match_key schema stream_name =
    (case map_of schema stream_name of
       None \<Rightarrow> Inr ()
     | Some event_schema \<Rightarrow>
        (let field = map_of (es_identifier event_schema) match_key in
         bind_res (bail_if (match_key = ''polygon'' \<or>
                      (case field of Some f \<Rightarrow> is_polygon_rule (if_rule f) | None \<Rightarrow> False))
           (key_in_schema match_key stream_name
             (''must not use polygon routing or PolygonHandler; '' @
              ''watch/replay wildcard the spatial routing position''))) (\<lambda>_.
         bind_res (case field of
             None \<Rightarrow> bail (''ecpds.match_key '' @ qt match_key @ '' has no identifier rule defined in schema '' @
               qt stream_name)
           | Some f \<Rightarrow>
               if \<not> is_required (if_rule f)
               then bail (''ecpds.match_key '' @ qt match_key @ '' must be required: true in schema '' @ qt stream_name @
                 '' so the value is guaranteed to be present before the plugin runs'')
               else bail_if (is_point_cloud_rule (if_rule f)) (key_in_schema match_key stream_name
                 (''must not use PointCloudHandler; watch/replay replace subscriber point_cloud with the '' @
                  ''polygon filter and wildcard routing before ECPDS authorization''))) (\<lambda>_.
         bail_if (case es_topic event_schema of
                    Some topic \<Rightarrow> match_key \<notin> set (tc_key_order topic) | None \<Rightarrow> False)
           (schema_msg stream_name (''topic.key_order must include ecpds.match_key '' @ qt match_key @
             '' to restrict delivery to the authorized value''))))))"

definition validate_ecpds_settings :: "host \<Rightarrow> (string \<Rightarrow> string + parsed_url) \<Rightarrow> settings \<Rightarrow> err + unit" where
  "validate_ecpds_settings h parse_url st =
    (let streams = ecpds_streams st in
     if streams = [] then Inr ()
     else
       bind_res (of_option [''Streams '' @ debug_list h streams @ '' reference the '' @ qt ''ecpds'' @
           '' plugin but no '' @ qt ''ecpds'' @ '' configuration section was found''] (st_ecpds st)) (\<lambda>config.
       bind_res (bail_if (ec_servers config = []) ''ecpds.servers must contain at least one server URL'') (\<lambda>_.
       bind_res (for_each (check_server parse_url) (enumerate 0 (ec_servers config))) (\<lambda>_.
       bind_res (check_ecpds_fields config) (\<lambda>_.
       case st_schema st of
         Some schema \<Rightarrow> for_each (check_ecpds_stream (ec_match_key config) schema) streams
       | None \<Rightarrow> Inr ())))))"

text \<open>\<open>build_ecpds_checker\<close>: the match key of the checker, if one is built.\<close>
definition build_ecpds_checker ::
  "(nat \<Rightarrow> nat \<Rightarrow> string + unit) \<Rightarrow> (string \<Rightarrow> string + parsed_url) \<Rightarrow> settings \<Rightarrow> ecpds_error + string option" where
  "build_ecpds_checker build_http parse_url st =
    (let any_stream_enables_ecpds = (case st_schema st of
         Some schema \<Rightarrow> list_ex (\<lambda>(_, event_schema). uses_ecpds event_schema) schema | None \<Rightarrow> False) in
     case (st_ecpds st, any_stream_enables_ecpds) of
       (Some cfg, True) \<Rightarrow> map_res (\<lambda>_. Some (ec_match_key cfg)) (new_ecpds_client build_http parse_url cfg)
     | _ \<Rightarrow> Inr None)"

section \<open>Startup\<close>

text \<open>What stops the start of the server, in a build with the ECPDS feature.\<close>
datatype startup_error = Invalid err | CheckerFailed ecpds_error

record libraries =
  lb_host :: host
  lb_parse_url :: "string \<Rightarrow> string + parsed_url"
  lb_build_http :: "nat \<Rightarrow> nat \<Rightarrow> string + unit"

definition startup_checks :: "libraries \<Rightarrow> settings \<Rightarrow> startup_error + string option" where
  "startup_checks lb st =
     bind_res (map_err Invalid (validate_homepage (lb_parse_url lb) (ap_homepage (st_application st)))) (\<lambda>_.
     bind_res (map_err Invalid (validate_schema_storage_policy_support st)) (\<lambda>_.
     bind_res (map_err Invalid (validate_topic_schema_settings st)) (\<lambda>_.
     bind_res (map_err Invalid (validate_spatial_schema_settings st)) (\<lambda>_.
     bind_res (map_err Invalid (validate_auth_settings (st_auth st))) (\<lambda>_.
     bind_res (map_err Invalid (validate_stream_plugin_settings (lb_host lb) True st)) (\<lambda>_.
     bind_res (map_err Invalid (validate_stream_auth_settings st)) (\<lambda>_.
     bind_res (map_err Invalid (validate_metrics_settings st)) (\<lambda>_.
     bind_res (map_err Invalid (validate_ecpds_settings (lb_host lb) (lb_parse_url lb) st)) (\<lambda>_.
     map_err CheckerFailed (build_ecpds_checker (lb_build_http lb) (lb_parse_url lb) st))))))))))"

section \<open>What the checks leave\<close>

lemma startup_checks_Inr:
  assumes "startup_checks lb st = Inr checker"
  shows "validate_schema_storage_policy_support st = Inr ()" "validate_topic_schema_settings st = Inr ()"
    "validate_spatial_schema_settings st = Inr ()" "validate_auth_settings (st_auth st) = Inr ()"
    "validate_stream_plugin_settings (lb_host lb) True st = Inr ()" "validate_stream_auth_settings st = Inr ()"
    "validate_ecpds_settings (lb_host lb) (lb_parse_url lb) st = Inr ()"
    "build_ecpds_checker (lb_build_http lb) (lb_parse_url lb) st = Inr checker"
  using assms by (simp_all add: startup_checks_def result_simps)

lemma validate_auth_roles:
  assumes "validate_auth_settings auth = Inr ()" "as_enabled auth"
  shows "as_admin_roles auth \<noteq> [] \<and> trim (as_jwt_secret auth) \<noteq> [] \<and> validate_realm_roles ''auth.admin_roles'' (as_admin_roles auth) = Inr ()"
  using assms by (auto simp: validate_auth_settings_def result_simps Let_def split: auth_mode.splits)

lemma validate_realm_roles_named:
  assumes "validate_realm_roles f m = Inr ()" "(realm, roles) \<in> set m"
  shows "trim realm \<noteq> [] \<and> roles \<noteq> [] \<and> (\<forall>role\<in>set roles. trim role \<noteq> [])"
  using assms by (fastforce simp: validate_realm_roles_def for_each_Inr result_simps)

lemma plugin_stream_protected:
  assumes "validate_stream_plugin_settings h ft st = Inr ()" "validate_stream_auth_settings st = Inr ()"
    "stream_auth_of (st_schema st) event_type = Some auth" "sa_plugins auth = Some plugins"
  shows "sa_required auth \<and> as_enabled (st_auth st)"
proof -
  obtain schema where schema: "(event_type, schema) \<in> set (schemas_of st)" "es_auth schema = Some auth"
    using assms(3) by (auto simp: stream_auth_of_def schemas_of_def Option.bind_eq_Some_conv dest: map_of_SomeD)
  have "check_stream_plugins h ft (event_type, schema) = Inr ()"
    using assms(1) schema(1) by (simp add: validate_stream_plugin_settings_def for_each_Inr)
  then have req: "sa_required auth" using schema(2) assms(4)
    by (simp add: check_stream_plugins_def result_simps)
  have "check_stream_auth (as_enabled (st_auth st)) (event_type, schema) = Inr ()"
    using assms(2) schema(1) by (simp add: validate_stream_auth_settings_def for_each_Inr)
  then have "as_enabled (st_auth st)" using schema(2) req
    by (simp add: check_stream_auth_def result_simps Let_def split: if_splits)
  then show ?thesis using req by simp
qed

lemma ecpds_stream_listed:
  assumes "has_ecpds_plugin (st_schema st) event_type"
  obtains m schema where "st_schema st = Some m" "map_of m event_type = Some schema"
    "(event_type, schema) \<in> set m" "event_type \<in> set (ecpds_streams st)"
proof -
  obtain m schema where a: "st_schema st = Some m" "map_of m event_type = Some schema" "uses_ecpds schema"
    using assms
    by (auto simp: has_ecpds_plugin_def stream_auth_of_def uses_ecpds_def Option.bind_eq_Some_conv
        split: option.splits)
  then have "(event_type, schema) \<in> set m" by (simp add: map_of_SomeD)
  moreover from this have "event_type \<in> set (ecpds_streams st)"
    using a by (force simp: ecpds_streams_def schemas_of_def)
  ultimately show thesis using that a by blast
qed

lemma ecpds_configured:
  assumes "validate_ecpds_settings h parse_url st = Inr ()" "has_ecpds_plugin (st_schema st) event_type"
    "build_ecpds_checker build_http parse_url st = Inr checker"
  shows "\<exists>config m schema field. st_ecpds st = Some config \<and> checker = Some (ec_match_key config) \<and>
    st_schema st = Some m \<and> map_of m event_type = Some schema \<and>
    ec_match_key config \<noteq> ''polygon'' \<and> map_of (es_identifier schema) (ec_match_key config) = Some field \<and>
    is_required (if_rule field) \<and> \<not> is_polygon_rule (if_rule field) \<and> \<not> is_point_cloud_rule (if_rule field) \<and>
    (\<forall>tc. es_topic schema = Some tc \<longrightarrow> ec_match_key config \<in> set (tc_key_order tc))"
proof -
  obtain m schema where m: "st_schema st = Some m" "map_of m event_type = Some schema"
      "(event_type, schema) \<in> set m" "event_type \<in> set (ecpds_streams st)"
    using assms(2) by (rule ecpds_stream_listed)
  then have ne: "ecpds_streams st \<noteq> []" by auto
  then obtain config where config: "st_ecpds st = Some config"
      "for_each (check_ecpds_stream (ec_match_key config) m) (ecpds_streams st) = Inr ()"
    using assms(1) m(1) by (auto simp: validate_ecpds_settings_def result_simps Let_def)
  then have chk: "check_ecpds_stream (ec_match_key config) m event_type = Inr ()"
    using m(4) by (simp add: for_each_Inr)
  have "uses_ecpds schema"
    using assms(2) m(1,2) by (simp add: has_ecpds_plugin_def stream_auth_of_def uses_ecpds_def)
  then have "checker = Some (ec_match_key config)"
    using assms(3) m(1,3) config(1)
    by (auto simp: build_ecpds_checker_def result_simps Let_def list_ex_iff split: bool.splits if_splits)
  then show ?thesis using chk m(1,2) config(1)
    by (auto simp: check_ecpds_stream_def result_simps Let_def split: option.splits if_splits)
qed

lemma check_topic_bases_Inr:
  assumes "check_topic_bases owners m = Inr ()"
  shows "distinct (map (\<lambda>x. to_ascii_uppercase (base_of x)) m) \<and>
    (\<forall>x\<in>set m. valid_base (base_of x) \<and> map_of owners (to_ascii_uppercase (base_of x)) = None)"
  using assms
proof (induction m arbitrary: owners)
  case (Cons x rest)
  obtain event_type schema where x: "x = (event_type, schema)" by (cases x)
  let ?b = "base_of x"
  let ?owners = "AList.update (to_ascii_uppercase ?b) event_type owners"
  have v: "valid_base ?b"
    using Cons.prems by (auto simp: x result_simps new_binding_def validate_topic_base_def Let_def split: if_splits)
  then have "new_binding ?b = Inr \<lparr>tb_stream_name = to_ascii_uppercase ?b, tb_subject_pattern = ?b @ ''.>''\<rparr>"
    by (simp add: new_binding_def validate_topic_base_def)
  then have r: "map_of owners (to_ascii_uppercase ?b) = None" "check_topic_bases ?owners rest = Inr ()"
    using Cons.prems by (auto simp: x Let_def split: option.splits)
  have fresh: "\<forall>y\<in>set rest. to_ascii_uppercase (base_of y) \<noteq> to_ascii_uppercase ?b \<and>
      map_of owners (to_ascii_uppercase (base_of y)) = None"
    using Cons.IH [OF r(2)] by (simp add: map_of_update split: if_splits) blast
  then have "to_ascii_uppercase ?b \<notin> (\<lambda>y. to_ascii_uppercase (base_of y)) ` set rest" by (metis imageE)
  then show ?case using v r(1) Cons.IH [OF r(2)] fresh by simp
qed simp

end
