(* ===== verification/SpatialFilter.thy ===== *)
theory SpatialFilter
  imports Filtering Routes Configuration
begin

text \<open>
  The spatial filter of a watch or replay, from the notification that carries a geometry to the decision:
  the processor computes the metadata (\<open>src/notification/processor.rs\<close>, \<open>spatial.rs\<close>), the handler
  stores it as headers (\<open>src/handlers/notification_processor.rs\<close>), and the filter reads it back
  (\<open>src/notification/wildcard_matcher.rs\<close>).
\<close>

section \<open>What a filter needs\<close>

text \<open>The area a request asks for; the wildcard asks for none.\<close>
definition asked_area :: "string alist \<Rightarrow> string option" where
  "asked_area request = (case map_of request ''polygon'' of Some p \<Rightarrow> if p = ''*'' then None else Some p | None \<Rightarrow> None)"

abbreviation region :: "('poly, 'rect) geo \<Rightarrow> coordinate list \<Rightarrow> 'poly" where
  "region g cs \<equiv> geo_polygon g (map swap_lonlat cs)"

text \<open>
  A message that passes an explicit filter shows a geometry: for an area, a bounding box that
  meets the area's and a point of its cloud in the area or a polygon that meets it; for a point, a polygon
  that contains it, and no bounding box that does not. An area and a point together pass nothing.
\<close>
definition shows_geometry :: "host \<Rightarrow> ('poly, 'rect) geo \<Rightarrow> string alist \<Rightarrow> string alist option \<Rightarrow> string \<Rightarrow> bool" where
  "shows_geometry h g request metadata payload \<longleftrightarrow>
    (\<forall>p. asked_area request = Some p \<longrightarrow> map_of request ''point'' = None \<and>
       (\<exists>area r b. parse_polygon_coordinates h p = Inr area \<and> geo_bounding_rect g (region g area) = Some r \<and>
          extract_candidate_bbox g metadata = Some b \<and> rect_intersects g b r \<and>
          ((\<exists>cloud c. extract_candidate_point_cloud h metadata = Some cloud \<and> c \<in> set cloud \<and>
              poly_intersects_point g (region g area) (swap_lonlat c)) \<or>
           (\<exists>poly. extract_candidate_polygon h g metadata payload = Some poly \<and> poly_intersects g poly (region g area))))) \<and>
    (\<forall>p. map_of request ''point'' = Some p \<longrightarrow> asked_area request = None \<and>
       (\<exists>lat lon poly. parse_point_coordinates h p = Inr (lat, lon) \<and> extract_candidate_polygon h g metadata payload = Some poly \<and>
          poly_contains_point g poly (lon, lat) \<and>
          (\<forall>b. extract_candidate_bbox g metadata = Some b \<longrightarrow> bbox_contains_point g b lon lat)))"

lemma ok_Some: "ok r = Some x \<longleftrightarrow> r = Inr x"
  by (cases r) auto

section \<open>What an accepted notification stores\<close>

definition spatial_rule :: "validation_rules \<Rightarrow> bool" where
  "spatial_rule rule \<longleftrightarrow> is_polygon_rule rule \<or> is_point_cloud_rule rule"

text \<open>A configuration that passed the checks has at most one spatial field.\<close>
lemma spatial_names:
  assumes "check_spatial_schema (et, schema) = Inr ()" "(f, fc) \<in> set (es_identifier schema)"
  shows "is_polygon_rule (if_rule fc) \<Longrightarrow> f = ''polygon''"
    and "is_point_cloud_rule (if_rule fc) \<Longrightarrow> f = ''point_cloud'' \<and> \<not> has_key (es_identifier schema) ''polygon''"
proof -
  let ?handlers = "filter (\<lambda>(_, field). is_point_cloud_rule (if_rule field)) (es_identifier schema)"
  note checks = assms(1) [unfolded check_spatial_schema_def]
  show "is_polygon_rule (if_rule fc) \<Longrightarrow> f = ''polygon''"
    using checks assms(2) by (auto simp: for_each_Inr result_simps Let_def)
  assume "is_point_cloud_rule (if_rule fc)"
  then have mem: "(f, fc) \<in> set ?handlers" using assms(2) by simp
  have "length ?handlers \<le> 1" using checks by (auto simp: for_each_Inr result_simps Let_def)
  then have one: "?handlers = [(f, fc)]" using mem by (cases ?handlers) auto
  show "f = ''point_cloud'' \<and> \<not> has_key (es_identifier schema) ''polygon''"
    using checks by (auto simp: one for_each_Inr result_simps Let_def)
qed

lemma one_spatial_field:
  assumes "check_spatial_schema (et, schema) = Inr ()" "(f, fc) \<in> set (es_identifier schema)" "spatial_rule (if_rule fc)"
    "(f', fc') \<in> set (es_identifier schema)" "spatial_rule (if_rule fc')"
  shows "f' = f"
  using spatial_names [OF assms(1,2)] spatial_names [OF assms(1,4)] assms by (force simp: spatial_rule_def)

lemma notify_fields_append:
  "notify_fields h c params (xs @ ys) acc = bind_res (notify_fields h c params xs acc) (notify_fields h c params ys)"
proof (induction xs arbitrary: acc)
  case (Cons x xs)
  obtain f fc where "x = (f, fc)" by (cases x)
  then show ?case by (cases "notify_field h c params f (if_rule fc) acc") (simp_all add: Cons.IH)
qed simp

lemma notify_field_plain:
  "notify_field h c params f rule acc = Inr acc' \<Longrightarrow> \<not> spatial_rule rule \<Longrightarrow> snd acc' = snd acc"
  by (cases rule) (auto simp: notify_field_def result_simps spatial_rule_def split: if_splits)

lemma notify_fields_plain:
  "notify_fields h c params idfs acc = Inr acc' \<Longrightarrow> \<forall>(f, fc)\<in>set idfs. \<not> spatial_rule (if_rule fc) \<Longrightarrow> snd acc' = snd acc"
proof (induction idfs arbitrary: acc)
  case (Cons x rest)
  obtain f fc where x: "x = (f, fc)" by (cases x)
  obtain acc1 where "notify_field h c params f (if_rule fc) acc = Inr acc1" "notify_fields h c params rest acc1 = Inr acc'"
    using Cons.prems(1) by (auto simp: x result_simps)
  then show ?case using Cons.IH Cons.prems(2) notify_field_plain by (fastforce simp: x)
qed simp

text \<open>The coordinates whose bounding box is stored, and the geometry as the filter reads it.\<close>
lemma notify_field_polygon:
  assumes "notify_field h c params f rule acc = Inr acc'" "is_polygon_rule rule"
  obtains v j cs b where "map_of params f = Some v" "polygon_json_canon h v f = Inr j"
    "fst acc' = AList.update f (json_print h j) (fst acc)" "parse_polygon_coordinates h (json_print h j) = Inr cs"
    "calculate_bounding_box_string cs = Inr b" "snd acc' = Some \<lparr>bounding_box = b, geometry = GPolygon (json_print h j)\<rparr>"
proof -
  obtain r where "rule = PolygonHandler r" using assms(2) by (cases rule) auto
  then show thesis using assms(1) that
    by (auto simp: notify_field_def result_simps from_polygon_def validate_and_canonicalize_field_def split: if_splits)
qed

lemma notify_field_cloud:
  assumes "notify_field h c params f rule acc = Inr acc'" "is_point_cloud_rule rule"
  obtains v r mx j cs b where "map_of params f = Some v" "rule = PointCloudHandler r mx" "validate_cloud h v mx f = Inr (cs, j)"
    "fst acc' = AList.update f (json_print h j) (fst acc)"
    "calculate_bounding_box_string cs = Inr b" "snd acc' = Some \<lparr>bounding_box = b, geometry = GPointCloud (json_print h j)\<rparr>"
proof -
  obtain r mx where "rule = PointCloudHandler r mx" using assms(2) by (cases rule) auto
  then show thesis using assms(1) that
    by (fastforce simp: notify_field_def result_simps from_point_cloud_def split: if_splits)
qed

lemma posted_spatial:
  assumes "check_spatial_schema (et, schema) = Inr ()" "wf_map (es_identifier schema)"
    "process_notify_request h c schema posted body = Inr (ps, none, spatial)"
    "map_of (es_identifier schema) f = Some fc" "spatial_rule (if_rule fc)"
  obtains acc acc1 where "notify_field h c posted f (if_rule fc) acc = Inr acc1" "snd acc1 = spatial" "map_of ps f = map_of (fst acc1) f"
proof -
  have all: "notify_fields h c posted (es_identifier schema) ([], None) = Inr (ps, spatial)"
    using assms(3) by (auto simp: process_notify_request_def result_simps split: option.splits)
  have mem: "(f, fc) \<in> set (es_identifier schema)" using assms(4) by (rule map_of_SomeD)
  then obtain xs ys where split: "es_identifier schema = xs @ (f, fc) # ys" by (meson split_list)
  obtain acc acc1 where acc: "notify_field h c posted f (if_rule fc) acc = Inr acc1" "notify_fields h c posted ys acc1 = Inr (ps, spatial)"
    using all by (auto simp: split notify_fields_append result_simps)
  have later: "f \<notin> fst ` set ys" "wf_map ys" using assms(2) by (auto simp: split)
  have "\<forall>(g, gc)\<in>set ys. \<not> spatial_rule (if_rule gc)"
  proof safe
    fix g gc assume g: "(g, gc) \<in> set ys" "spatial_rule (if_rule gc)"
    then have "(g, gc) \<in> set (es_identifier schema)" by (simp add: split)
    then have "g = f" using one_spatial_field [OF assms(1) mem assms(5)] g(2) by blast
    then show False using later(1) g(1) by force
  qed
  from notify_fields_plain [OF acc(2) this] have "snd acc1 = spatial" by simp
  moreover have "map_of ps f = map_of (fst acc1) f"
    using notify_fields_map [OF later(2) acc(2)] later(1) by (simp add: map_of_eq_None_iff)
  ultimately show thesis using that acc(1) by blast
qed

text \<open>The canonical JSON of accepted coordinates is an array that holds these coordinates.\<close>
lemma polygon_reads_back:
  assumes "polygon_json_canon h v f = Inr j"
  obtains cs js where "parse_polygon_value h v = Inr cs" "j = JArray js" "polygon_array j = Inr cs"
proof -
  obtain cs where cs: "parse_polygon_value h v = Inr cs" "coordinates_to_json cs = Inr j"
    using assms by (auto simp: polygon_json_canon_def polygon_err_def coord_err_def result_simps)
  then have "\<forall>c\<in>set cs. coordinate_ok c" using parse_polygon_value_ok by blast
  then show thesis using cs that by (auto simp: coordinates_to_json_ok polygon_array_def parse_polygon_points_json)
qed

lemma cloud_reads_back:
  assumes "validate_cloud h v mx f = Inr (cs, j)"
  shows "\<exists>js. j = JArray js" "parse_cloud_coordinates j HARD_MAX_POINTS ''point_cloud'' = Inr cs"
proof -
  note b = point_cloud_bounded [OF assms]
  have p: "coordinates_to_json cs = Inr j" using assms by (auto simp: validate_cloud_def result_simps)
  then have j: "j = JArray (map (\<lambda>c. JArray [JNumber (Float (fst c)), JNumber (Float (snd c))]) cs)"
    using b by (simp add: coordinates_to_json_ok)
  then show "\<exists>js. j = JArray js" by blast
  have "cs \<noteq> []" "length cs \<le> HARD_MAX_POINTS" "0 < HARD_MAX_POINTS" using b by (auto simp: HARD_MAX_POINTS_def)
  then show "parse_cloud_coordinates j HARD_MAX_POINTS ''point_cloud'' = Inr cs" using b by (simp add: parse_cloud_coordinates_def j parse_cloud_points_json)
qed

text \<open>What the JSON library does with an array it printed.\<close>
definition array_reads_back :: "host \<Rightarrow> string \<Rightarrow> bool" where
  "array_reads_back h s \<longleftrightarrow>
     (\<forall>js. s = json_print h (JArray js) \<longrightarrow> json_parse h s = Inr (JArray js) \<and> trim s = s \<and> starts_with ''['' s)"

lemma polygon_text_reads_back:
  assumes "polygon_json_canon h v f = Inr j" "array_reads_back h (json_print h j)"
  shows "parse_polygon_coordinates h (json_print h j) = parse_polygon_value h v"
proof -
  obtain cs js where cs: "parse_polygon_value h v = Inr cs" "j = JArray js" "polygon_array j = Inr cs"
    by (rule polygon_reads_back [OF assms(1)])
  then have s: "json_parse h (json_print h j) = Inr j" "trim (json_print h j) = json_print h j" "starts_with ''['' (json_print h j)"
    using assms(2) by (auto simp: array_reads_back_def)
  moreover from this(3) have "json_print h j \<noteq> []" by (cases "json_print h j") (auto simp: starts_with_def)
  ultimately show ?thesis using cs by (simp add: parse_polygon_coordinates_def Let_def)
qed

section \<open>The decision\<close>

text \<open>The bounding box of the posted coordinates, as the filter reads it.\<close>
definition posted_box :: "('poly, 'rect) geo \<Rightarrow> coordinate list \<Rightarrow> 'rect option" where
  "posted_box g cs = (case calculate_bounding_box_string cs of Inr b \<Rightarrow> parse_bbox g b | Inl _ \<Rightarrow> None)"

text \<open>A request selects posted coordinates, taken as a polygon or as single points.\<close>
definition selects_shape :: "host \<Rightarrow> ('poly, 'rect) geo \<Rightarrow> string alist \<Rightarrow> (coordinate list \<Rightarrow> 'poly \<Rightarrow> bool) \<Rightarrow> coordinate list \<Rightarrow> bool" where
  "selects_shape h g request meets cs \<longleftrightarrow>
    (\<forall>p. asked_area request = Some p \<longrightarrow> map_of request ''point'' = None \<and>
       (\<exists>area r b. parse_polygon_coordinates h p = Inr area \<and> geo_bounding_rect g (region g area) = Some r \<and>
          posted_box g cs = Some b \<and> rect_intersects g b r \<and> meets cs (region g area))) \<and>
    (\<forall>p. map_of request ''point'' = Some p \<longrightarrow> asked_area request = None \<and>
       (\<exists>lat lon. parse_point_coordinates h p = Inr (lat, lon) \<and> poly_contains_point g (region g cs) (lon, lat) \<and>
          (\<forall>b. posted_box g cs = Some b \<longrightarrow> bbox_contains_point g b lon lat)))"

lemma filters_decided:
  "matches_notification_filters h g global topic request cons metadata payload \<longleftrightarrow>
     (cons \<noteq> [] \<longrightarrow> matches_identifier_constraints h global topic cons) \<and>
     (case (map_of request ''point'', asked_area request) of
        (Some _, Some _) \<Rightarrow> False
      | (Some p, None) \<Rightarrow> matches_point_spatial_filter h g p metadata payload
      | (None, Some _) \<Rightarrow> matches_polygon_spatial_filter h g (prepare_spatial_filter h g request) metadata payload
      | (None, None) \<Rightarrow> True)"
  by (auto simp: matches_notification_filters_def matches_notification_filters_prepared_def asked_area_def has_key_def Let_def
      simp del: has_key_iff split: option.splits)

lemma prepared_area:
  assumes "asked_area request = Some p"
  shows "prepare_spatial_filter h g request =
    (case parse_polygon_coordinates h p of
       Inl _ \<Rightarrow> None
     | Inr area \<Rightarrow> map_option (\<lambda>r. \<lparr>pf_polygon = region g area, pf_bounding_box = r\<rparr>) (geo_bounding_rect g (region g area)))"
proof -
  have "map_of request ''polygon'' = Some p" "p \<noteq> ''*''"
    using assms by (auto simp: asked_area_def split: option.splits if_splits)
  then show ?thesis by (simp add: prepare_spatial_filter_def Let_def split: sum.split)
qed

lemma polygon_filter_decided:
  assumes "asked_area request = Some p"
  shows "matches_polygon_spatial_filter h g (prepare_spatial_filter h g request) metadata payload \<longleftrightarrow>
    (\<exists>area r b. parse_polygon_coordinates h p = Inr area \<and> geo_bounding_rect g (region g area) = Some r \<and>
       extract_candidate_bbox g metadata = Some b \<and> rect_intersects g b r \<and>
       (case extract_candidate_point_cloud h metadata of
          Some cloud \<Rightarrow> \<exists>c\<in>set cloud. poly_intersects_point g (region g area) (swap_lonlat c)
        | None \<Rightarrow> \<exists>poly. extract_candidate_polygon h g metadata payload = Some poly \<and> poly_intersects g poly (region g area)))"
  unfolding prepared_area [OF assms] matches_polygon_spatial_filter_def list_ex_iff by (auto split: sum.split option.split)

lemma point_filter_decided:
  "matches_point_spatial_filter h g p metadata payload \<longleftrightarrow>
    (\<exists>lat lon poly. parse_point_coordinates h p = Inr (lat, lon) \<and> extract_candidate_polygon h g metadata payload = Some poly \<and>
       poly_contains_point g poly (lon, lat) \<and> (\<forall>b. extract_candidate_bbox g metadata = Some b \<longrightarrow> bbox_contains_point g b lon lat))"
  by (auto simp: matches_point_spatial_filter_def split: sum.split option.split)

text \<open>Reading the stored headers back.\<close>
lemma stored_polygon:
  "extract_candidate_bbox g (Some (spatial_headers \<lparr>bounding_box = b, geometry = GPolygon s\<rparr>)) = parse_bbox g b"
  "extract_candidate_point_cloud h (Some (spatial_headers \<lparr>bounding_box = b, geometry = GPolygon s\<rparr>)) = None"
  "parse_polygon_coordinates h s = Inr cs \<Longrightarrow>
   extract_candidate_polygon h g (Some (spatial_headers \<lparr>bounding_box = b, geometry = GPolygon s\<rparr>)) payload = Some (region g cs)"
  by (simp_all add: extract_candidate_bbox_def extract_candidate_point_cloud_def extract_candidate_polygon_def
      try_polygon_from_metadata_def parse_polygon_geometry_str_def spatial_headers_def SPATIAL_BBOX_METADATA_KEY_def
      SPATIAL_GEOMETRY_METADATA_KEY_def SPATIAL_POINT_CLOUD_METADATA_KEY_def)

lemma stored_cloud:
  "extract_candidate_bbox g (Some (spatial_headers \<lparr>bounding_box = b, geometry = GPointCloud s\<rparr>)) = parse_bbox g b"
  "json_parse h s = Inr j \<Longrightarrow> parse_cloud_coordinates j HARD_MAX_POINTS ''point_cloud'' = Inr cs \<Longrightarrow>
   extract_candidate_point_cloud h (Some (spatial_headers \<lparr>bounding_box = b, geometry = GPointCloud s\<rparr>)) = Some cs"
  by (simp_all add: extract_candidate_bbox_def extract_candidate_point_cloud_def spatial_headers_def
      SPATIAL_BBOX_METADATA_KEY_def SPATIAL_POINT_CLOUD_METADATA_KEY_def)

text \<open>Nothing passes an explicit filter without a geometry.\<close>
lemma passed_shows_geometry:
  "matches_notification_filters h g global topic request cons metadata payload \<Longrightarrow> shows_geometry h g request metadata payload"
  unfolding filters_decided shows_geometry_def
  by (cases "map_of request ''point''"; cases "asked_area request")
    (force simp: polygon_filter_decided point_filter_decided split: option.splits)+

lemma polygon_decided:
  assumes "parse_polygon_coordinates h s = Inr cs" "calculate_bounding_box_string cs = Inr b"
  shows "matches_notification_filters h g global topic request cons (Some (spatial_headers \<lparr>bounding_box = b, geometry = GPolygon s\<rparr>)) payload \<longleftrightarrow>
     (cons \<noteq> [] \<longrightarrow> matches_identifier_constraints h global topic cons) \<and>
     selects_shape h g request (\<lambda>cs. poly_intersects g (region g cs)) cs"
  unfolding filters_decided selects_shape_def posted_box_def
  by (cases "map_of request ''point''"; cases "asked_area request")
    (simp_all add: polygon_filter_decided point_filter_decided stored_polygon(1,2) stored_polygon(3) [OF assms(1)] assms(2))

lemma cloud_decided:
  assumes "json_parse h s = Inr j" "parse_cloud_coordinates j HARD_MAX_POINTS ''point_cloud'' = Inr cs"
    "calculate_bounding_box_string cs = Inr b" "map_of request ''point'' = None"
  shows "matches_notification_filters h g global topic request cons (Some (spatial_headers \<lparr>bounding_box = b, geometry = GPointCloud s\<rparr>)) payload \<longleftrightarrow>
     (cons \<noteq> [] \<longrightarrow> matches_identifier_constraints h global topic cons) \<and>
     selects_shape h g request (\<lambda>cs area. \<exists>c\<in>set cs. poly_intersects_point g area (swap_lonlat c)) cs"
  unfolding filters_decided selects_shape_def posted_box_def
  by (cases "asked_area request")
    (simp_all add: polygon_filter_decided stored_cloud(1) stored_cloud(2) [OF assms(1,2)] assms(3,4))


text \<open>A posted ring, through the store, against the area of a watch.\<close>
definition ring_host :: host where
  "ring_host = sample_host\<lparr>json_print := (\<lambda>j. if j = sample_ring then ''[R]'' else []),
     json_parse := (\<lambda>s. if s = ''[R]'' then Inr sample_ring else Inl [])\<rparr>"

definition ring_geo :: "((f64 \<times> f64) list, (f64 \<times> f64) \<times> (f64 \<times> f64)) geo" where
  "ring_geo = sample_geo\<lparr>geo_bounding_rect := (\<lambda>cs. case cs of [] \<Rightarrow> None | p # _ \<Rightarrow> Some (p, p)), poly_intersects := (=)\<rparr>"

definition ring_field :: identifier_field_config where
  "ring_field = \<lparr>if_description = None, if_rule = PolygonHandler True\<rparr>"

definition ring_schema :: event_schema where
  "ring_schema = sample_schema\<lparr>es_topic := None,
     es_identifier := [(''polygon'', ring_field)]\<rparr>"

lemma ring_canon: "polygon_json_canon ring_host sample_ring ''polygon'' = Inr sample_ring"
  by (simp add: polygon_json_canon_def polygon_err_def sample_ring_def parse_polygon_value_def polygon_array_def
      parse_coordinate_def parse_component_def is_finite_def validate_coordinate_def in_closed_def
      validate_polygon_geometry_def last_of_def coord_eq_def f64_eq_def coordinates_to_json_def coordinate_to_json_def
      json_of_f64_def coord_err_def)

lemma ring_reads_back: "array_reads_back ring_host ''[R]''"
proof -
  have "trim ''[R]'' = ''[R]''" "starts_with ''['' ''[R]''" by code_simp+
  then show ?thesis by (auto simp: array_reads_back_def ring_host_def split: if_splits)
qed

lemma ring_accepted:
  "\<exists>spatial. process_notify_request ring_host sample_chrono ring_schema [(''polygon'', sample_ring)] None =
     Inr ([(''polygon'', ''[R]'')], [], Some spatial)"
proof -
  obtain cs js where cs: "parse_polygon_value ring_host sample_ring = Inr cs" "polygon_array sample_ring = Inr cs"
    by (rule polygon_reads_back [OF ring_canon])
  have pr: "json_print ring_host sample_ring = ''[R]''" by (simp add: ring_host_def)
  have p: "parse_polygon_coordinates ring_host ''[R]'' = Inr cs"
    using polygon_text_reads_back [OF ring_canon] ring_reads_back cs(1) pr by simp
  have obj: "\<not> is_object sample_ring" by (simp add: sample_ring_def is_object_def)
  have "cs \<noteq> []" using ring_canon cs(1)
    by (auto simp: polygon_json_canon_def polygon_err_def result_simps validate_polygon_geometry_def)
  then obtain b where b: "calculate_bounding_box_string cs = Inr b" by (cases cs) (simp_all add: calculate_bounding_box_string_def)
  show ?thesis
    by (simp add: process_notify_request_def ring_schema_def ring_field_def notify_field_def validate_and_canonicalize_field_def ring_canon pr p
        from_polygon_def b validate_payload_requirement_def sample_schema_def obj)
qed


end
