(* ===== verification/JetStreamStreams.thy ===== *)
theory JetStreamStreams
  imports Configuration
begin

text \<open>
  The JetStream backend up to its streams: \<open>jetstream/config.rs\<close>, the connection of
  \<open>connection.rs\<close>, stream creation and reconciliation in \<open>streams.rs\<close>, and \<open>publisher.rs\<close>.
  The NATS server is the record \<open>nats\<close>: its operations are arguments that answer from a
  state and change it. Durations of streams are nanoseconds.
\<close>

section \<open>Configuration\<close>

record jetstream_config =
  jc_nats_url :: string
  jc_timeout_seconds :: nat
  jc_retry_attempts :: nat
  jc_token :: "string option"
  jc_max_messages :: "int option"
  jc_max_bytes :: "int option"
  jc_retention_time :: "nat option"
  jc_storage_type :: storage_type
  jc_replicas :: "nat option"
  jc_retention_policy :: retention_policy
  jc_discard_policy :: discard_policy
  jc_max_reconnect_attempts :: "nat option"
  jc_reconnect_delay_ms :: nat
  jc_publish_retry_attempts :: nat
  jc_publish_retry_base_delay_ms :: nat

definition unwrap_or :: "'a \<Rightarrow> 'a option \<Rightarrow> 'a" where
  "unwrap_or d x = (case x of Some v \<Rightarrow> v | None \<Rightarrow> d)"

lemma unwrap_or_simps [simp]: "unwrap_or d None = d" "unwrap_or d (Some v) = v"
  by (simp_all add: unwrap_or_def)

definition get_storage_type :: "jetstream_settings option \<Rightarrow> storage_type" where
  "get_storage_type js = unwrap_or FileStorage (Option.bind js js_storage_type)"

definition get_retention_policy :: "jetstream_settings option \<Rightarrow> retention_policy" where
  "get_retention_policy js = unwrap_or Limits (Option.bind js js_retention_policy)"

definition get_discard_policy :: "jetstream_settings option \<Rightarrow> discard_policy" where
  "get_discard_policy js = unwrap_or OldMessages (Option.bind js js_discard_policy)"

text \<open>\<open>env_token\<close> is the environment variable \<open>NATS_TOKEN\<close>.\<close>
definition jetstream_config_of :: "string option \<Rightarrow> backend_settings \<Rightarrow> err + jetstream_config" where
  "jetstream_config_of env_token bs =
    (let js = bs_jetstream bs in
     bind_res (case Option.bind js js_retention_time of
         None \<Rightarrow> Inr None
       | Some v \<Rightarrow> map_res Some (map_err (\<lambda>e. [''notification_backend.jetstream.retention_time is invalid: '' @ e])
                   (parse_retention_time_spec v))) (\<lambda>retention_time.
     Inr \<lparr>jc_nats_url = unwrap_or ''nats://localhost:4222'' (Option.bind js js_nats_url),
       jc_timeout_seconds = unwrap_or 30 (Option.bind js js_timeout_seconds),
       jc_retry_attempts = unwrap_or 3 (Option.bind js js_retry_attempts),
       jc_token = (case Option.bind js js_token of Some t \<Rightarrow> Some t | None \<Rightarrow> env_token),
       jc_max_messages = Option.bind js js_max_messages,
       jc_max_bytes = Option.bind js js_max_bytes,
       jc_retention_time = retention_time,
       jc_storage_type = get_storage_type js,
       jc_replicas = Option.bind js js_replicas,
       jc_retention_policy = get_retention_policy js,
       jc_discard_policy = get_discard_policy js,
       jc_max_reconnect_attempts = Option.bind js js_max_reconnect_attempts,
       jc_reconnect_delay_ms = unwrap_or 2000 (Option.bind js js_reconnect_delay_ms),
       jc_publish_retry_attempts = unwrap_or 5 (Option.bind js js_publish_retry_attempts),
       jc_publish_retry_base_delay_ms = unwrap_or 150 (Option.bind js js_publish_retry_base_delay_ms)\<rparr>))"

definition js_msg :: "string \<Rightarrow> string" where
  "js_msg rest = ''notification_backend.jetstream.'' @ rest"

definition validate_jetstream_config :: "jetstream_config \<Rightarrow> err + unit" where
  "validate_jetstream_config jc =
     bind_res (bail_if (jc_retention_policy jc = Workqueue) (js_msg
       (''retention_policy '' @ qt ''workqueue'' @ '' is not supported: workqueue retention does not support '' @
        ''Aviso's independent watch/replay consumers; use '' @ qt ''limits'' @ '' or '' @ qt ''interest''))) (\<lambda>_.
     bind_res (bail_if (trim (jc_nats_url jc) = []) (js_msg ''nats_url must not be empty'')) (\<lambda>_.
     bind_res (bail_if (jc_timeout_seconds jc = 0) (js_msg ''timeout_seconds must be > 0'')) (\<lambda>_.
     bind_res (bail_if (jc_retry_attempts jc = 0) (js_msg ''retry_attempts must be > 0'')) (\<lambda>_.
     bind_res (bail_if (jc_reconnect_delay_ms jc = 0) (js_msg ''reconnect_delay_ms must be > 0'')) (\<lambda>_.
     bind_res (bail_if (jc_retention_time jc = Some 0) (js_msg ''retention_time must be > 0'')) (\<lambda>_.
     bind_res (bail_if (case jc_retention_time jc of Some d \<Rightarrow> \<not> is_i64 (int d * 1000000000) | None \<Rightarrow> False)
       (js_msg ''retention_time exceeds signed 64-bit nanoseconds'')) (\<lambda>_.
     bind_res (bail_if (jc_publish_retry_attempts jc = 0) (js_msg ''publish_retry_attempts must be > 0'')) (\<lambda>_.
     bail_if (jc_publish_retry_base_delay_ms jc = 0) (js_msg ''publish_retry_base_delay_ms must be > 0'')))))))))"

section \<open>Connecting\<close>

record connection_policy =
  cp_initial_connect_attempts :: nat
  cp_max_reconnects :: "nat option"
  cp_reconnect_delay_ms :: nat

definition build_connection_policy :: "jetstream_config \<Rightarrow> connection_policy" where
  "build_connection_policy jc =
     \<lparr>cp_initial_connect_attempts = max (jc_retry_attempts jc) 1,
      cp_max_reconnects = (case jc_max_reconnect_attempts jc of
         None \<Rightarrow> None | Some n \<Rightarrow> if n = 0 then None else Some n),
      cp_reconnect_delay_ms = jc_reconnect_delay_ms jc\<rparr>"

text \<open>
  The attempts to connect, with the answer of the client library to each, and the delays
  slept between them.
\<close>
fun connect_attempts :: "connection_policy \<Rightarrow> (nat \<Rightarrow> string + 'c) \<Rightarrow> nat list \<Rightarrow> (err + 'c) \<times> nat list" where
  "connect_attempts policy answer [] = (Inl [''NATS connect failed without a concrete error''], [])"
| "connect_attempts policy answer (attempt # rest) =
    (case answer attempt of
       Inr client \<Rightarrow> (Inr client, [])
     | Inl e \<Rightarrow>
         if attempt \<ge> cp_initial_connect_attempts policy then (Inl [''NATS connect failed'', e], [])
         else (case connect_attempts policy answer rest of
                 (r, delays) \<Rightarrow> (r, cp_reconnect_delay_ms policy # delays)))"

definition connect :: "jetstream_config \<Rightarrow> (nat \<Rightarrow> string + 'c) \<Rightarrow> (err + 'c) \<times> nat list" where
  "connect jc answer =
    (case validate_jetstream_config jc of
       Inl e \<Rightarrow> (Inl e, [])
     | Inr _ \<Rightarrow>
         (let policy = build_connection_policy jc
          in connect_attempts policy answer [1 ..< Suc (cp_initial_connect_attempts policy)]))"

section \<open>Stream configurations\<close>

datatype compression = S2 | NoCompression

text \<open>The fields of the library's stream configuration that the code sets or compares.\<close>
record stream_config =
  sg_name :: string
  sg_subjects :: "string list"
  sg_storage :: storage_type
  sg_retention :: retention_policy
  sg_discard :: discard_policy
  sg_max_messages :: int
  sg_max_bytes :: int
  sg_max_age :: nat
  sg_max_messages_per_subject :: int
  sg_num_replicas :: nat
  sg_compression :: "compression option"
  sg_duplicate_window :: nat

abbreviation nanos_per_sec :: nat where "nanos_per_sec \<equiv> 1000000000"

definition apply_backend_defaults :: "jetstream_config \<Rightarrow> stream_config \<Rightarrow> stream_config" where
  "apply_backend_defaults jc config =
    (let config = (case jc_max_messages jc of Some n \<Rightarrow> config\<lparr>sg_max_messages := n\<rparr> | None \<Rightarrow> config);
         config = (case jc_max_bytes jc of Some n \<Rightarrow> config\<lparr>sg_max_bytes := n\<rparr> | None \<Rightarrow> config);
         config = (case jc_retention_time jc of
                     Some d \<Rightarrow> config\<lparr>sg_max_age := d * nanos_per_sec\<rparr> | None \<Rightarrow> config)
     in case jc_replicas jc of Some n \<Rightarrow> config\<lparr>sg_num_replicas := n\<rparr> | None \<Rightarrow> config)"

definition apply_storage_policy_overrides :: "event_storage_policy \<Rightarrow> stream_config \<Rightarrow> err + stream_config" where
  "apply_storage_policy_overrides policy config =
     bind_res (case sp_retention_time policy of
         None \<Rightarrow> Inr config
       | Some spec \<Rightarrow>
           bind_res (map_err (\<lambda>e. [''Invalid storage_policy.retention_time: '' @ e]) (parse_retention_time_spec spec)) (\<lambda>d.
           bind_res (bail_if (d = 0) ''Invalid storage_policy.retention_time: value must be > 0'') (\<lambda>_.
           Inr (config\<lparr>sg_max_age := d * nanos_per_sec\<rparr>)))) (\<lambda>config.
     bind_res (Inr (case sp_max_messages policy of Some n \<Rightarrow> config\<lparr>sg_max_messages := n\<rparr> | None \<Rightarrow> config)) (\<lambda>config.
     bind_res (case sp_max_size policy of
         None \<Rightarrow> Inr config
       | Some spec \<Rightarrow>
           map_res (\<lambda>n. config\<lparr>sg_max_bytes := n\<rparr>)
             (map_err (\<lambda>e. [''Invalid storage_policy.max_size: '' @ e]) (parse_size_spec spec))) (\<lambda>config.
     (let config = (case sp_allow_duplicates policy of
            Some b \<Rightarrow> config\<lparr>sg_max_messages_per_subject := (if b then -1 else 1)\<rparr> | None \<Rightarrow> config)
      in Inr (case sp_compression policy of
            Some b \<Rightarrow> config\<lparr>sg_compression := Some (if b then S2 else NoCompression)\<rparr> | None \<Rightarrow> config)))))"

text \<open>The loop over the schemas with the policy selected so far.\<close>
fun select_policy ::
  "string \<Rightarrow> schema_map \<Rightarrow> (string \<times> event_storage_policy) option \<Rightarrow>
   err + (string \<times> event_storage_policy) option" where
  "select_policy base [] selected = Inr selected"
| "select_policy base ((event_type, schema) # rest) selected =
    (case es_topic schema of
       None \<Rightarrow> select_policy base rest selected
     | Some tc \<Rightarrow>
    if \<not> eq_ignore_ascii_case (tc_base tc) base then select_policy base rest selected
    else (case es_storage_policy schema of
       None \<Rightarrow> select_policy base rest selected
     | Some policy \<Rightarrow>
    (case selected of
       Some (previous, _) \<Rightarrow> bail (''Multiple schemas define storage_policy for stream base '' @ qt base @ '': '' @
                               qt previous @ '' and '' @ qt event_type)
     | None \<Rightarrow> select_policy base rest (Some (event_type, policy)))))"

definition resolve_storage_policy_for_base ::
  "string \<Rightarrow> schema_map option \<Rightarrow> err + (string \<times> event_storage_policy) option" where
  "resolve_storage_policy_for_base stream_name schema_map =
    (let base = to_ascii_lowercase stream_name in
     case schema_map of None \<Rightarrow> Inr None | Some m \<Rightarrow> select_policy base m None)"

text \<open>\<open>dflt\<close> is the library's default configuration, which fills the remaining fields.\<close>
definition build_stream_config_for_base ::
  "stream_config \<Rightarrow> jetstream_config \<Rightarrow> string \<Rightarrow> string \<Rightarrow> schema_map option \<Rightarrow>
   err + stream_config \<times> string option" where
  "build_stream_config_for_base dflt jc stream_name subject_pattern schema_map =
    (let config = dflt\<lparr>sg_name := stream_name, sg_subjects := [subject_pattern], sg_storage := jc_storage_type jc,
           sg_retention := jc_retention_policy jc, sg_discard := jc_discard_policy jc,
           sg_max_messages_per_subject := 1\<rparr>;
         config = apply_backend_defaults jc config in
     bind_res (resolve_storage_policy_for_base stream_name schema_map) (\<lambda>selected.
     case selected of
       None \<Rightarrow> Inr (config, None)
     | Some (owner, policy) \<Rightarrow>
         map_res (\<lambda>c. (c, Some owner)) (apply_storage_policy_overrides policy config)))"

section \<open>Reconciliation\<close>

text \<open>Omitted limits are written as -1 by the server, omitted replicas as one.\<close>
definition unlimited :: "int \<Rightarrow> int" where
  "unlimited n = (if n = 0 then -1 else n)"

definition compression_of :: "stream_config \<Rightarrow> compression" where
  "compression_of c = unwrap_or NoCompression (sg_compression c)"

text \<open>One step: when the field differs it is set and its name noted.\<close>
definition reconcile ::
  "string \<Rightarrow> (stream_config \<Rightarrow> bool) \<Rightarrow> (stream_config \<Rightarrow> stream_config) \<Rightarrow>
   stream_config \<times> string list \<Rightarrow> stream_config \<times> string list" where
  "reconcile name differs set_field = (\<lambda>(merged, changed).
     if differs merged then (set_field merged, changed @ [name]) else (merged, changed))"

definition merged_reconciled_config :: "stream_config \<Rightarrow> stream_config \<Rightarrow> stream_config \<times> string list" where
  "merged_reconciled_config current desired =
    (let r = (current, []);
         r = reconcile ''subjects'' (\<lambda>m. sg_subjects m \<noteq> sg_subjects desired)
               (sg_subjects_update (\<lambda>_. sg_subjects desired)) r;
         r = reconcile ''max_messages'' (\<lambda>m. unlimited (sg_max_messages m) \<noteq> unlimited (sg_max_messages desired))
               (sg_max_messages_update (\<lambda>_. sg_max_messages desired)) r;
         r = reconcile ''max_bytes'' (\<lambda>m. unlimited (sg_max_bytes m) \<noteq> unlimited (sg_max_bytes desired))
               (sg_max_bytes_update (\<lambda>_. sg_max_bytes desired)) r;
         r = reconcile ''max_age'' (\<lambda>m. sg_max_age m \<noteq> sg_max_age desired)
               (sg_max_age_update (\<lambda>_. sg_max_age desired)) r;
         r = reconcile ''duplicate_window'' (\<lambda>m. sg_max_age m \<noteq> 0 \<and> sg_duplicate_window m > sg_max_age m)
               (\<lambda>m. m\<lparr>sg_duplicate_window := sg_max_age m\<rparr>) r;
         r = reconcile ''max_messages_per_subject''
               (\<lambda>m. unlimited (sg_max_messages_per_subject m) \<noteq> unlimited (sg_max_messages_per_subject desired))
               (sg_max_messages_per_subject_update (\<lambda>_. sg_max_messages_per_subject desired)) r;
         r = reconcile ''num_replicas'' (\<lambda>m. max (sg_num_replicas m) 1 \<noteq> max (sg_num_replicas desired) 1)
               (sg_num_replicas_update (\<lambda>_. sg_num_replicas desired)) r;
         r = reconcile ''compression'' (\<lambda>m. compression_of m \<noteq> compression_of desired)
               (sg_compression_update (\<lambda>_. sg_compression desired)) r;
         r = reconcile ''discard'' (\<lambda>m. sg_discard m \<noteq> sg_discard desired)
               (sg_discard_update (\<lambda>_. sg_discard desired)) r
     in reconcile ''retention'' (\<lambda>m. sg_retention m \<noteq> sg_retention desired)
          (sg_retention_update (\<lambda>_. sg_retention desired)) r)"

section \<open>The server\<close>

datatype js_error_code = STREAM_NOT_FOUND | STREAM_NAME_EXIST | OtherErrorCode nat

text \<open>
  A failed stream operation: the error code and status of JetStream, if it is one of its
  errors, and its text.
\<close>
record js_error =
  je_code :: "(js_error_code \<times> nat) option"
  je_text :: string

definition is_stream_not_found_error :: "js_error \<Rightarrow> bool" where
  "is_stream_not_found_error e =
    (case je_code e of Some (code, status) \<Rightarrow> code = STREAM_NOT_FOUND \<or> status = 404 | None \<Rightarrow> False)"

record stream_state =
  ss_messages :: nat
  ss_last_sequence :: nat

text \<open>
  The operations of the client library on the server's state. A publication answers in two
  parts, the sending and the acknowledgement.
\<close>
record 's nats =
  nt_get_stream :: "string \<Rightarrow> 's \<Rightarrow> (js_error + stream_config) \<times> 's"
  nt_create_stream :: "stream_config \<Rightarrow> 's \<Rightarrow> (js_error + unit) \<times> 's"
  nt_update_stream :: "stream_config \<Rightarrow> 's \<Rightarrow> (js_error + unit) \<times> 's"
  nt_publish :: "string \<Rightarrow> string alist option \<Rightarrow> string \<Rightarrow> 's \<Rightarrow> (js_error + unit) \<times> 's"
  nt_acknowledge :: "'s \<Rightarrow> (js_error + nat) \<times> 's"

text \<open>Sequencing of operations that may fail and change the state.\<close>
definition and_then :: "('e + 'a) \<times> 's \<Rightarrow> ('a \<Rightarrow> 's \<Rightarrow> ('e + 'b) \<times> 's) \<Rightarrow> ('e + 'b) \<times> 's" where
  "and_then r f = (case r of (Inl e, s) \<Rightarrow> (Inl e, s) | (Inr x, s) \<Rightarrow> f x s)"

definition context_of :: "string \<Rightarrow> (js_error + 'a) \<times> 's \<Rightarrow> (err + 'a) \<times> 's" where
  "context_of msg r = (case r of (x, s) \<Rightarrow> (map_err (\<lambda>e. [msg, je_text e]) x, s))"

definition storage_text :: "storage_type \<Rightarrow> string" where
  "storage_text st = (case st of FileStorage \<Rightarrow> ''File'' | MemoryStorage \<Rightarrow> ''Memory'')"

definition reconcile_existing_stream_config ::
  "host \<Rightarrow> 's nats \<Rightarrow> string \<Rightarrow> stream_config \<Rightarrow> stream_config \<Rightarrow> 's \<Rightarrow> (err + string) \<times> 's" where
  "reconcile_existing_stream_config h nt stream_name current desired s =
    (if sg_storage current \<noteq> sg_storage desired
     then (bail (''Stream '' @ qt stream_name @ '' storage mismatch: current '' @ storage_text (sg_storage current) @
             '', requested '' @ storage_text (sg_storage desired) @ ''; JetStream storage cannot be changed in place''), s)
     else (case merged_reconciled_config current desired of (update_config, changes) \<Rightarrow>
       if changes = [] then (Inr stream_name, s)
       else and_then (context_of (''Failed to reconcile stream '' @ qt stream_name @ '' fields '' @ debug_list h changes)
              (nt_update_stream nt update_config s)) (\<lambda>_ s. (Inr stream_name, s))))"

text \<open>Whatever the lookup fails with, the stream is then created.\<close>
definition ensure_stream_for_topic ::
  "host \<Rightarrow> 's nats \<Rightarrow> stream_config \<Rightarrow> jetstream_config \<Rightarrow> schema_map option \<Rightarrow> string \<Rightarrow> 's \<Rightarrow> (err + string) \<times> 's" where
  "ensure_stream_for_topic h nt dflt jc schema_map topic s =
    (case bind_res (with_context ''Failed to extract event type from topic'' (derive_event_type_from_topic topic)) (\<lambda>base.
          bind_res (new_binding base) (\<lambda>binding.
          map_res (Pair (tb_stream_name binding))
            (build_stream_config_for_base dflt jc (tb_stream_name binding) (tb_subject_pattern binding) schema_map))) of
       Inl e \<Rightarrow> (Inl e, s)
     | Inr (stream_name, desired, owner) \<Rightarrow>
    (case nt_get_stream nt stream_name s of
       (Inr current, s) \<Rightarrow> reconcile_existing_stream_config h nt stream_name current desired s
     | (Inl _, s) \<Rightarrow>
    (case nt_create_stream nt desired s of
       (Inr _, s) \<Rightarrow> (Inr stream_name, s)
     | (Inl e, s) \<Rightarrow>
         if map_option fst (je_code e) = Some STREAM_NAME_EXIST
         then and_then (context_of ''Failed to inspect stream after concurrent creation'' (nt_get_stream nt stream_name s))
                (\<lambda>current s. reconcile_existing_stream_config h nt stream_name current desired s)
         else (Inl [je_text e], s))))"

section \<open>Publishing\<close>

definition is_channel_closed_error :: "err \<Rightarrow> bool" where
  "is_channel_closed_error e = list_ex (\<lambda>cause. str_contains ''channel closed'' (to_ascii_lowercase cause)) e"

text \<open>\<open>ensure\<close> is the ensuring of the stream.\<close>
definition publish_once ::
  "'s nats \<Rightarrow> (string \<Rightarrow> 's \<Rightarrow> (err + string) \<times> 's) \<Rightarrow> string \<Rightarrow> string alist option \<Rightarrow> string \<Rightarrow> 's \<Rightarrow>
   (err + unit) \<times> 's" where
  "publish_once nt ensure topic headers payload s =
     and_then (ensure topic s) (\<lambda>_ s.
     and_then (context_of
         (case headers of Some _ \<Rightarrow> ''Failed to publish notification message with headers to JetStream''
                        | None \<Rightarrow> ''Failed to publish notification message to JetStream'')
         (nt_publish nt topic headers payload s)) (\<lambda>_ s.
     and_then (context_of ''Failed to receive publish acknowledgment from JetStream'' (nt_acknowledge nt s))
       (\<lambda>_ s. (Inr (), s))))"

definition saturating_mul :: "nat \<Rightarrow> nat \<Rightarrow> nat" where
  "saturating_mul a b = min (nat u64_max) (a * b)"

text \<open>\<open>1u64 << n\<close> with the shift count taken modulo the width, as in a release build.\<close>
definition shl_u64 :: "nat \<Rightarrow> nat" where
  "shl_u64 n = 2 ^ (n mod 64)"

text \<open>The attempts of \<open>publish_with_retry\<close>, with the delays slept between them.\<close>
fun publish_attempts ::
  "('s \<Rightarrow> (err + unit) \<times> 's) \<Rightarrow> nat \<Rightarrow> nat \<Rightarrow> nat list \<Rightarrow> 's \<Rightarrow> ((err + unit) \<times> 's) \<times> nat list" where
  "publish_attempts once base_backoff max_attempts [] s =
     ((bail ''publish_with_retry exhausted attempts without success or terminal error'', s), [])"
| "publish_attempts once base_backoff max_attempts (attempt # rest) s =
    (case once s of
       (Inr _, s) \<Rightarrow> ((Inr (), s), [])
     | (Inl e, s) \<Rightarrow>
         if attempt < max_attempts \<and> is_channel_closed_error e
         then (case publish_attempts once base_backoff max_attempts rest s of
                 (r, delays) \<Rightarrow> (r, saturating_mul base_backoff (shl_u64 (attempt - 1)) # delays))
         else ((Inl e, s), []))"

definition publish_with_retry ::
  "jetstream_config \<Rightarrow> ('s \<Rightarrow> (err + unit) \<times> 's) \<Rightarrow> 's \<Rightarrow> ((err + unit) \<times> 's) \<times> nat list" where
  "publish_with_retry jc once s =
     publish_attempts once (jc_publish_retry_base_delay_ms jc) (jc_publish_retry_attempts jc)
       [1 ..< Suc (jc_publish_retry_attempts jc)] s"

definition jetstream_put_messages ::
  "jetstream_config \<Rightarrow> 's nats \<Rightarrow> (string \<Rightarrow> 's \<Rightarrow> (err + string) \<times> 's) \<Rightarrow> string \<Rightarrow> string \<Rightarrow> 's \<Rightarrow>
   (err + unit) \<times> 's" where
  "jetstream_put_messages jc nt ensure topic payload s =
     fst (publish_with_retry jc (publish_once nt ensure topic None payload) s)"

definition jetstream_put_message_with_headers ::
  "jetstream_config \<Rightarrow> 's nats \<Rightarrow> (string \<Rightarrow> 's \<Rightarrow> (err + string) \<times> 's) \<Rightarrow> string \<Rightarrow> string alist option \<Rightarrow> string \<Rightarrow> 's \<Rightarrow>
   (err + unit) \<times> 's" where
  "jetstream_put_message_with_headers jc nt ensure topic headers payload s =
     fst (publish_with_retry jc (publish_once nt ensure topic headers payload) s)"

section \<open>What reconciliation does\<close>

text \<open>The value a limit ends with: its own while it means the same, the desired one otherwise.\<close>
definition settled :: "('a \<Rightarrow> 'b) \<Rightarrow> 'a \<Rightarrow> 'a \<Rightarrow> 'a" where
  "settled meaning desired current = (if meaning current \<noteq> meaning desired then desired else current)"

lemma settled_meaning [simp]: "meaning (settled meaning desired current) = meaning desired"
  by (simp add: settled_def)

lemma settled_id [simp]: "settled (\<lambda>x. x) desired current = desired"
  by (simp add: settled_def)

lemma settled_same_iff: "settled meaning desired current = current \<longleftrightarrow> meaning current = meaning desired"
  by (auto simp: settled_def)

lemma reconcile_snd: "snd (reconcile n differs f r) = snd r @ (if differs (fst r) then [n] else [])"
  by (simp add: reconcile_def split: prod.split)

lemma reconcile_fst:
  "fst (reconcile ''subjects'' (\<lambda>m. sg_subjects m \<noteq> sg_subjects d) (sg_subjects_update (\<lambda>_. sg_subjects d)) r) =
   sg_subjects_update (settled (\<lambda>x. x) (sg_subjects d)) (fst r)"
  "fst (reconcile ''max_messages'' (\<lambda>m. unlimited (sg_max_messages m) \<noteq> unlimited (sg_max_messages d))
     (sg_max_messages_update (\<lambda>_. sg_max_messages d)) r) =
   sg_max_messages_update (settled unlimited (sg_max_messages d)) (fst r)"
  "fst (reconcile ''max_bytes'' (\<lambda>m. unlimited (sg_max_bytes m) \<noteq> unlimited (sg_max_bytes d))
     (sg_max_bytes_update (\<lambda>_. sg_max_bytes d)) r) =
   sg_max_bytes_update (settled unlimited (sg_max_bytes d)) (fst r)"
  "fst (reconcile ''max_age'' (\<lambda>m. sg_max_age m \<noteq> sg_max_age d) (sg_max_age_update (\<lambda>_. sg_max_age d)) r) =
   sg_max_age_update (settled (\<lambda>x. x) (sg_max_age d)) (fst r)"
  "fst (reconcile ''duplicate_window'' (\<lambda>m. sg_max_age m \<noteq> 0 \<and> sg_duplicate_window m > sg_max_age m)
     (\<lambda>m. m\<lparr>sg_duplicate_window := sg_max_age m\<rparr>) r) =
   sg_duplicate_window_update
     (\<lambda>w. if sg_max_age (fst r) \<noteq> 0 then min w (sg_max_age (fst r)) else w) (fst r)"
  "fst (reconcile ''max_messages_per_subject''
     (\<lambda>m. unlimited (sg_max_messages_per_subject m) \<noteq> unlimited (sg_max_messages_per_subject d))
     (sg_max_messages_per_subject_update (\<lambda>_. sg_max_messages_per_subject d)) r) =
   sg_max_messages_per_subject_update (settled unlimited (sg_max_messages_per_subject d)) (fst r)"
  "fst (reconcile ''num_replicas'' (\<lambda>m. max (sg_num_replicas m) 1 \<noteq> max (sg_num_replicas d) 1)
     (sg_num_replicas_update (\<lambda>_. sg_num_replicas d)) r) =
   sg_num_replicas_update (settled (\<lambda>n. max n 1) (sg_num_replicas d)) (fst r)"
  "fst (reconcile ''compression'' (\<lambda>m. compression_of m \<noteq> compression_of d)
     (sg_compression_update (\<lambda>_. sg_compression d)) r) =
   sg_compression_update (settled (unwrap_or NoCompression) (sg_compression d)) (fst r)"
  "fst (reconcile ''discard'' (\<lambda>m. sg_discard m \<noteq> sg_discard d) (sg_discard_update (\<lambda>_. sg_discard d)) r) =
   sg_discard_update (settled (\<lambda>x. x) (sg_discard d)) (fst r)"
  "fst (reconcile ''retention'' (\<lambda>m. sg_retention m \<noteq> sg_retention d) (sg_retention_update (\<lambda>_. sg_retention d)) r) =
   sg_retention_update (settled (\<lambda>x. x) (sg_retention d)) (fst r)"
  by (cases r; cases "fst r"; auto simp: reconcile_def settled_def compression_of_def)+

text \<open>The merged configuration in one update.\<close>
definition reconciled :: "stream_config \<Rightarrow> stream_config \<Rightarrow> stream_config" where
  "reconciled c d = c\<lparr>sg_subjects := sg_subjects d,
     sg_max_messages := settled unlimited (sg_max_messages d) (sg_max_messages c),
     sg_max_bytes := settled unlimited (sg_max_bytes d) (sg_max_bytes c),
     sg_max_age := sg_max_age d,
     sg_duplicate_window := (if sg_max_age d \<noteq> 0 then min (sg_duplicate_window c) (sg_max_age d) else sg_duplicate_window c),
     sg_max_messages_per_subject := settled unlimited (sg_max_messages_per_subject d) (sg_max_messages_per_subject c),
     sg_num_replicas := settled (\<lambda>n. max n 1) (sg_num_replicas d) (sg_num_replicas c),
     sg_compression := settled (unwrap_or NoCompression) (sg_compression d) (sg_compression c),
     sg_discard := sg_discard d, sg_retention := sg_retention d\<rparr>"

lemma merged_fst: "fst (merged_reconciled_config c d) = reconciled c d"
  unfolding merged_reconciled_config_def Let_def reconcile_fst by (cases c) (simp add: reconciled_def)

lemma merged_changes:
  "snd (merged_reconciled_config c d) = [] \<longleftrightarrow>
     sg_subjects c = sg_subjects d \<and> unlimited (sg_max_messages c) = unlimited (sg_max_messages d) \<and>
     unlimited (sg_max_bytes c) = unlimited (sg_max_bytes d) \<and> sg_max_age c = sg_max_age d \<and>
     \<not> (sg_max_age d \<noteq> 0 \<and> sg_duplicate_window c > sg_max_age d) \<and>
     unlimited (sg_max_messages_per_subject c) = unlimited (sg_max_messages_per_subject d) \<and>
     max (sg_num_replicas c) 1 = max (sg_num_replicas d) 1 \<and> compression_of c = compression_of d \<and>
     sg_discard c = sg_discard d \<and> sg_retention c = sg_retention d"
  unfolding merged_reconciled_config_def Let_def reconcile_snd reconcile_fst
  by (simp add: compression_of_def split del: if_split) (simp split: if_split)

section \<open>What the storage policies do\<close>

text \<open>The schema has a storage policy for the base.\<close>
definition owns :: "string \<Rightarrow> string \<times> event_schema \<Rightarrow> bool" where
  "owns base = (\<lambda>(_, schema).
    (case (es_topic schema, es_storage_policy schema) of
       (Some tc, Some _) \<Rightarrow> eq_ignore_ascii_case (tc_base tc) base | _ \<Rightarrow> False))"

definition owner_of :: "string \<Rightarrow> schema_map \<Rightarrow> (string \<times> event_storage_policy) option" where
  "owner_of base m =
     map_option (\<lambda>(event_type, schema). (event_type, the (es_storage_policy schema))) (first_of (filter (owns base) m))"

text \<open>A stream configuration with the fields of a valid policy.\<close>
definition with_policy :: "event_storage_policy \<Rightarrow> stream_config \<Rightarrow> stream_config" where
  "with_policy policy c = c\<lparr>
     sg_max_age := (case Option.bind (sp_retention_time policy) (\<lambda>s. ok (parse_retention_time_spec s)) of
        Some d \<Rightarrow> d * nanos_per_sec | None \<Rightarrow> sg_max_age c),
     sg_max_messages := unwrap_or (sg_max_messages c) (sp_max_messages policy),
     sg_max_bytes := unwrap_or (sg_max_bytes c) (Option.bind (sp_max_size policy) (\<lambda>s. ok (parse_size_spec s))),
     sg_max_messages_per_subject := (case sp_allow_duplicates policy of
        Some b \<Rightarrow> if b then -1 else 1 | None \<Rightarrow> sg_max_messages_per_subject c),
     sg_compression := (case sp_compression policy of
        Some b \<Rightarrow> Some (if b then S2 else NoCompression) | None \<Rightarrow> sg_compression c)\<rparr>"

lemma select_policy_found:
  assumes "length (filter (owns base) m) \<le> (if selected = None then 1 else 0)"
  shows "select_policy base m selected = Inr (case selected of Some x \<Rightarrow> Some x | None \<Rightarrow> owner_of base m)"
  using assms
proof (induction m arbitrary: selected)
  case (Cons x rest)
  obtain et schema where x: "x = (et, schema)" by (cases x)
  show ?case
  proof (cases "owns base x")
    case False
    then have "select_policy base (x # rest) selected = select_policy base rest selected"
      by (auto simp: x owns_def split: option.splits)
    moreover have "owner_of base (x # rest) = owner_of base rest" using False by (simp add: owner_of_def)
    ultimately show ?thesis using Cons.IH [of selected] Cons.prems False by (cases selected) simp_all
  next
    case True
    then have sel: "selected = None" "filter (owns base) rest = []" using Cons.prems by (auto split: if_splits)
    then have "select_policy base (x # rest) selected = select_policy base rest (Some (et, the (es_storage_policy schema)))"
      using True by (auto simp: x owns_def split: option.splits)
    then show ?thesis using Cons.IH [of "Some (et, the (es_storage_policy schema))"] sel True
      by (simp add: owner_of_def x)
  qed
qed (simp add: owner_of_def split: option.splits)

lemma check_policies_owner:
  assumes "check_policies kind caps owners m = Inr ()"
  shows "length (filter (owns base) m) \<le> (if map_of owners (to_ascii_lowercase base) = None then 1 else 0) \<and>
    (\<forall>(event_type, schema)\<in>set m. \<forall>policy. es_storage_policy schema = Some policy \<longrightarrow>
       validate_policy_fields kind event_type policy caps = Inr ())"
  using assms
proof (induction m arbitrary: owners)
  case (Cons x rest)
  obtain et schema where x: "x = (et, schema)" by (cases x)
  show ?case
  proof (cases "es_storage_policy schema")
    case None
    then have "check_policies kind caps owners rest = Inr ()" "\<not> owns base x"
      using Cons.prems by (auto simp: x owns_def split: option.splits)
    then show ?thesis using Cons.IH [of owners] None by (auto simp: x)
  next
    case (Some policy)
    obtain tc where tc: "es_topic schema = Some tc"
      using Cons.prems by (auto simp: x Some result_simps)
    let ?key = "to_ascii_lowercase (tc_base tc)"
    have step: "map_of owners ?key = None" "validate_policy_fields kind et policy caps = Inr ()"
        "check_policies kind caps (AList.update ?key et owners) rest = Inr ()"
      using Cons.prems by (auto simp: x Some tc result_simps Let_def split: option.splits)
    have "owns base x \<longleftrightarrow> ?key = to_ascii_lowercase base"
      by (simp add: owns_def x tc Some eq_ignore_ascii_case_def)
    then show ?thesis using Cons.IH [OF step(3)] step Some
      by (auto simp: x map_of_update split: if_splits)
  qed
qed simp

lemma policy_applies:
  assumes "validate_policy_fields kind event_type policy caps = Inr ()"
  shows "apply_storage_policy_overrides policy config = Inr (with_policy policy config)"
proof -
  have r: "sp_retention_time policy = Some spec \<Longrightarrow> \<exists>d. parse_retention_time_spec spec = Inr d \<and> d \<noteq> 0" for spec
    using assms by (auto simp: validate_policy_fields_def Let_def result_simps)
  have z: "sp_max_size policy = Some spec \<Longrightarrow> \<exists>n. parse_size_spec spec = Inr n" for spec
    using assms by (auto simp: validate_policy_fields_def Let_def result_simps)
  let ?age = "case sp_retention_time policy of None \<Rightarrow> Inr config
      | Some spec \<Rightarrow> bind_res (map_err (\<lambda>e. [''Invalid storage_policy.retention_time: '' @ e]) (parse_retention_time_spec spec)) (\<lambda>d.
           bind_res (bail_if (d = 0) ''Invalid storage_policy.retention_time: value must be > 0'') (\<lambda>_.
           Inr (config\<lparr>sg_max_age := d * nanos_per_sec\<rparr>)))"
  have age: "?age = Inr (config\<lparr>sg_max_age := (case Option.bind (sp_retention_time policy) (\<lambda>s. ok (parse_retention_time_spec s)) of
        Some d \<Rightarrow> d * nanos_per_sec | None \<Rightarrow> sg_max_age config)\<rparr>)"
    using r by (cases "sp_retention_time policy") (auto simp: bail_if_def)
  show ?thesis
    unfolding apply_storage_policy_overrides_def age bind_res.simps
    using z by (cases "sp_max_size policy"; cases "sp_max_messages policy"; cases "sp_allow_duplicates policy"; cases "sp_compression policy")
      (auto simp: with_policy_def Let_def)
qed

lemma lower_upper [simp]: "to_ascii_lowercase (to_ascii_uppercase s) = to_ascii_lowercase s"
  by (auto simp: to_ascii_uppercase_def to_ascii_lowercase_def ascii_upper_def ascii_lower_def is_upper_def is_lower_def)

section \<open>What the publishing loop does\<close>

text \<open>The results of \<open>n\<close> tries in a row, and the state they leave.\<close>
fun tries :: "('s \<Rightarrow> (err + unit) \<times> 's) \<Rightarrow> nat \<Rightarrow> 's \<Rightarrow> (err + unit) list \<times> 's" where
  "tries once 0 s = ([], s)"
| "tries once (Suc n) s = (case once s of (r, s') \<Rightarrow> (case tries once n s' of (rs, s'') \<Rightarrow> (r # rs, s'')))"

definition retryable :: "err + unit \<Rightarrow> bool" where
  "retryable r = (case r of Inl e \<Rightarrow> is_channel_closed_error e | Inr _ \<Rightarrow> False)"

lemma publish_attempts_tries:
  assumes "a \<le> mx" "publish_attempts once base mx [a ..< Suc mx] s = ((r, s'), delays)"
  shows "\<exists>failed. tries once (Suc (length delays)) s = (failed @ [r], s') \<and> list_all retryable failed \<and>
           a + length delays \<le> mx \<and> (retryable r \<longrightarrow> a + length delays = mx) \<and>
           delays = map (\<lambda>k. saturating_mul base (shl_u64 (k - 1))) [a ..< a + length delays]"
  using assms
proof (induction "mx - a" arbitrary: a s delays)
  case (0 a)
  then have a: "a = mx" by simp
  obtain res s1 where once: "once s = (res, s1)" by (cases "once s")
  have "(r, s') = (res, s1) \<and> delays = []"
    using 0(3) once by (cases res) (auto simp: a)
  then show ?case using once by (auto simp: a)
next
  case (Suc n a)
  obtain res s1 where once: "once s = (res, s1)" by (cases "once s")
  have lt: "a < mx" and n: "n = mx - Suc a" and le: "Suc a \<le> mx" using Suc.hyps(2) by simp_all
  have up: "[a ..< Suc mx] = a # [Suc a ..< Suc mx]" using Suc.hyps(2) by (simp add: upt_rec)
  show ?case
  proof (cases "retryable res")
    case False
    then have "(r, s') = (res, s1) \<and> delays = []"
      using Suc.prems(2) once unfolding up by (cases res) (auto simp: retryable_def)
    then show ?thesis using once False Suc.hyps(2) by auto
  next
    case True
    then obtain e where e: "res = Inl e" "is_channel_closed_error e" by (cases res) (auto simp: retryable_def)
    obtain ds where ds: "publish_attempts once base mx [Suc a ..< Suc mx] s1 = ((r, s'), ds)"
        "delays = saturating_mul base (shl_u64 (a - 1)) # ds"
      using Suc.prems(2) once e lt unfolding up by (auto split: prod.splits simp del: upt_Suc)
    obtain failed where f: "tries once (Suc (length ds)) s1 = (failed @ [r], s')" "list_all retryable failed"
        "Suc a + length ds \<le> mx" "retryable r \<longrightarrow> Suc a + length ds = mx"
        "ds = map (\<lambda>k. saturating_mul base (shl_u64 (k - 1))) [Suc a ..< Suc a + length ds]"
      using Suc.hyps(1) [OF n le ds(1)] by blast
    have "tries once (Suc (length delays)) s = (res # failed @ [r], s')"
      using f(1) once ds(2) by (simp del: tries.simps(2) add: tries.simps(2) [of once "Suc (length ds)"])
    moreover have "delays = map (\<lambda>k. saturating_mul base (shl_u64 (k - 1))) [a ..< a + length delays]"
      using f(5) ds(2) by (simp add: upt_rec [of a] del: upt_Suc)
    ultimately show ?thesis using f(2-4) True ds(2) by (intro exI [of _ "res # failed"]) auto
  qed
qed

section \<open>Properties\<close>

text \<open>
  C31: reconciliation settles in one step. What it writes to an existing stream means, in every
  setting the server owns, what was asked for, and touches neither the name nor the storage;
  a second pass finds nothing to change, so concurrent servers with one configuration do not
  fight over a stream; nothing is written exactly when nothing differs; and under a finite
  retention the duplicate window fits in it.
\<close>
theorem reconcile_converges:
  "case merged_reconciled_config current desired of (merged, changes) \<Rightarrow>
     merged_reconciled_config merged desired = (merged, []) \<and> (changes = [] \<longleftrightarrow> merged = current) \<and>
     sg_name merged = sg_name current \<and> sg_storage merged = sg_storage current \<and>
     sg_subjects merged = sg_subjects desired \<and> sg_max_age merged = sg_max_age desired \<and>
     unlimited (sg_max_messages merged) = unlimited (sg_max_messages desired) \<and>
     unlimited (sg_max_bytes merged) = unlimited (sg_max_bytes desired) \<and>
     unlimited (sg_max_messages_per_subject merged) = unlimited (sg_max_messages_per_subject desired) \<and>
     max (sg_num_replicas merged) 1 = max (sg_num_replicas desired) 1 \<and>
     compression_of merged = compression_of desired \<and> sg_discard merged = sg_discard desired \<and>
     sg_retention merged = sg_retention desired \<and>
     (sg_max_age merged = 0 \<or> sg_duplicate_window merged \<le> sg_max_age merged)"
proof -
  let ?m = "reconciled current desired"
  have fields: "sg_name ?m = sg_name current" "sg_storage ?m = sg_storage current"
      "sg_subjects ?m = sg_subjects desired" "sg_max_age ?m = sg_max_age desired"
      "unlimited (sg_max_messages ?m) = unlimited (sg_max_messages desired)"
      "unlimited (sg_max_bytes ?m) = unlimited (sg_max_bytes desired)"
      "unlimited (sg_max_messages_per_subject ?m) = unlimited (sg_max_messages_per_subject desired)"
      "max (sg_num_replicas ?m) 1 = max (sg_num_replicas desired) 1"
      "compression_of ?m = compression_of desired" "sg_discard ?m = sg_discard desired"
      "sg_retention ?m = sg_retention desired"
      "sg_max_age ?m = 0 \<or> sg_duplicate_window ?m \<le> sg_max_age ?m"
    by (auto simp: reconciled_def compression_of_def settled_def)
  have same: "reconciled c desired = c \<longleftrightarrow> snd (merged_reconciled_config c desired) = []" for c
    unfolding merged_changes
    by (cases c) (auto simp: reconciled_def settled_same_iff compression_of_def min_def)
  have "snd (merged_reconciled_config ?m desired) = []"
    unfolding merged_changes using fields by auto
  moreover from this have "fst (merged_reconciled_config ?m desired) = ?m" by (simp add: merged_fst same)
  ultimately have "merged_reconciled_config ?m desired = (?m, [])" by (metis prod.collapse)
  then show ?thesis
    using fields same [of current] merged_fst [of current desired] by (simp add: case_prod_beta)
qed

text \<open>
  C18: publishing ends. A publication makes at least one and at most the configured number of
  attempts, in a row; it answers with the result of the last one, every earlier one failed
  with a closed channel, and it gives up on a closed channel only when the attempts are used
  up. Before attempt number \<open>k + 1\<close> it sleeps the base delay times \<open>2 ^ (k - 1)\<close>, saturating.
\<close>
theorem publish_retries_end:
  assumes "validate_jetstream_config jc = Inr ()"
  shows "\<exists>failed n delays r s'. publish_with_retry jc once s = ((r, s'), delays) \<and>
           n = length delays + 1 \<and> n \<le> jc_publish_retry_attempts jc \<and>
           tries once n s = (failed @ [r], s') \<and> list_all retryable failed \<and>
           (\<not> retryable r \<or> n = jc_publish_retry_attempts jc) \<and>
           delays = map (\<lambda>k. saturating_mul (jc_publish_retry_base_delay_ms jc) (shl_u64 (k - 1))) [1 ..< n]"
proof -
  have pos: "1 \<le> jc_publish_retry_attempts jc"
    using assms by (auto simp: validate_jetstream_config_def result_simps)
  obtain r s' delays where p: "publish_with_retry jc once s = ((r, s'), delays)" by (metis prod.collapse)
  obtain failed where f: "tries once (Suc (length delays)) s = (failed @ [r], s')" "list_all retryable failed"
      "1 + length delays \<le> jc_publish_retry_attempts jc"
      "retryable r \<longrightarrow> 1 + length delays = jc_publish_retry_attempts jc"
      "delays = map (\<lambda>k. saturating_mul (jc_publish_retry_base_delay_ms jc) (shl_u64 (k - 1))) [1 ..< 1 + length delays]"
    using publish_attempts_tries [OF pos p [unfolded publish_with_retry_def]] by blast
  show ?thesis
    by (intro exI [of _ failed] exI [of _ "Suc (length delays)"] exI [of _ delays] exI [of _ r] exI [of _ s'] conjI)
      (use p f in auto)
qed

definition three_tries :: jetstream_config where
  "three_tries = \<lparr>jc_nats_url = ''n'', jc_timeout_seconds = 1, jc_retry_attempts = 1, jc_token = None,
     jc_max_messages = None, jc_max_bytes = None, jc_retention_time = None, jc_storage_type = FileStorage,
     jc_replicas = None, jc_retention_policy = Limits, jc_discard_policy = OldMessages,
     jc_max_reconnect_attempts = None, jc_reconnect_delay_ms = 1, jc_publish_retry_attempts = 3,
     jc_publish_retry_base_delay_ms = 150\<rparr>"

lemma three_tries_valid: "validate_jetstream_config three_tries = Inr ()"
proof -
  have "trim ''n'' = ''n''"
    by (simp add: trim_def trim_start_def trim_end_def strip_seqs.simps white_space_seqs_def utf8_2_def utf8_3_def
        starts_with_def char_of_def bit_0 bit_Suc)
  then show ?thesis by (simp add: validate_jetstream_config_def three_tries_def bail_if_def)
qed

theorem publish_retries_end_witness:
  "\<exists>failed. tries (\<lambda>n. (Inl [''channel closed''], Suc n)) 3 (0 :: nat) = (failed @ [Inl [''channel closed'']], 3) \<and>
     snd (publish_with_retry three_tries (\<lambda>n. (Inl [''channel closed''], Suc n)) (0 :: nat)) = [150, 300]"
proof -
  let ?once = "\<lambda>n. (Inl [''channel closed''], Suc n) :: (err + unit) \<times> nat"
  have c: "is_channel_closed_error [''channel closed'']"
    by (simp add: is_channel_closed_error_def to_ascii_lowercase_def ascii_lower_def is_upper_def starts_with_def)
  have l: "[1 ..< Suc 3] = [1, 2, 3]" by (simp add: upt_rec)
  have p: "publish_attempts ?once 150 3 [1, 2, 3] 0 = ((Inl [''channel closed''], 3), [150, 300])"
    using c by (simp add: saturating_mul_def shl_u64_def)
  have "publish_with_retry three_tries ?once 0 = ((Inl [''channel closed''], 3), [150, 300])"
    unfolding publish_with_retry_def three_tries_def jetstream_config.simps l by (rule p)
  then have r: "publish_with_retry three_tries ?once 0 = ((Inl [''channel closed''], 3), [150, 300])" .
  obtain failed n delays r s' where "publish_with_retry three_tries ?once 0 = ((r, s'), delays)"
      "n = length delays + 1" "tries ?once n 0 = (failed @ [r], s')"
    using publish_retries_end [OF three_tries_valid, of ?once 0] by blast
  moreover from this r have "r = Inl [''channel closed'']" "s' = 3" "delays = [150, 300]" by auto
  moreover from this have "length delays + 1 = 3" by simp
  ultimately have "tries ?once 3 0 = (failed @ [Inl [''channel closed'']], 3)" by metis
  then show ?thesis using r by auto
qed

end
