(* ===== verification/CloudEvents.thy ===== *)
theory CloudEvents
  imports NotificationBackend
begin

text \<open>
  Turning a stored message into a CloudEvent, \<open>src/cloudevents/mod.rs\<close>. The builder and the
  serializer of the CloudEvents library are the record \<open>cloud_sdk\<close>; the global schema and
  the current time are arguments.
\<close>

record cloud_event =
  ce_id :: string
  ce_source :: string
  ce_type :: string
  ce_time :: int
  ce_content_type :: string
  ce_schema :: string
  ce_data :: json

record cloud_sdk =
  sdk_build :: "cloud_event \<Rightarrow> err + cloud_event"
  sdk_value :: "cloud_event \<Rightarrow> err + json"

definition POLYGON_IDENTIFIER_FIELD :: string where
  "POLYGON_IDENTIFIER_FIELD = ''polygon''"

definition POINT_CLOUD_IDENTIFIER_FIELD :: string where
  "POINT_CLOUD_IDENTIFIER_FIELD = ''point_cloud''"

fun event_type_of_base :: "string \<Rightarrow> schema_map \<Rightarrow> string option" where
  "event_type_of_base topic_base [] = None"
| "event_type_of_base topic_base ((event_type, schema) # rest) =
    (if (case es_topic schema of Some tc \<Rightarrow> tc_base tc = topic_base | None \<Rightarrow> False)
     then Some event_type else event_type_of_base topic_base rest)"

definition find_event_type_from_topic_base :: "schema_map option \<Rightarrow> string \<Rightarrow> err + string" where
  "find_event_type_from_topic_base global topic_base =
     bind_res (of_option [''No notification schema configured''] global) (\<lambda>schemas.
     of_option [''No event type found for topic base: '' @ topic_base] (event_type_of_base topic_base schemas))"

definition parse_payload_to_json :: "host \<Rightarrow> string \<Rightarrow> err + json" where
  "parse_payload_to_json h payload =
    (if payload = [] then Inr JNull
     else (case json_parse h payload of Inr v \<Rightarrow> Inr v | Inl _ \<Rightarrow> Inr (JString payload)))"

text \<open>Re-attaching the polygon and the point cloud the subject does not carry.\<close>
definition attach_polygon :: "host \<Rightarrow> string alist option \<Rightarrow> json alist \<Rightarrow> err + json alist" where
  "attach_polygon h metadata identifier =
    (case Option.bind metadata (\<lambda>m. map_of m SPATIAL_GEOMETRY_METADATA_KEY) of
       None \<Rightarrow> Inr identifier
     | Some polygon \<Rightarrow>
         bind_res (with_context ''Failed to parse stored polygon metadata''
                     (parse_polygon_coordinates h polygon)) (\<lambda>coordinates.
         bind_res (with_context ''Failed to canonicalize stored polygon metadata''
                     (coord_err (coordinates_to_json coordinates))) (\<lambda>canonical.
         Inr (AList.update POLYGON_IDENTIFIER_FIELD canonical identifier))))"

definition attach_point_cloud :: "host \<Rightarrow> string alist option \<Rightarrow> json alist \<Rightarrow> err + json alist" where
  "attach_point_cloud h metadata identifier =
    (case Option.bind metadata (\<lambda>m. map_of m SPATIAL_POINT_CLOUD_METADATA_KEY) of
       None \<Rightarrow> Inr identifier
     | Some point_cloud \<Rightarrow>
         bind_res (with_context ''Failed to parse stored point-cloud metadata''
                     (map_err (\<lambda>e. [e]) (json_parse h point_cloud))) (\<lambda>v.
         bind_res (with_context ''Failed to validate stored point-cloud metadata''
                     (map_err point_cloud_error_chain
                       (cloud_canon h v HARD_MAX_POINTS POINT_CLOUD_IDENTIFIER_FIELD))) (\<lambda>canonical.
         Inr (AList.update POINT_CLOUD_IDENTIFIER_FIELD canonical identifier))))"

definition build_cloud_event_data :: "host \<Rightarrow> string alist \<Rightarrow> string \<Rightarrow> string alist option \<Rightarrow> err + json" where
  "build_cloud_event_data h identifier_params payload metadata =
     bind_res (with_context ''Failed to parse notification payload as JSON''
                 (parse_payload_to_json h payload)) (\<lambda>payload_json.
     bind_res (attach_polygon h metadata (map (\<lambda>(k, v). (k, JString v)) identifier_params)) (\<lambda>identifier.
     bind_res (attach_point_cloud h metadata identifier) (\<lambda>identifier.
     Inr (json_object [(''identifier'', json_object identifier), (''payload'', payload_json)]))))"

definition create_cloud_event ::
  "host \<Rightarrow> cloud_sdk \<Rightarrow> schema_map option \<Rightarrow> int \<Rightarrow> string \<Rightarrow> message \<Rightarrow> err + cloud_event" where
  "create_cloud_event h sdk global now base_url m =
     bind_res (with_context ''Failed to extract topic base from notification topic''
                 (derive_event_type_from_topic (m_topic m))) (\<lambda>topic_base.
     bind_res (with_context ''Failed to determine event type from topic''
                 (find_event_type_from_topic_base global topic_base)) (\<lambda>event_type.
     bind_res (with_context ''Failed to reconstruct request parameters from topic''
                 (topic_to_request global (m_topic m) event_type)) (\<lambda>request_params.
     bind_res (build_cloud_event_data h request_params (m_payload m) (m_metadata m)) (\<lambda>data.
     with_context ''Failed to build CloudEvent''
       (sdk_build sdk \<lparr>ce_id = event_type @ ''@'' @ show_nat (m_sequence m), ce_source = base_url,
          ce_type = ''int.ecmwf.aviso.'' @ event_type,
          ce_time = (case m_timestamp m of Some t \<Rightarrow> t | None \<Rightarrow> now),
          ce_content_type = ''application/json'',
          ce_schema = base_url @ ''/schema/'' @ event_type, ce_data = data\<rparr>)))))"

definition create_cloud_event_from_notification ::
  "host \<Rightarrow> cloud_sdk \<Rightarrow> schema_map option \<Rightarrow> int \<Rightarrow> message \<Rightarrow> string \<Rightarrow> err + cloud_event" where
  "create_cloud_event_from_notification h sdk global now m base_url =
     create_cloud_event h sdk global now base_url m"

lemma parse_payload_total: "\<exists>v. parse_payload_to_json h payload = Inr v"
  by (auto simp: parse_payload_to_json_def split: sum.splits)

end
