(* ===== verification/Sse.thy ===== *)
theory Sse
  imports CloudEvents
begin

text \<open>
  Stream frames and their rendering as server-sent events, \<open>src/sse/types.rs\<close> and
  \<open>src/sse/helpers.rs\<close>, and the lifecycle wrapper that ends every stream. A stream is the
  list of the frames it yields. The record \<open>sse_env\<close> holds what rendering reads: the
  outside functions, the global schema, the base URL and the formatting of timestamps,
  which is the \<open>chrono\<close> crate's.
\<close>

section \<open>Frames\<close>

datatype sse_event_type =
  LiveNotification | ReplayNotification | HeartbeatEvent | ConnectionClosing | ErrorEvent | ReplayControl

fun event_name :: "sse_event_type \<Rightarrow> string" where
  "event_name LiveNotification = ''live-notification''"
| "event_name ReplayNotification = ''replay''"
| "event_name HeartbeatEvent = ''heartbeat''"
| "event_name ConnectionClosing = ''connection-closing''"
| "event_name ErrorEvent = ''error''"
| "event_name ReplayControl = ''replay-control''"

datatype delivery_kind = DeliverLive | DeliverReplay
datatype close_reason = ServerShutdown | MaxDurationReached | EndOfStream
datatype sse_frame_kind = KNotification | KStreamError | KInfrastructure

datatype control_event =
    ConnectionEstablished string int nat string
  | ReplayStarted string "nat option" "int option" "nat option" "int option" nat int string
  | ReplayCompleted string int
  | ReplayLimitReached string nat int

datatype stream_frame =
    Rendered string sse_frame_kind
  | NotificationFrame message delivery_kind
  | Control control_event
  | Heartbeat string int
  | ErrorFrame string string string
  | ReplayFailed string string string
  | CloseFrame string close_reason int string

record ('poly, 'rect) sse_env =
  env_host :: host
  env_geo :: "('poly, 'rect) geo"
  env_sdk :: cloud_sdk
  env_time_text :: "int \<Rightarrow> string"
  env_schemas :: "schema_map option"
  env_base_url :: string
  env_now :: int

section \<open>Rendering\<close>

definition newline :: char where "newline = char_of (10 :: nat)"

definition format_sse_event :: "host \<Rightarrow> sse_event_type \<Rightarrow> json \<Rightarrow> string" where
  "format_sse_event h t data =
     ''event: '' @ event_name t @ [newline] @ ''data: '' @ json_print h data @ [newline, newline]"

abbreviation nat_json :: "nat \<Rightarrow> json" where
  "nat_json n \<equiv> JNumber (PosInt n)"

abbreviation option_json :: "('a \<Rightarrow> json) \<Rightarrow> 'a option \<Rightarrow> json" where
  "option_json f x \<equiv> (case x of Some y \<Rightarrow> f y | None \<Rightarrow> JNull)"

definition notification_to_sse_event ::
  "('poly, 'rect) sse_env \<Rightarrow> message \<Rightarrow> sse_event_type \<Rightarrow> string \<Rightarrow> err + string \<times> sse_frame_kind" where
  "notification_to_sse_event env m t request_id =
    (case bind_res (create_cloud_event_from_notification (env_host env) (env_sdk env) (env_schemas env)
                      (env_now env) m (env_base_url env)) (sdk_value (env_sdk env)) of
       Inr data \<Rightarrow> Inr (format_sse_event (env_host env) t data, KNotification)
     | Inl e \<Rightarrow>
         Inr (format_sse_event (env_host env) ErrorEvent (json_object
                [(''error'', JString ''CloudEvent creation failed''), (''message'', JString (outer_msg e)),
                 (''topic'', JString (decode_subject_for_display (m_topic m))),
                 (''sequence'', nat_json (m_sequence m)), (''request_id'', JString request_id)]),
              KStreamError))"

definition limit_text :: "nat \<Rightarrow> string" where
  "limit_text n = ''Historical replay limited to '' @ show_nat n @
     '' messages. Additional historical messages may be available but were not retrieved.''"

fun control_json :: "(int \<Rightarrow> string) \<Rightarrow> control_event \<Rightarrow> sse_event_type \<times> json" where
  "control_json time (ConnectionEstablished topic timestamp secs request_id) =
    (LiveNotification, json_object
       [(''type'', JString ''connection_established''), (''topic'', JString (decode_subject_for_display topic)),
        (''timestamp'', JString (time timestamp)), (''connection_will_close_in_seconds'', nat_json secs),
        (''request_id'', JString request_id)])"
| "control_json time (ReplayStarted topic from_sequence from_date end_sequence to_date batch_size timestamp request_id) =
    (ReplayControl, json_object
       [(''type'', JString ''replay_started''), (''topic'', JString (decode_subject_for_display topic)),
        (''from_sequence'', option_json nat_json from_sequence),
        (''from_date'', option_json (\<lambda>d. JString (time d)) from_date),
        (''end_sequence'', option_json nat_json end_sequence),
        (''to_date'', option_json (\<lambda>d. JString (time d)) to_date),
        (''batch_size'', nat_json batch_size), (''timestamp'', JString (time timestamp)),
        (''request_id'', JString request_id)])"
| "control_json time (ReplayCompleted topic timestamp) =
    (ReplayControl, json_object
       [(''type'', JString ''replay_completed''), (''topic'', JString (decode_subject_for_display topic)),
        (''timestamp'', JString (time timestamp))])"
| "control_json time (ReplayLimitReached topic max_allowed timestamp) =
    (ReplayControl, json_object
       [(''type'', JString ''notification_replay_limit_reached''),
        (''topic'', JString (decode_subject_for_display topic)), (''max_allowed'', nat_json max_allowed),
        (''message'', JString (limit_text max_allowed)), (''timestamp'', JString (time timestamp))])"

definition stream_error_json :: "string \<Rightarrow> string \<Rightarrow> string \<Rightarrow> json" where
  "stream_error_json topic msg request_id = json_object
     [(''error'', JString ''stream_processing_failed''), (''message'', JString msg),
      (''topic'', JString (decode_subject_for_display topic)), (''request_id'', JString request_id)]"

fun close_text :: "close_reason \<Rightarrow> string \<times> string" where
  "close_text ServerShutdown = (''server_shutdown'', ''Server is shutting down gracefully'')"
| "close_text MaxDurationReached = (''max_duration_reached'', ''Connection reached maximum duration'')"
| "close_text EndOfStream = (''end_of_stream'', ''Stream completed'')"

fun frame_to_sse_bytes ::
  "('poly, 'rect) sse_env \<Rightarrow> string \<Rightarrow> stream_frame \<Rightarrow> err + string \<times> sse_frame_kind" where
  "frame_to_sse_bytes env request_id (Rendered bytes kind) = Inr (bytes, kind)"
| "frame_to_sse_bytes env request_id (NotificationFrame m kind) =
     notification_to_sse_event env m
       (case kind of DeliverLive \<Rightarrow> LiveNotification | DeliverReplay \<Rightarrow> ReplayNotification) request_id"
| "frame_to_sse_bytes env request_id (Control c) =
    (case control_json (env_time_text env) c of
       (t, data) \<Rightarrow> Inr (format_sse_event (env_host env) t data, KInfrastructure))"
| "frame_to_sse_bytes env request_id (Heartbeat topic timestamp) =
     Inr (format_sse_event (env_host env) HeartbeatEvent (json_object
            [(''timestamp'', JString (env_time_text env timestamp)),
             (''topic'', JString (decode_subject_for_display topic))]), KInfrastructure)"
| "frame_to_sse_bytes env request_id (ErrorFrame topic msg rid) =
     Inr (format_sse_event (env_host env) ErrorEvent (stream_error_json topic msg rid), KStreamError)"
| "frame_to_sse_bytes env request_id (ReplayFailed topic msg rid) =
     Inr (format_sse_event (env_host env) ErrorEvent (stream_error_json topic msg rid), KStreamError)"
| "frame_to_sse_bytes env request_id (CloseFrame topic reason timestamp rid) =
     Inr (format_sse_event (env_host env) ConnectionClosing (json_object
            [(''reason'', JString (fst (close_text reason))),
             (''timestamp'', JString (env_time_text env timestamp)),
             (''message'', JString (snd (close_text reason))),
             (''topic'', JString (decode_subject_for_display topic)), (''request_id'', JString rid)]),
          KInfrastructure)"

text \<open>Delivery counters: events sent and stream errors.\<close>
definition record_frame_delivery :: "(nat \<times> nat) option \<Rightarrow> sse_frame_kind \<Rightarrow> (nat \<times> nat) option" where
  "record_frame_delivery delivery kind =
     map_option (\<lambda>(sent, errors).
       case kind of
         KNotification \<Rightarrow> (sent + 1, errors)
       | KStreamError \<Rightarrow> (sent, errors + 1)
       | KInfrastructure \<Rightarrow> (sent, errors)) delivery"

fun frames_to_sse_byte_stream ::
  "('poly, 'rect) sse_env \<Rightarrow> string \<Rightarrow> (nat \<times> nat) option \<Rightarrow> stream_frame list \<Rightarrow>
   (err + string) list \<times> (nat \<times> nat) option" where
  "frames_to_sse_byte_stream env rid delivery [] = ([], delivery)"
| "frames_to_sse_byte_stream env rid delivery (f # fs) =
    (case frame_to_sse_bytes env rid f of
       Inl e \<Rightarrow> (case frames_to_sse_byte_stream env rid delivery fs of (out, d) \<Rightarrow> (Inl e # out, d))
     | Inr (bytes, kind) \<Rightarrow>
         (case frames_to_sse_byte_stream env rid (record_frame_delivery delivery kind) fs of
            (out, d) \<Rightarrow> (Inr bytes # out, d)))"

section \<open>The end of a stream\<close>

fun is_replay_terminal :: "stream_frame \<Rightarrow> bool" where
  "is_replay_terminal (Control (ReplayLimitReached _ _ _)) = True"
| "is_replay_terminal (ReplayFailed _ _ _) = True"
| "is_replay_terminal _ = False"

fun until_replay_terminal :: "stream_frame list \<Rightarrow> stream_frame list" where
  "until_replay_terminal [] = []"
| "until_replay_terminal (f # fs) = (if is_replay_terminal f then [f] else f # until_replay_terminal fs)"

text \<open>
  The stop future: with a maximum duration it ends by the shutdown signal or the timer,
  without one by the signal only. \<open>stop\<close> says after how many yielded frames the future is
  found completed, and which branch completed it; \<open>None\<close> when it never completes before
  the stream ends.
\<close>
datatype stop_cause = ShutdownSignal | DurationElapsed

definition stop_possible :: "nat option \<Rightarrow> (nat \<times> stop_cause) option \<Rightarrow> bool" where
  "stop_possible max_duration stop =
    (case stop of Some (_, DurationElapsed) \<Rightarrow> max_duration \<noteq> None | _ \<Rightarrow> True)"

fun close_code :: "stop_cause \<Rightarrow> nat" where
  "close_code ShutdownSignal = 1"
| "close_code DurationElapsed = 2"

definition reason_of_code :: "nat \<Rightarrow> close_reason" where
  "reason_of_code n = (if n = 1 then ServerShutdown else if n = 2 then MaxDurationReached else EndOfStream)"

definition apply_stream_lifecycle ::
  "stream_frame list \<Rightarrow> string \<Rightarrow> (nat \<times> stop_cause) option \<Rightarrow> string \<Rightarrow> int \<Rightarrow> stream_frame list" where
  "apply_stream_lifecycle frames topic stop request_id now =
     (let graceful = until_replay_terminal frames;
          (yielded, code) =
            (case stop of
               Some (n, cause) \<Rightarrow> if n \<le> length graceful then (take n graceful, close_code cause) else (graceful, 0)
             | None \<Rightarrow> (graceful, 0))
      in yielded @ [CloseFrame topic (reason_of_code code) now request_id])"

section \<open>Live frames\<close>

definition filter_notification_message ::
  "('poly, 'rect) sse_env \<Rightarrow> string alist \<Rightarrow> identifier_constraint alist \<Rightarrow>
   ('poly, 'rect) prepared_filter option \<Rightarrow> message \<Rightarrow> message option" where
  "filter_notification_message env params cons prepared m =
    (if matches_notification_filters_prepared (env_host env) (env_geo env) (env_schemas env)
          (m_topic m) params cons prepared (m_metadata m) (m_payload m)
     then Some m else None)"

definition create_live_notification_stream :: "message list \<Rightarrow> stream_frame list" where
  "create_live_notification_stream ms = map (\<lambda>m. NotificationFrame m DeliverLive) ms"

text \<open>\<open>StreamExt::merge\<close>: any interleaving of the two streams, each in its own order.\<close>
inductive merges :: "'a list \<Rightarrow> 'a list \<Rightarrow> 'a list \<Rightarrow> bool" where
  MergeNil: "merges [] [] []"
| MergeLeft: "merges xs ys zs \<Longrightarrow> merges (x # xs) ys (x # zs)"
| MergeRight: "merges xs ys zs \<Longrightarrow> merges xs (y # ys) (y # zs)"

section \<open>Facts\<close>

lemma frame_to_sse_bytes_total: "\<exists>bytes kind. frame_to_sse_bytes env rid f = Inr (bytes, kind)"
  by (cases "(env, rid, f)" rule: frame_to_sse_bytes.cases)
    (auto simp: notification_to_sse_event_def split: sum.splits prod.splits)

lemma until_replay_terminal_prefix: "\<exists>rest. fs = until_replay_terminal fs @ rest"
  by (induction fs) auto

lemma until_replay_terminal_butlast: "\<forall>f\<in>set (butlast (until_replay_terminal fs)). \<not> is_replay_terminal f"
  by (induction fs) auto

lemma until_replay_terminal_id: "\<forall>f\<in>set fs. \<not> is_replay_terminal f \<Longrightarrow> until_replay_terminal fs = fs"
  by (induction fs) auto

lemma until_replay_terminal_append:
  "\<forall>f\<in>set fs. \<not> is_replay_terminal f \<Longrightarrow> until_replay_terminal (fs @ gs) = fs @ until_replay_terminal gs"
  by (induction fs) auto

lemma merges_mset: "merges xs ys zs \<Longrightarrow> set zs = set xs \<union> set ys \<and> length zs = length xs + length ys"
  by (induction rule: merges.induct) auto

lemma merges_filter: "merges xs ys zs \<Longrightarrow> \<forall>x\<in>set xs. P x \<Longrightarrow> \<forall>y\<in>set ys. \<not> P y \<Longrightarrow> filter P zs = xs"
  by (induction rule: merges.induct) auto

end
