(* ===== verification/Replay.thy ===== *)
theory Replay
  imports Sse Backend
begin

text \<open>
  Historical replay, \<open>src/sse/replay.rs\<close>, and the live stream of \<open>src/sse/live.rs\<close>. The
  replay loop reads batch after batch; \<open>fetch k\<close> is the answer of the backend to the read
  number \<open>k\<close>, so that the backend may change between two reads. The loop has fuel, one unit
  per read and one for the end: \<open>None\<close> means that the fuel did not suffice. The clock is
  read only for timestamps of frames and is one value per stream.
\<close>

section \<open>The replay loop\<close>

record ('poly, 'rect) replay_request =
  rr_topic :: string
  rr_params :: "string alist"
  rr_constraints :: "identifier_constraint alist"
  rr_prepared :: "('poly, 'rect) prepared_filter option"
  rr_request_id :: string
  rr_max_allowed :: nat

record replay_state =
  rs_params :: batch_params
  rs_has_more :: bool
  rs_delivered :: nat

definition selects :: "('poly, 'rect) sse_env \<Rightarrow> ('poly, 'rect) replay_request \<Rightarrow> message \<Rightarrow> bool" where
  "selects env rr m =
     matches_notification_filters_prepared (env_host env) (env_geo env) (env_schemas env)
       (m_topic m) (rr_params rr) (rr_constraints rr) (rr_prepared rr) (m_metadata m) (m_payload m)"

text \<open>
  The loop over a batch: its frames, the number delivered so far, and whether the limit
  frame ended it.
\<close>
fun scan_batch ::
  "('poly, 'rect) sse_env \<Rightarrow> ('poly, 'rect) replay_request \<Rightarrow> nat \<Rightarrow> message list \<Rightarrow>
   stream_frame list \<times> nat \<times> bool" where
  "scan_batch env rr delivered [] = ([], delivered, False)"
| "scan_batch env rr delivered (m # ms) =
    (if \<not> selects env rr m then scan_batch env rr delivered ms
     else (case frame_to_sse_bytes env (rr_request_id rr) (NotificationFrame m DeliverReplay) of
       Inl e \<Rightarrow>
         (case scan_batch env rr delivered ms of (fs, d, b) \<Rightarrow>
            (ErrorFrame (rr_topic rr) (outer_msg e) (rr_request_id rr) # fs, d, b))
     | Inr (bytes, kind) \<Rightarrow>
         if kind \<noteq> KNotification
         then (case scan_batch env rr delivered ms of (fs, d, b) \<Rightarrow> (Rendered bytes kind # fs, d, b))
         else if delivered = rr_max_allowed rr
         then ([Control (ReplayLimitReached (rr_topic rr) (rr_max_allowed rr) (env_now env))], delivered, True)
         else (case scan_batch env rr (delivered + 1) ms of (fs, d, b) \<Rightarrow> (Rendered bytes kind # fs, d, b))))"

definition replay_step ::
  "('poly, 'rect) sse_env \<Rightarrow> ('poly, 'rect) replay_request \<Rightarrow> (batch_params \<Rightarrow> err + batch_result) \<Rightarrow>
   replay_state \<Rightarrow> (stream_frame list \<times> replay_state) option" where
  "replay_step env rr fetch st =
    (if \<not> rs_has_more st then None
     else (case fetch (rs_params st) of
       Inr r \<Rightarrow>
         (let params = (case br_next_sequence r of
                          Some n \<Rightarrow> with_sequence n (rs_params st) | None \<Rightarrow> rs_params st)
          in case scan_batch env rr (rs_delivered st) (br_messages r) of (frames, delivered, stopped) \<Rightarrow>
            Some (frames, \<lparr>rs_params = params, rs_has_more = (br_has_more r \<and> \<not> stopped),
                           rs_delivered = delivered\<rparr>))
     | Inl e \<Rightarrow>
         Some ([ReplayFailed (bp_topic (rs_params st)) (outer_msg e) (rr_request_id rr)],
               st\<lparr>rs_has_more := False\<rparr>)))"

fun replay_loop ::
  "('poly, 'rect) sse_env \<Rightarrow> ('poly, 'rect) replay_request \<Rightarrow> (nat \<Rightarrow> batch_params \<Rightarrow> err + batch_result) \<Rightarrow>
   nat \<Rightarrow> nat \<Rightarrow> replay_state \<Rightarrow> stream_frame list option" where
  "replay_loop env rr fetch 0 k st = None"
| "replay_loop env rr fetch (Suc fuel) k st =
    (case replay_step env rr (fetch k) st of
       None \<Rightarrow> Some []
     | Some (frames, st') \<Rightarrow> map_option (append frames) (replay_loop env rr fetch fuel (Suc k) st'))"

definition initial_replay_state :: "string \<Rightarrow> nat \<Rightarrow> start_at \<Rightarrow> nat \<Rightarrow> replay_state" where
  "initial_replay_state topic batch_size start_at end_sequence =
     \<lparr>rs_params = with_end_sequence end_sequence (with_start_at start_at (new_batch_params topic batch_size)),
      rs_has_more = True, rs_delivered = 0\<rparr>"

definition create_historical_replay_stream ::
  "('poly, 'rect) sse_env \<Rightarrow> ('poly, 'rect) replay_request \<Rightarrow> (nat \<Rightarrow> batch_params \<Rightarrow> err + batch_result) \<Rightarrow>
   nat \<Rightarrow> nat \<Rightarrow> start_at \<Rightarrow> nat \<Rightarrow> stream_frame list option" where
  "create_historical_replay_stream env rr fetch fuel batch_size start_at end_sequence =
     replay_loop env rr fetch fuel 0 (initial_replay_state (rr_topic rr) batch_size start_at end_sequence)"

section \<open>The end point\<close>

definition resolve_end_sequence ::
  "(string \<Rightarrow> err + nat) \<Rightarrow> (string \<Rightarrow> int \<Rightarrow> err + nat option) \<Rightarrow> string \<Rightarrow> end_at \<Rightarrow> err + nat" where
  "resolve_end_sequence get_history_end get_first_after topic end_at =
     bind_res (get_history_end topic) (\<lambda>last_seq.
       case end_at of
         EndLatest \<Rightarrow> Inr last_seq
       | EndSequence to_id \<Rightarrow> Inr (min last_seq to_id)
       | EndDate to_date \<Rightarrow>
           map_res (\<lambda>first_after. case first_after of
               Some n \<Rightarrow> min last_seq (n - 1) | None \<Rightarrow> last_seq)
             (get_first_after topic to_date))"

section \<open>The streams of the endpoints\<close>

definition reported_end :: "end_at \<Rightarrow> nat \<Rightarrow> nat option \<times> int option" where
  "reported_end end_at end_sequence =
    (case end_at of EndLatest \<Rightarrow> (None, None) | EndSequence _ \<Rightarrow> (Some end_sequence, None)
     | EndDate d \<Rightarrow> (Some end_sequence, Some d))"

definition replay_start_frame ::
  "('poly, 'rect) sse_env \<Rightarrow> ('poly, 'rect) replay_request \<Rightarrow> nat \<Rightarrow> start_at \<Rightarrow> nat option \<times> int option \<Rightarrow> stream_frame" where
  "replay_start_frame env rr batch_size start_at reported =
    (case as_replay_cursor start_at of (from_sequence, from_date) \<Rightarrow>
       Control (ReplayStarted (rr_topic rr) from_sequence from_date (fst reported) (snd reported)
                  batch_size (env_now env) (rr_request_id rr)))"

definition replay_completed_frame :: "('poly, 'rect) sse_env \<Rightarrow> ('poly, 'rect) replay_request \<Rightarrow> stream_frame" where
  "replay_completed_frame env rr = Control (ReplayCompleted (rr_topic rr) (env_now env))"

text \<open>The replay endpoint: start, history, completion, under the lifecycle without a timer.\<close>
definition create_replay_only_stream ::
  "('poly, 'rect) sse_env \<Rightarrow> ('poly, 'rect) replay_request \<Rightarrow> (nat \<Rightarrow> batch_params \<Rightarrow> err + batch_result) \<Rightarrow>
   nat \<Rightarrow> nat \<Rightarrow> start_at \<Rightarrow> end_at \<Rightarrow> nat \<Rightarrow> (nat \<times> stop_cause) option \<Rightarrow> stream_frame list option" where
  "create_replay_only_stream env rr fetch fuel batch_size start_at end_at end_sequence stop =
     map_option (\<lambda>history.
       apply_stream_lifecycle
         (replay_start_frame env rr batch_size start_at (reported_end end_at end_sequence) # history @
          [replay_completed_frame env rr])
         (rr_topic rr) stop (rr_request_id rr) (env_now env))
       (create_historical_replay_stream env rr fetch fuel batch_size start_at end_sequence)"

text \<open>The watch endpoint with a start: history, completion, then the live notifications.\<close>
definition history_then_live ::
  "('poly, 'rect) sse_env \<Rightarrow> ('poly, 'rect) replay_request \<Rightarrow> stream_frame list \<Rightarrow> message list \<Rightarrow> stream_frame list" where
  "history_then_live env rr history live =
     history @ replay_completed_frame env rr #
     create_live_notification_stream
       (List.map_filter (filter_notification_message env (rr_params rr) (rr_constraints rr) (rr_prepared rr)) live)"

text \<open>
  All frames of a watch with a start: the start frame comes first, then the history and the
  live part interleaved with the heartbeats \<open>beats\<close> in the order \<open>merged\<close>.
\<close>
definition create_historical_then_live_stream ::
  "('poly, 'rect) sse_env \<Rightarrow> ('poly, 'rect) replay_request \<Rightarrow> nat \<Rightarrow> start_at \<Rightarrow> stream_frame list \<Rightarrow>
   (nat \<times> stop_cause) option \<Rightarrow> stream_frame list" where
  "create_historical_then_live_stream env rr batch_size start_at merged stop =
     apply_stream_lifecycle (replay_start_frame env rr batch_size start_at (None, None) # merged)
       (rr_topic rr) stop (rr_request_id rr) (env_now env)"

text \<open>The watch endpoint without a start.\<close>
definition create_watch_sse_stream ::
  "('poly, 'rect) sse_env \<Rightarrow> ('poly, 'rect) replay_request \<Rightarrow> nat \<Rightarrow> stream_frame list \<Rightarrow>
   (nat \<times> stop_cause) option \<Rightarrow> stream_frame list" where
  "create_watch_sse_stream env rr secs merged stop =
     apply_stream_lifecycle
       (Control (ConnectionEstablished (rr_topic rr) (env_now env) secs (rr_request_id rr)) # merged)
       (rr_topic rr) stop (rr_request_id rr) (env_now env)"

section \<open>Scanning\<close>

definition renders :: "('poly, 'rect) sse_env \<Rightarrow> ('poly, 'rect) replay_request \<Rightarrow> message \<Rightarrow> string \<times> sse_frame_kind" where
  "renders env rr m =
    (case frame_to_sse_bytes env (rr_request_id rr) (NotificationFrame m DeliverReplay) of
       Inr r \<Rightarrow> r | Inl e \<Rightarrow> ([], KStreamError))"

definition deliverable :: "('poly, 'rect) sse_env \<Rightarrow> ('poly, 'rect) replay_request \<Rightarrow> message \<Rightarrow> bool" where
  "deliverable env rr m = (selects env rr m \<and> snd (renders env rr m) = KNotification)"

lemma scan_batch_Cons:
  "scan_batch env rr delivered (m # ms) =
    (if \<not> selects env rr m then scan_batch env rr delivered ms
     else if deliverable env rr m \<and> delivered = rr_max_allowed rr
     then ([Control (ReplayLimitReached (rr_topic rr) (rr_max_allowed rr) (env_now env))], delivered, True)
     else (case scan_batch env rr (if deliverable env rr m then delivered + 1 else delivered) ms of
             (fs, d, b) \<Rightarrow> (Rendered (fst (renders env rr m)) (snd (renders env rr m)) # fs, d, b)))"
proof -
  obtain bytes kind where "frame_to_sse_bytes env (rr_request_id rr) (NotificationFrame m DeliverReplay) = Inr (bytes, kind)"
    using frame_to_sse_bytes_total by blast
  then show ?thesis by (auto simp: deliverable_def renders_def split: prod.splits)
qed

lemmas scan_simps = scan_batch.simps(1) scan_batch_Cons
declare scan_batch.simps(2) [simp del]

text \<open>Scanning in two parts.\<close>
lemma scan_append:
  "scan_batch env rr d (xs @ ys) =
    (case scan_batch env rr d xs of (fs, d', b) \<Rightarrow>
       if b then (fs, d', b)
       else (case scan_batch env rr d' ys of (gs, d'', c) \<Rightarrow> (fs @ gs, d'', c)))"
  by (induction xs arbitrary: d) (auto simp: scan_simps split: prod.splits)

lemma scan_delivered:
  assumes "d \<le> rr_max_allowed rr" "scan_batch env rr d ms = (fs, d', b)"
  shows "d' = min (rr_max_allowed rr) (d + length (filter (deliverable env rr) ms)) \<and>
         (b \<longleftrightarrow> rr_max_allowed rr < d + length (filter (deliverable env rr) ms))"
  using assms
proof (induction ms arbitrary: d fs)
  case (Cons m ms)
  have "d + 1 \<le> rr_max_allowed rr" if "d \<noteq> rr_max_allowed rr" using Cons.prems(1) that by simp
  moreover have "selects env rr m" if "deliverable env rr m" using that by (simp add: deliverable_def)
  ultimately show ?case using Cons.prems Cons.IH [of d] Cons.IH [of "d + 1"]
    by (auto simp: scan_simps split: if_splits prod.splits)
qed (simp add: scan_simps)

text \<open>The notification frames of a scan, up to the limit.\<close>
definition delivered_frames :: "stream_frame list \<Rightarrow> stream_frame list" where
  "delivered_frames fs = filter (\<lambda>f. case f of Rendered _ k \<Rightarrow> k = KNotification | _ \<Rightarrow> False) fs"

lemma scan_notifications:
  assumes "d \<le> rr_max_allowed rr" "scan_batch env rr d ms = (fs, d', b)"
  shows "delivered_frames fs =
         map (\<lambda>m. Rendered (fst (renders env rr m)) KNotification)
           (take (rr_max_allowed rr - d) (filter (deliverable env rr) ms))"
  using assms
proof (induction ms arbitrary: d fs)
  case (Cons m ms)
  have d: "d + 1 \<le> rr_max_allowed rr \<and> rr_max_allowed rr - d = Suc (rr_max_allowed rr - (d + 1))"
    if "d \<noteq> rr_max_allowed rr" using Cons.prems(1) that by simp
  have sel: "selects env rr m" "snd (renders env rr m) = KNotification" if "deliverable env rr m"
    using that by (simp_all add: deliverable_def)
  have nod: "snd (renders env rr m) \<noteq> KNotification" if "\<not> deliverable env rr m" "selects env rr m"
    using that by (simp add: deliverable_def)
  show ?case using Cons.prems Cons.IH [of d] Cons.IH [of "d + 1"] d sel nod
    by (auto simp: scan_simps delivered_frames_def split: if_splits prod.splits)
qed (simp add: scan_simps delivered_frames_def)

lemma scan_terminal:
  "scan_batch env rr d ms = (fs, d', b) \<Longrightarrow>
   \<exists>pre. fs = pre @ (if b then [Control (ReplayLimitReached (rr_topic rr) (rr_max_allowed rr) (env_now env))] else []) \<and>
         (\<forall>f\<in>set pre. \<exists>bytes kind. f = Rendered bytes kind)"
  by (induction ms arbitrary: d fs) (fastforce simp: scan_simps split: if_splits prod.splits)+

section \<open>The loop over a changing backend\<close>

abbreviation batch_at :: "string \<Rightarrow> nat \<Rightarrow> nat \<Rightarrow> start_at \<Rightarrow> batch_params" where
  "batch_at topic mx e st \<equiv> \<lparr>bp_topic = topic, bp_start_at = st, bp_limit = mx, bp_end_sequence = e\<rparr>"

text \<open>A start that selects a message selects the later ones.\<close>
definition start_closed :: "start_at \<Rightarrow> message list \<Rightarrow> bool" where
  "start_closed st ms =
    (\<forall>m\<in>set ms. \<forall>m'\<in>set ms. starts_at st m \<longrightarrow> m_sequence m \<le> m_sequence m' \<longrightarrow> starts_at st m')"

lemma start_closed_sequence [simp]: "start_closed (StartSequence n) ms"
  by (auto simp: start_closed_def starts_at_def)

lemma start_closed_live [simp]: "start_closed LiveOnly ms"
  by (simp add: start_closed_def starts_at_def)

lemma set_eligible:
  "set (eligible (batch_at topic mx e st) ms) = {m \<in> set ms. m_sequence m \<le> e \<and> starts_at st m}"
  by (auto simp: eligible_def)

lemma ascending_eligible: "ascending ms \<Longrightarrow> ascending (eligible p ms)"
  unfolding eligible_def by (rule sorted_wrt_filter)

lemma ascending_distinct: "ascending ms \<Longrightarrow> distinct ms"
  by (induction ms) auto

context history_backend
begin

definition fading :: "nat \<Rightarrow> (nat \<Rightarrow> 's) \<Rightarrow> string \<Rightarrow> (nat \<Rightarrow> message list) \<Rightarrow> bool" where
  "fading e s topic H =
    ((\<forall>k. inv (s k) \<and> history (s k) topic = Inr (H k)) \<and>
     (\<forall>k. \<forall>m\<in>set (H (Suc k)). m_sequence m \<le> e \<longrightarrow> m \<in> set (H k)))"

lemma fading_ascending: "fading e s topic H \<Longrightarrow> ascending (H k)"
  using history_ascending by (auto simp: fading_def)

text \<open>The messages the next read can return come after those of this page.\<close>
lemma next_eligible:
  assumes "fading e s topic H" "start_closed st (H k)" "0 < mx"
    "el = eligible (batch_at topic mx e st) (H k)" "mx < length el"
    "el' = eligible (batch_at topic mx e (StartSequence (Suc (m_sequence (last (take mx el)))))) (H (Suc k))"
  shows "set el' \<subseteq> set (drop mx el)" "length el' < length el"
    "\<And>m. m \<in> set (drop mx el) \<Longrightarrow> m \<in> set (H (Suc k)) \<Longrightarrow> m \<in> set el'"
proof -
  have el: "ascending el" unfolding assms(4)
    by (rule ascending_eligible) (rule fading_ascending [OF assms(1)])
  have el': "ascending el'" unfolding assms(6)
    by (rule ascending_eligible) (rule fading_ascending [OF assms(1)])
  have page: "take mx el \<noteq> []" using assms(3,5) by (cases el) auto
  let ?last = "last (take mx el)"
  have l: "?last \<in> set (take mx el)" using page by (rule last_in_set)
  then have lel: "?last \<in> set el" by (rule in_set_takeD)
  have app: "ascending (take mx el @ drop mx el)" using el by simp
  have set_el: "set el = {m \<in> set (H k). m_sequence m \<le> e \<and> starts_at st m}"
    by (simp add: assms(4) set_eligible)
  have tk: "ascending (take mx el)" using app unfolding sorted_wrt_append by blast
  show sub: "set el' \<subseteq> set (drop mx el)"
  proof
    fix m assume "m \<in> set el'"
    then have m: "m \<in> set (H (Suc k))" "m_sequence m \<le> e" "m_sequence ?last < m_sequence m"
      by (auto simp: assms(6) set_eligible starts_at_def)
    have mk: "m \<in> set (H k)" using assms(1) m(1,2) unfolding fading_def by blast
    have lk: "?last \<in> set (H k)" "starts_at st ?last" using lel set_el by blast+
    have "starts_at st m" using assms(2) mk lk m(3) unfolding start_closed_def by (meson less_imp_le)
    then have "m \<in> set el" using mk m(2) set_el by blast
    moreover have "m \<notin> set (take mx el)"
      using ascending_last [OF tk, of m] m(3) by (meson leD)
    ultimately show "m \<in> set (drop mx el)" by (metis Un_iff append_take_drop_id set_append)
  qed
  have "length el' = card (set el')" using ascending_distinct [OF el'] by (simp add: distinct_card)
  also have "\<dots> \<le> card (set (drop mx el))" using sub by (intro card_mono) auto
  also have "\<dots> \<le> length (drop mx el)" by (rule card_length)
  also have "\<dots> < length el" using assms(3,5) by simp
  finally show "length el' < length el" .
  show "m \<in> set el'" if m: "m \<in> set (drop mx el)" "m \<in> set (H (Suc k))" for m
  proof -
    have "m_sequence ?last < m_sequence m" using ascending_appendD [OF app l m(1)] .
    moreover have "m \<in> set el" using m(1) by (rule in_set_dropD)
    then have "m_sequence m \<le> e" by (simp add: assms(4) set_eligible)
    ultimately show ?thesis using m(2) by (simp add: assms(6) set_eligible starts_at_def)
  qed
qed

lemma replay_step_page:
  assumes "fading e s topic H" "el = eligible (batch_at topic mx e st) (H k)" "0 < mx"
    "scan_batch env rr d (take mx el) = (fs, d', b)"
  shows "replay_step env rr (fetch (s k)) \<lparr>rs_params = batch_at topic mx e st, rs_has_more = True, rs_delivered = d\<rparr> =
     Some (fs, \<lparr>rs_params = (if el = [] then batch_at topic mx e st
                             else batch_at topic mx e (StartSequence (Suc (m_sequence (last (take mx el)))))),
                rs_has_more = (mx < length el \<and> \<not> b), rs_delivered = d'\<rparr>)"
proof -
  have "fetch (s k) (batch_at topic mx e st) = Inr (page_of (batch_at topic mx e st) (H k))"
    using assms(1) by (intro fetch_page) (auto simp: fading_def)
  then show ?thesis using assms(3,4)
    by (auto simp: replay_step_def page_of_def Let_def assms(2) [symmetric] last_of_def with_sequence_def)
qed

lemma loop_scans:
  assumes "fading e s topic H" "0 < mx" "d \<le> rr_max_allowed rr" "start_closed st (H k)"
    "length (eligible (batch_at topic mx e st) (H k)) + 2 \<le> fuel"
  shows "\<exists>L. replay_loop env rr (\<lambda>j. fetch (s j)) fuel k
               \<lparr>rs_params = batch_at topic mx e st, rs_has_more = True, rs_delivered = d\<rparr> =
             Some (fst (scan_batch env rr d L)) \<and> ascending L \<and>
             set L \<subseteq> {m \<in> set (H k). m_sequence m \<le> e \<and> starts_at st m} \<and>
             {m. (\<forall>j\<ge>k. m \<in> set (H j)) \<and> m_sequence m \<le> e \<and> starts_at st m} \<subseteq> set L"
  using assms(3-5)
proof (induction fuel arbitrary: k st d)
  case (Suc fuel)
  define el where "el = eligible (batch_at topic mx e st) (H k)"
  have el: "ascending el" unfolding el_def
    by (rule ascending_eligible) (rule fading_ascending [OF assms(1)])
  have set_el: "set el = {m \<in> set (H k). m_sequence m \<le> e \<and> starts_at st m}"
    by (simp add: el_def set_eligible)
  obtain fs d' b where scan: "scan_batch env rr d (take mx el) = (fs, d', b)" by (metis prod_cases3)
  note step = replay_step_page [OF assms(1) el_def assms(2) scan]
  obtain f where f: "fuel = Suc f" using Suc.prems(3) by (cases fuel) auto
  show ?case
  proof (cases "mx < length el \<and> \<not> b")
    case False
    then have "replay_loop env rr (\<lambda>j. fetch (s j)) (Suc fuel) k
        \<lparr>rs_params = batch_at topic mx e st, rs_has_more = True, rs_delivered = d\<rparr> = Some fs"
      by (simp only: replay_loop.simps step option.case prod.case f) (simp add: replay_step_def)
    moreover have "fs = fst (scan_batch env rr d el)"
    proof (cases b)
      case True
      have "scan_batch env rr d (take mx el @ drop mx el) = (fs, d', b)"
        unfolding scan_append scan using True by simp
      then show ?thesis by simp
    next
      case b: False
      then have "take mx el = el" using False by simp
      then show ?thesis using scan by simp
    qed
    ultimately show ?thesis using el set_el by (intro exI [of _ el]) auto
  next
    case True
    define st' where "st' = StartSequence (Suc (m_sequence (last (take mx el))))"
    define el' where "el' = eligible (batch_at topic mx e st') (H (Suc k))"
    note nxt = next_eligible [OF assms(1) Suc.prems(2) assms(2) el_def _ el'_def [unfolded st'_def]]
    have d': "d' \<le> rr_max_allowed rr" using scan_delivered [OF Suc.prems(1) scan] by simp
    have "length el' + 2 \<le> fuel" using nxt(2) True Suc.prems(3) by (simp add: el_def [symmetric])
    with Suc.IH [OF d', of st' "Suc k"] obtain L' where L':
      "replay_loop env rr (\<lambda>j. fetch (s j)) fuel (Suc k)
         \<lparr>rs_params = batch_at topic mx e st', rs_has_more = True, rs_delivered = d'\<rparr> =
       Some (fst (scan_batch env rr d' L'))" "ascending L'" "set L' \<subseteq> set el'"
      "{m. (\<forall>j\<ge>Suc k. m \<in> set (H j)) \<and> m_sequence m \<le> e \<and> starts_at st' m} \<subseteq> set L'"
      by (auto simp: st'_def el'_def set_eligible)
    let ?L = "take mx el @ L'"
    have app: "ascending (take mx el @ drop mx el)" using el by simp
    have loop: "replay_loop env rr (\<lambda>j. fetch (s j)) (Suc fuel) k
        \<lparr>rs_params = batch_at topic mx e st, rs_has_more = True, rs_delivered = d\<rparr> =
        Some (fs @ fst (scan_batch env rr d' L'))"
      using step True L'(1) by (auto simp: st'_def)
    have "m_sequence x < m_sequence y" if "x \<in> set (take mx el)" "y \<in> set L'" for x y
      using ascending_appendD [OF app that(1), of y] that(2) L'(3) nxt(1) True by blast
    moreover have "ascending (take mx el)" using app unfolding sorted_wrt_append by blast
    ultimately have asc: "ascending ?L" using L'(2) by (simp add: sorted_wrt_append)
    have frames: "fst (scan_batch env rr d ?L) = fs @ fst (scan_batch env rr d' L')"
      unfolding scan_append scan using True by (simp split: prod.split)
    have "set ?L \<subseteq> set el"
      using L'(3) nxt(1) True by (auto dest: in_set_takeD in_set_dropD)
    moreover have "m \<in> set ?L" if m: "\<forall>j\<ge>k. m \<in> set (H j)" "m_sequence m \<le> e" "starts_at st m" for m
    proof (cases "m \<in> set (take mx el)")
      case False
      have "m \<in> set el" using m by (auto simp: set_el)
      then have "m \<in> set (drop mx el)" using False by (metis Un_iff append_take_drop_id set_append)
      then have "m \<in> set el'" using nxt(3) True m(1) by auto
      then have "starts_at st' m" by (simp add: el'_def set_eligible)
      then have "m \<in> set L'" using L'(4) m by auto
      then show ?thesis by simp
    qed simp
    ultimately show ?thesis using asc frames loop unfolding set_el by (intro exI [of _ ?L]) auto
  qed
qed simp

end

end
