(* ===== verification/Retention.thy ===== *)
theory Retention
  imports Backend Routing
begin

text \<open>
  Properties of the in-memory backend: what its histories look like in every reachable
  state, what storing evicts, what the administrative operations remove, and what a batch
  read returns. They are applied to a backend that keeps two messages of two topics.
\<close>

section \<open>Deletion\<close>

lemma remove_at_filter:
  assumes "distinct (map m_sequence xs)" "position (\<lambda>m. m_sequence m = n) xs = Some i"
  shows "remove_at i xs = filter (\<lambda>m. m_sequence m \<noteq> n) xs"
  using assms
proof (induction xs arbitrary: i)
  case (Cons x xs)
  show ?case
  proof (cases "m_sequence x = n")
    case True
    then have "n \<notin> m_sequence ` set xs" using Cons.prems(1) by auto
    then have "filter (\<lambda>m. m_sequence m \<noteq> n) xs = xs" by (auto simp: filter_id_conv)
    then show ?thesis using Cons.prems(2) True by (simp add: remove_at_def)
  next
    case False
    then obtain j where j: "position (\<lambda>m. m_sequence m = n) xs = Some j" "i = Suc j"
      using Cons.prems(2) by auto
    then show ?thesis using Cons.IH [OF _ j(1)] Cons.prems(1) False by (simp add: remove_at_def)
  qed
qed simp

abbreviation stored :: "topic_state alist \<Rightarrow> message list" where
  "stored ts \<equiv> concat (map (\<lambda>(_, t). t_messages t) ts)"

lemma delete_in_topics_Some:
  assumes "delete_in_topics hit n ts = Some ts'" "distinct (map m_sequence (stored ts))"
  shows "stored ts' = filter (\<lambda>m. m_sequence m \<noteq> n) (stored ts) \<and>
         (\<exists>k t m. (k, t) \<in> set ts \<and> hit k \<and> m \<in> set (t_messages t) \<and> m_sequence m = n)"
  using assms
proof (induction ts arbitrary: ts')
  case (Cons x rest)
  obtain k t where x: "x = (k, t)" by (cases x)
  have dis: "distinct (map m_sequence (t_messages t))" "distinct (map m_sequence (stored rest))"
    "m_sequence ` set (t_messages t) \<inter> m_sequence ` set (stored rest) = {}"
    using Cons.prems(2) by (auto simp: x)
  show ?case
  proof (cases "if hit k then position (\<lambda>m. m_sequence m = n) (t_messages t) else None")
    case None
    then obtain r where r: "delete_in_topics hit n rest = Some r" "ts' = (k, t) # r"
      using Cons.prems(1) by (auto simp: x)
    obtain k' t' m where ex: "(k', t') \<in> set rest" "hit k'" "m \<in> set (t_messages t')" "m_sequence m = n"
      using Cons.IH [OF r(1) dis(2)] by blast
    then have "m \<in> set (stored rest)" by auto
    then have "n \<notin> m_sequence ` set (t_messages t)" using dis(3) ex(4) by blast
    then have "filter (\<lambda>m. m_sequence m \<noteq> n) (t_messages t) = t_messages t" by (auto simp: filter_id_conv)
    then show ?thesis using Cons.IH [OF r(1) dis(2)] r(2) by (fastforce simp: x)
  next
    case (Some i)
    then have ts': "ts' = (k, t\<lparr>t_messages := remove_at i (t_messages t)\<rparr>) # rest" and hit: "hit k"
      and pos: "position (\<lambda>m. m_sequence m = n) (t_messages t) = Some i"
      using Cons.prems(1) by (auto simp: x split: if_splits)
    have m: "t_messages t ! i \<in> set (t_messages t)" "m_sequence (t_messages t ! i) = n"
      using position_SomeD [OF pos] by auto
    then have "n \<notin> m_sequence ` set (stored rest)" using dis(3) by blast
    then have "filter (\<lambda>m. m_sequence m \<noteq> n) (stored rest) = stored rest" by (auto simp: filter_id_conv)
    then show ?thesis using ts' hit m remove_at_filter [OF dis(1) pos] by (auto simp: x)
  qed
qed simp

lemma delete_in_topics_None:
  "delete_in_topics hit n ts = None \<Longrightarrow> (k, t) \<in> set ts \<Longrightarrow> hit k \<Longrightarrow> m \<in> set (t_messages t) \<Longrightarrow>
   m_sequence m \<noteq> n"
  by (induction ts) (auto split: option.splits if_splits dest: position_NoneD)

text \<open>The topics a stream key addresses on deletion.\<close>
definition in_stream :: "host \<Rightarrow> string \<Rightarrow> string \<Rightarrow> bool" where
  "in_stream h stream_key k =
    (let encoded = encode_token (to_lowercase h stream_key)
     in to_lowercase h k = encoded \<or> starts_with (encoded @ ''.'') (to_lowercase h k))"

lemma delete_message_spec:
  assumes "mem_inv cfg s"
  shows "delete_message h key n s = (Deleted, s') \<Longrightarrow>
           all_messages s' = filter (\<lambda>m. m_sequence m \<noteq> n) (all_messages s) \<and>
           (\<exists>m\<in>set (all_messages s). m_sequence m = n \<and> in_stream h key (m_topic m))"
    and "delete_message h key n s = (DeleteNotFound, s') \<Longrightarrow>
           s' = s \<and> \<not> (\<exists>m\<in>set (all_messages s). m_sequence m = n \<and> in_stream h key (m_topic m))"
proof -
  have del: "delete_message h key n s =
      (case delete_in_topics (in_stream h key) n (topics s) of
         Some ts \<Rightarrow> (Deleted, s\<lparr>topics := ts\<rparr>) | None \<Rightarrow> (DeleteNotFound, s))"
    by (simp add: delete_message_def in_stream_def [abs_def] Let_def)
  have topic: "m_topic m = k" if "(k, t) \<in> set (topics s)" "m \<in> set (t_messages t)" for k t m
    using mem_inv_topic(1) [OF assms that] by simp
  show "all_messages s' = filter (\<lambda>m. m_sequence m \<noteq> n) (all_messages s) \<and>
        (\<exists>m\<in>set (all_messages s). m_sequence m = n \<and> in_stream h key (m_topic m))"
    if d: "delete_message h key n s = (Deleted, s')"
  proof -
    obtain ts where ts: "delete_in_topics (in_stream h key) n (topics s) = Some ts" "s' = s\<lparr>topics := ts\<rparr>"
      using d by (auto simp: del split: option.splits)
    show ?thesis
      using delete_in_topics_Some [OF ts(1)] sequences_distinct [OF assms] topic ts(2)
      by (fastforce simp: all_messages_def)
  qed
  show "s' = s \<and> \<not> (\<exists>m\<in>set (all_messages s). m_sequence m = n \<and> in_stream h key (m_topic m))"
    if d: "delete_message h key n s = (DeleteNotFound, s')"
  proof -
    have ts: "delete_in_topics (in_stream h key) n (topics s) = None" "s' = s"
      using d by (auto simp: del split: option.splits)
    have "m_sequence m \<noteq> n \<or> \<not> in_stream h key (m_topic m)" if "m \<in> set (all_messages s)" for m
      using that delete_in_topics_None [OF ts(1)] topic unfolding all_messages_iff by metis
    then show ?thesis using ts(2) by blast
  qed
qed

section \<open>Wiping\<close>

definition wiped_by :: "host \<Rightarrow> string \<Rightarrow> string \<Rightarrow> bool" where
  "wiped_by h stream_key k = starts_with (encode_token (to_lowercase h stream_key) @ ''.'') (to_lowercase h k)"

lemma wipe_stream_eq:
  "wipe_stream h key s =
    (if filter (\<lambda>(k, _). wiped_by h key k) (topics s) = [] then (WipeNotFound, s)
     else (Wiped, s\<lparr>topics := filter (\<lambda>(k, _). \<not> wiped_by h key k) (topics s)\<rparr>))"
  by (simp add: wipe_stream_def wiped_by_def Let_def)

lemma stored_filter_topics:
  assumes "\<And>k t m. (k, t) \<in> set ts \<Longrightarrow> m \<in> set (t_messages t) \<Longrightarrow> m_topic m = k"
  shows "stored (filter (\<lambda>(k, _). P k) ts) = filter (\<lambda>m. P (m_topic m)) (stored ts)"
  using assms
proof (induction ts)
  case (Cons x ts)
  obtain k t where x: "x = (k, t)" by (cases x)
  have "\<forall>m\<in>set (t_messages t). m_topic m = k" using Cons.prems [of k t] by (simp add: x)
  then have "filter (\<lambda>m. P (m_topic m)) (t_messages t) = (if P k then t_messages t else [])"
    by (auto simp: filter_id_conv filter_empty_conv)
  moreover have "stored (filter (\<lambda>(k, _). P k) ts) = filter (\<lambda>m. P (m_topic m)) (stored ts)"
    by (rule Cons.IH, rule Cons.prems) simp_all
  ultimately show ?case by (simp add: x)
qed simp

lemma wipe_stream_spec:
  assumes "mem_inv cfg s" "wipe_stream h key s = (r, s')"
  shows "all_messages s' = filter (\<lambda>m. \<not> wiped_by h key (m_topic m)) (all_messages s)"
proof -
  have topic: "m_topic m = k" if "(k, t) \<in> set (topics s)" "m \<in> set (t_messages t)" for k t m
    using mem_inv_topic(1) [OF assms(1) that] by simp
  have none: "filter (\<lambda>m. \<not> wiped_by h key (m_topic m)) (all_messages s) = all_messages s"
    if "filter (\<lambda>(k, _). wiped_by h key k) (topics s) = []"
    using that topic by (fastforce simp: filter_id_conv filter_empty_conv all_messages_iff)
  show ?thesis
    using assms(2) none stored_filter_topics [of "topics s" "\<lambda>k. \<not> wiped_by h key k"] topic
    by (auto simp: wipe_stream_eq all_messages_def split: if_splits)
qed

section \<open>Storing\<close>

lemma map_of_delete: "map_of (AList.delete k ts) k' = (if k' = k then None else map_of ts k')"
  by (simp add: delete_conv')

definition least_active :: "int \<Rightarrow> mem_state \<Rightarrow> string \<Rightarrow> bool" where
  "least_active now s k =
    (\<exists>t. (k, t) \<in> set (topics s) \<and> (\<forall>(k', t')\<in>set (topics s). last_activity now t \<le> last_activity now t'))"

lemma enforce_topic_limit_cases:
  "map_of (enforce_topic_limit cfg now (topics s)) k = map_of (topics s) k \<or>
   (map_of (enforce_topic_limit cfg now (topics s)) k = None \<and> max_topics cfg \<le> length (topics s) \<and>
    least_active now s k)"
proof (cases "oldest_topic now (topics s)")
  case None
  then show ?thesis by (simp add: enforce_topic_limit_def)
next
  case (Some p)
  obtain k' a where p: "p = (k', a)" by (cases p)
  show ?thesis using oldest_topic_least [OF Some [unfolded p]]
    by (auto simp: enforce_topic_limit_def Some p map_of_delete least_active_def)
qed

section \<open>A backend to apply the properties to\<close>

definition small_config :: mem_config where
  "small_config = \<lparr>max_history_per_topic = 2, max_topics = 2, enable_metrics = False\<rparr>"

definition a_note :: "nat \<Rightarrow> string \<Rightarrow> message" where
  "a_note n topic = \<lparr>m_sequence = n, m_topic = topic, m_payload = ''1'', m_timestamp = Some (int n), m_metadata = None\<rparr>"

definition after_three :: mem_state where
  "after_three = \<lparr>topics = [(''wx.n'', \<lparr>t_messages = [a_note 2 ''wx.n'', a_note 3 ''wx.n''], t_total = 3\<rparr>)],
                  next_sequence = 4\<rparr>"

lemma after_three_run:
  "mem_run h small_config new_mem_state [a_note 1 ''wx.n'', a_note 2 ''wx.n'', a_note 3 ''wx.n''] after_three"
proof -
  let ?st = "\<lambda>t ms n. \<lparr>topics = [(''wx.n'', \<lparr>t_messages = ms, t_total = t\<rparr>)], next_sequence = n\<rparr>"
  note defs = store_message_def small_config_def new_mem_state_def new_topic_state_def push_message_def
    enforce_topic_limit_def a_note_def after_three_def Let_def
  have "store_message small_config 1 ''wx.n'' ''1'' None new_mem_state =
        (?st 1 [a_note 1 ''wx.n''] 2, a_note 1 ''wx.n'')" by (simp add: defs)
  from mem_run.More [OF mem_run.Stop mem_step.Store [OF this]]
  have r1: "mem_run h small_config new_mem_state ([] @ [a_note 1 ''wx.n'']) (?st 1 [a_note 1 ''wx.n''] 2)" .
  have "store_message small_config 2 ''wx.n'' ''1'' None (?st 1 [a_note 1 ''wx.n''] 2) =
        (?st 2 [a_note 1 ''wx.n'', a_note 2 ''wx.n''] 3, a_note 2 ''wx.n'')" by (simp add: defs)
  note r2 = mem_run.More [OF r1 mem_step.Store [OF this]]
  have "store_message small_config 3 ''wx.n'' ''1'' None (?st 2 [a_note 1 ''wx.n'', a_note 2 ''wx.n''] 3) =
        (after_three, a_note 3 ''wx.n'')" by (simp add: defs)
  from mem_run.More [OF r2 mem_step.Store [OF this]] show ?thesis by simp
qed

lemma after_three_inv: "mem_inv small_config after_three"
  by (rule mem_inv_run [OF after_three_run mem_inv_init])

section \<open>Properties\<close>

text \<open>
  C13: the histories of every reachable state. After any sequence of stores, wipes, deletions
  and rehashes, the messages broadcast so far carry the sequences 1, 2, 3 and so on without
  a gap, what is stored is among them and no sequence is stored twice, at most
  \<open>max_topics\<close> topics exist, and each topic holds its own messages in strictly ascending
  order, at most \<open>max_history_per_topic\<close> of them (a configured zero counts as one).
\<close>
theorem mem_reachable:
  assumes "mem_run h cfg new_mem_state sent s"
  shows "map m_sequence sent = [1..<next_sequence s] \<and> set (all_messages s) \<subseteq> set sent \<and>
         distinct (map m_sequence (all_messages s)) \<and> wf_map (topics s) \<and>
         length (topics s) \<le> max 1 (max_topics cfg) \<and>
         (\<forall>(k, t)\<in>set (topics s). ascending (t_messages t) \<and>
            length (t_messages t) \<le> max 1 (max_history_per_topic cfg) \<and>
            (\<forall>m\<in>set (t_messages t). m_topic m = k))"
proof -
  have inv: "mem_inv cfg s" by (rule mem_inv_run [OF assms mem_inv_init])
  show ?thesis
    using mem_run_messages [OF assms mem_inv_init] sequences_distinct [OF inv] inv mem_inv_topic [OF inv]
    by (auto simp: new_mem_state_def all_messages_def mem_inv_def)
qed

theorem mem_reachable_witness:
  "set (all_messages after_three) \<subseteq> set [a_note 1 ''wx.n'', a_note 2 ''wx.n'', a_note 3 ''wx.n''] \<and>
   length (topics after_three) \<le> 2"
  using mem_reachable [OF after_three_run] by (simp add: small_config_def)

text \<open>
  What a store does. The message takes the next sequence and the clock reading, is
  appended to its topic whose oldest message goes when the topic is full, and no other
  topic changes, except that a store to a new topic at the topic limit removes one topic,
  the one whose last message is oldest.
\<close>
lemma store_effect:
  assumes "mem_inv cfg s" "store_message cfg now topic payload metadata s = (s', m)"
  shows "m = \<lparr>m_sequence = next_sequence s, m_topic = topic, m_payload = payload,
              m_timestamp = Some now, m_metadata = metadata\<rparr> \<and>
         map_of (topics s') topic = Some (case map_of (topics s) topic of
             Some t \<Rightarrow> \<lparr>t_messages = (if max_history_per_topic cfg \<le> length (t_messages t)
                          then drop 1 (t_messages t) else t_messages t) @ [m], t_total = t_total t + 1\<rparr>
           | None \<Rightarrow> \<lparr>t_messages = [m], t_total = 1\<rparr>) \<and>
         (k \<noteq> topic \<longrightarrow> map_of (topics s') k = map_of (topics s) k \<or>
           map_of (topics s) topic = None \<and> max_topics cfg \<le> length (topics s) \<and>
           least_active now s k \<and> map_of (topics s') k = None)"
proof -
  define ts where "ts = (if has_key (topics s) topic then topics s else enforce_topic_limit cfg now (topics s))"
  define t' where "t' = (case map_of ts topic of Some t \<Rightarrow> t | None \<Rightarrow> new_topic_state)"
  have top: "topics s' = AList.update topic (push_message cfg m t') ts"
    by (rule store_message_topics [OF assms(2) ts_def t'_def])
  have m: "m = \<lparr>m_sequence = next_sequence s, m_topic = topic, m_payload = payload,
                m_timestamp = Some now, m_metadata = metadata\<rparr>"
    using store_message_broadcast [OF assms(2)] by simp
  have none: "map_of (enforce_topic_limit cfg now (topics s)) topic = None" if "map_of (topics s) topic = None"
    using enforce_topic_limit_cases [of cfg now s topic] that by auto
  have new: "map_of (topics s') topic = Some (case map_of (topics s) topic of
       Some t \<Rightarrow> \<lparr>t_messages = (if max_history_per_topic cfg \<le> length (t_messages t)
                    then drop 1 (t_messages t) else t_messages t) @ [m], t_total = t_total t + 1\<rparr>
     | None \<Rightarrow> \<lparr>t_messages = [m], t_total = 1\<rparr>)"
    using none
    by (cases "map_of (topics s) topic")
      (simp_all add: top map_of_update push_message_def t'_def ts_def has_key_def new_topic_state_def del: has_key_iff)
  have "map_of (topics s') k = map_of (topics s) k \<or>
        map_of (topics s) topic = None \<and> max_topics cfg \<le> length (topics s) \<and>
        least_active now s k \<and> map_of (topics s') k = None" if "k \<noteq> topic"
    using that enforce_topic_limit_cases [of cfg now s k]
    by (auto simp: top map_of_update ts_def has_key_def simp del: has_key_iff)
  then show ?thesis using m new by blast
qed

lemma store_effect_witness:
  "map_of (topics (fst (store_message small_config 4 ''wx.n'' ''1'' None after_three))) ''wx.n'' =
   Some \<lparr>t_messages = [a_note 3 ''wx.n'', a_note 4 ''wx.n''], t_total = 4\<rparr>"
proof -
  have "store_message small_config 4 ''wx.n'' ''1'' None after_three =
        (fst (store_message small_config 4 ''wx.n'' ''1'' None after_three), a_note 4 ''wx.n'')"
    by (simp add: store_message_def after_three_def a_note_def Let_def)
  from store_effect [OF after_three_inv this] show ?thesis
    by (simp add: after_three_def small_config_def)
qed

text \<open>
  A batch read. On every reachable state the batch is the first \<open>limit\<close> of the stored
  messages that match the pattern, lie within the end sequence and are selected by the
  start, in strictly ascending sequence order; \<open>has_more\<close> says whether there are others and
  the next cursor is one past the last message returned.
\<close>
lemma batch_exact:
  assumes "mem_inv cfg s" "analyze_watch_pattern (bp_topic p) = Inr (coarse, pattern)"
    "selected = {m \<in> set (all_messages s). matches_watch_pattern (m_topic m) pattern \<and>
                   m_sequence m \<le> bp_end_sequence p \<and> starts_at (bp_start_at p) m}"
  shows "\<exists>r rest. get_messages_batch s p = Inr r \<and> ascending (br_messages r @ rest) \<and>
           set (br_messages r @ rest) = selected \<and>
           length (br_messages r) = min (bp_limit p) (card selected) \<and>
           (br_has_more r \<longleftrightarrow> bp_limit p < card selected) \<and>
           br_next_sequence r = map_option (\<lambda>m. m_sequence m + 1) (last_of (br_messages r))"
proof -
  obtain ms where ms: "mem_history s (bp_topic p) = Inr ms" using assms(2) by (simp add: mem_history_def)
  define el where "el = eligible p ms"
  have asc: "ascending el" unfolding el_def eligible_def
    by (rule sorted_wrt_filter) (rule mem.history_ascending [OF assms(1) ms])
  have set: "set el = selected"
    using mem_history_set [OF ms assms(2)] assms(3) by (auto simp: el_def eligible_def)
  have "distinct (map m_sequence el)"
    using asc strict_sorted_iff [of "map m_sequence el"] by (simp add: sorted_wrt_map)
  then have card: "card selected = length el"
    using set distinct_card [of el] by (simp add: distinct_map)
  have "get_messages_batch s p = Inr (page_of p ms)" by (rule mem.fetch_page [OF assms(1) ms])
  then show ?thesis
    using asc set card
    by (intro exI [of _ "page_of p ms"] exI [of _ "drop (bp_limit p) el"])
      (simp add: page_of_def Let_def el_def [symmetric] option.map_comp comp_def)
qed

definition whole_topic :: "batch_params" where
  "whole_topic = \<lparr>bp_topic = ''wx.*'', bp_start_at = StartSequence 1, bp_limit = 1, bp_end_sequence = 3\<rparr>"

lemma batch_exact_witness:
  "\<exists>r. get_messages_batch after_three whole_topic = Inr r \<and> length (br_messages r) = 1 \<and> br_has_more r"
proof -
  have pat: "analyze_watch_pattern (bp_topic whole_topic) = Inr (''wx.>'', [''wx'', ''*''])"
    by (simp add: whole_topic_def analyze_watch_pattern_def coarse_pattern_def decode_subject_def decode_token_def
        utf8_error.simps is_ascii_def is_reserved_char_def)
  have "matches_watch_pattern ''wx.n'' [''wx'', ''*'']"
    by (simp add: matches_watch_pattern_def decode_subject_def decode_token_def utf8_error.simps is_ascii_def)
  then have "{m \<in> set (all_messages after_three). matches_watch_pattern (m_topic m) [''wx'', ''*''] \<and>
      m_sequence m \<le> bp_end_sequence whole_topic \<and> starts_at (bp_start_at whole_topic) m} =
      {a_note 2 ''wx.n'', a_note 3 ''wx.n''}"
    by (auto simp: after_three_def all_messages_def a_note_def whole_topic_def starts_at_def)
  moreover have "card {a_note 2 ''wx.n'', a_note 3 ''wx.n''} = 2"
    by (simp add: a_note_def)
  ultimately show ?thesis
    using batch_exact [OF after_three_inv pat refl] by (auto simp: whole_topic_def)
qed

text \<open>
  Deleting a notification. A deletion that reports success removes exactly the message
  with that sequence, which was in the addressed stream, and keeps the order of all others;
  one that reports \<open>not found\<close> changes nothing, and there was no such message.
\<close>
lemma delete_exact:
  assumes "mem_inv cfg s" "delete_message h key n s = (r, s')"
  shows "(r = Deleted \<and> all_messages s' = filter (\<lambda>m. m_sequence m \<noteq> n) (all_messages s) \<and>
          (\<exists>m\<in>set (all_messages s). m_sequence m = n \<and> in_stream h key (m_topic m))) \<or>
         (r = DeleteNotFound \<and> s' = s \<and>
          \<not> (\<exists>m\<in>set (all_messages s). m_sequence m = n \<and> in_stream h key (m_topic m)))"
  using delete_message_spec [OF assms(1), of h key n s'] assms(2) by (cases r) auto

text \<open>
  Wiping a stream removes exactly the messages whose topic starts with the stream's
  token and a dot, and reports whether there was such a topic. A topic that is the bare
  token is addressed by a deletion but not by a wipe.
\<close>
lemma wipe_exact:
  assumes "mem_inv cfg s" "wipe_stream h key s = (r, s')"
  shows "all_messages s' = filter (\<lambda>m. \<not> wiped_by h key (m_topic m)) (all_messages s) \<and>
         next_sequence s' = next_sequence s \<and>
         (r = WipeNotFound \<longleftrightarrow> \<not> (\<exists>k\<in>fst ` set (topics s). wiped_by h key k)) \<and>
         (in_stream h key k \<and> \<not> wiped_by h key k \<longleftrightarrow> to_lowercase h k = encode_token (to_lowercase h key))"
proof -
  have "in_stream h key k \<and> \<not> wiped_by h key k \<longleftrightarrow> to_lowercase h k = encode_token (to_lowercase h key)"
    by (auto simp: in_stream_def wiped_by_def Let_def starts_with_iff)
  moreover have "next_sequence s' = next_sequence s" using wipe_stream_messages [OF assms(2)] by simp
  moreover have "r = WipeNotFound \<longleftrightarrow> \<not> (\<exists>k\<in>fst ` set (topics s). wiped_by h key k)"
    using assms(2) by (auto simp: wipe_stream_eq filter_empty_conv split: if_splits) force+
  ultimately show ?thesis using wipe_stream_spec [OF assms] by blast
qed

lemma wipe_exact_witness:
  "all_messages (snd (wipe_stream sample_host ''WX'' after_three)) = [] \<and>
   in_stream sample_host ''WX'' ''wx'' \<and> \<not> wiped_by sample_host ''WX'' ''wx''"
proof -
  note defs = after_three_def sample_host_def to_lowercase_def to_ascii_lowercase_def
    ascii_lower_def is_upper_def is_ascii_def is_reserved_char_def starts_with_def
    char_of_def bit_0 bit_Suc
  have w: "wipe_stream sample_host ''WX'' after_three =
        (Wiped, snd (wipe_stream sample_host ''WX'' after_three))"
    by (simp add: wipe_stream_def defs)
  have hit: "wiped_by sample_host ''WX'' ''wx.n''"
    by (simp add: wiped_by_def defs)
  have bare: "to_lowercase sample_host ''wx'' = encode_token (to_lowercase sample_host ''WX'')"
    by (simp add: defs)
  show ?thesis using wipe_exact [OF after_three_inv w, of "''wx''"] hit bare
    by (simp add: after_three_def all_messages_def a_note_def)
qed

end
