(* ===== verification/Streaming.thy ===== *)
theory Streaming
  imports Replay Retention Filtering
begin

text \<open>
  Properties of the streams: what a replay delivers while the backend keeps changing, how a
  watch passes from history to live messages, the end point of a replay, and the frames
  that may follow each other.
\<close>

section \<open>A changing in-memory backend\<close>

text \<open>The states at the successive reads, each reached from the one before.\<close>
definition evolves :: "host \<Rightarrow> mem_config \<Rightarrow> (nat \<Rightarrow> mem_state) \<Rightarrow> bool" where
  "evolves h cfg s = (mem_inv cfg (s 0) \<and> (\<forall>k. \<exists>sent. mem_run h cfg (s k) sent (s (Suc k))))"

lemma evolves_inv: "evolves h cfg s \<Longrightarrow> mem_inv cfg (s k)"
  by (induction k) (auto simp: evolves_def dest: mem_inv_run)

lemma evolves_mono: "evolves h cfg s \<Longrightarrow> next_sequence (s 0) \<le> next_sequence (s k)"
proof (induction k)
  case (Suc k)
  obtain sent where "mem_run h cfg (s k) sent (s (Suc k))" using Suc.prems by (auto simp: evolves_def)
  from mem_run_messages [OF this evolves_inv [OF Suc.prems]] show ?case using Suc.IH [OF Suc.prems] by simp
qed simp

lemma evolves_fading:
  assumes "evolves h cfg s" "analyze_watch_pattern topic = Inr (coarse, pattern)" "e < next_sequence (s 0)"
  shows "mem.fading cfg e s topic (\<lambda>k. sort_key m_sequence (matching_messages (s k) pattern))"
proof -
  have "m \<in> set (matching_messages (s k) pattern)"
    if m: "m \<in> set (matching_messages (s (Suc k)) pattern)" "m_sequence m \<le> e" for k m
  proof -
    obtain sent where run: "mem_run h cfg (s k) sent (s (Suc k))" using assms(1) by (auto simp: evolves_def)
    note r = mem_run_messages [OF run evolves_inv [OF assms(1)]]
    have "m_sequence ` set sent = {next_sequence (s k)..<next_sequence (s (Suc k))}"
      using r by (metis list.set_map set_upt)
    moreover have "m_sequence m < next_sequence (s k)"
      using evolves_mono [OF assms(1), of k] assms(3) m(2) by simp
    ultimately have "m \<notin> set sent" by (metis atLeastLessThan_iff image_eqI leD)
    then show ?thesis using r m(1) by (auto simp: matching_messages_def)
  qed
  then show ?thesis using evolves_inv [OF assms(1)] assms(2)
    by (auto simp: mem.fading_def mem_history_def)
qed

definition wanted :: "string list \<Rightarrow> nat \<Rightarrow> start_at \<Rightarrow> message \<Rightarrow> bool" where
  "wanted pattern e st m =
    (matches_watch_pattern (m_topic m) pattern \<and> m_sequence m \<le> e \<and> starts_at st m)"

lemma replay_scans:
  assumes "evolves h cfg s" "analyze_watch_pattern (rr_topic rr) = Inr (coarse, pattern)"
    "e < next_sequence (s 0)" "0 < batch_size" "start_closed st (all_messages (s 0))"
    "length (all_messages (s 0)) + 2 \<le> fuel"
  shows "\<exists>L. create_historical_replay_stream env rr (\<lambda>k. get_messages_batch (s k)) fuel batch_size st e =
               Some (fst (scan_batch env rr 0 L)) \<and> ascending L \<and>
             set L \<subseteq> {m \<in> set (all_messages (s 0)). wanted pattern e st m} \<and>
             {m. (\<forall>k. m \<in> set (all_messages (s k))) \<and> wanted pattern e st m} \<subseteq> set L"
proof -
  define H where "H = (\<lambda>k. sort_key m_sequence (matching_messages (s k) pattern))"
  have set_H: "set (H k) = {m \<in> set (all_messages (s k)). matches_watch_pattern (m_topic m) pattern}" for k
    by (auto simp: H_def matching_messages_def)
  have fading: "mem.fading cfg e s (rr_topic rr) H"
    unfolding H_def by (rule evolves_fading [OF assms(1-3)])
  have closed: "start_closed st (H 0)" using assms(5) by (auto simp: start_closed_def set_H)
  have "length (eligible (batch_at (rr_topic rr) batch_size e st) (H 0)) \<le> length (H 0)"
    by (simp add: eligible_def)
  also have "\<dots> \<le> length (all_messages (s 0))" by (simp add: H_def matching_messages_def)
  finally have fuel: "length (eligible (batch_at (rr_topic rr) batch_size e st) (H 0)) + 2 \<le> fuel"
    using assms(6) by simp
  from mem.loop_scans [where rr = rr and env = env, OF fading assms(4) le0 closed fuel]
  obtain L where L: "replay_loop env rr (\<lambda>j. get_messages_batch (s j)) fuel 0
        \<lparr>rs_params = batch_at (rr_topic rr) batch_size e st, rs_has_more = True, rs_delivered = 0\<rparr> =
        Some (fst (scan_batch env rr 0 L))"
      "ascending L" "set L \<subseteq> {m \<in> set (H 0). m_sequence m \<le> e \<and> starts_at st m}"
      "{m. (\<forall>j\<ge>0. m \<in> set (H j)) \<and> m_sequence m \<le> e \<and> starts_at st m} \<subseteq> set L"
    by blast
  have loop: "create_historical_replay_stream env rr (\<lambda>k. get_messages_batch (s k)) fuel batch_size st e =
      replay_loop env rr (\<lambda>j. get_messages_batch (s j)) fuel 0
        \<lparr>rs_params = batch_at (rr_topic rr) batch_size e st, rs_has_more = True, rs_delivered = 0\<rparr>"
    by (simp add: create_historical_replay_stream_def initial_replay_state_def new_batch_params_def
        with_end_sequence_def with_start_at_def)
  have lower: "{m \<in> set (H 0). m_sequence m \<le> e \<and> starts_at st m} =
      {m \<in> set (all_messages (s 0)). wanted pattern e st m}"
    unfolding set_H wanted_def by blast
  have upper: "{m. (\<forall>j\<ge>0. m \<in> set (H j)) \<and> m_sequence m \<le> e \<and> starts_at st m} =
      {m. (\<forall>k. m \<in> set (all_messages (s k))) \<and> wanted pattern e st m}"
    unfolding set_H wanted_def by auto
  show ?thesis using L unfolding loop lower upper by (intro exI [of _ L] conjI)
qed

section \<open>Properties\<close>

text \<open>
  C7: a replay under concurrent writes. Whatever is stored, evicted, deleted or wiped between
  its reads, a replay whose batches are not empty ends; the messages it goes through are in
  strictly ascending sequence order, each was stored when the replay began, matches the
  pattern and lies between start and end; every such message that stays stored is among
  them. It delivers, in that order, the first \<open>max_allowed\<close> of those that pass the filters
  and render, and the limit frame comes exactly when there are more, as the last frame.
\<close>
theorem replay_under_writes:
  assumes "evolves h cfg s" "analyze_watch_pattern (rr_topic rr) = Inr (coarse, pattern)"
    "e < next_sequence (s 0)" "0 < batch_size" "start_closed st (all_messages (s 0))"
    "length (all_messages (s 0)) + 2 \<le> fuel"
  shows "\<exists>frames L.
    create_historical_replay_stream env rr (\<lambda>k. get_messages_batch (s k)) fuel batch_size st e = Some frames \<and>
    ascending L \<and> set L \<subseteq> {m \<in> set (all_messages (s 0)). wanted pattern e st m} \<and>
    {m. (\<forall>k. m \<in> set (all_messages (s k))) \<and> wanted pattern e st m} \<subseteq> set L \<and>
    delivered_frames frames =
      map (\<lambda>m. Rendered (fst (renders env rr m)) KNotification)
        (take (rr_max_allowed rr) (filter (deliverable env rr) L)) \<and>
    (if rr_max_allowed rr < length (filter (deliverable env rr) L)
     then frames \<noteq> [] \<and> is_replay_terminal (last frames) \<and> \<not> list_ex is_replay_terminal (butlast frames)
     else \<not> list_ex is_replay_terminal frames)"
proof -
  obtain L where L: "create_historical_replay_stream env rr (\<lambda>k. get_messages_batch (s k)) fuel batch_size st e =
               Some (fst (scan_batch env rr 0 L))" "ascending L"
             "set L \<subseteq> {m \<in> set (all_messages (s 0)). wanted pattern e st m}"
             "{m. (\<forall>k. m \<in> set (all_messages (s k))) \<and> wanted pattern e st m} \<subseteq> set L"
    using replay_scans [where h = h and cfg = cfg and env = env, OF assms] by blast
  obtain fs d b where scan: "scan_batch env rr 0 L = (fs, d, b)" by (metis prod_cases3)
  obtain pre where pre: "fs = pre @ (if b then [Control (ReplayLimitReached (rr_topic rr) (rr_max_allowed rr) (env_now env))] else [])"
      "\<forall>f\<in>set pre. \<exists>bytes kind. f = Rendered bytes kind"
    using scan_terminal [OF scan] by blast
  have "\<not> list_ex is_replay_terminal pre" using pre(2) by (force simp: list_ex_iff)
  then have ends: "if b then fs \<noteq> [] \<and> is_replay_terminal (last fs) \<and> \<not> list_ex is_replay_terminal (butlast fs)
     else \<not> list_ex is_replay_terminal fs" by (simp add: pre(1))
  show ?thesis
    using L scan_notifications [OF le0 scan] scan_delivered [OF le0 scan] ends
    by (intro exI [of _ fs] exI [of _ L]) (simp add: scan)
qed

definition sample_sdk :: cloud_sdk where
  "sample_sdk = \<lparr>sdk_build = Inr, sdk_value = (\<lambda>ev. Inr (ce_data ev))\<rparr>"

definition sample_env :: "((f64 \<times> f64) list, (f64 \<times> f64) \<times> (f64 \<times> f64)) sse_env" where
  "sample_env = \<lparr>env_host = sample_host, env_geo = sample_geo, env_sdk = sample_sdk,
     env_time_text = (\<lambda>t. show_int t), env_schemas = None, env_base_url = ''http://h'', env_now = 7\<rparr>"

definition sample_replay :: "((f64 \<times> f64) list, (f64 \<times> f64) \<times> (f64 \<times> f64)) replay_request" where
  "sample_replay = \<lparr>rr_topic = ''wx.*'', rr_params = [], rr_constraints = [], rr_prepared = None,
     rr_request_id = ''r'', rr_max_allowed = 1\<rparr>"

lemma sample_pattern: "analyze_watch_pattern ''wx.*'' = Inr (''wx.>'', [''wx'', ''*''])"
  by (simp add: analyze_watch_pattern_def coarse_pattern_def decode_subject_def decode_token_def
      utf8_error.simps is_ascii_def is_reserved_char_def)

lemma evolves_still: "mem_inv cfg s \<Longrightarrow> evolves h cfg (\<lambda>_. s)"
  by (auto simp: evolves_def intro: mem_run.Stop)

theorem replay_under_writes_witness:
  "\<exists>frames. create_historical_replay_stream sample_env sample_replay (\<lambda>k. get_messages_batch after_three)
              4 1 (StartSequence 3) 3 = Some frames \<and> length (delivered_frames frames) \<le> 1"
proof -
  have e: "evolves sample_host small_config (\<lambda>_. after_three)" by (rule evolves_still [OF after_three_inv])
  obtain frames L where "create_historical_replay_stream sample_env sample_replay
        (\<lambda>k. get_messages_batch after_three) 4 1 (StartSequence 3) 3 = Some frames"
      "delivered_frames frames = map (\<lambda>m. Rendered (fst (renders sample_env sample_replay m)) KNotification)
        (take (rr_max_allowed sample_replay) (filter (deliverable sample_env sample_replay) L))"
    using replay_under_writes [OF e, of sample_replay "''wx.>''" "[''wx'', ''*'']" 3 1 "StartSequence 3" 4 sample_env]
    by (auto simp: sample_pattern sample_replay_def after_three_def all_messages_def)
  then show ?thesis by (simp add: sample_replay_def)
qed

section \<open>From history to live\<close>

lemma subscription_stream_received:
  "subscription_stream pattern (map Received ms) = filter (\<lambda>m. matches_watch_pattern (m_topic m) pattern) ms"
  by (induction ms) auto

text \<open>
  C11: the handover of a watch with a start. The subscription fixes the end of the history at
  the moment it begins. However the store changes during the catch-up, the messages of the
  replay followed by those of a live channel that did not lag are in strictly ascending
  sequence order, so none is delivered twice; together they contain every matching message
  stored before that stays stored, and every matching message stored after it.
\<close>
theorem watch_handover:
  assumes "evolves h cfg s" "subscribe_to_topic (s 0) (rr_topic rr) = Inr sub" "0 < batch_size"
    "start_closed st (all_messages (s 0))" "length (all_messages (s 0)) + 2 \<le> fuel"
    "mem_run h cfg (s 0) sent s'"
  shows "\<exists>L live.
    create_historical_replay_stream env rr (\<lambda>k. get_messages_batch (s k)) fuel batch_size st (sub_history_end sub) =
      Some (fst (scan_batch env rr 0 L)) \<and>
    live = subscription_stream (sub_pattern sub) (map Received sent) \<and> ascending (L @ live) \<and>
    {m. (\<forall>k. m \<in> set (all_messages (s k))) \<and> matches_watch_pattern (m_topic m) (sub_pattern sub) \<and> starts_at st m}
      \<union> {m \<in> set sent. matches_watch_pattern (m_topic m) (sub_pattern sub)} \<subseteq> set (L @ live)"
proof -
  obtain coarse where pat: "analyze_watch_pattern (rr_topic rr) = Inr (coarse, sub_pattern sub)"
      and e: "sub_history_end sub = next_sequence (s 0) - 1"
    using assms(2) by (auto simp: subscribe_to_topic_def result_simps)
  have inv: "mem_inv cfg (s 0)" using assms(1) by (simp add: evolves_def)
  then have n: "1 \<le> next_sequence (s 0)" by (simp add: mem_inv_def)
  then have lt: "sub_history_end sub < next_sequence (s 0)" using e by simp
  obtain L where L: "create_historical_replay_stream env rr (\<lambda>k. get_messages_batch (s k)) fuel batch_size st
          (sub_history_end sub) = Some (fst (scan_batch env rr 0 L))" "ascending L"
      "set L \<subseteq> {m \<in> set (all_messages (s 0)). wanted (sub_pattern sub) (sub_history_end sub) st m}"
      "{m. (\<forall>k. m \<in> set (all_messages (s k))) \<and> wanted (sub_pattern sub) (sub_history_end sub) st m} \<subseteq> set L"
    using replay_scans [where env = env, OF assms(1) pat lt assms(3-5)] by blast
  define live where "live = subscription_stream (sub_pattern sub) (map Received sent)"
  have live: "live = filter (\<lambda>m. matches_watch_pattern (m_topic m) (sub_pattern sub)) sent"
    by (simp add: live_def subscription_stream_received)
  have seqs: "map m_sequence sent = [next_sequence (s 0)..<next_sequence s']"
    using mem_run_messages [OF assms(6) inv] by simp
  then have "sorted_wrt (<) (map m_sequence sent)" by simp
  then have asc: "ascending live" by (simp add: live sorted_wrt_map sorted_wrt_filter)
  have after: "next_sequence (s 0) \<le> m_sequence m" if "m \<in> set sent" for m
    using seqs that by (metis atLeastLessThan_iff image_eqI list.set_map set_upt)
  have before: "m_sequence m < next_sequence (s 0)" if "m \<in> set L" for m
    using L(3) that lt by (auto simp: wanted_def)
  have both: "ascending (L @ live)"
    using L(2) asc before after by (fastforce simp: sorted_wrt_append live)
  have "m \<in> set L" if "\<forall>k. m \<in> set (all_messages (s k))"
      "matches_watch_pattern (m_topic m) (sub_pattern sub)" "starts_at st m" for m
  proof -
    have "m_sequence m < next_sequence (s 0)" using mem_inv_message [OF inv] that(1) by blast
    then have "wanted (sub_pattern sub) (sub_history_end sub) st m" using that(2,3) e n by (simp add: wanted_def)
    then show ?thesis using L(4) that(1) by blast
  qed
  then show ?thesis using L(1) both by (intro exI [of _ L] exI [of _ live]) (auto simp: live_def [symmetric] live)
qed

theorem watch_handover_witness:
  "\<exists>L. ascending (L @ subscription_stream [''wx'', ''*''] (map Received [a_note 4 ''wx.n'']))"
proof -
  let ?s' = "fst (store_message small_config 4 ''wx.n'' ''1'' None after_three)"
  have e: "evolves sample_host small_config (\<lambda>_. after_three)" by (rule evolves_still [OF after_three_inv])
  have sub: "subscribe_to_topic after_three ''wx.*'' = Inr \<lparr>sub_pattern = [''wx'', ''*''], sub_history_end = 3\<rparr>"
    by (simp add: subscribe_to_topic_def sample_pattern after_three_def)
  have "store_message small_config 4 ''wx.n'' ''1'' None after_three = (?s', a_note 4 ''wx.n'')"
    by (simp add: store_message_def after_three_def a_note_def Let_def)
  from mem_run.More [OF mem_run.Stop mem_step.Store [OF this]]
  have run: "mem_run sample_host small_config after_three [a_note 4 ''wx.n''] ?s'" by simp
  show ?thesis
    using watch_handover [OF e, of sample_replay "\<lparr>sub_pattern = [''wx'', ''*''], sub_history_end = 3\<rparr>" 1
        "StartSequence 1" 4 "[a_note 4 ''wx.n'']" ?s' sample_env] run sub
    by (auto simp: sample_replay_def after_three_def all_messages_def)
qed

section \<open>Frames after each other\<close>

fun is_close :: "stream_frame \<Rightarrow> bool" where
  "is_close (CloseFrame _ _ _ _) = True"
| "is_close _ = False"

text \<open>
  C26: the end of a stream. What a client sees is a prefix of the frames of the source
  followed by exactly one close frame; nothing but the close frame follows a replay limit
  or a failed replay; the reason names the branch of the stop future that ended the stream,
  and is \<open>EndOfStream\<close> when none did. A stream without a maximum duration never reports that
  the duration elapsed.
\<close>
theorem lifecycle_ends_once:
  assumes "\<not> list_ex is_close frames"
  shows "\<exists>yielded rest reason.
    apply_stream_lifecycle frames topic stop rid now = yielded @ [CloseFrame topic reason now rid] \<and>
    frames = yielded @ rest \<and> \<not> list_ex is_close yielded \<and> \<not> list_ex is_replay_terminal (butlast yielded) \<and>
    (case stop of
       Some (n, cause) \<Rightarrow>
         if n \<le> length (until_replay_terminal frames)
         then length yielded = n \<and> reason = (case cause of ShutdownSignal \<Rightarrow> ServerShutdown | DurationElapsed \<Rightarrow> MaxDurationReached)
         else yielded = until_replay_terminal frames \<and> reason = EndOfStream
     | None \<Rightarrow> yielded = until_replay_terminal frames \<and> reason = EndOfStream) \<and>
    (stop_possible None stop \<longrightarrow> reason \<noteq> MaxDurationReached)"
proof -
  let ?g = "until_replay_terminal frames"
  obtain rest where g: "frames = ?g @ rest" using until_replay_terminal_prefix by blast
  have no_close: "\<not> list_ex is_close (take n ?g)" "\<not> list_ex is_close ?g" for n
    using assms g by (metis list_ex_append append_take_drop_id)+
  have b: "\<not> list_ex is_replay_terminal (butlast ?g)"
    using until_replay_terminal_butlast [of frames] by (auto simp: list_ex_iff)
  have bt: "\<not> list_ex is_replay_terminal (butlast (take n ?g))" for n
  proof -
    have "butlast (take n ?g) = take (length (take n ?g) - 1) ?g"
      by (simp add: butlast_conv_take min_def)
    also have "\<dots> = take (length (take n ?g) - 1) (butlast ?g)"
      by (auto simp: butlast_conv_take min_def)
    finally show ?thesis using b by (metis append_take_drop_id list_ex_append)
  qed
  have split: "frames = take n ?g @ (drop n ?g @ rest)" for n
    by (subst g) (metis append_assoc append_take_drop_id)
  show ?thesis
  proof (cases "case stop of Some (n, _) \<Rightarrow> n \<le> length ?g | None \<Rightarrow> False")
    case False
    then show ?thesis using g no_close(2) b
      by (intro exI [of _ ?g] exI [of _ rest] exI [of _ EndOfStream])
        (auto simp: apply_stream_lifecycle_def Let_def reason_of_code_def split: option.splits)
  next
    case True
    then obtain n cause where stop: "stop = Some (n, cause)" "n \<le> length ?g" by (auto split: option.splits)
    show ?thesis using stop split [of n] no_close(1) [of n] bt [of n]
      by (intro exI [of _ "take n ?g"] exI [of _ "drop n ?g @ rest"] exI [of _ "reason_of_code (close_code cause)"])
        (auto simp: apply_stream_lifecycle_def Let_def reason_of_code_def stop_possible_def split: stop_cause.splits)
  qed
qed

theorem lifecycle_ends_once_witness:
  "\<exists>yielded. apply_stream_lifecycle
       [Rendered ''a'' KNotification, ReplayFailed ''t'' ''m'' ''r'', Rendered ''b'' KNotification] ''t''
       (Some (5, ShutdownSignal)) ''r'' 1 = yielded @ [CloseFrame ''t'' EndOfStream 1 ''r''] \<and>
     yielded = [Rendered ''a'' KNotification, ReplayFailed ''t'' ''m'' ''r'']"
  using lifecycle_ends_once [of "[Rendered ''a'' KNotification, ReplayFailed ''t'' ''m'' ''r'', Rendered ''b'' KNotification]"
      "''t''" "Some (5, ShutdownSignal)" "''r''" 1] by auto

lemma merge_until_terminal:
  "merges (pre @ t # post) beats zs \<Longrightarrow> is_replay_terminal t \<Longrightarrow> \<not> list_ex is_replay_terminal pre \<Longrightarrow>
   \<not> list_ex is_replay_terminal beats \<Longrightarrow>
   \<exists>w seen. until_replay_terminal zs = w @ [t] \<and> merges pre seen w \<and> set seen \<subseteq> set beats"
proof (induction "pre @ t # post" beats zs arbitrary: pre rule: merges.induct)
  case (MergeLeft xs ys zs x)
  show ?case
  proof (cases pre)
    case Nil
    then have "x = t" using MergeLeft.hyps(3) by simp
    then show ?thesis using MergeLeft.prems Nil
      by (intro exI [of _ "[]"] exI [of _ "[]"]) (simp add: merges.MergeNil)
  next
    case (Cons p pre')
    then have x: "x = p" "xs = pre' @ t # post" using MergeLeft.hyps(3) by simp_all
    obtain w seen where "until_replay_terminal zs = w @ [t]" "merges pre' seen w" "set seen \<subseteq> set ys"
      using MergeLeft.hyps(2) [OF x(2)] MergeLeft.prems Cons by auto
    then show ?thesis using x(1) MergeLeft.prems(2) Cons
      by (intro exI [of _ "x # w"] exI [of _ seen]) (auto intro: merges.MergeLeft)
  qed
next
  case (MergeRight ys zs y)
  obtain w seen where "until_replay_terminal zs = w @ [t]" "merges pre seen w" "set seen \<subseteq> set ys"
    using MergeRight.hyps(2) MergeRight.prems by auto
  then show ?case using MergeRight.prems(3)
    by (intro exI [of _ "y # w"] exI [of _ "y # seen"]) (auto intro: merges.MergeRight)
qed simp

fun is_catch_up_over :: "stream_frame \<Rightarrow> bool" where
  "is_catch_up_over (Control (ReplayCompleted _ _)) = True"
| "is_catch_up_over (NotificationFrame _ _) = True"
| "is_catch_up_over _ = False"

text \<open>The history of a replay: rendered frames, and at most one last frame that says why it was cut.\<close>
definition cuts_history :: "('poly, 'rect) replay_request \<Rightarrow> stream_frame \<Rightarrow> bool" where
  "cuts_history rr t \<longleftrightarrow>
     (\<exists>now. t = Control (ReplayLimitReached (rr_topic rr) (rr_max_allowed rr) now)) \<or> (\<exists>topic msg rid. t = ReplayFailed topic msg rid)"

definition well_cut :: "('poly, 'rect) replay_request \<Rightarrow> stream_frame list \<Rightarrow> bool" where
  "well_cut rr fs \<longleftrightarrow> (\<exists>pre last. fs = pre @ last \<and> (\<forall>f\<in>set pre. \<exists>bytes kind. f = Rendered bytes kind) \<and>
     (last = [] \<or> (\<exists>t. last = [t] \<and> cuts_history rr t)))"

lemma well_cutI:
  "\<forall>f\<in>set pre. \<exists>bytes kind. f = Rendered bytes kind \<Longrightarrow> ending = [] \<or> (\<exists>t. ending = [t] \<and> cuts_history rr t) \<Longrightarrow> well_cut rr (pre @ ending)"
  unfolding well_cut_def by blast

lemma well_cut_Rendered:
  assumes "\<forall>f\<in>set pre. \<exists>bytes kind. f = Rendered bytes kind" "well_cut rr fs"
  shows "well_cut rr (pre @ fs)"
proof -
  obtain pre' ending where fs: "fs = pre' @ ending" "\<forall>f\<in>set pre'. \<exists>bytes kind. f = Rendered bytes kind"
      "ending = [] \<or> (\<exists>t. ending = [t] \<and> cuts_history rr t)"
    using assms(2) unfolding well_cut_def by blast
  then show ?thesis using well_cutI [of "pre @ pre'" ending rr] assms(1) by auto
qed

lemma replay_loop_stopped:
  "replay_loop env rr fetch fuel k st = Some fs \<Longrightarrow> \<not> rs_has_more st \<Longrightarrow> fs = []"
  by (cases fuel) (auto simp: replay_step_def)

lemma replay_loop_cut: "replay_loop env rr fetch fuel k st = Some fs \<Longrightarrow> well_cut rr fs"
proof (induction fuel arbitrary: k st fs)
  case (Suc fuel)
  show ?case
  proof (cases "replay_step env rr (fetch k) st")
    case None
    then show ?thesis using Suc.prems by (simp add: well_cut_def)
  next
    case (Some step)
    obtain frames st' where step: "step = (frames, st')" by (cases step)
    obtain rest where rest: "replay_loop env rr fetch fuel (Suc k) st' = Some rest" "fs = frames @ rest"
      using Suc.prems Some step by auto
    show ?thesis
    proof (cases "fetch k (rs_params st)")
      case (Inl e)
      then have "frames = [ReplayFailed (bp_topic (rs_params st)) (outer_msg e) (rr_request_id rr)]" "\<not> rs_has_more st'"
        using Some step by (auto simp: replay_step_def split: if_splits)
      then show ?thesis
        using well_cutI [of "[]" "[ReplayFailed (bp_topic (rs_params st)) (outer_msg e) (rr_request_id rr)]" rr]
          replay_loop_stopped [OF rest(1)] rest(2) by (simp add: cuts_history_def)
    next
      case (Inr r)
      obtain fs' d b where scan: "scan_batch env rr (rs_delivered st) (br_messages r) = (fs', d, b)" by (metis prod_cases3)
      have st': "frames = fs'" "b \<Longrightarrow> \<not> rs_has_more st'"
        using Some step Inr scan by (auto simp: replay_step_def Let_def split: if_splits)
      obtain pre where pre: "fs' = pre @ (if b then [Control (ReplayLimitReached (rr_topic rr) (rr_max_allowed rr) (env_now env))] else [])"
          "\<forall>f\<in>set pre. \<exists>bytes kind. f = Rendered bytes kind"
        using scan_terminal [OF scan] by blast
      show ?thesis
      proof (cases b)
        case True
        then show ?thesis
          using well_cutI [OF pre(2), of "[Control (ReplayLimitReached (rr_topic rr) (rr_max_allowed rr) (env_now env))]" rr]
            replay_loop_stopped [OF rest(1)] st' rest(2) pre(1) by (simp add: cuts_history_def)
      next
        case False
        then show ?thesis using well_cut_Rendered [OF pre(2) Suc.IH [OF rest(1)]] rest(2) st'(1) pre(1) by simp
      qed
    qed
  qed
qed simp


section \<open>The end point\<close>

definition within_end :: "end_at \<Rightarrow> message \<Rightarrow> bool" where
  "within_end en m =
    (case en of EndLatest \<Rightarrow> True | EndSequence n \<Rightarrow> m_sequence m \<le> n
     | EndDate d \<Rightarrow> (case m_timestamp m of Some t \<Rightarrow> t \<le> d | None \<Rightarrow> False))"

text \<open>Messages are stamped in the order of their sequences.\<close>
definition stamped_in_order :: "message list \<Rightarrow> bool" where
  "stamped_in_order ms =
    ((\<forall>m\<in>set ms. m_timestamp m \<noteq> None) \<and>
     (\<forall>m\<in>set ms. \<forall>m'\<in>set ms. m_sequence m \<le> m_sequence m' \<longrightarrow> the (m_timestamp m) \<le> the (m_timestamp m')))"

text \<open>
  C25: the end point of a replay. The sequence it is resolved to lies within the history, and
  a stored message that matches the pattern is at or before it exactly when it is within
  the end the request named: any message, one up to the given sequence, or one stamped at
  or before the given date, provided the clock did not run backwards between stores.
\<close>
theorem end_point_exact:
  assumes "mem_inv cfg s" "analyze_watch_pattern topic = Inr (coarse, pattern)"
    "resolve_end_sequence (history_end s) (first_sequence_after s) topic en = Inr e"
    "stamped_in_order (all_messages s)"
    "m \<in> set (all_messages s)" "matches_watch_pattern (m_topic m) pattern"
  shows "e < next_sequence s \<and> (m_sequence m \<le> e \<longleftrightarrow> within_end en m)"
proof -
  have n: "1 \<le> next_sequence s" "m_sequence m \<le> next_sequence s - 1"
    using assms(1) mem_inv_message [OF assms(1,5)] by (auto simp: mem_inv_def)
  show ?thesis
  proof (cases en)
    case (EndDate d)
    define later where "later = filter (\<lambda>m. case m_timestamp m of Some ts \<Rightarrow> d < ts | None \<Rightarrow> False)
                     (matching_messages s pattern)"
    have fsa: "first_sequence_after s topic d =
        Inr (if later = [] then None else Some (Min (m_sequence ` set later)))"
      by (simp add: first_sequence_after_def assms(2) later_def Let_def)
    obtain t where t: "m_timestamp m = Some t" using assms(4,5) by (auto simp: stamped_in_order_def)
    have m: "m \<in> set (matching_messages s pattern)" using assms(5,6) by (simp add: matching_messages_def)
    then have "t > d \<longleftrightarrow> m \<in> set later" by (simp add: later_def t)
    show ?thesis
    proof (cases "later = []")
      case True
      then show ?thesis using assms(2,3) n EndDate fsa \<open>t > d \<longleftrightarrow> m \<in> set later\<close>
        by (auto simp: resolve_end_sequence_def history_end_def within_end_def t)
    next
      case False
      let ?first = "Min (m_sequence ` set later)"
      have e: "e = min (next_sequence s - 1) (?first - 1)"
        using assms(2,3) EndDate fsa False by (simp add: resolve_end_sequence_def history_end_def)
      have "?first \<in> m_sequence ` set later" using False by (intro Min_in) auto
      then obtain f where f: "f \<in> set later" "m_sequence f = ?first" by (metis imageE)
      have fs: "f \<in> set (all_messages s)" "d < the (m_timestamp f)"
        using f(1) by (auto simp: later_def matching_messages_def split: option.splits)
      have pos: "1 \<le> ?first" using mem_inv_message [OF assms(1) fs(1)] f(2) by simp
      have "m_sequence m \<le> ?first - 1 \<longleftrightarrow> t \<le> d"
      proof
        assume "m_sequence m \<le> ?first - 1"
        moreover have "?first \<le> m_sequence m" if "m \<in> set later" using that by (intro Min_le) auto
        ultimately have "m \<notin> set later" using pos by (metis diff_less le_trans less_le_not_le zero_less_one less_le_trans)
        then show "t \<le> d" using \<open>t > d \<longleftrightarrow> m \<in> set later\<close> by simp
      next
        assume td: "t \<le> d"
        show "m_sequence m \<le> ?first - 1"
        proof (rule ccontr)
          assume "\<not> ?thesis"
          then have "m_sequence f \<le> m_sequence m" using pos f(2) by simp
          then have "the (m_timestamp f) \<le> t"
            using assms(4,5) fs(1) t unfolding stamped_in_order_def by (metis option.sel)
          then show False using fs(2) td by simp
        qed
      qed
      then show ?thesis using n e EndDate by (auto simp: within_end_def t)
    qed
  qed (use assms(2,3) n in \<open>auto simp: resolve_end_sequence_def history_end_def within_end_def\<close>)
qed

theorem end_point_exact_witness:
  "resolve_end_sequence (history_end after_three) (first_sequence_after after_three) ''wx.*'' (EndDate 2) = Inr 2 \<and>
   within_end (EndDate 2) (a_note 2 ''wx.n'') \<and> \<not> within_end (EndDate 2) (a_note 3 ''wx.n'')"
proof -
  have all: "all_messages after_three = [a_note 2 ''wx.n'', a_note 3 ''wx.n'']"
    by (simp add: after_three_def all_messages_def)
  have match: "matches_watch_pattern ''wx.n'' [''wx'', ''*'']"
    by (simp add: matches_watch_pattern_def decode_subject_def decode_token_def utf8_error.simps is_ascii_def)
  have r: "resolve_end_sequence (history_end after_three) (first_sequence_after after_three) ''wx.*'' (EndDate 2) = Inr 2"
    by (simp add: resolve_end_sequence_def history_end_def first_sequence_after_def sample_pattern
        matching_messages_def all_messages_def Let_def match a_note_def after_three_def)
  have o: "stamped_in_order (all_messages after_three)"
    by (simp add: stamped_in_order_def all a_note_def)
  have p: "analyze_watch_pattern ''wx.*'' = Inr (''wx.>'', [''wx'', ''*''])" by (rule sample_pattern)
  have "m_sequence m \<le> 2 \<longleftrightarrow> within_end (EndDate 2) m" if "m \<in> {a_note 2 ''wx.n'', a_note 3 ''wx.n''}" for m
    using end_point_exact [OF after_three_inv p r o, of m] that match by (auto simp: all a_note_def)
  from this [of "a_note 2 ''wx.n''"] this [of "a_note 3 ''wx.n''"] r show ?thesis by (simp add: a_note_def)
qed

section \<open>Event text and counters\<close>

fun is_rendered :: "stream_frame \<Rightarrow> bool" where
  "is_rendered (Rendered _ _) = True"
| "is_rendered _ = False"

lemma newline_ascii: "newline \<notin> set (event_name t)"
  by (cases t) (auto simp: newline_def char_of_def bit_0 bit_Suc)

text \<open>
  The text of an event. Every frame renders. A frame rendered here is one event of exactly
  one \<open>event\<close> line and one \<open>data\<close> line ended by an empty line, given that the JSON printer
  writes no raw line break; the error and heartbeat frames never count as notifications, and a
  notification counts as one exactly when its CloudEvent could be made.
\<close>
lemma event_text_framed:
  assumes "\<And>v. newline \<notin> set (json_print (env_host env) v)" "\<not> is_rendered f"
  shows "\<exists>bytes kind t data. frame_to_sse_bytes env rid f = Inr (bytes, kind) \<and>
           split_on newline bytes = [''event: '' @ event_name t, ''data: '' @ json_print (env_host env) data, [], []] \<and>
           (kind = KNotification \<longleftrightarrow> (\<exists>m k ev data'. f = NotificationFrame m k \<and>
              create_cloud_event_from_notification (env_host env) (env_sdk env) (env_schemas env) (env_now env) m
                (env_base_url env) = Inr ev \<and> sdk_value (env_sdk env) ev = Inr data'))"
proof -
  have fmt: "split_on newline (format_sse_event (env_host env) t data) =
        [''event: '' @ event_name t, ''data: '' @ json_print (env_host env) data, [], []]" for t data
  proof -
    have "newline \<notin> set (''event: '' @ event_name t)" "newline \<notin> set (''data: '' @ json_print (env_host env) data)"
      using newline_ascii assms(1) by (auto simp: newline_def char_of_def bit_0 bit_Suc)
    then have "split_on newline (join [newline] [''event: '' @ event_name t, ''data: '' @ json_print (env_host env) data, [], []]) =
        [''event: '' @ event_name t, ''data: '' @ json_print (env_host env) data, [], []]"
      by (intro split_on_join) auto
    then show ?thesis by (simp add: format_sse_event_def)
  qed
  define Q where "Q = (\<exists>m k ev data'. f = NotificationFrame m k \<and>
      create_cloud_event_from_notification (env_host env) (env_sdk env) (env_schemas env) (env_now env) m
        (env_base_url env) = Inr ev \<and> sdk_value (env_sdk env) ev = Inr data')"
  have shown: ?thesis
    if "frame_to_sse_bytes env rid f = Inr (format_sse_event (env_host env) t d, K)" "K = KNotification \<longleftrightarrow> Q" for t d K
    using that fmt [of t d] unfolding Q_def by blast
  show ?thesis
  proof (cases f)
    case (NotificationFrame m k)
    let ?r = "bind_res (create_cloud_event_from_notification (env_host env) (env_sdk env) (env_schemas env)
                (env_now env) m (env_base_url env)) (sdk_value (env_sdk env))"
    show ?thesis
    proof (cases ?r)
      case (Inl e)
      then have "\<not> Q" by (auto simp: Q_def NotificationFrame)
      then show ?thesis using shown Inl by (simp add: NotificationFrame notification_to_sse_event_def)
    next
      case (Inr d)
      then have Q by (auto simp: Q_def NotificationFrame result_simps)
      then show ?thesis using shown Inr by (simp add: NotificationFrame notification_to_sse_event_def)
    qed
  next
    case (Control c)
    obtain t d where "control_json (env_time_text env) c = (t, d)" by (metis surj_pair)
    then show ?thesis using shown [of t d KInfrastructure] by (simp add: Control Q_def)
  qed (use assms(2) shown in \<open>auto simp: Q_def\<close>)
qed

definition rendered_kinds :: "('poly, 'rect) sse_env \<Rightarrow> string \<Rightarrow> stream_frame list \<Rightarrow> sse_frame_kind list" where
  "rendered_kinds env rid fs = map (\<lambda>f. case frame_to_sse_bytes env rid f of Inr (_, k) \<Rightarrow> k | Inl _ \<Rightarrow> KInfrastructure) fs"

lemma rendered_kinds_simps [simp]:
  "rendered_kinds env rid [] = []"
  "frame_to_sse_bytes env rid f = Inr (bytes, k) \<Longrightarrow> rendered_kinds env rid (f # fs) = k # rendered_kinds env rid fs"
  by (simp_all add: rendered_kinds_def)

text \<open>
  The delivery counters. One chunk of bytes is sent per frame, no chunk is an error, and the
  counters grow by the number of frames rendered as notifications and as stream errors.
\<close>
lemma delivery_counted:
  "frames_to_sse_byte_stream env rid (Some (sent, errors)) fs =
     (map (\<lambda>f. Inr (fst (projr (frame_to_sse_bytes env rid f)))) fs,
      Some (sent + length (filter ((=) KNotification) (rendered_kinds env rid fs)),
            errors + length (filter ((=) KStreamError) (rendered_kinds env rid fs))))"
proof (induction fs arbitrary: sent errors)
  case (Cons f fs)
  obtain bytes kind where "frame_to_sse_bytes env rid f = Inr (bytes, kind)"
    using frame_to_sse_bytes_total by blast
  then show ?case using Cons [of "Suc sent" errors] Cons [of sent "Suc errors"] Cons [of sent errors]
    by (cases kind) (simp_all add: record_frame_delivery_def)
qed simp

section \<open>A batch size of zero\<close>

text \<open>
  C40: a batch size of zero, which the configuration accepts, makes a replay that has anything
  to deliver read forever: every read is an empty page that announces more and moves no
  cursor, so no amount of fuel ends it.
\<close>
theorem zero_batch_never_ends:
  assumes "mem_inv cfg s" "analyze_watch_pattern (rr_topic rr) = Inr (coarse, pattern)"
    "m \<in> set (all_messages s)" "wanted pattern e st m"
  shows "create_historical_replay_stream env rr (\<lambda>k. get_messages_batch s) fuel 0 st e = None"
proof -
  let ?p = "batch_at (rr_topic rr) 0 e st"
  obtain ms where ms: "mem_history s (bp_topic ?p) = Inr ms" using assms(2) by (simp add: mem_history_def)
  have "set ms = {m \<in> set (all_messages s). matches_watch_pattern (m_topic m) pattern}"
    using mem_history_set [OF ms, of coarse pattern] assms(2) by simp
  then have "m \<in> set (eligible ?p ms)" using assms(3,4) by (auto simp: set_eligible wanted_def)
  then have "eligible ?p ms \<noteq> []" by auto
  moreover have "get_messages_batch s ?p = Inr (page_of ?p ms)" by (rule mem.fetch_page [OF assms(1) ms])
  ultimately have "replay_step env rr (get_messages_batch s) \<lparr>rs_params = ?p, rs_has_more = True, rs_delivered = 0\<rparr> =
      Some ([], \<lparr>rs_params = ?p, rs_has_more = True, rs_delivered = 0\<rparr>)"
    by (simp add: replay_step_def page_of_def Let_def)
  then have "replay_loop env rr (\<lambda>k. get_messages_batch s) fuel k
      \<lparr>rs_params = ?p, rs_has_more = True, rs_delivered = 0\<rparr> = None" for k
    by (induction fuel arbitrary: k) simp_all
  then show ?thesis
    by (simp add: create_historical_replay_stream_def initial_replay_state_def new_batch_params_def
        with_end_sequence_def with_start_at_def)
qed

theorem zero_batch_never_ends_witness:
  "create_historical_replay_stream sample_env sample_replay (\<lambda>k. get_messages_batch after_three) 1000 0 LiveOnly 3 = None"
proof -
  have match: "matches_watch_pattern ''wx.n'' [''wx'', ''*'']"
    by (simp add: matches_watch_pattern_def decode_subject_def decode_token_def utf8_error.simps is_ascii_def)
  show ?thesis
    by (rule zero_batch_never_ends [OF after_three_inv, of _ "''wx.>''" "[''wx'', ''*'']" "a_note 3 ''wx.n''"])
      (simp_all add: sample_replay_def sample_pattern wanted_def match a_note_def after_three_def all_messages_def starts_at_def)
qed

section \<open>Notifications as CloudEvents\<close>

lemma event_type_of_base_unique:
  assumes "map_of schemas et = Some schema" "es_topic schema = Some tc"
    "\<forall>(et', schema')\<in>set schemas. map_option tc_base (es_topic schema') = Some (tc_base tc) \<longrightarrow> et' = et"
  shows "event_type_of_base (tc_base tc) schemas = Some et"
  using assms by (induction schemas) (force split: if_splits option.splits)+

lemma event_data_plain:
  assumes "Option.bind metadata (\<lambda>m. map_of m SPATIAL_GEOMETRY_METADATA_KEY) = None"
    "Option.bind metadata (\<lambda>m. map_of m SPATIAL_POINT_CLOUD_METADATA_KEY) = None"
    "parse_payload_to_json h payload = Inr data"
  shows "build_cloud_event_data h req payload metadata =
    Inr (json_object [(''identifier'', json_object (map (\<lambda>(k, v). (k, JString v)) req)), (''payload'', data)])"
  using assms by (simp add: build_cloud_event_data_def attach_polygon_def attach_point_cloud_def)

text \<open>A notification without headers that the sample schema describes is rendered.\<close>
lemma wx_note_renders:
  assumes m: "m_topic m = ''weather.north.a%2Eb''" "m_metadata m = None"
    and env: "env_schemas env = Some [(''wx'', sample_schema)]" "env_sdk env = sample_sdk"
  shows "\<exists>bytes. renders env rr m = (bytes, KNotification)"
proof -
  have base: "valid_base ''weather''" by (simp add: valid_base_def is_alphanumeric_def is_digit_def is_upper_def is_lower_def)
  have "encode_subject [''weather'', ''north'', ''a.b''] = ''weather.north.a%2Eb''"
    by (simp add: encode_subject_def is_reserved_char_def hex02_def hex_upper_def char_of_def bit_0 bit_Suc)
  then have base: "derive_event_type_from_topic ''weather.north.a%2Eb'' = Inr ''weather''"
    using derive_encoded_base [OF base, of "[''north'', ''a.b'']"] by simp
  have et: "find_event_type_from_topic_base (Some [(''wx'', sample_schema)]) ''weather'' = Inr ''wx''"
    by (simp add: find_event_type_from_topic_base_def sample_schema_def sample_topic_def)
  obtain req where req: "topic_to_request (Some [(''wx'', sample_schema)]) ''weather.north.a%2Eb'' ''wx'' = Inr req"
    by (simp add: topic_to_request_def parse_topic_with_schema_def sample_decoded sample_schema_def sample_topic_def)
  obtain data where data: "parse_payload_to_json (env_host env) (m_payload m) = Inr data" using parse_payload_total by blast
  have "\<exists>ev. create_cloud_event_from_notification (env_host env) (env_sdk env) (env_schemas env) (env_now env) m
      (env_base_url env) = Inr ev"
    using base et req event_data_plain [OF _ _ data, of "m_metadata m" req]
    by (simp add: create_cloud_event_from_notification_def create_cloud_event_def m env sample_sdk_def)
  then show ?thesis by (auto simp: renders_def notification_to_sse_event_def env sample_sdk_def)
qed

text \<open>A watch that may deliver no historical notification and finds one.\<close>
definition wx_note :: message where
  "wx_note = \<lparr>m_sequence = 1, m_topic = ''weather.north.a%2Eb'', m_payload = ''1'', m_timestamp = Some 1, m_metadata = None\<rparr>"


text \<open>
  C27: an accepted notification comes back as its own event. From the stored message of a
  notification without geometry, of an event type whose base no other event type has, the
  event handed to the CloudEvents library names that event type and the sequence, and its
  identifier has exactly the routed fields with their canonical values; only values that are
  empty or the literal wildcard are missing.
\<close>
theorem event_names_notification:
  assumes "map_of (reg_schemas reg) et = Some schema" "es_topic schema = Some tc"
    "\<forall>(et', schema')\<in>set (reg_schemas reg). map_option tc_base (es_topic schema') = Some (tc_base tc) \<longrightarrow> et' = et"
    "process_request_with_values h c reg et pn payload Notify = Inr rn"
    "valid_params (tc_key_order tc) (pr_params rn)" "m_topic m = pr_topic rn"
    "Option.bind (m_metadata m) (\<lambda>x. map_of x SPATIAL_GEOMETRY_METADATA_KEY) = None"
    "Option.bind (m_metadata m) (\<lambda>x. map_of x SPATIAL_POINT_CLOUD_METADATA_KEY) = None"
    "parse_payload_to_json h (m_payload m) = Inr data"
  shows "\<exists>req ev.
    (\<forall>k. map_of req k = (if k \<in> set (tc_key_order tc) \<and> map_of (pr_params rn) k \<noteq> Some [] \<and>
                             map_of (pr_params rn) k \<noteq> Some ''*'' then map_of (pr_params rn) k else None)) \<and>
    ce_id ev = et @ ''@'' @ show_nat (m_sequence m) \<and> ce_type ev = ''int.ecmwf.aviso.'' @ et \<and>
    ce_data ev = json_object [(''identifier'', json_object (map (\<lambda>(k, v). (k, JString v)) req)), (''payload'', data)] \<and>
    create_cloud_event_from_notification h sdk (Some (reg_schemas reg)) now m base_url =
      with_context ''Failed to build CloudEvent'' (sdk_build sdk ev)"
proof -
  have built: "build_topic_with_schema et schema (pr_params rn) = Inr (pr_topic rn)" "valid_base (tc_base tc)"
    using process_success [OF assms(1,2,4)] by (auto simp: routing_params_def)
  have utf8: "valid_utf8 (tc_base tc)" by (rule valid_base_utf8 [OF built(2)])
  obtain vs where dec: "decode_subject (pr_topic rn) = Inr (tc_base tc # vs)"
    using decode_built_topic [OF assms(2) built(1) utf8 assms(5)] by blast
  obtain req where req: "parse_topic_with_schema (pr_topic rn) schema = Inr req"
      "\<forall>k. map_of req k = (if k \<in> set (tc_key_order tc) \<and> map_of (pr_params rn) k \<noteq> Some [] \<and>
           map_of (pr_params rn) k \<noteq> Some ''*'' then map_of (pr_params rn) k else None)"
    using parse_built_topic [OF assms(2) built(1) utf8 assms(5)] by blast
  have base: "derive_event_type_from_topic (pr_topic rn) = Inr (tc_base tc)"
    using build_topic_Inr [OF assms(2)] built(1) derive_encoded_base [OF built(2)] by auto
  show ?thesis
    using req(2) base req(1) event_type_of_base_unique [OF assms(1-3)] assms(1)
      event_data_plain [OF assms(7-9), of req]
    by (intro exI [of _ req] exI conjI)
      (simp_all add: create_cloud_event_from_notification_def create_cloud_event_def assms(6)
        find_event_type_from_topic_base_def topic_to_request_def)
qed

theorem event_names_notification_witness:
  "\<exists>ev. create_cloud_event_from_notification sample_host sample_sdk (Some (reg_schemas sample_registry)) 5
           \<lparr>m_sequence = 9, m_topic = ''weather.north.a%2Eb'', m_payload = [], m_timestamp = None, m_metadata = None\<rparr>
           ''http://h'' = Inr ev \<and> ce_id ev = ''wx@'' @ show_nat 9"
proof -
  have v: "valid_params (tc_key_order sample_topic) [(''step'', ''a.b''), (''region'', ''north'')]"
    by (simp add: valid_params_def sample_defs valid_utf8_def utf8_error.simps is_ascii_def)
  have s: "map_of (reg_schemas sample_registry) ''wx'' = Some sample_schema" "es_topic sample_schema = Some sample_topic"
    by (simp_all add: sample_registry_def sample_schema_def)
  have one: "\<forall>(et', schema')\<in>set (reg_schemas sample_registry).
      map_option tc_base (es_topic schema') = Some (tc_base sample_topic) \<longrightarrow> et' = ''wx''"
    by (simp add: sample_registry_def)
  show ?thesis
    using event_names_notification [OF s one sample_notify_result, of "\<lparr>m_sequence = 9, m_topic = ''weather.north.a%2Eb'',
        m_payload = [], m_timestamp = None, m_metadata = None\<rparr>" JNull sample_sdk 5 "''http://h''"] v
    by (auto simp: parse_payload_to_json_def sample_sdk_def)
qed

end
