(* ===== verification/JetStreamReplay.thy ===== *)
theory JetStreamReplay
  imports JetStreamStreams Streaming
begin

text \<open>
  Reading and removing notifications of the JetStream backend: \<open>jetstream/subscriber_utils.rs\<close>,
  \<open>subscriber.rs\<close>, \<open>replay.rs\<close>, \<open>admin.rs\<close> and the trait methods of \<open>backend.rs\<close>. The reading
  operations of the client library are the record \<open>reader\<close> over the server's state; \<open>ensure\<close>
  is the ensuring of the stream. Dates are nanoseconds since the epoch.
\<close>

section \<open>Messages\<close>

lemma utf8_error_some:
  "utf8_error i s = Some (v, l) \<Longrightarrow> s \<noteq> [] \<and> (\<forall>k. l = Some k \<longrightarrow> 1 \<le> k)"
proof (induction i s rule: utf8_error.induct)
  case (2 i a r)
  show ?case using "2.prems" "2.IH" unfolding utf8_error.simps(2) [of i a r]
    by (auto split: if_splits list.splits)
qed simp

definition replacement :: string where
  "replacement = utf8_3 0xEF 0xBF 0xBD"

text \<open>\<open>String::from_utf8_lossy\<close>: every maximal invalid piece becomes U+FFFD.\<close>
function from_utf8_lossy :: "string \<Rightarrow> string" where
  "from_utf8_lossy s =
    (case utf8_error 0 s of
       None \<Rightarrow> s
     | Some (valid, None) \<Rightarrow> take valid s @ replacement
     | Some (valid, Some k) \<Rightarrow> take valid s @ replacement @ from_utf8_lossy (drop (valid + k) s))"
  by pat_completeness auto
termination
  by (relation "measure length") (auto dest!: utf8_error_some)

declare from_utf8_lossy.simps [simp del]

record js_info =
  ji_sequence :: nat
  ji_published :: int

text \<open>A message as the client library hands it out; its description may be unreadable.\<close>
record js_message =
  jm_subject :: string
  jm_payload :: string
  jm_headers :: "string list alist option"
  jm_info :: "string + js_info"

definition headers_metadata :: "string list alist option \<Rightarrow> string alist option" where
  "headers_metadata headers =
    (case headers of
       None \<Rightarrow> None
     | Some hs \<Rightarrow>
         (let map = fold (\<lambda>(k, vs). AList.update k (join '','' vs)) hs []
          in if map = [] then None else Some map))"

definition transform_jetstream_message :: "js_message \<Rightarrow> err + message" where
  "transform_jetstream_message m =
     bind_res (map_err (\<lambda>e. [''Failed to get message info from JetStream message: '' @ e]) (jm_info m)) (\<lambda>info.
     Inr \<lparr>m_sequence = ji_sequence info, m_topic = jm_subject m, m_payload = from_utf8_lossy (jm_payload m),
          m_timestamp = Some (ji_published info), m_metadata = headers_metadata (jm_headers m)\<rparr>)"

definition apply_message_filter :: "message \<Rightarrow> string list \<Rightarrow> message option" where
  "apply_message_filter m pattern = (if matches_watch_pattern (m_topic m) pattern then Some m else None)"

section \<open>Consumers\<close>

datatype deliver_policy = DeliverAll | DeliverNew | DeliverByStartSequence nat | DeliverByStartTime int

record consumer_config =
  cc_name_prefix :: string
  cc_durable :: bool
  cc_deliver_policy :: deliver_policy
  cc_max_deliver :: int
  cc_description :: "string option"

definition for_subscription :: "string \<Rightarrow> string \<Rightarrow> consumer_config" where
  "for_subscription stream_name backend_pattern =
     \<lparr>cc_name_prefix = ''watch_consumer_'' @ stream_name, cc_durable = False, cc_deliver_policy = DeliverNew,
      cc_max_deliver = 1, cc_description = Some (''Watch consumer for pattern: '' @ backend_pattern)\<rparr>"

text \<open>The request for a pull consumer; nothing is acknowledged and replay is instant.\<close>
record pull_config =
  pl_name :: string
  pl_durable_name :: "string option"
  pl_description :: "string option"
  pl_filter_subject :: string
  pl_deliver_policy :: deliver_policy
  pl_max_deliver :: int

text \<open>\<open>millis\<close> and \<open>uuid\<close> are the clock and a fresh identifier.\<close>
definition build_jetstream_consumer_config :: "string \<Rightarrow> string \<Rightarrow> consumer_config \<Rightarrow> string \<Rightarrow> pull_config" where
  "build_jetstream_consumer_config millis uuid config backend_pattern =
     \<lparr>pl_name = cc_name_prefix config @ ''_'' @ millis @ ''_'' @ uuid,
      pl_durable_name = (if cc_durable config then Some (cc_name_prefix config @ ''_durable'') else None),
      pl_description = cc_description config, pl_filter_subject = backend_pattern,
      pl_deliver_policy = cc_deliver_policy config, pl_max_deliver = cc_max_deliver config\<rparr>"

definition replay_consumer_config :: "string \<Rightarrow> string \<Rightarrow> string \<Rightarrow> deliver_policy \<Rightarrow> pull_config" where
  "replay_consumer_config millis uuid backend_pattern policy =
     \<lparr>pl_name = ''replay_consumer_'' @ millis @ ''_'' @ uuid, pl_durable_name = None,
      pl_description = Some (''Replay consumer for pattern: '' @ backend_pattern),
      pl_filter_subject = backend_pattern, pl_deliver_policy = policy, pl_max_deliver = 1\<rparr>"

text \<open>
  What the server is asked. A consumer answers with the sequence it starts after; a fetch
  yields at most the requested number of messages, each readable or not.
\<close>
record 's reader =
  rd_get_stream :: "string \<Rightarrow> 's \<Rightarrow> js_error + stream_state"
  rd_info :: "string \<Rightarrow> 's \<Rightarrow> js_error + stream_state"
  rd_create_consumer :: "pull_config \<Rightarrow> string \<Rightarrow> 's \<Rightarrow> js_error + nat"
  rd_fetch :: "pull_config \<Rightarrow> string \<Rightarrow> nat \<Rightarrow> 's \<Rightarrow> js_error + (string + js_message) list"
  rd_messages :: "pull_config \<Rightarrow> string \<Rightarrow> 's \<Rightarrow> js_error + (string + js_message) list"
  rd_millis :: string
  rd_uuid :: string

definition reading :: "string \<Rightarrow> js_error + 'a \<Rightarrow> err + 'a" where
  "reading msg r = map_err (\<lambda>e. [msg, je_text e]) r"

lemma reading_Inr [simp]: "reading msg r = Inr x \<longleftrightarrow> r = Inr x" "reading msg (Inr x) = Inr x"
  by (simp_all add: reading_def result_simps)

section \<open>Subscriptions\<close>

text \<open>The live messages of a subscription: the unreadable ones are skipped.\<close>
definition live_messages :: "string list \<Rightarrow> (string + js_message) list \<Rightarrow> message list" where
  "live_messages pattern raws =
     List.map_filter (\<lambda>r. case r of
         Inl _ \<Rightarrow> None
       | Inr m \<Rightarrow> (case transform_jetstream_message m of
            Inr n \<Rightarrow> apply_message_filter n pattern | Inl _ \<Rightarrow> None)) raws"

text \<open>A subscription: its live messages and where the history ends.\<close>
definition create_subscription_internal ::
  "'s reader \<Rightarrow> (string \<Rightarrow> 's \<Rightarrow> (err + string) \<times> 's) \<Rightarrow> string \<Rightarrow> 's \<Rightarrow> (err + message list \<times> nat) \<times> 's" where
  "create_subscription_internal rd ensure topic s =
    (case analyze_watch_pattern topic of
       Inl e \<Rightarrow> (Inl e, s)
     | Inr (backend_pattern, app_filter_pattern) \<Rightarrow>
    (case ensure backend_pattern s of
       (Inl e, s) \<Rightarrow> (Inl (''Failed to ensure stream exists for topic subscription'' # e), s)
     | (Inr _, s) \<Rightarrow>
        (bind_res (with_context ''Failed to derive stream name from backend pattern''
                    (derive_stream_name_from_topic backend_pattern)) (\<lambda>stream_name.
         let config = build_jetstream_consumer_config (rd_millis rd) (rd_uuid rd)
               (for_subscription stream_name backend_pattern) backend_pattern in
         bind_res (reading ''Failed to create JetStream consumer'' (rd_create_consumer rd config stream_name s)) (\<lambda>history_end.
         bind_res (reading ''Failed to get message stream from consumer'' (rd_messages rd config stream_name s)) (\<lambda>raws.
         Inr (live_messages app_filter_pattern raws, history_end)))), s)))"

text \<open>The retries of a subscription, with the delays, in the width of \<open>u64\<close>.\<close>
fun subscribe_attempts ::
  "('s \<Rightarrow> (err + 'r) \<times> 's) \<Rightarrow> nat \<Rightarrow> nat \<Rightarrow> nat list \<Rightarrow> 's \<Rightarrow> ((err + 'r) option \<times> 's) \<times> nat list" where
  "subscribe_attempts create base_delay max_attempts [] s = ((None, s), [])"
| "subscribe_attempts create base_delay max_attempts (attempt # rest) s =
    (case create s of
       (Inr x, s) \<Rightarrow> ((Some (Inr x), s), [])
     | (Inl e, s) \<Rightarrow>
         if attempt = max_attempts then ((Some (Inl e), s), [])
         else (case subscribe_attempts create base_delay max_attempts rest s of
                 (r, delays) \<Rightarrow> (r, (base_delay * attempt) mod 2 ^ 64 # delays)))"

definition jetstream_subscribe_to_topic ::
  "jetstream_config \<Rightarrow> 's reader \<Rightarrow> (string \<Rightarrow> 's \<Rightarrow> (err + string) \<times> 's) \<Rightarrow> string \<Rightarrow> 's \<Rightarrow>
   ((err + message list \<times> nat) option \<times> 's) \<times> nat list" where
  "jetstream_subscribe_to_topic jc rd ensure topic s =
    (let max_attempts = max (unwrap_or 5 (jc_max_reconnect_attempts jc)) 1
     in subscribe_attempts (create_subscription_internal rd ensure topic) (jc_reconnect_delay_ms jc) max_attempts
          [1 ..< Suc max_attempts] s)"

section \<open>Batches\<close>

definition jetstream_start_time :: "int \<Rightarrow> int option" where
  "jetstream_start_time date = (if is_i64 date then Some date else None)"

definition determine_deliver_policy :: "start_at \<Rightarrow> err + deliver_policy" where
  "determine_deliver_policy start =
    (case start of
       StartDate d \<Rightarrow> map_res DeliverByStartTime
         (of_option [''from_date is outside supported timestamp range''] (jetstream_start_time d))
     | StartSequence n \<Rightarrow> Inr (if n = 0 then DeliverAll else DeliverByStartSequence n)
     | LiveOnly \<Rightarrow> Inr DeliverAll)"

text \<open>
  The loop over the fetched messages: the matching ones so far, the last sequence seen, and
  whether the end was reached.
\<close>
fun read_messages ::
  "string list \<Rightarrow> nat \<Rightarrow> nat \<Rightarrow> (string + js_message) list \<Rightarrow> message list \<Rightarrow> nat option \<Rightarrow>
   err + message list \<times> nat option \<times> bool" where
  "read_messages pattern mx end_sequence [] filtered last_seq = Inr (filtered, last_seq, False)"
| "read_messages pattern mx end_sequence (Inl e # rest) filtered last_seq =
     Inl [''Failed to read JetStream replay batch'', e]"
| "read_messages pattern mx end_sequence (Inr m # rest) filtered last_seq =
    (case jm_info m of
       Inl e \<Rightarrow> Inl [''Failed to read replay sequence'', e]
     | Inr info \<Rightarrow>
         (let n = ji_sequence info in
          if n > end_sequence then Inr (filtered, last_seq, True)
          else
           (let filtered = (case transform_jetstream_message m of
                  Inr note \<Rightarrow> if matches_watch_pattern (m_topic note) pattern then filtered @ [note] else filtered
                | Inl _ \<Rightarrow> filtered) in
            if n = end_sequence then Inr (filtered, Some n, True)
            else if length filtered \<ge> mx then Inr (filtered, Some n, False)
            else read_messages pattern mx end_sequence rest filtered (Some n))))"

definition read_replay_batch ::
  "(string + js_message) list \<Rightarrow> string list \<Rightarrow> nat \<Rightarrow> nat \<Rightarrow> err + batch_result" where
  "read_replay_batch messages pattern mx end_sequence =
     map_res (\<lambda>(filtered, last_seq, reached_end).
       (new_batch_result filtered mx)
         \<lparr>br_has_more := \<not> reached_end \<and> (case last_seq of Some n \<Rightarrow> n < end_sequence | None \<Rightarrow> False),
          br_next_sequence := map_option Suc last_seq\<rparr>)
       (read_messages pattern mx end_sequence messages [] None)"

definition jetstream_get_messages_batch ::
  "'s reader \<Rightarrow> (string \<Rightarrow> 's \<Rightarrow> (err + string) \<times> 's) \<Rightarrow> batch_params \<Rightarrow> 's \<Rightarrow> (err + batch_result) \<times> 's" where
  "jetstream_get_messages_batch rd ensure p s =
    (case analyze_watch_pattern (bp_topic p) of
       Inl e \<Rightarrow> (Inl e, s)
     | Inr (backend_pattern, app_filter_pattern) \<Rightarrow>
    (case ensure backend_pattern s of
       (Inl e, s) \<Rightarrow> (Inl (''Failed to ensure stream exists for batch retrieval'' # e), s)
     | (Inr _, s) \<Rightarrow>
        (bind_res (with_context ''Failed to derive stream name from topic''
                    (derive_stream_name_from_topic backend_pattern)) (\<lambda>stream_name.
         bind_res (reading ''Failed to get stream'' (rd_get_stream rd stream_name s)) (\<lambda>_.
         bind_res (reading ''Failed to get stream info'' (rd_info rd stream_name s)) (\<lambda>info.
         let end_sequence = min (bp_end_sequence p) (ss_last_sequence info) in
         if ss_messages info = 0 \<or> end_sequence = 0 \<or>
            (case bp_start_at p of StartSequence start \<Rightarrow> start > end_sequence | _ \<Rightarrow> False)
         then Inr empty_batch_result
         else
           bind_res (determine_deliver_policy (bp_start_at p)) (\<lambda>policy.
           let config = replay_consumer_config (rd_millis rd) (rd_uuid rd) backend_pattern policy in
           bind_res (reading ''Failed to create JetStream consumer for batch retrieval''
                       (rd_create_consumer rd config stream_name s)) (\<lambda>_.
           bind_res (reading ''Failed to fetch messages'' (rd_fetch rd config stream_name (bp_limit p) s)) (\<lambda>messages.
           read_replay_batch messages app_filter_pattern (bp_limit p) end_sequence)))))), s)))"

section \<open>Bounds of the history\<close>

definition jetstream_history_end ::
  "'s reader \<Rightarrow> (string \<Rightarrow> 's \<Rightarrow> (err + string) \<times> 's) \<Rightarrow> string \<Rightarrow> 's \<Rightarrow> (err + nat) \<times> 's" where
  "jetstream_history_end rd ensure topic s =
    (case analyze_watch_pattern topic of
       Inl e \<Rightarrow> (Inl e, s)
     | Inr (pattern, _) \<Rightarrow>
    (case ensure pattern s of
       (Inl e, s) \<Rightarrow> (Inl (''Failed to ensure stream for replay boundary'' # e), s)
     | (Inr name, s) \<Rightarrow>
        (map_res ss_last_sequence (reading ''Failed to capture replay boundary'' (rd_get_stream rd name s)), s)))"

definition jetstream_first_sequence_after ::
  "'s reader \<Rightarrow> (string \<Rightarrow> 's \<Rightarrow> (err + string) \<times> 's) \<Rightarrow> string \<Rightarrow> int \<Rightarrow> 's \<Rightarrow> (err + nat option) \<times> 's" where
  "jetstream_first_sequence_after rd ensure topic t s =
    (case analyze_watch_pattern topic of
       Inl e \<Rightarrow> (Inl e, s)
     | Inr (backend_pattern, _) \<Rightarrow>
    (case ensure backend_pattern s of
       (Inl e, s) \<Rightarrow> (Inl (''Failed to ensure stream exists for the replay end'' # e), s)
     | (Inr _, s) \<Rightarrow>
        (bind_res (with_context ''Failed to derive stream name from topic''
                    (derive_stream_name_from_topic backend_pattern)) (\<lambda>stream_name.
         case (case jetstream_start_time (t + 1) of
                 Some start_time \<Rightarrow> Some (DeliverByStartTime start_time)
               | None \<Rightarrow> if t > 0 then None else Some DeliverAll) of
           None \<Rightarrow> Inr None
         | Some policy \<Rightarrow>
             (let config = replay_consumer_config (rd_millis rd) (rd_uuid rd) backend_pattern policy in
              bind_res (reading ''Failed to create JetStream consumer for batch retrieval''
                          (rd_create_consumer rd config stream_name s)) (\<lambda>_.
              bind_res (reading ''Failed to fetch the first message after the replay end''
                          (rd_fetch rd config stream_name 1 s)) (\<lambda>messages.
              case messages of
                [] \<Rightarrow> Inr None
              | Inl e # _ \<Rightarrow> Inl [''Failed to read the first message after the replay end'', e]
              | Inr m # _ \<Rightarrow>
                  (case jm_info m of
                     Inl e \<Rightarrow> Inl [''Failed to read the sequence after the replay end'', e]
                   | Inr info \<Rightarrow> Inr (Some (ji_sequence info))))))), s)))"

section \<open>Administration\<close>

text \<open>The operations of the administration on the server's state.\<close>
record 's warden =
  wd_get_stream :: "string \<Rightarrow> 's \<Rightarrow> js_error + unit"
  wd_info :: "string \<Rightarrow> 's \<Rightarrow> js_error + stream_state"
  wd_purge :: "string \<Rightarrow> 's \<Rightarrow> (js_error + unit) \<times> 's"
  wd_delete_message :: "string \<Rightarrow> nat \<Rightarrow> 's \<Rightarrow> (js_error + bool) \<times> 's"
  wd_streams :: "'s \<Rightarrow> (js_error + string) list"

definition names_missing_stream :: "js_error \<Rightarrow> bool" where
  "names_missing_stream e = str_contains ''stream not found'' (to_ascii_lowercase (je_text e))"

definition jetstream_wipe_stream :: "'s warden \<Rightarrow> string \<Rightarrow> 's \<Rightarrow> (err + wipe_result) \<times> 's" where
  "jetstream_wipe_stream wd stream_key s =
    (let stream_name = to_ascii_uppercase stream_key in
     case wd_get_stream wd stream_name s of
       Inl e \<Rightarrow> if names_missing_stream e then (Inr WipeNotFound, s)
                else (Inl [''Failed to get stream '' @ stream_name, je_text e], s)
     | Inr _ \<Rightarrow>
    (case wd_info wd stream_name s of
       Inl e \<Rightarrow> (Inl [''Failed to get stream info'', je_text e], s)
     | Inr _ \<Rightarrow>
         and_then (context_of ''Failed to purge stream'' (wd_purge wd stream_name s)) (\<lambda>_ s. (Inr Wiped, s))))"

text \<open>Every listed stream is wiped; a failure of one does not stop the others.\<close>
fun wipe_streams :: "'s warden \<Rightarrow> (js_error + string) list \<Rightarrow> 's \<Rightarrow> 's" where
  "wipe_streams wd [] s = s"
| "wipe_streams wd (Inl _ # rest) s = wipe_streams wd rest s"
| "wipe_streams wd (Inr name # rest) s = wipe_streams wd rest (snd (jetstream_wipe_stream wd name s))"

definition jetstream_wipe_all :: "'s warden \<Rightarrow> 's \<Rightarrow> (err + unit) \<times> 's" where
  "jetstream_wipe_all wd s = (Inr (), wipe_streams wd (wd_streams wd s) s)"

definition jetstream_delete_message :: "'s warden \<Rightarrow> string \<Rightarrow> nat \<Rightarrow> 's \<Rightarrow> (err + delete_result) \<times> 's" where
  "jetstream_delete_message wd stream_key n s =
    (let stream_name = to_ascii_uppercase stream_key in
     case wd_get_stream wd stream_name s of
       Inl e \<Rightarrow> if names_missing_stream e then (Inr DeleteNotFound, s)
                else (Inl [''Failed to get stream '' @ stream_name, je_text e], s)
     | Inr _ \<Rightarrow>
         and_then (context_of (''Failed to delete sequence '' @ show_nat n @ '' from stream '' @ stream_name)
             (wd_delete_message wd stream_name n s))
           (\<lambda>deleted s. (Inr (if deleted then Deleted else DeleteNotFound), s)))"

section \<open>The replay loop over JetStream\<close>

text \<open>The messages a delivery policy starts with.\<close>
definition delivers :: "deliver_policy \<Rightarrow> js_info \<Rightarrow> bool" where
  "delivers policy info =
    (case policy of
       DeliverAll \<Rightarrow> True
     | DeliverNew \<Rightarrow> False
     | DeliverByStartSequence n \<Rightarrow> n \<le> ji_sequence info
     | DeliverByStartTime t \<Rightarrow> t \<le> ji_published info)"

text \<open>
  What the server documents of a stream that holds these messages and does not change: the
  stream is there, its last sequence is not before any of them, and a fetch returns the first
  messages that the filter subject covers from where the policy starts.
\<close>
definition serves :: "'s reader \<Rightarrow> (string \<Rightarrow> 's \<Rightarrow> (err + string) \<times> 's) \<Rightarrow> 's \<Rightarrow> string \<Rightarrow> (js_message \<times> js_info) list \<Rightarrow> bool" where
  "serves rd ensure s pattern held =
    (\<exists>name state. ensure pattern s = (Inr name, s) \<and> derive_stream_name_from_topic pattern = Inr name \<and>
       rd_get_stream rd name s = Inr state \<and> rd_info rd name s = Inr state \<and> ss_messages state = length held \<and>
       (\<forall>(m, info)\<in>set held. jm_info m = Inr info \<and> 1 \<le> ji_sequence info \<and> ji_sequence info \<le> ss_last_sequence state) \<and>
       (\<forall>config. (\<exists>n. rd_create_consumer rd config name s = Inr n) \<and>
          (\<forall>mx. rd_fetch rd config name mx s = Inr (map (\<lambda>(m, _). Inr m) (take mx
             (filter (\<lambda>(m, info). covers (pl_filter_subject config) (jm_subject m) \<and>
                delivers (pl_deliver_policy config) info) held))))))"

definition note_of :: "js_message \<times> js_info \<Rightarrow> message" where
  "note_of = (\<lambda>(m, info). \<lparr>m_sequence = ji_sequence info, m_topic = jm_subject m,
     m_payload = from_utf8_lossy (jm_payload m), m_timestamp = Some (ji_published info),
     m_metadata = headers_metadata (jm_headers m)\<rparr>)"

abbreviation seq_of :: "js_message \<times> js_info \<Rightarrow> nat" where
  "seq_of x \<equiv> ji_sequence (snd x)"

abbreviation in_order :: "(js_message \<times> js_info) list \<Rightarrow> bool" where
  "in_order xs \<equiv> sorted_wrt (\<lambda>a b. seq_of a < seq_of b) xs"

definition described :: "(js_message \<times> js_info) list \<Rightarrow> bool" where
  "described xs = (\<forall>(m, info)\<in>set xs. jm_info m = Inr info)"

abbreviation matching :: "string list \<Rightarrow> (js_message \<times> js_info) list \<Rightarrow> message list" where
  "matching full xs \<equiv> filter (\<lambda>n. matches_watch_pattern (m_topic n) full) (map note_of xs)"

lemma described_Cons: "described (x # xs) \<longleftrightarrow> jm_info (fst x) = Inr (snd x) \<and> described xs"
  by (auto simp: described_def split: prod.splits)

lemma transform_described: "jm_info m = Inr info \<Longrightarrow> transform_jetstream_message m = Inr (note_of (m, info))"
  by (simp add: transform_jetstream_message_def note_of_def)

text \<open>Reading a page that is in order: what is not past the end, and whether the end was seen.\<close>
lemma read_messages_spec:
  assumes "in_order W" "described W" "length acc + length W \<le> mx" "0 < mx"
  shows "read_messages full mx e (map (\<lambda>(m, _). Inr m) W) acc l =
    (let W' = takeWhile (\<lambda>x. seq_of x \<le> e) W in
     Inr (acc @ matching full W', if W' = [] then l else Some (seq_of (last W')),
          W' \<noteq> W \<or> (W' \<noteq> [] \<and> seq_of (last W') = e)))"
  using assms(1-3)
proof (induction W arbitrary: acc l)
  case (Cons x W)
  obtain m info where x: "x = (m, info)" by (cases x)
  have d: "jm_info m = Inr info" "described W" using Cons.prems(2) by (simp_all add: x described_Cons)
  have later: "\<And>y. y \<in> set W \<Longrightarrow> ji_sequence info < seq_of y" and W: "in_order W"
    using Cons.prems(1) by (auto simp: x)
  let ?acc = "acc @ matching full [x]"
  have step: "read_messages full mx e (map (\<lambda>(m, _). Inr m) (x # W)) acc l =
      (if ji_sequence info > e then Inr (acc, l, True)
       else if ji_sequence info = e then Inr (?acc, Some (ji_sequence info), True)
       else if length ?acc \<ge> mx then Inr (?acc, Some (ji_sequence info), False)
       else read_messages full mx e (map (\<lambda>(m, _). Inr m) W) ?acc (Some (ji_sequence info)))"
    by (simp add: x d transform_described Let_def)
  have len: "length ?acc \<le> length acc + 1" by simp
  show ?case
  proof (cases "ji_sequence info < e")
    case False
    show ?thesis
    proof (cases W)
      case Nil
      then show ?thesis unfolding step using False by (auto simp: x Let_def)
    next
      case (Cons w ws)
      then have "\<not> seq_of w \<le> e" using later [of w] False by simp
      then show ?thesis unfolding step using False Cons by (auto simp: x Let_def)
    qed
  next
    case True
    show ?thesis
    proof (cases "length ?acc \<ge> mx")
      case full: True
      then have "W = []" using Cons.prems(3) len by (cases W) auto
      then show ?thesis unfolding step using True full by (simp add: x Let_def)
    next
      case False
      have "length ?acc + length W \<le> mx" using Cons.prems(3) len by simp
      from Cons.IH [OF W d(2) this] True False show ?thesis
        unfolding step by (simp add: x Let_def)
    qed
  qed
qed simp

lemma read_replay_batch_spec:
  assumes "in_order W" "described W" "length W \<le> mx" "0 < mx" "takeWhile (\<lambda>x. seq_of x \<le> e) W = W'"
  shows "read_replay_batch (map (\<lambda>(m, _). Inr m) W) full mx e = Inr ((new_batch_result (matching full W') mx)
     \<lparr>br_has_more := \<not> (W' \<noteq> W \<or> (W' \<noteq> [] \<and> seq_of (last W') = e)) \<and> W' \<noteq> [] \<and> seq_of (last W') < e,
      br_next_sequence := (if W' = [] then None else Some (Suc (seq_of (last W'))))\<rparr>)"
proof -
  have "read_messages full mx e (map (\<lambda>(m, _). Inr m) W) [] None =
    Inr (matching full W', if W' = [] then None else Some (seq_of (last W')),
         W' \<noteq> W \<or> (W' \<noteq> [] \<and> seq_of (last W') = e))"
    using read_messages_spec [OF assms(1,2), of "[]" mx full e None] assms(3-5) by (simp add: Let_def)
  then show ?thesis unfolding read_replay_batch_def by (cases "W' = []") simp_all
qed

text \<open>The messages a replay from a policy to an end can read, in order.\<close>
definition readable :: "string \<Rightarrow> deliver_policy \<Rightarrow> nat \<Rightarrow> (js_message \<times> js_info) list \<Rightarrow> (js_message \<times> js_info) list" where
  "readable coarse policy e held =
     filter (\<lambda>(m, info). covers coarse (jm_subject m) \<and> delivers policy info \<and> ji_sequence info \<le> e) held"

lemma in_order_filter: "in_order xs \<Longrightarrow> in_order (filter P xs)"
  by (rule sorted_wrt_filter)

lemma in_order_takeWhile: "in_order xs \<Longrightarrow> takeWhile (\<lambda>x. seq_of x \<le> e) xs = filter (\<lambda>x. seq_of x \<le> e) xs"
proof (induction xs)
  case (Cons x xs)
  show ?case
  proof (cases "seq_of x \<le> e")
    case False
    then have "\<forall>y\<in>set xs. \<not> seq_of y \<le> e" using Cons.prems by fastforce
    then show ?thesis using False by (simp add: filter_empty_conv)
  qed (use Cons in simp)
qed simp

lemma takeWhile_take: "takeWhile P (take n xs) = take n (takeWhile P xs)"
  by (induction xs arbitrary: n) (auto simp: take_Cons split: nat.split)

lemma takeWhile_shorter: "takeWhile P xs \<noteq> xs \<Longrightarrow> length (takeWhile P xs) < length xs"
  by (induction xs) auto

lemma in_order_last: "in_order xs \<Longrightarrow> x \<in> set xs \<Longrightarrow> seq_of x \<le> seq_of (last xs)"
  by (induction xs) (auto dest: less_imp_le)

lemma in_order_drop_next:
  assumes "in_order xs" "xs = filter P held" "in_order held" "0 < mx" "xs \<noteq> []"
    "\<And>y. P (last (take mx xs)) \<Longrightarrow> last (take mx xs) \<in> set held \<Longrightarrow> y \<in> set held \<Longrightarrow>
       seq_of (last (take mx xs)) < seq_of y \<Longrightarrow> (Q y \<longleftrightarrow> P y)"
    "\<And>y. Q y \<Longrightarrow> seq_of (last (take mx xs)) < seq_of y"
  shows "filter Q held = drop mx xs"
proof -
  let ?last = "last (take mx xs)"
  have tk: "take mx xs \<noteq> []" using assms(4,5) by simp
  then have l: "?last \<in> set (take mx xs)" by (rule last_in_set)
  then have pl: "P ?last" "?last \<in> set held" using assms(2) by (auto dest: in_set_takeD)
  have app: "in_order (take mx xs @ drop mx xs)" using assms(1) by simp
  then have tk_order: "in_order (take mx xs)" unfolding sorted_wrt_append by blast
  have up: "seq_of x \<le> seq_of ?last" if "x \<in> set (take mx xs)" for x
    using in_order_last [OF tk_order that] .
  have down: "seq_of ?last < seq_of x" if "x \<in> set (drop mx xs)" for x
    using app l that unfolding sorted_wrt_append by blast
  have "filter Q held = filter (\<lambda>y. seq_of ?last < seq_of y) (filter P held)"
    unfolding filter_filter using assms(6) [OF pl] assms(7) by (intro filter_cong) auto
  also have "\<dots> = filter (\<lambda>y. seq_of ?last < seq_of y) (take mx xs @ drop mx xs)" using assms(2) by simp
  also have "\<dots> = drop mx xs"
    using up down unfolding filter_append by (simp add: filter_empty_conv filter_id_conv leD)
  finally show ?thesis .
qed

definition dated :: "(js_message \<times> js_info) list \<Rightarrow> bool" where
  "dated held = (\<forall>x\<in>set held. \<forall>y\<in>set held. seq_of x < seq_of y \<longrightarrow> ji_published (snd x) \<le> ji_published (snd y))"

lemma delivers_from: "delivers (DeliverByStartSequence n) info \<longleftrightarrow> n \<le> ji_sequence info"
  by (simp add: delivers_def)

text \<open>What can be read after a page is what can be read from the sequence after its last message.\<close>
lemma readable_next:
  assumes "in_order held" "dated held" "determine_deliver_policy st = Inr policy" "0 < mx"
    "el = readable coarse policy e held" "el \<noteq> []"
  shows "readable coarse (DeliverByStartSequence (Suc (seq_of (last (take mx el))))) e held = drop mx el"
proof -
  let ?P = "\<lambda>(m, info). covers coarse (jm_subject m) \<and> delivers policy info \<and> ji_sequence info \<le> e"
  have el: "el = filter ?P held" unfolding assms(5) readable_def ..
  have order: "in_order el" unfolding el by (rule in_order_filter [OF assms(1)])
  have starts: "delivers policy (snd y)"
    if "x \<in> set held" "y \<in> set held" "delivers policy (snd x)" "seq_of x < seq_of y" for x y
    using that assms(2,3) unfolding dated_def
    by (cases st) (fastforce simp: determine_deliver_policy_def delivers_def result_simps split: if_splits option.splits)+
  show ?thesis unfolding readable_def
    by (rule in_order_drop_next [OF order el assms(1,4,6)])
      (auto dest: starts simp: delivers_from split: prod.splits)
qed

lemma start_beyond:
  assumes "determine_deliver_policy (StartSequence n) = Inr policy" "n > e" "delivers policy info"
  shows "\<not> ji_sequence info \<le> e"
  using assms by (auto simp: determine_deliver_policy_def delivers_def split: if_splits)

text \<open>A batch of a stream at rest: the first page of what can be read.\<close>
lemma batch_served:
  assumes "analyze_watch_pattern topic = Inr (coarse, full)" "serves rd ensure s coarse held" "in_order held"
    "determine_deliver_policy st = Inr policy" "0 < mx"
    "el = readable coarse policy e held"
  shows "\<exists>r. fst (jetstream_get_messages_batch rd ensure (batch_at topic mx e st) s) = Inr r \<and>
           br_messages r = matching full (take mx el) \<and>
           br_next_sequence r = (if el = [] then None else Some (Suc (seq_of (last (take mx el))))) \<and>
           (br_has_more r \<longrightarrow> el \<noteq> []) \<and> (\<not> br_has_more r \<longrightarrow> drop mx el = [])"
proof -
  obtain name state where srv: "ensure coarse s = (Inr name, s)" "derive_stream_name_from_topic coarse = Inr name"
      "rd_get_stream rd name s = Inr state" "rd_info rd name s = Inr state" "ss_messages state = length held"
      "\<And>m info. (m, info) \<in> set held \<Longrightarrow> jm_info m = Inr info \<and> 1 \<le> ji_sequence info \<and> ji_sequence info \<le> ss_last_sequence state"
      "\<And>config. \<exists>n. rd_create_consumer rd config name s = Inr n"
      "\<And>config mx. rd_fetch rd config name mx s = Inr (map (\<lambda>(m, _). Inr m) (take mx
         (filter (\<lambda>(m, info). covers (pl_filter_subject config) (jm_subject m) \<and>
            delivers (pl_deliver_policy config) info) held)))"
    using assms(2) unfolding serves_def by blast
  define E where "E = min e (ss_last_sequence state)"
  let ?F = "filter (\<lambda>(m, info). covers coarse (jm_subject m) \<and> delivers policy info) held"
  have el: "el = filter (\<lambda>x. seq_of x \<le> E) ?F"
    unfolding assms(6) readable_def filter_filter E_def using srv(6) by (intro filter_cong) auto
  have el_order: "in_order el" unfolding el by (intro in_order_filter assms(3))
  have el_bound: "seq_of x \<le> E \<and> 1 \<le> seq_of x" if "x \<in> set el" for x
    using that srv(6) by (auto simp: el)
  have eval: "fst (jetstream_get_messages_batch rd ensure (batch_at topic mx e st) s) =
    (if length held = 0 \<or> E = 0 \<or> (case st of StartSequence start \<Rightarrow> start > E | _ \<Rightarrow> False)
     then Inr empty_batch_result
     else bind_res (determine_deliver_policy st) (\<lambda>policy.
       bind_res (reading ''Failed to create JetStream consumer for batch retrieval''
          (rd_create_consumer rd (replay_consumer_config (rd_millis rd) (rd_uuid rd) coarse policy) name s)) (\<lambda>_.
       bind_res (reading ''Failed to fetch messages''
          (rd_fetch rd (replay_consumer_config (rd_millis rd) (rd_uuid rd) coarse policy) name mx s)) (\<lambda>messages.
       read_replay_batch messages full mx E))))"
    unfolding E_def by (simp add: jetstream_get_messages_batch_def assms(1) srv(1-5) Let_def split del: if_split cong: if_cong)
  show ?thesis
  proof (cases "length held = 0 \<or> E = 0 \<or> (case st of StartSequence start \<Rightarrow> start > E | _ \<Rightarrow> False)")
    case True
    have "el = []"
    proof (rule ccontr)
      assume "el \<noteq> []"
      then obtain m info where x: "(m, info) \<in> set el" by (cases el) auto
      have "held \<noteq> []" "1 \<le> ji_sequence info" "ji_sequence info \<le> E" "delivers policy info"
        using el_bound [OF x] x by (auto simp: el)
      show False
      proof (cases st)
        case (StartSequence k)
        then have "k > E" using True \<open>held \<noteq> []\<close> \<open>1 \<le> ji_sequence info\<close> \<open>ji_sequence info \<le> E\<close> by auto
        from start_beyond [OF assms(4) [unfolded StartSequence] this \<open>delivers policy info\<close>]
        show False using \<open>ji_sequence info \<le> E\<close> by simp
      qed (use True \<open>held \<noteq> []\<close> \<open>1 \<le> ji_sequence info\<close> \<open>ji_sequence info \<le> E\<close> in auto)
    qed
    moreover have "fst (jetstream_get_messages_batch rd ensure (batch_at topic mx e st) s) = Inr empty_batch_result"
      unfolding eval by (rule if_P [OF True])
    ultimately show ?thesis by (simp add: empty_batch_result_def)
  next
    case False
    let ?c = "replay_consumer_config (rd_millis rd) (rd_uuid rd) coarse policy"
    have fetched: "rd_fetch rd ?c name mx s = Inr (map (\<lambda>(m, _). Inr m) (take mx ?F))"
      using srv(8) [of ?c] by (simp add: replay_consumer_config_def)
    obtain n where made: "rd_create_consumer rd ?c name s = Inr n" using srv(7) by blast
    have order: "in_order (take mx ?F)" using in_order_filter [OF assms(3)] by (rule sorted_wrt_take)
    have desc: "described (take mx ?F)" using srv(6) by (auto simp: described_def dest: in_set_takeD)
    have W: "takeWhile (\<lambda>x. seq_of x \<le> E) (take mx ?F) = take mx el"
      unfolding takeWhile_take in_order_takeWhile [OF in_order_filter [OF assms(3)]] el ..
    let ?reached = "take mx el \<noteq> take mx ?F \<or> (take mx el \<noteq> [] \<and> seq_of (last (take mx el)) = E)"
    let ?r = "(new_batch_result (matching full (take mx el)) mx)
        \<lparr>br_has_more := \<not> ?reached \<and> take mx el \<noteq> [] \<and> seq_of (last (take mx el)) < E,
         br_next_sequence := (if take mx el = [] then None else Some (Suc (seq_of (last (take mx el)))))\<rparr>"
    have "read_replay_batch (map (\<lambda>(m, _). Inr m) (take mx ?F)) full mx E = Inr ?r"
      by (rule read_replay_batch_spec [OF order desc _ assms(5) W]) simp
    then have "fst (jetstream_get_messages_batch rd ensure (batch_at topic mx e st) s) = Inr ?r"
      unfolding eval if_not_P [OF False] by (simp add: assms(4) made fetched)
    moreover have "drop mx el = []" if "\<not> br_has_more ?r"
    proof (rule ccontr)
      assume d: "drop mx el \<noteq> []"
      then have ne: "take mx el \<noteq> []" and len: "length (take mx el) = mx" using assms(5) by auto
      have "take mx el = take mx ?F"
      proof (rule ccontr)
        assume "take mx el \<noteq> take mx ?F"
        then have "length (take mx el) < length (take mx ?F)"
          unfolding W [symmetric] by (rule takeWhile_shorter)
        then show False using len by simp
      qed
      then have "\<not> seq_of (last (take mx el)) < E" using that ne by auto
      moreover obtain y where y: "y \<in> set (drop mx el)" using d by (cases "drop mx el") auto
      moreover have "seq_of (last (take mx el)) < seq_of y"
      proof -
        have "in_order (take mx el @ drop mx el)" using el_order by simp
        then show ?thesis using y last_in_set [OF ne] unfolding sorted_wrt_append by blast
      qed
      moreover have "seq_of y \<le> E" using el_bound y by (blast dest: in_set_dropD)
      ultimately show False by linarith
    qed
    moreover have "br_messages ?r = matching full (take mx el)"
        "br_next_sequence ?r = (if el = [] then None else Some (Suc (seq_of (last (take mx el)))))"
        "br_has_more ?r \<Longrightarrow> el \<noteq> []"
      using assms(5) by (simp_all add: new_batch_result_def)
    ultimately show ?thesis by blast
  qed
qed

lemma batch_at_next [simp]: "with_sequence n (batch_at topic mx e st) = batch_at topic mx e (StartSequence n)"
  by (simp add: with_sequence_def)

text \<open>The loop hands on, page by page, every message that can be read.\<close>
lemma js_loop:
  assumes "analyze_watch_pattern topic = Inr (coarse, full)" "serves rd ensure s coarse held" "in_order held" "0 < mx"
    "dated held"
    "determine_deliver_policy st = Inr policy" "length (readable coarse policy e held) + 2 \<le> fuel"
  shows "replay_loop env rr (\<lambda>_ p. fst (jetstream_get_messages_batch rd ensure p s)) fuel k
      \<lparr>rs_params = batch_at topic mx e st, rs_has_more = True, rs_delivered = d\<rparr> =
    Some (fst (scan_batch env rr d (matching full (readable coarse policy e held))))"
  using assms(6,7)
proof (induction fuel arbitrary: k st policy d)
  case (Suc fuel)
  define el where "el = readable coarse policy e held"
  obtain r where r: "fst (jetstream_get_messages_batch rd ensure (batch_at topic mx e st) s) = Inr r"
      "br_messages r = matching full (take mx el)"
      "br_next_sequence r = (if el = [] then None else Some (Suc (seq_of (last (take mx el)))))"
      "br_has_more r \<Longrightarrow> el \<noteq> []" "\<not> br_has_more r \<Longrightarrow> drop mx el = []"
    using batch_served [OF assms(1-3) Suc.prems(1) assms(4) el_def] by blast
  obtain fs d' b where scan: "scan_batch env rr d (matching full (take mx el)) = (fs, d', b)" by (metis prod_cases3)
  have split: "matching full el = matching full (take mx el) @ matching full (drop mx el)"
    by (metis append_take_drop_id filter_append map_append)
  obtain f where f: "fuel = Suc f" using Suc.prems(2) by (cases fuel) auto
  show ?case
  proof (cases "br_has_more r \<and> \<not> b")
    case False
    then have "fst (scan_batch env rr d (matching full el)) = fs"
      using r(5) unfolding split scan_append scan by (cases b) auto
    then show ?thesis unfolding el_def [symmetric] f
      using False by (auto simp: replay_step_def r(1,2) scan)
  next
    case True
    define n where "n = Suc (seq_of (last (take mx el)))"
    have el: "el \<noteq> []" using r(4) True by blast
    have start: "determine_deliver_policy (StartSequence n) = Inr (DeliverByStartSequence n)"
      by (simp add: determine_deliver_policy_def n_def result_simps)
    have rest: "readable coarse (DeliverByStartSequence n) e held = drop mx el"
      unfolding n_def by (rule readable_next [OF assms(3,5) Suc.prems(1) assms(4) el_def el])
    have "length (drop mx el) < length el" using el assms(4) by simp
    then have "length (readable coarse (DeliverByStartSequence n) e held) + 2 \<le> fuel"
      using Suc.prems(2) unfolding rest el_def by simp
    from Suc.IH [OF start this, of "Suc k" d'] have "replay_loop env rr (\<lambda>_ p. fst (jetstream_get_messages_batch rd ensure p s)) fuel (Suc k)
      \<lparr>rs_params = batch_at topic mx e (StartSequence n), rs_has_more = True, rs_delivered = d'\<rparr> =
      Some (fst (scan_batch env rr d' (matching full (drop mx el))))" unfolding rest .
    then show ?thesis unfolding el_def [symmetric] split scan_append scan
      using True el by (simp add: replay_step_def r(1-3) scan n_def [symmetric] split: prod.split)
  qed
qed simp

lemma note_fields:
  "m_sequence (note_of (m, info)) = ji_sequence info" "m_topic (note_of (m, info)) = jm_subject m"
  by (simp_all add: note_of_def)

lemma policy_starts:
  "determine_deliver_policy st = Inr policy \<Longrightarrow> delivers policy info \<longleftrightarrow> starts_at st (note_of (m, info))"
  by (cases st)
    (auto simp: determine_deliver_policy_def delivers_def starts_at_def note_of_def jetstream_start_time_def
      result_simps split: if_splits)

lemma matching_readable:
  assumes "determine_deliver_policy st = Inr policy"
  shows "matching full (readable coarse policy e held) =
    filter (\<lambda>n. covers coarse (m_topic n) \<and> wanted full e st n) (map note_of held)"
  unfolding readable_def filter_map comp_def filter_filter
  by (intro arg_cong [where f = "map note_of"] filter_cong)
    (auto simp: wanted_def policy_starts [OF assms, symmetric] note_fields)

text \<open>What the history of a replay scans: the stored messages that both filters and the range admit.\<close>
lemma jetstream_scans:
  assumes "analyze_watch_pattern (rr_topic rr) = Inr (coarse, full)" "serves rd ensure s coarse held"
    "in_order held" "dated held" "0 < batch_size" "determine_deliver_policy st = Inr policy"
    "length held + 2 \<le> fuel"
  shows "create_historical_replay_stream env rr (\<lambda>_ p. fst (jetstream_get_messages_batch rd ensure p s)) fuel batch_size st e =
    Some (fst (scan_batch env rr 0 (filter (\<lambda>n. covers coarse (m_topic n) \<and> wanted full e st n) (map note_of held))))"
proof -
  have "length (readable coarse policy e held) + 2 \<le> fuel"
    using assms(7) length_filter_le [of _ held] unfolding readable_def by (meson add_le_mono1 le_trans)
  from js_loop [OF assms(1-3,5,4,6) this, of env rr 0 0] show ?thesis
    unfolding matching_readable [OF assms(6)]
    by (simp add: create_historical_replay_stream_def initial_replay_state_def new_batch_params_def
        with_end_sequence_def with_start_at_def)
qed

text \<open>
  C14: a replay from JetStream. Over a stream at rest, a replay whose batches are not empty ends
  within as many reads as there are messages and two more, although each page is asked for by
  a new consumer, and the end is fixed while pages skip what the pattern rejects. It delivers,
  in order and each once, the first \<open>max_allowed\<close> renderable notifications among the stored
  messages that the consumer's subject filter covers, that match the watch pattern, and that
  lie between the start and the end; also from a date, which only the first page asks for.
\<close>
theorem jetstream_replay_exact:
  assumes "analyze_watch_pattern (rr_topic rr) = Inr (coarse, full)" "serves rd ensure s coarse held"
    "in_order held" "dated held" "0 < batch_size" "determine_deliver_policy st = Inr policy"
    "length held + 2 \<le> fuel"
  shows "\<exists>frames.
    create_historical_replay_stream env rr (\<lambda>_ p. fst (jetstream_get_messages_batch rd ensure p s)) fuel batch_size st e =
      Some frames \<and>
    delivered_frames frames =
      map (\<lambda>m. Rendered (fst (renders env rr m)) KNotification)
        (take (rr_max_allowed rr) (filter (deliverable env rr)
           (filter (\<lambda>n. covers coarse (m_topic n) \<and> wanted full e st n) (map note_of held))))"
proof -
  let ?L = "filter (\<lambda>n. covers coarse (m_topic n) \<and> wanted full e st n) (map note_of held)"
  obtain fs d b where scan: "scan_batch env rr 0 ?L = (fs, d, b)" by (metis prod_cases3)
  show ?thesis
    using jetstream_scans [OF assms, of env e] scan_notifications [OF le0 scan] unfolding scan fst_conv diff_zero by blast
qed

definition js_stored :: "(js_message \<times> js_info) list" where
  "js_stored = map (\<lambda>(n, topic). (\<lparr>jm_subject = topic, jm_payload = ''1'', jm_headers = None,
     jm_info = Inr \<lparr>ji_sequence = n, ji_published = int n\<rparr>\<rparr>, \<lparr>ji_sequence = n, ji_published = int n\<rparr>))
     [(1, ''wx.a''), (2, ''wx.b''), (4, ''wx.c'')]"

definition js_reader :: "unit reader" where
  "js_reader = \<lparr>rd_get_stream = \<lambda>_ _. Inr \<lparr>ss_messages = 3, ss_last_sequence = 4\<rparr>,
     rd_info = \<lambda>_ _. Inr \<lparr>ss_messages = 3, ss_last_sequence = 4\<rparr>, rd_create_consumer = \<lambda>_ _ _. Inr 4,
     rd_fetch = \<lambda>config _ mx _. Inr (map (\<lambda>(m, _). Inr m) (take mx
        (filter (\<lambda>(m, info). covers (pl_filter_subject config) (jm_subject m) \<and>
           delivers (pl_deliver_policy config) info) js_stored))),
     rd_messages = \<lambda>_ _ _. Inr [], rd_millis = ''0'', rd_uuid = ''u''\<rparr>"

theorem jetstream_replay_exact_witness:
  "\<exists>frames. create_historical_replay_stream sample_env sample_replay
     (\<lambda>_ p. fst (jetstream_get_messages_batch js_reader (\<lambda>_ s. (Inr ''WX'', s)) p ())) 5 1 (StartDate 2) 4 = Some frames \<and>
     length (delivered_frames frames) \<le> 1"
proof -
  have "derive_stream_name_from_topic ''wx.>'' = Inr ''WX''"
    by (simp add: derive_stream_name_from_topic_def derive_event_type_from_topic_def decode_subject_base_def decode_token_def
        new_binding_def validate_topic_base_def bail_if_def is_alphanumeric_def is_digit_def is_upper_def is_lower_def
        utf8_error.simps is_ascii_def valid_base_def to_ascii_uppercase_def ascii_upper_def is_lower_def
        char_of_def bit_0 bit_Suc)
  then have srv: "serves js_reader (\<lambda>_ s. (Inr ''WX'', s)) () ''wx.>'' js_stored"
    by (auto simp: serves_def js_reader_def js_stored_def)
  have pat: "analyze_watch_pattern (rr_topic sample_replay) = Inr (''wx.>'', [''wx'', ''*''])"
    by (simp add: sample_replay_def sample_pattern)
  have order: "in_order js_stored" "dated js_stored" by (simp_all add: js_stored_def dated_def)
  have policy: "determine_deliver_policy (StartDate 2) = Inr (DeliverByStartTime 2)"
    by (simp add: determine_deliver_policy_def jetstream_start_time_def is_i64_def)
  have fuel: "length js_stored + 2 \<le> 5" by (simp add: js_stored_def)
  obtain frames where f: "create_historical_replay_stream sample_env sample_replay
     (\<lambda>_ p. fst (jetstream_get_messages_batch js_reader (\<lambda>_ s. (Inr ''WX'', s)) p ())) 5 1 (StartDate 2) 4 = Some frames"
      "delivered_frames frames = map (\<lambda>m. Rendered (fst (renders sample_env sample_replay m)) KNotification)
        (take (rr_max_allowed sample_replay) (filter (deliverable sample_env sample_replay)
           (filter (\<lambda>n. covers ''wx.>'' (m_topic n) \<and> wanted [''wx'', ''*''] 4 (StartDate 2) n) (map note_of js_stored))))"
    using jetstream_replay_exact [OF pat srv order zero_less_one policy fuel, of sample_env 4] by (elim exE conjE) blast
  have "length (delivered_frames frames) \<le> rr_max_allowed sample_replay" unfolding f(2) length_map length_take by (rule min.cobounded2)
  then show ?thesis using f(1) by (auto simp: sample_replay_def)
qed

end
