(* ===== verification/Telemetry.thy ===== *)
theory Telemetry
  imports Configuration Routing "HOL-Library.List_Lexorder" "HOL-Library.Char_ord"
begin

text \<open>
  Logs: \<open>src/telemetry.rs\<close>, \<open>telemetry/span_context.rs\<close>, \<open>telemetry/unique_attributes.rs\<close>,
  \<open>telemetry/otlp.rs\<close> and the redaction of the configuration in \<open>main.rs\<close>. The regular
  expressions, the reader of filter directives and the readers of the logging libraries are the
  record \<open>log_world\<close>. A map of \<open>serde_json\<close> is the list of its entries, sorted by key.
\<close>

section \<open>Maps\<close>

text \<open>\<open>Map::insert\<close> on the sorted entries; \<open>Map::remove\<close> is \<open>AList.delete\<close>.\<close>
fun map_insert :: "string \<Rightarrow> 'v \<Rightarrow> 'v alist \<Rightarrow> 'v alist" where
  "map_insert k v [] = [(k, v)]"
| "map_insert k v ((k', v') # m) =
    (if k = k' then (k, v) # m
     else if k < k' then (k, v) # (k', v') # m
     else (k', v') # map_insert k v m)"

definition map_collect :: "'v alist \<Rightarrow> 'v alist" where
  "map_collect kvs = fold (\<lambda>(k, v). map_insert k v) kvs []"

lemma map_of_map_insert: "map_of (map_insert k v m) = (map_of m)(k \<mapsto> v)"
  by (induction k v m rule: map_insert.induct) auto

lemma fold_map_insert: "map_of (fold (\<lambda>(k, v). map_insert k v) kvs m) = map_of m ++ map_of (rev kvs)"
  by (induction kvs arbitrary: m) (auto simp: map_of_map_insert map_add_assoc [symmetric])

lemma map_of_collect: "map_of (map_collect kvs) = map_of (rev kvs)"
  by (simp add: map_collect_def fold_map_insert)

section \<open>Levels and filters\<close>

datatype level_filter = LevelOff | LevelError | LevelWarn | LevelInfo | LevelDebug | LevelTrace

type_synonym directive = "string option \<times> level_filter"

record log_world =
  lw_host :: host
  lw_replace_all :: "string \<Rightarrow> string \<Rightarrow> string \<Rightarrow> string"
  lw_parse_directive :: "string \<Rightarrow> string + directive"
  lw_parse_filter :: "string \<Rightarrow> string + directive list"

definition parse_level_filter :: "host \<Rightarrow> string \<Rightarrow> level_filter" where
  "parse_level_filter h level =
    (let l = to_lowercase h level in
     if l = ''trace'' then LevelTrace else if l = ''debug'' then LevelDebug
     else if l = ''warn'' then LevelWarn else if l = ''error'' then LevelError else LevelInfo)"

fun level_filter_canonical_name :: "level_filter \<Rightarrow> string" where
  "level_filter_canonical_name LevelOff = ''off''"
| "level_filter_canonical_name LevelError = ''error''"
| "level_filter_canonical_name LevelWarn = ''warn''"
| "level_filter_canonical_name LevelInfo = ''info''"
| "level_filter_canonical_name LevelDebug = ''debug''"
| "level_filter_canonical_name LevelTrace = ''trace''"

fun verbosity_rank :: "level_filter \<Rightarrow> nat" where
  "verbosity_rank LevelOff = 0"
| "verbosity_rank LevelError = 1"
| "verbosity_rank LevelWarn = 2"
| "verbosity_rank LevelInfo = 3"
| "verbosity_rank LevelDebug = 4"
| "verbosity_rank LevelTrace = 5"

definition default_mute_directives :: "(string \<times> level_filter) list" where
  "default_mute_directives = [(''actix_web'', LevelWarn), (''actix_server'', LevelWarn), (''async_nats'', LevelInfo)]"

text \<open>A filter is the list of its directives, in the order they were added.\<close>
definition apply_default_mute_directives :: "log_world \<Rightarrow> directive list \<Rightarrow> level_filter \<Rightarrow> directive list" where
  "apply_default_mute_directives w directives base =
     fold (\<lambda>(target, level) ds.
       if verbosity_rank level \<ge> verbosity_rank base then ds
       else (case lw_parse_directive w (target @ ''='' @ level_filter_canonical_name level) of
               Inr d \<Rightarrow> ds @ [d] | Inl _ \<Rightarrow> ds)) default_mute_directives directives"

definition parse_rust_log_value :: "log_world \<Rightarrow> string \<Rightarrow> directive list option" where
  "parse_rust_log_value w v = (if trim v = [] then None else ok (lw_parse_filter w v))"

text \<open>\<open>rust_log\<close> is the environment variable \<open>RUST_LOG\<close>.\<close>
definition build_env_filter :: "log_world \<Rightarrow> string option \<Rightarrow> string \<Rightarrow> directive list" where
  "build_env_filter w rust_log default_level =
    (case Option.bind rust_log (parse_rust_log_value w) of
       Some directives \<Rightarrow> directives
     | None \<Rightarrow> (let base = parse_level_filter (lw_host w) default_level
                in apply_default_mute_directives w [(None, base)] base))"

text \<open>The characters of valid UTF-8.\<close>
function utf8_chars :: "string \<Rightarrow> string list" where
  "utf8_chars [] = []"
| "utf8_chars (c # s) = (c # takeWhile is_cont s) # utf8_chars (dropWhile is_cont s)"
  by pat_completeness auto
termination by (relation "measure length") (auto simp: le_imp_less_Suc length_dropWhile_le)

definition truncate_for_diagnostic :: "string \<Rightarrow> nat \<Rightarrow> string" where
  "truncate_for_diagnostic v max_chars =
    (if length (utf8_chars v) \<le> max_chars then v
     else concat (take max_chars (utf8_chars v)) @ utf8_3 0xE2 0x80 0xA6 @ ''(truncated)'')"

definition format_rust_log_fallback_warning :: "host \<Rightarrow> string \<Rightarrow> string \<Rightarrow> string \<Rightarrow> string" where
  "format_rust_log_fallback_warning h v error default_level =
     ''warning: RUST_LOG='' @ debug_str h (truncate_for_diagnostic v 200) @
     '' could not be parsed as an EnvFilter directive ('' @ error @ ''); falling back to logging.level='' @
     debug_str h default_level @ '' (effective filter: '' @
     level_filter_canonical_name (parse_level_filter h default_level) @
     ''). Example valid value: RUST_LOG=info,aviso_server=debug,actix_web=warn''"

section \<open>Redaction\<close>

definition is_sensitive_key :: "string \<Rightarrow> bool" where
  "is_sensitive_key key =
    (let lower_key = to_ascii_lowercase key in
     str_contains ''password'' lower_key \<or> str_contains ''secret'' lower_key \<or>
     str_contains ''token'' lower_key \<or> str_contains ''authorization'' lower_key \<or>
     str_contains ''api_key'' lower_key)"

fun find_str :: "string \<Rightarrow> string \<Rightarrow> nat option" where
  "find_str p [] = (if p = [] then Some 0 else None)"
| "find_str p (c # s) = (if starts_with p (c # s) then Some 0 else map_option Suc (find_str p s))"

abbreviation ends_authority :: "char \<Rightarrow> bool" where
  "ends_authority c \<equiv> c = CHR ''/'' \<or> c = CHR ''?'' \<or> c = CHR ''#''"

definition redact_url_userinfo :: "string \<Rightarrow> string option" where
  "redact_url_userinfo raw =
     Option.bind (find_str ''://'' raw) (\<lambda>scheme_pos.
     let authority_start = scheme_pos + 3;
         authority_end = authority_start +
           (case position ends_authority (drop authority_start raw) of
              Some n \<Rightarrow> n | None \<Rightarrow> length raw - authority_start);
         authority = drop authority_start (take authority_end raw)
     in Option.bind (position (\<lambda>c. c = CHR ''@'') authority) (\<lambda>at_pos.
        Some (take authority_start raw @ ''[REDACTED]@'' @ drop (at_pos + 1) authority @ drop authority_end raw)))"

definition backslash :: string where
  "backslash = [CHR 0x5C]"

text \<open>The tail of the first two expressions: separator and value.\<close>
definition secret_value :: string where
  "secret_value = backslash @ ''s*[=:]'' @ backslash @ ''s*)'' @ backslash @ ''S+''"

definition redact_message :: "log_world \<Rightarrow> string \<Rightarrow> string" where
  "redact_message w message =
    (let redacted = lw_replace_all w (''(?i)(password'' @ secret_value) ''$1[REDACTED]'' message;
         redacted = lw_replace_all w (''(?i)(token'' @ secret_value) ''$1[REDACTED]'' redacted
     in lw_replace_all w (''(?i)(bearer'' @ backslash @ ''s+)[a-z0-9'' @ backslash @ ''._'' @ backslash @ ''-]+'') ''$1[REDACTED]'' redacted)"

abbreviation redacted_text :: json where "redacted_text \<equiv> JString ''[REDACTED]''"

definition redact_string :: "log_world \<Rightarrow> string \<Rightarrow> string" where
  "redact_string w s = (case redact_url_userinfo s of Some url \<Rightarrow> url | None \<Rightarrow> redact_message w s)"

function redact_embedded_json :: "log_world \<Rightarrow> json \<Rightarrow> json" where
  "redact_embedded_json w v =
    (case v of
       JObject obj \<Rightarrow> JObject (map (\<lambda>(key, child).
         (key, if is_sensitive_key key then redacted_text else redact_embedded_json w child)) obj)
     | JArray items \<Rightarrow> JArray (map (redact_embedded_json w) items)
     | JString s \<Rightarrow> JString (redact_string w s)
     | other \<Rightarrow> other)"
  by pat_completeness auto
termination
  by (relation "measure (size \<circ> snd)") (auto simp: less_Suc_eq_le intro!: size_list_estimation')

declare redact_embedded_json.simps [simp del]

lemma redact_embedded_simps [simp]:
  "redact_embedded_json w (JObject obj) = JObject (map (\<lambda>(key, child).
     (key, if is_sensitive_key key then redacted_text else redact_embedded_json w child)) obj)"
  "redact_embedded_json w (JArray items) = JArray (map (redact_embedded_json w) items)"
  "redact_embedded_json w (JString s) = JString (redact_string w s)"
  by (simp_all add: redact_embedded_json.simps)

definition redact_json_value :: "log_world \<Rightarrow> string \<Rightarrow> json \<Rightarrow> json" where
  "redact_json_value w key v =
    (if is_sensitive_key key then redacted_text
     else (case v of
       JString s \<Rightarrow>
         (case (if key = ''config'' then ok (json_parse (lw_host w) s) else None) of
            Some parsed \<Rightarrow> redact_embedded_json w parsed
          | None \<Rightarrow> JString (redact_string w s))
     | other \<Rightarrow> other))"

text \<open>The redaction of the effective configuration at startup.\<close>
function redact_value_recursive :: "json \<Rightarrow> json" where
  "redact_value_recursive v =
    (case v of
       JObject obj \<Rightarrow> JObject (map (\<lambda>(key, child).
         (key, if is_sensitive_key key then redacted_text else redact_value_recursive child)) obj)
     | JArray items \<Rightarrow> JArray (map redact_value_recursive items)
     | JString s \<Rightarrow> (case redact_url_userinfo s of Some redacted_url \<Rightarrow> JString redacted_url | None \<Rightarrow> JString s)
     | other \<Rightarrow> other)"
  by pat_completeness auto
termination
  by (relation "measure size") (auto simp: less_Suc_eq_le intro!: size_list_estimation')

declare redact_value_recursive.simps [simp del]

section \<open>The context of a request\<close>

definition HYDRATABLE_SPAN_FIELDS :: "string list" where
  "HYDRATABLE_SPAN_FIELDS = [''request_id'', ''event_type'', ''topic'', ''username'', ''auth_realm'']"

text \<open>What the visitor of a span keeps of recorded values.\<close>
definition visit_context :: "json alist \<Rightarrow> json alist \<Rightarrow> json alist" where
  "visit_context recorded context =
     fold (\<lambda>(field, v). if field \<in> set HYDRATABLE_SPAN_FIELDS then map_insert field v else id) recorded context"

text \<open>A span has a context once it has recorded one of the fields.\<close>
definition on_new_span :: "json alist \<Rightarrow> json alist option" where
  "on_new_span attrs = (let context = visit_context attrs [] in if context = [] then None else Some context)"

definition on_record :: "json alist \<Rightarrow> json alist option \<Rightarrow> json alist option" where
  "on_record recorded extension =
    (case extension of
       Some context \<Rightarrow> Some (visit_context recorded context)
     | None \<Rightarrow> (let context = visit_context recorded [] in if context = [] then None else Some context))"

text \<open>The value of a field in the innermost span that has one; spans are listed innermost first.\<close>
fun innermost :: "string \<Rightarrow> json alist option list \<Rightarrow> json option" where
  "innermost field [] = None"
| "innermost field (extension # outer) =
    (case Option.bind extension (\<lambda>context. map_of context field) of
       Some v \<Rightarrow> Some v
     | None \<Rightarrow> innermost field outer)"

definition populate_attributes_from_span :: "json alist option list \<Rightarrow> json alist \<Rightarrow> json alist" where
  "populate_attributes_from_span spans attributes =
     fold (\<lambda>field attributes.
       if has_key attributes field then attributes
       else (case innermost field spans of Some v \<Rightarrow> map_insert field v attributes | None \<Rightarrow> attributes))
       HYDRATABLE_SPAN_FIELDS attributes"

section \<open>The lines on standard output\<close>

datatype level = LTrace | LDebug | LInfo | LWarn | LError

fun level_text :: "level \<Rightarrow> string" where
  "level_text LTrace = ''TRACE''"
| "level_text LDebug = ''DEBUG''"
| "level_text LInfo = ''INFO''"
| "level_text LWarn = ''WARN''"
| "level_text LError = ''ERROR''"

fun severity_number :: "level \<Rightarrow> nat" where
  "severity_number LTrace = 1"
| "severity_number LDebug = 5"
| "severity_number LInfo = 9"
| "severity_number LWarn = 13"
| "severity_number LError = 17"

record event_metadata =
  em_name :: string
  em_target :: string
  em_level :: level
  em_file :: "string option"
  em_line :: "nat option"

record log_formatter =
  lf_service_name :: string
  lf_service_version :: string
  lf_k8s_namespace :: "string option"
  lf_k8s_pod_name :: "string option"

text \<open>\<open>env\<close> is the environment of the process.\<close>
definition new_log_formatter :: "(string \<Rightarrow> string option) \<Rightarrow> string \<Rightarrow> string \<Rightarrow> log_formatter" where
  "new_log_formatter env version name =
     \<lparr>lf_service_name = name, lf_service_version = version, lf_k8s_namespace = env ''K8S_NAMESPACE_NAME'',
      lf_k8s_pod_name = (case env ''K8S_POD_NAME'' of Some pod \<Rightarrow> Some pod | None \<Rightarrow> env ''HOSTNAME'')\<rparr>"

definition optional_entry :: "string \<Rightarrow> json option \<Rightarrow> json alist" where
  "optional_entry k v = (case v of Some x \<Rightarrow> [(k, x)] | None \<Rightarrow> [])"

definition resource_json :: "log_formatter \<Rightarrow> json alist" where
  "resource_json f = map_collect
     ([(''service.name'', JString (lf_service_name f)), (''service.version'', JString (lf_service_version f))] @
      optional_entry ''k8s.namespace.name'' (map_option JString (lf_k8s_namespace f)) @
      optional_entry ''k8s.pod.name'' (map_option JString (lf_k8s_pod_name f)))"

definition normalize_attribute_key :: "string \<Rightarrow> string" where
  "normalize_attribute_key raw =
    (if raw = ''event_name'' then ''event.name''
     else if raw = ''service_name'' then ''service.name''
     else if raw = ''service_version'' then ''service.version''
     else if raw = ''error_type'' then ''error.type''
     else if raw = ''error_message'' then ''exception.message''
     else raw)"

definition normalize_and_redact_attributes :: "log_world \<Rightarrow> json alist \<Rightarrow> json alist" where
  "normalize_and_redact_attributes w entries =
     map_collect (map (\<lambda>(key, v). (normalize_attribute_key key, redact_json_value w key v)) entries)"

text \<open>The body and the attributes of an event with these fields.\<close>
definition from_event :: "log_world \<Rightarrow> event_metadata \<Rightarrow> json alist \<Rightarrow> string \<times> json alist" where
  "from_event w metadata entries =
    (redact_message w (case Option.bind (map_of entries ''message'') as_str of
        Some body \<Rightarrow> body | None \<Rightarrow> em_name metadata),
     normalize_and_redact_attributes w (AList.delete ''message'' entries))"

definition add_code_location_attributes :: "event_metadata \<Rightarrow> json alist \<Rightarrow> json alist" where
  "add_code_location_attributes metadata attributes =
    (let attributes = (if has_key attributes ''code.target'' then attributes
                       else map_insert ''code.target'' (JString (em_target metadata)) attributes);
         attributes = (case em_file metadata of
            Some file \<Rightarrow> map_insert ''code.filepath'' (JString file) attributes | None \<Rightarrow> attributes)
     in case em_line metadata of
          Some line \<Rightarrow> map_insert ''code.lineno'' (JNumber (PosInt line)) attributes | None \<Rightarrow> attributes)"

definition rename_key :: "string \<Rightarrow> string \<Rightarrow> json alist \<Rightarrow> json alist" where
  "rename_key old new m =
    (case map_of m old of Some v \<Rightarrow> map_insert new v (AList.delete old m) | None \<Rightarrow> m)"

definition promote_trace_correlation :: "json alist \<Rightarrow> json alist" where
  "promote_trace_correlation attributes =
     rename_key ''otel.span_id'' ''spanId'' (rename_key ''otel.trace_id'' ''traceId'' attributes)"

definition finalize_attributes :: "json alist \<Rightarrow> json alist" where
  "finalize_attributes attributes =
     AList.delete ''k8s.pod.name'' (AList.delete ''k8s.namespace.name'' (AList.delete ''service.version''
       (AList.delete ''service.name'' (promote_trace_correlation attributes))))"

definition assemble_log_json :: "string \<Rightarrow> string \<Rightarrow> nat \<Rightarrow> string \<Rightarrow> json alist \<Rightarrow> json alist \<Rightarrow> json" where
  "assemble_log_json timestamp severity_text severity_num body resource attributes =
     JObject (map_collect
       ([(''timestamp'', JString timestamp), (''severityText'', JString severity_text),
         (''severityNumber'', JNumber (PosInt severity_num)), (''body'', JString body),
         (''resource'', JObject resource),
         (''attributes'', JObject (AList.delete ''spanId'' (AList.delete ''traceId'' attributes)))] @
        optional_entry ''traceId'' (map_of attributes ''traceId'') @
        optional_entry ''spanId'' (map_of (AList.delete ''traceId'' attributes) ''spanId'')))"

text \<open>The attributes of an event before its identity fields are removed.\<close>
definition event_attributes :: "log_world \<Rightarrow> event_metadata \<Rightarrow> json alist option list \<Rightarrow> json alist \<Rightarrow> json alist" where
  "event_attributes w metadata spans entries =
     add_code_location_attributes metadata
       (populate_attributes_from_span spans (snd (from_event w metadata entries)))"

text \<open>\<open>recorded\<close> are the fields in the order of the event, which the visitor collects.\<close>
definition format_event ::
  "log_world \<Rightarrow> log_formatter \<Rightarrow> string \<Rightarrow> event_metadata \<Rightarrow> json alist option list \<Rightarrow> json alist \<Rightarrow> string" where
  "format_event w f now metadata spans recorded =
    (let entries = map_collect recorded in
     json_print (lw_host w) (assemble_log_json now (level_text (em_level metadata))
       (severity_number (em_level metadata)) (fst (from_event w metadata entries)) (resource_json f)
       (finalize_attributes (event_attributes w metadata spans entries))) @ [CHR 10])"

section \<open>The exported records\<close>

datatype any_value = AnyString string | AnyOther json

record otel_record =
  or_event_name :: "string option"
  or_target :: "string option"
  or_timestamp :: "nat option"
  or_observed :: "nat option"
  or_trace :: "string option"
  or_severity_text :: "string option"
  or_severity :: "nat option"
  or_body :: "any_value option"
  or_attributes :: "any_value alist"

definition backfill_timestamp :: "nat \<Rightarrow> otel_record \<Rightarrow> otel_record" where
  "backfill_timestamp now r =
    (case or_timestamp r of
       Some _ \<Rightarrow> r
     | None \<Rightarrow> r\<lparr>or_timestamp := Some (case or_observed r of Some t \<Rightarrow> t | None \<Rightarrow> now)\<rparr>)"

definition has_repeated_key :: "otel_record \<Rightarrow> bool" where
  "has_repeated_key r = (\<not> distinct (map fst (or_attributes r)))"

text \<open>The position of the last occurrence of every key.\<close>
definition last_positions :: "'v alist \<Rightarrow> string \<Rightarrow> nat option" where
  "last_positions attributes =
     fold (\<lambda>(index, (key, _)) last. last(key \<mapsto> index)) (zip [0 ..< length attributes] attributes) Map.empty"

definition rebuilt :: "otel_record \<Rightarrow> otel_record" where
  "rebuilt r =
     \<lparr>or_event_name = or_event_name r, or_target = or_target r, or_timestamp = or_timestamp r,
      or_observed = or_observed r, or_trace = or_trace r, or_severity_text = or_severity_text r,
      or_severity = or_severity r, or_body = or_body r,
      or_attributes = map snd (filter (\<lambda>(index, (key, _)). last_positions (or_attributes r) key = Some index)
        (zip [0 ..< length (or_attributes r)] (or_attributes r)))\<rparr>"

definition keep_unique :: "otel_record \<Rightarrow> otel_record" where
  "keep_unique r = (if has_repeated_key r then rebuilt r else r)"

definition carries_secret :: "string \<times> any_value \<Rightarrow> bool" where
  "carries_secret = (\<lambda>(key, v). is_sensitive_key key \<or>
     (case v of AnyString s \<Rightarrow> redact_url_userinfo s \<noteq> None | _ \<Rightarrow> False))"

definition record_carries_sensitive_attributes :: "otel_record \<Rightarrow> bool" where
  "record_carries_sensitive_attributes r = list_ex carries_secret (or_attributes r)"

definition redact_body :: "log_world \<Rightarrow> otel_record \<Rightarrow> otel_record" where
  "redact_body w r =
    (case or_body r of
       Some (AnyString s) \<Rightarrow>
         if redact_message w s \<noteq> s then r\<lparr>or_body := Some (AnyString (redact_message w s))\<rparr> else r
     | _ \<Rightarrow> r)"

text \<open>A withheld record is None.\<close>
definition redacting_emit :: "log_world \<Rightarrow> otel_record \<Rightarrow> otel_record option" where
  "redacting_emit w r = (if record_carries_sensitive_attributes r then None else Some (redact_body w r))"

text \<open>The processors in their order.\<close>
definition exported :: "log_world \<Rightarrow> nat \<Rightarrow> otel_record \<Rightarrow> otel_record option" where
  "exported w now r = redacting_emit w (keep_unique (backfill_timestamp now r))"

definition with_scheme :: "string \<Rightarrow> string" where
  "with_scheme raw = (if str_contains ''://'' raw then raw else ''http://'' @ raw)"

definition normalize_endpoint :: "string \<Rightarrow> otlp_protocol \<Rightarrow> string" where
  "normalize_endpoint raw protocol =
    (case protocol of
       Grpc \<Rightarrow> with_scheme raw
     | Http \<Rightarrow>
         (let base = rev (dropWhile (\<lambda>c. c = CHR ''/'') (rev (with_scheme raw)))
          in if ends_with ''/v1/logs'' base then base else base @ ''/v1/logs''))"

text \<open>The endpoint of the export, or None when it is missing.\<close>
definition otlp_endpoint :: "otlp_settings \<Rightarrow> string option" where
  "otlp_endpoint ot =
     Option.bind (map_option trim (ot_endpoint ot)) (\<lambda>endpoint.
       if endpoint = [] then None else Some (normalize_endpoint endpoint (ot_protocol ot)))"

section \<open>Facts\<close>

text \<open>Levels are ordered by their rank: a greater level is more verbose.\<close>
lemma verbosity_rank_inject: "verbosity_rank a = verbosity_rank b \<Longrightarrow> a = b"
  by (cases a; cases b) simp_all

instantiation level_filter :: linorder
begin

definition less_eq_level_filter :: "level_filter \<Rightarrow> level_filter \<Rightarrow> bool" where
  "less_eq_level_filter a b = (verbosity_rank a \<le> verbosity_rank b)"

definition less_level_filter :: "level_filter \<Rightarrow> level_filter \<Rightarrow> bool" where
  "less_level_filter a b = (verbosity_rank a < verbosity_rank b)"

instance
  by standard (auto simp: less_eq_level_filter_def less_level_filter_def intro: verbosity_rank_inject)

end

text \<open>
  The default filter only narrows: with a reader of directives that reads \<open>target=level\<close>, every
  directive added to the base is less verbose than it.
\<close>
lemma default_filter_narrows:
  assumes "\<And>target level. lw_parse_directive w (target @ ''='' @ level_filter_canonical_name level) = Inr (Some target, level)"
    "Option.bind rust_log (parse_rust_log_value w) = None"
  shows "\<exists>mutes. build_env_filter w rust_log default_level = (None, parse_level_filter (lw_host w) default_level) # mutes \<and>
    (\<forall>(target, level)\<in>set mutes. level < parse_level_filter (lw_host w) default_level)"
  using assms(2)
  by (cases "parse_level_filter (lw_host w) default_level")
    (simp_all add: less_level_filter_def build_env_filter_def apply_default_mute_directives_def default_mute_directives_def Let_def
      assms(1) [of "''actix_web''" LevelWarn, simplified] assms(1) [of "''actix_server''" LevelWarn, simplified]
      assms(1) [of "''async_nats''" LevelInfo, simplified])

lemma position_skip: "list_all (\<lambda>c. \<not> P c) a \<Longrightarrow> position P (a @ x) = map_option ((+) (length a)) (position P x)"
  by (induction a) (cases "position P x"; simp)+

lemma redact_url_spec:
  assumes "find_str ''://'' (scheme @ ''://'' @ a @ ''@'' @ rest) = Some (length scheme)"
    "list_all (\<lambda>c. \<not> ends_authority c \<and> c \<noteq> CHR ''@'') a"
  shows "redact_url_userinfo (scheme @ ''://'' @ a @ ''@'' @ rest) = Some (scheme @ ''://[REDACTED]@'' @ rest)"
proof -
  let ?raw = "scheme @ ''://'' @ a @ ''@'' @ rest" and ?start = "length scheme + 3"
  define n where "n = (case position ends_authority rest of Some n \<Rightarrow> n | None \<Rightarrow> length rest)"
  have a: "list_all (\<lambda>c. \<not> ends_authority c) a" "list_all (\<lambda>c. c \<noteq> CHR ''@'') a"
    using assms(2) by (simp_all add: list_all_iff)
  have tail: "drop ?start ?raw = a @ ''@'' @ rest" by simp
  have "position ends_authority (a @ ''@'' @ rest) = map_option (\<lambda>n. length a + Suc n) (position ends_authority rest)"
    unfolding position_skip [OF a(1)] by (simp add: option.map_comp comp_def)
  then have stop: "(case position ends_authority (drop ?start ?raw) of Some n \<Rightarrow> n | None \<Rightarrow> length ?raw - ?start) =
      length a + Suc n"
    unfolding tail n_def by (simp split: option.split)
  have authority: "drop ?start (take (?start + (length a + Suc n)) ?raw) = a @ ''@'' @ take n rest"
    by (simp add: drop_take)
  have "drop (?start + (length a + Suc n)) ?raw = drop (length a + Suc n) (drop ?start ?raw)"
    by (simp only: drop_drop add.commute)
  then have after: "drop (?start + (length a + Suc n)) ?raw = drop n rest" unfolding tail by simp
  have "position (\<lambda>c. c = CHR ''@'') (a @ ''@'' @ take n rest) = Some (length a)"
    using position_skip [of "\<lambda>c. c = CHR ''@''" a] a(2) by simp
  then show ?thesis
    unfolding redact_url_userinfo_def assms(1) Option.bind.bind_lunit Let_def stop authority after by simp
qed

text \<open>
  Two URLs that differ only in what stands before the first at sign of their authority. Credentials that
  contain an at sign themselves are not covered: of these \<open>redact_url_userinfo\<close> leaves what follows the first.
\<close>
definition url_alike :: "string \<Rightarrow> string \<Rightarrow> bool" where
  "url_alike s t =
    (\<exists>scheme a b rest. s = scheme @ ''://'' @ a @ ''@'' @ rest \<and> t = scheme @ ''://'' @ b @ ''@'' @ rest \<and>
       find_str ''://'' s = Some (length scheme) \<and> find_str ''://'' t = Some (length scheme) \<and>
       list_all (\<lambda>c. \<not> ends_authority c \<and> c \<noteq> CHR ''@'') a \<and> list_all (\<lambda>c. \<not> ends_authority c \<and> c \<noteq> CHR ''@'') b)"

lemma url_alike_redacted: "url_alike s t \<Longrightarrow> redact_string w s = redact_string w t"
  unfolding url_alike_def redact_string_def by (elim exE conjE) (simp only: redact_url_spec option.case)

lemma at_sign_shows: "redact_string w ''nats://user:p@ss@host'' = ''nats://[REDACTED]@ss@host''"
proof -
  have "redact_url_userinfo ''nats://user:p@ss@host'' = Some ''nats://[REDACTED]@ss@host''" by code_simp
  then show ?thesis by (simp add: redact_string_def)
qed

text \<open>Two JSON values that differ only below sensitive keys and in the credentials of URLs.\<close>
inductive alike :: "json \<Rightarrow> json \<Rightarrow> bool" where
  Same: "alike v v"
| Url: "url_alike s t \<Longrightarrow> alike (JString s) (JString t)"
| Items: "length xs = length ys \<Longrightarrow> (\<And>i. i < length xs \<Longrightarrow> alike (xs ! i) (ys ! i)) \<Longrightarrow> alike (JArray xs) (JArray ys)"
| Entries: "map fst m = map fst m' \<Longrightarrow>
    (\<And>i. i < length m \<Longrightarrow> is_sensitive_key (fst (m ! i)) \<or> alike (snd (m ! i)) (snd (m' ! i))) \<Longrightarrow>
    alike (JObject m) (JObject m')"

lemma alike_redacted: "alike v v' \<Longrightarrow> redact_embedded_json w v = redact_embedded_json w v'"
proof (induction rule: alike.induct)
  case (Url s t)
  then show ?case by (simp add: url_alike_redacted)
next
  case (Items xs ys)
  then show ?case by (simp add: list_eq_iff_nth_eq)
next
  case (Entries m m')
  have len: "length m = length m'" using Entries(1) by (metis length_map)
  moreover have "fst (m ! i) = fst (m' ! i)" if "i < length m" for i
    using that len arg_cong [OF Entries(1), of "\<lambda>l. l ! i"] by simp
  ultimately have "map (\<lambda>(key, child). (key, if is_sensitive_key key then redacted_text else redact_embedded_json w child)) m =
      map (\<lambda>(key, child). (key, if is_sensitive_key key then redacted_text else redact_embedded_json w child)) m'"
    using Entries(2) by (intro nth_equalityI) (auto simp: case_prod_beta)
  then show ?case by (simp only: redact_embedded_simps)
qed simp

text \<open>Two values of a field of an event that differ only in what the key or the text gives away.\<close>
definition field_alike :: "host \<Rightarrow> string \<times> json \<Rightarrow> string \<times> json \<Rightarrow> bool" where
  "field_alike h = (\<lambda>(k, v) (k', v'). k = k' \<and>
    (v = v' \<or> is_sensitive_key k \<or> k \<noteq> ''message'' \<and>
      (\<exists>s t. v = JString s \<and> v' = JString t \<and>
        (case (if k = ''config'' then ok (json_parse h s) else None, if k = ''config'' then ok (json_parse h t) else None) of
           (Some a, Some b) \<Rightarrow> alike a b
         | (None, None) \<Rightarrow> url_alike s t
         | _ \<Rightarrow> False))))"

lemma field_alike_redacted:
  "field_alike (lw_host w) (k, v) (k', v') \<Longrightarrow> k = k' \<and> redact_json_value w k v = redact_json_value w k' v'"
  by (auto simp: field_alike_def redact_json_value_def alike_redacted url_alike_redacted split: option.splits)

lemma map_insert_alike:
  "list_all2 (field_alike h) m m' \<Longrightarrow> field_alike h (k, v) (k', v') \<Longrightarrow>
   list_all2 (field_alike h) (map_insert k v m) (map_insert k' v' m')"
proof (induction m m' rule: list_all2_induct)
  case (Cons x xs y ys)
  obtain a b where x: "x = (a, b)" by (cases x)
  obtain c d where y: "y = (c, d)" by (cases y)
  have "a = c" "k = k'" using Cons x y by (auto simp: field_alike_def)
  then show ?case using Cons x y by auto
qed simp

lemma collect_alike:
  assumes "list_all2 (field_alike h) es es'"
  shows "list_all2 (field_alike h) (map_collect es) (map_collect es')"
proof -
  have "list_all2 (field_alike h) (fold (\<lambda>(k, v). map_insert k v) es m) (fold (\<lambda>(k, v). map_insert k v) es' m')"
    if "list_all2 (field_alike h) m m'" for m m'
    using assms that
    by (induction es es' arbitrary: m m' rule: list_all2_induct) (auto simp: map_insert_alike)
  then show ?thesis by (simp add: map_collect_def)
qed

lemma alike_event:
  assumes "list_all2 (field_alike (lw_host w)) es es'"
  shows "from_event w metadata es = from_event w metadata es'"
proof -
  have plain: "\<not> is_sensitive_key ''message''"
    by (simp add: is_sensitive_key_def to_ascii_lowercase_def ascii_lower_def is_upper_def starts_with_def Let_def)
  have "map_of es ''message'' = map_of es' ''message''" using assms
    by (induction es es' rule: list_all2_induct) (use plain in \<open>auto simp: field_alike_def\<close>)
  moreover have "map (\<lambda>(key, v). (normalize_attribute_key key, redact_json_value w key v)) (AList.delete ''message'' es) =
      map (\<lambda>(key, v). (normalize_attribute_key key, redact_json_value w key v)) (AList.delete ''message'' es')"
    using assms
  proof (induction es es' rule: list_all2_induct)
    case (Cons x xs y ys)
    then show ?case using field_alike_redacted [of w "fst x" "snd x" "fst y" "snd y"]
      by (auto simp: AList.delete_eq case_prod_beta)
  qed simp
  ultimately show ?thesis by (simp add: from_event_def normalize_and_redact_attributes_def)
qed

section \<open>Facts on the maps of the records\<close>

lemma map_insert_all: "(\<forall>x\<in>set (map_insert k v m). P (fst x)) \<longleftrightarrow> P k \<and> (\<forall>x\<in>set m. P (fst x))"
  by (induction k v m rule: map_insert.induct) auto

lemma map_insert_sorted: "sorted_wrt (<) (map fst m) \<Longrightarrow> sorted_wrt (<) (map fst (map_insert k v m))"
proof (induction k v m rule: map_insert.induct)
  case (2 k v k' v' m)
  then show ?case using map_insert_all [of k v m "(<) k'"] by auto
qed simp

lemma collect_distinct: "distinct (map fst (map_collect es))"
proof -
  have "sorted_wrt (<) (map fst (fold (\<lambda>(k, v). map_insert k v) es m))" if "sorted_wrt (<) (map fst m)" for m
    using that by (induction es arbitrary: m) (auto simp: map_insert_sorted)
  then show ?thesis by (simp add: map_collect_def strict_sorted_iff)
qed

lemma map_of_rev_distinct: "distinct (map fst es) \<Longrightarrow> map_of (rev es) = map_of es"
  by (subst map_of_inject_set) (auto simp: rev_map [symmetric])

lemma populate_spec:
  assumes "f \<in> set HYDRATABLE_SPAN_FIELDS"
  shows "map_of (populate_attributes_from_span spans m) f = (case map_of m f of Some v \<Rightarrow> Some v | None \<Rightarrow> innermost f spans)"
proof -
  have "map_of (fold (\<lambda>field attributes. if has_key attributes field then attributes
      else (case innermost field spans of Some v \<Rightarrow> map_insert field v attributes | None \<Rightarrow> attributes)) fs m) f =
    (case map_of m f of Some v \<Rightarrow> Some v | None \<Rightarrow> if f \<in> set fs then innermost f spans else None)" for fs
  proof (induction fs arbitrary: m)
    case (Cons field fs)
    show ?case
    proof (cases "map_of m field")
      case None
      then have "\<not> has_key m field" by (simp add: map_of_eq_None_iff)
      then show ?thesis using Cons None
        by (cases "innermost field spans") (auto simp: map_of_map_insert split: option.splits)
    next
      case (Some v)
      then have "has_key m field" by (metis has_key_iff map_of_eq_None_iff option.distinct(1))
      then show ?thesis using Cons Some by (auto split: option.splits)
    qed
  qed (auto split: option.splits)
  then show ?thesis using assms by (simp add: populate_attributes_from_span_def)
qed

lemma hydratable_cases:
  assumes "f \<in> set HYDRATABLE_SPAN_FIELDS"
  shows "normalize_attribute_key k = f \<longleftrightarrow> k = f"
    and "map_of (finalize_attributes m) f = map_of m f"
    and "map_of (add_code_location_attributes metadata m) f = map_of m f"
    and "f \<noteq> ''message''"
proof -
  have f: "f = ''request_id'' \<or> f = ''event_type'' \<or> f = ''topic'' \<or> f = ''username'' \<or> f = ''auth_realm''"
    using assms by (auto simp: HYDRATABLE_SPAN_FIELDS_def)
  have ne: "f \<noteq> ''message'' \<and> f \<noteq> ''otel.trace_id'' \<and> f \<noteq> ''otel.span_id'' \<and> f \<noteq> ''traceId'' \<and> f \<noteq> ''spanId'' \<and>
      f \<noteq> ''service.name'' \<and> f \<noteq> ''service.version'' \<and> f \<noteq> ''k8s.namespace.name'' \<and> f \<noteq> ''k8s.pod.name'' \<and>
      f \<noteq> ''code.target'' \<and> f \<noteq> ''code.filepath'' \<and> f \<noteq> ''code.lineno''"
    using f by (elim disjE) simp_all
  have rename: "map_of (rename_key old new m) f = map_of m f" if "f \<noteq> old" "f \<noteq> new" for old new m
    using that by (auto simp: rename_key_def map_of_map_insert delete_conv' split: option.splits)
  have delete: "map_of (AList.delete k m) f = map_of m f" if "f \<noteq> k" for k and m :: "json alist"
    using that by (simp add: delete_conv')
  show "normalize_attribute_key k = f \<longleftrightarrow> k = f" using f
    by (elim disjE) (simp_all add: normalize_attribute_key_def split: if_split)
  show "f \<noteq> ''message''" using ne by blast
  show "map_of (finalize_attributes m) f = map_of m f"
    unfolding finalize_attributes_def promote_trace_correlation_def by (simp add: delete rename ne)
  show "map_of (add_code_location_attributes metadata m) f = map_of m f"
    unfolding add_code_location_attributes_def Let_def
    by (simp add: map_of_map_insert ne del: has_key_iff split: option.split)
qed

text \<open>A context field on standard output: the event's value, else that of the innermost span.\<close>
lemma written_context:
  assumes "f \<in> set HYDRATABLE_SPAN_FIELDS"
  shows "map_of (finalize_attributes (event_attributes w metadata spans (map_collect recorded))) f =
    (case map_of (rev recorded) f of Some v \<Rightarrow> Some (redact_json_value w f v) | None \<Rightarrow> innermost f spans)"
proof -
  let ?es = "AList.delete ''message'' (map_collect recorded)"
  have es: "distinct (map fst ?es)" by (rule distinct_delete [OF collect_distinct])
  have "map_of (rev (map (\<lambda>(key, v). (normalize_attribute_key key, redact_json_value w key v)) xs)) f =
      map_option (redact_json_value w f) (map_of (rev xs) f)" for xs
  proof (induction xs)
    case (Cons x xs)
    have "normalize_attribute_key (fst x) = f \<longleftrightarrow> fst x = f" by (rule hydratable_cases(1) [OF assms])
    then show ?case using Cons
      by (cases "fst x = f") (simp_all add: map_add_def case_prod_beta split: option.split)
  qed simp
  then have "map_of (snd (from_event w metadata (map_collect recorded))) f =
      map_option (redact_json_value w f) (map_of (rev recorded) f)"
    using hydratable_cases(4) [OF assms]
    by (simp add: from_event_def normalize_and_redact_attributes_def map_of_collect map_of_rev_distinct [OF es] delete_conv')
  then show ?thesis
    by (simp add: event_attributes_def hydratable_cases [OF assms] populate_spec [OF assms] split: option.split)
qed

text \<open>The attributes that \<open>rebuilt\<close> keeps, added from the right.\<close>
definition uniq :: "'v alist \<Rightarrow> 'v alist" where
  "uniq as = map snd (filter (\<lambda>(index, (key, _)). last_positions as key = Some index) (zip [0 ..< length as] as))"

lemma last_positions_snoc: "last_positions (as @ [(k, v)]) = (last_positions as)(k \<mapsto> length as)"
  by (simp add: last_positions_def zip_append1)

lemma last_positions_less: "last_positions as k = Some i \<Longrightarrow> i < length as"
  by (induction as arbitrary: k i rule: rev_induct)
    (auto simp: last_positions_snoc less_Suc_eq split: if_splits, simp add: last_positions_def)

lemma uniq_snoc: "uniq (as @ [(k, v)]) = AList.delete k (uniq as) @ [(k, v)]"
proof -
  have "filter (\<lambda>(index, (key, _)). last_positions (as @ [(k, v)]) key = Some index) (zip [0 ..< length as] as) =
      filter (\<lambda>(_, (key, _)). k \<noteq> key) (filter (\<lambda>(index, (key, _)). last_positions as key = Some index) (zip [0 ..< length as] as))"
    unfolding filter_filter
    by (intro filter_cong) (auto simp: last_positions_snoc set_zip split: if_splits)
  then show ?thesis
    by (simp add: uniq_def zip_append1 last_positions_snoc AList.delete_eq filter_map comp_def case_prod_beta)
qed

lemma uniq_spec: "distinct (map fst (uniq as)) \<and> map_of (uniq as) = map_of (rev as)"
proof (induction as rule: rev_induct)
  case (snoc x as)
  obtain k v where x: "x = (k, v)" by (cases x)
  have "map_of (AList.delete k (uniq as)) k' = (if k' = k then None else map_of (uniq as) k')" for k'
    by (simp add: delete_conv')
  moreover have "k \<notin> set (map fst (AList.delete k (uniq as)))" by (auto simp: AList.delete_eq)
  ultimately show ?case using snoc
    by (auto simp: x uniq_snoc distinct_delete map_add_def fun_eq_iff split: option.splits)
qed (simp add: uniq_def)

lemma keep_unique_spec:
  "distinct (map fst (or_attributes (keep_unique r))) \<and> map_of (or_attributes (keep_unique r)) = map_of (rev (or_attributes r))"
  using uniq_spec [of "or_attributes r"]
  by (auto simp: keep_unique_def has_repeated_key_def rebuilt_def uniq_def [symmetric] map_of_rev_distinct)

definition any_of :: "json \<Rightarrow> any_value" where
  "any_of v = (case v of JString s \<Rightarrow> AnyString s | _ \<Rightarrow> AnyOther v)"

abbreviation any_entries :: "json alist \<Rightarrow> any_value alist" where
  "any_entries es \<equiv> map (\<lambda>(k, v). (k, any_of v)) es"

text \<open>
  What the bridge library documents of the attributes of a record: the context fields of every
  span in scope, outermost first, then the fields of the event, without its message.
\<close>
definition bridged :: "json alist option list \<Rightarrow> json alist \<Rightarrow> any_value alist" where
  "bridged spans recorded =
     concat (map (\<lambda>e. case e of Some c \<Rightarrow> any_entries c | None \<Rightarrow> []) (rev spans)) @
     any_entries (filter (\<lambda>(k, _). k \<noteq> ''message'') recorded)"

definition spans_ok :: "json alist option list \<Rightarrow> bool" where
  "spans_ok spans = list_all (\<lambda>e. case e of Some c \<Rightarrow> wf_map c | None \<Rightarrow> True) spans"

lemma map_of_any_entries: "map_of (any_entries es) = map_option any_of \<circ> map_of es"
  by (induction es) (auto simp: fun_eq_iff)

lemma spans_innermost:
  "spans_ok spans \<Longrightarrow>
   map_of (rev (concat (map (\<lambda>e. case e of Some c \<Rightarrow> any_entries c | None \<Rightarrow> []) (rev spans)))) f =
   map_option any_of (innermost f spans)"
proof (induction spans)
  case (Cons e spans)
  have rev_entries: "rev (any_entries c) = any_entries (rev c)" for c by (simp add: rev_map)
  show ?case
  proof (cases e)
    case None
    then show ?thesis using Cons by (simp add: spans_ok_def)
  next
    case (Some c)
    then have "map_of (rev (any_entries c)) f = map_option any_of (map_of c f)"
      using Cons.prems unfolding rev_entries map_of_any_entries by (simp add: spans_ok_def map_of_rev_distinct)
    then show ?thesis using Cons Some by (simp add: spans_ok_def map_add_def split: option.split)
  qed
qed simp

lemma bridged_value:
  assumes "spans_ok spans" "f \<noteq> ''message''"
  shows "map_of (rev (bridged spans recorded)) f =
    map_option any_of (case map_of (rev recorded) f of Some v \<Rightarrow> Some v | None \<Rightarrow> innermost f spans)"
proof -
  have "map_of (filter (\<lambda>(k, _). k \<noteq> ''message'') es) f = map_of es f" for es :: "json alist"
    using assms(2) by (induction es) auto
  then have "map_of (rev (any_entries (filter (\<lambda>(k, _). k \<noteq> ''message'') recorded))) f =
      map_option any_of (map_of (rev recorded) f)"
    unfolding rev_map rev_filter map_of_any_entries by simp
  then show ?thesis
    using spans_innermost [OF assms(1), of f] by (simp add: bridged_def map_add_def split: option.split)
qed

lemma redact_body_fields:
  "or_attributes (redact_body w r) = or_attributes r" "or_timestamp (redact_body w r) = or_timestamp r"
  "or_body (redact_body w r) = map_option (\<lambda>b. case b of AnyString s \<Rightarrow> AnyString (redact_message w s) | _ \<Rightarrow> b) (or_body r)"
  by (auto simp: redact_body_def split: option.split any_value.split)

lemma keep_unique_fields:
  "or_timestamp (keep_unique r) = or_timestamp r" "or_body (keep_unique r) = or_body r"
  by (simp_all add: keep_unique_def rebuilt_def)

lemma backfill_fields:
  "or_attributes (backfill_timestamp now r) = or_attributes r" "or_body (backfill_timestamp now r) = or_body r"
  "or_timestamp (backfill_timestamp now r) \<noteq> None"
  by (simp_all add: backfill_timestamp_def split: option.split)

text \<open>
  The guard looks at keys and URLs only: text that the line on standard output hides stays in
  the attribute of an exported record.
\<close>
lemma export_keeps_text:
  assumes "or_attributes r = [(k, AnyString s)]" "\<not> is_sensitive_key k" "redact_url_userinfo s = None" "k \<noteq> ''config''"
  shows "(\<exists>r'. exported w now r = Some r' \<and> or_attributes r' = [(k, AnyString s)]) \<and>
         redact_json_value w k (JString s) = JString (redact_message w s)"
  using assms
  by (simp add: exported_def redacting_emit_def record_carries_sensitive_attributes_def carries_secret_def
      keep_unique_def has_repeated_key_def backfill_fields redact_body_fields redact_json_value_def redact_string_def)

section \<open>Properties\<close>

text \<open>
  C33: the log hides what it redacts. The line written for an event is the same whatever
  stands under a key that mentions a password, a secret, a token, an authorization or an API
  key; in a text under any other key but \<open>message\<close>, whatever stands between the \<open>://\<close> of a URL and the
  first at sign of its authority, so all its credentials when they contain no literal at sign, slash,
  question mark or hash, and only their part before the at sign when they contain one;
  and, in a field \<open>config\<close> that holds JSON, whatever stands under such keys or in such places of URLs at
  any depth; also when fields are recorded twice, and whatever the libraries' JSON reader and
  regular expressions do. That the rest of credentials with a literal at sign does show is lemma \<open>at_sign_shows\<close>.
\<close>
theorem log_secret_free:
  assumes "list_all2 (field_alike (lw_host w)) es es'"
  shows "format_event w f now metadata spans es = format_event w f now metadata spans es'"
  unfolding format_event_def event_attributes_def Let_def alike_event [OF collect_alike [OF assms]] ..

definition sample_log :: log_world where
  "sample_log = \<lparr>lw_host = sample_host, lw_replace_all = \<lambda>_ _ s. s, lw_parse_directive = \<lambda>_. Inl [],
     lw_parse_filter = \<lambda>_. Inl []\<rparr>"

definition sample_formatter :: log_formatter where
  "sample_formatter = new_log_formatter Map.empty ''1'' ''s''"

definition sample_event :: event_metadata where
  "sample_event = \<lparr>em_name = ''e'', em_target = ''t'', em_level = LInfo, em_file = None, em_line = Some 1\<rparr>"

theorem log_secret_free_witness:
  "format_event sample_log sample_formatter ''2024'' sample_event []
     [(''url'', JString ''nats://u:p@h/x''), (''api_KEY'', JString ''1'')] =
   format_event sample_log sample_formatter ''2024'' sample_event []
     [(''url'', JString ''nats://me@h/x''), (''api_KEY'', JNull)]"
proof -
  have "url_alike ''nats://u:p@h/x'' ''nats://me@h/x''"
    unfolding url_alike_def
    by (intro exI [of _ "''nats''"] exI [of _ "''u:p''"] exI [of _ "''me''"] exI [of _ "''h/x''"])
      (simp add: starts_with_def)
  then show ?thesis
    by (intro log_secret_free)
      (simp add: field_alike_def is_sensitive_key_def to_ascii_lowercase_def ascii_lower_def is_upper_def starts_with_def
        Let_def char_of_def bit_0 bit_Suc)
qed

text \<open>
  The exported records. A record is withheld only when it has a sensitive key or a URL with
  credentials. One that is exported has neither, each key once, a time stamp and a redacted body; and for
  every field of the request context it carries the value the event recorded last, else that
  of the innermost span, which is the value the line on standard output shows, there redacted when
  it came from the event.
\<close>
lemma sinks_agree:
  assumes "or_attributes r = bridged spans recorded" "spans_ok spans" "f \<in> set HYDRATABLE_SPAN_FIELDS"
  shows "case exported w now r of
     None \<Rightarrow> list_ex carries_secret (or_attributes r)
   | Some r' \<Rightarrow>
       distinct (map fst (or_attributes r')) \<and> \<not> list_ex carries_secret (or_attributes r') \<and> or_timestamp r' \<noteq> None \<and>
       or_body r' = map_option (\<lambda>b. case b of AnyString s \<Rightarrow> AnyString (redact_message w s) | _ \<Rightarrow> b) (or_body r) \<and>
       map_of (or_attributes r') f =
         map_option any_of (case map_of (rev recorded) f of Some v \<Rightarrow> Some v | None \<Rightarrow> innermost f spans) \<and>
       map_of (finalize_attributes (event_attributes w metadata spans (map_collect recorded))) f =
         (case map_of (rev recorded) f of Some v \<Rightarrow> Some (redact_json_value w f v) | None \<Rightarrow> innermost f spans)"
proof -
  let ?r = "keep_unique (backfill_timestamp now r)"
  note unique = keep_unique_spec [of "backfill_timestamp now r", unfolded backfill_fields]
  have "set (or_attributes ?r) \<subseteq> set (or_attributes r)"
  proof
    fix x assume "x \<in> set (or_attributes ?r)"
    then have "map_of (or_attributes ?r) (fst x) = Some (snd x)" using unique by (intro map_of_is_SomeI) auto
    then have "(fst x, snd x) \<in> set (rev (or_attributes r))" using unique by (intro map_of_SomeD) simp
    then show "x \<in> set (or_attributes r)" by simp
  qed
  then have withheld: "list_ex carries_secret (or_attributes ?r) \<Longrightarrow> list_ex carries_secret (or_attributes r)"
    by (auto simp: list_ex_iff)
  show ?thesis
    using unique withheld bridged_value [OF assms(2) hydratable_cases(4) [OF assms(3)], of recorded]
      written_context [OF assms(3), of w metadata spans recorded]
    by (auto simp: exported_def redacting_emit_def record_carries_sensitive_attributes_def assms(1) [symmetric]
        redact_body_fields keep_unique_fields backfill_fields)
qed

definition sample_record :: otel_record where
  "sample_record = \<lparr>or_event_name = None, or_target = None, or_timestamp = None, or_observed = None, or_trace = None,
     or_severity_text = None, or_severity = None, or_body = Some (AnyString ''b''),
     or_attributes = [(''topic'', AnyString ''a''), (''topic'', AnyString ''b''), (''n'', AnyString ''1''), (''topic'', AnyString ''c'')]\<rparr>"

lemma sinks_agree_witness:
  "\<exists>r. exported sample_log 5 sample_record = Some r \<and> map_of (or_attributes r) ''topic'' = Some (AnyString ''c'') \<and>
     distinct (map fst (or_attributes r))"
proof -
  have "or_attributes sample_record = bridged [Some [(''topic'', JString ''b'')], Some [(''topic'', JString ''a'')]]
      [(''n'', JString ''1''), (''topic'', JString ''c'')]"
    by (simp add: sample_record_def bridged_def any_of_def)
  note agree = sinks_agree [OF this, of "''topic''" sample_log sample_event 5]
  have plain: "\<not> list_ex carries_secret (or_attributes sample_record)"
    by (simp add: sample_record_def carries_secret_def is_sensitive_key_def redact_url_userinfo_def starts_with_def
        to_ascii_lowercase_def ascii_lower_def is_upper_def Let_def)
  from agree show ?thesis
    using plain by (cases "exported sample_log 5 sample_record")
      (simp_all add: spans_ok_def HYDRATABLE_SPAN_FIELDS_def any_of_def)
qed

end
