(* ===== verification/Admin.thy ===== *)
theory Admin
  imports Auth Backend
begin

text \<open>
  The administration endpoints, \<open>src/routes/admin.rs\<close>: notification ids, the resolution of an
  event type to its stream key, wiping a stream, wiping everything and deleting one
  notification. The operations of the backend are arguments, so that their failures are a
  branch; \<open>mem_wipe\<close>, \<open>mem_wipe_all\<close> and \<open>mem_delete\<close> are those of the in-memory backend.
\<close>

record notification_id =
  ni_stream_key :: string
  ni_sequence :: nat

definition id_format_text :: string where
  "id_format_text = ''notification_id must be in '' @ qt ''<stream>@<sequence>'' @ '' format''"

definition parse_notification_id :: "string \<Rightarrow> string + notification_id" where
  "parse_notification_id v =
     bind_res (of_option id_format_text (split_once CHR ''@'' (trim v))) (\<lambda>(raw_stream_key, raw_sequence).
       if raw_stream_key = [] \<or> raw_sequence = [] then Inl id_format_text
       else bind_res (map_err (\<lambda>_. ''notification_id sequence must be a positive integer'') (parse_u64 raw_sequence)) (\<lambda>n.
         if n = 0 then Inl ''notification_id sequence must be greater than zero''
         else Inr \<lparr>ni_stream_key = raw_stream_key, ni_sequence = n\<rparr>))"

definition known_event_types_suffix :: "schema_map option \<Rightarrow> string" where
  "known_event_types_suffix global =
    (case global of
       Some schema \<Rightarrow>
         if schema \<noteq> [] then ''. Known event types: '' @ join '', '' (sort (map fst schema)) else []
     | None \<Rightarrow> [])"

definition resolve_stream_key_alias :: "schema_map option \<Rightarrow> string \<Rightarrow> string" where
  "resolve_stream_key_alias global stream_or_event_type =
    (case global of
       None \<Rightarrow> stream_or_event_type
     | Some schema \<Rightarrow>
    (case (case map_of schema stream_or_event_type of
             Some s \<Rightarrow> Some s
           | None \<Rightarrow> map_option snd
               (find (\<lambda>(event_type, _). eq_ignore_ascii_case event_type stream_or_event_type) schema)) of
       None \<Rightarrow> stream_or_event_type
     | Some event_schema \<Rightarrow>
         (case es_topic event_schema of Some tc \<Rightarrow> tc_base tc | None \<Rightarrow> stream_or_event_type)))"

definition wipe_response :: "nat \<Rightarrow> bool \<Rightarrow> string \<Rightarrow> string \<Rightarrow> http_response" where
  "wipe_response status success msg request_id =
     \<lparr>hr_status = status, hr_headers = [], hr_body = json_object
        [(''success'', JBool success), (''message'', JString msg), (''request_id'', JString request_id)]\<rparr>"

definition delete_response :: "nat \<Rightarrow> bool \<Rightarrow> string \<Rightarrow> string \<Rightarrow> string \<Rightarrow> http_response" where
  "delete_response status success msg notification_id request_id =
     \<lparr>hr_status = status, hr_headers = [], hr_body = json_object
        [(''success'', JBool success), (''message'', JString msg), (''notification_id'', JString notification_id),
         (''request_id'', JString request_id)]\<rparr>"

section \<open>The endpoints\<close>

definition wipe_stream_route ::
  "schema_map option \<Rightarrow> (string \<Rightarrow> 's \<Rightarrow> (err + wipe_result) \<times> 's) \<Rightarrow> string \<Rightarrow> string \<Rightarrow> 's \<Rightarrow> http_response \<times> 's" where
  "wipe_stream_route global wipe request_id stream_name s =
    (case wipe (resolve_stream_key_alias global stream_name) s of
       (Inr Wiped, s') \<Rightarrow> (wipe_response 200 True (''Successfully wiped stream: '' @ stream_name) request_id, s')
     | (Inr WipeNotFound, s') \<Rightarrow>
         (wipe_response 404 False (''Stream not found: '' @ stream_name @ known_event_types_suffix global) request_id, s')
     | (Inl e, s') \<Rightarrow> (wipe_response 500 False (''Failed to wipe stream: '' @ outer_msg e) request_id, s'))"

definition wipe_all_route :: "('s \<Rightarrow> (err + unit) \<times> 's) \<Rightarrow> string \<Rightarrow> 's \<Rightarrow> http_response \<times> 's" where
  "wipe_all_route wipe request_id s =
    (case wipe s of
       (Inr _, s') \<Rightarrow> (wipe_response 200 True ''Successfully wiped all data'' request_id, s')
     | (Inl e, s') \<Rightarrow> (wipe_response 500 False (''Failed to wipe all data: '' @ outer_msg e) request_id, s'))"

definition delete_notification ::
  "schema_map option \<Rightarrow> (string \<Rightarrow> nat \<Rightarrow> 's \<Rightarrow> (err + delete_result) \<times> 's) \<Rightarrow> string \<Rightarrow> string \<Rightarrow> 's \<Rightarrow>
   http_response \<times> 's" where
  "delete_notification global delete request_id raw_id s =
    (case parse_notification_id raw_id of
       Inl msg \<Rightarrow> (delete_response 400 False msg raw_id request_id, s)
     | Inr parsed \<Rightarrow>
    (case delete (resolve_stream_key_alias global (ni_stream_key parsed)) (ni_sequence parsed) s of
       (Inr Deleted, s') \<Rightarrow> (delete_response 200 True ''Notification deleted'' raw_id request_id, s')
     | (Inr DeleteNotFound, s') \<Rightarrow> (delete_response 404 False ''Notification not found'' raw_id request_id, s')
     | (Inl e, s') \<Rightarrow>
         (delete_response 500 False (''Failed to delete notification: '' @ outer_msg e) raw_id request_id, s')))"

section \<open>On the in-memory backend\<close>

definition mem_wipe :: "host \<Rightarrow> string \<Rightarrow> mem_state \<Rightarrow> (err + wipe_result) \<times> mem_state" where
  "mem_wipe h key s = (case wipe_stream h key s of (r, s') \<Rightarrow> (Inr r, s'))"

definition mem_wipe_all :: "mem_state \<Rightarrow> (err + unit) \<times> mem_state" where
  "mem_wipe_all s = (Inr (), wipe_all s)"

definition mem_delete :: "host \<Rightarrow> string \<Rightarrow> nat \<Rightarrow> mem_state \<Rightarrow> (err + delete_result) \<times> mem_state" where
  "mem_delete h key n s = (case delete_message h key n s of (r, s') \<Rightarrow> (Inr r, s'))"

section \<open>Notification ids\<close>

lemma white_space_edges:
  "w \<in> set white_space_seqs \<Longrightarrow> w \<noteq> [] \<and> \<not> is_alphanumeric (hd w) \<and> \<not> is_alphanumeric (last w)"
  by (auto simp: white_space_seqs_def utf8_2_def utf8_3_def is_alphanumeric_def is_digit_def is_upper_def is_lower_def)

lemma strip_seqs_none: "\<not> (\<exists>w\<in>set ws. w \<noteq> [] \<and> starts_with w s) \<Longrightarrow> strip_seqs ws s = s"
proof -
  assume "\<not> (\<exists>w\<in>set ws. w \<noteq> [] \<and> starts_with w s)"
  then have "find (\<lambda>w. w \<noteq> [] \<and> starts_with w s) ws = None" by (auto simp: find_None_iff)
  then show ?thesis by (subst strip_seqs.simps) simp
qed

text \<open>Text between two ASCII letters or digits has no white space at its ends.\<close>
lemma trim_alphanumeric:
  assumes "s \<noteq> []" "is_alphanumeric (hd s)" "is_alphanumeric (last s)"
  shows "trim s = s"
proof -
  have "\<not> (\<exists>w\<in>set white_space_seqs. w \<noteq> [] \<and> starts_with w s)"
    using assms(2) white_space_edges by (fastforce simp: starts_with_iff)
  then have a: "trim_start s = s" by (simp add: trim_start_def strip_seqs_none)
  have "\<not> (\<exists>w\<in>set (map rev white_space_seqs). w \<noteq> [] \<and> starts_with w (rev s))"
  proof (safe)
    fix w assume w: "w \<in> set (map rev white_space_seqs)" "w \<noteq> []" "starts_with w (rev s)"
    then obtain t where t: "rev s = w @ t" by (auto simp: starts_with_iff)
    have "last s = hd w" using w(2) t by (metis hd_append2 hd_rev)
    moreover have "\<not> is_alphanumeric (hd w)" using w(1,2) white_space_edges by (auto simp: hd_rev)
    ultimately show False using assms(3) by simp
  qed
  then show ?thesis using a by (simp add: trim_def trim_end_def strip_seqs_none)
qed

lemma split_once_none: "c \<notin> set s \<Longrightarrow> split_once c (s @ c # t) = Some (s, t)"
  by (induction s) auto

lemma parse_notification_id_of:
  assumes "CHR ''@'' \<notin> set key" "key \<noteq> []" "is_alphanumeric (hd key)" "0 < n" "is_u64 n"
  shows "parse_notification_id (key @ ''@'' @ show_nat n) = Inr \<lparr>ni_stream_key = key, ni_sequence = n\<rparr>"
proof -
  have "is_alphanumeric (last (show_nat n))"
    using show_nat_digits [of "last (show_nat n)" n] by (simp add: is_alphanumeric_def)
  then have "trim (key @ ''@'' @ show_nat n) = key @ ''@'' @ show_nat n"
    using assms(2,3) by (intro trim_alphanumeric) auto
  then show ?thesis
    using assms parse_u64_show [of n] by (simp add: parse_notification_id_def split_once_none)
qed

end
