(* ===== verification/Access.thy ===== *)
theory Access
  imports Ecpds Routing
begin

text \<open>
  Properties of access control: who passes the middleware and the checks of a stream, and
  what a passed ECPDS check says about the servers' answers.
\<close>

text \<open>The user is one whose claims the JWT library accepted under the configured secret.\<close>
definition token_user :: "auth_world \<Rightarrow> auth_settings \<Rightarrow> user \<Rightarrow> bool" where
  "token_user w settings u =
    (\<exists>token claims. w_validate_jwt w token (as_jwt_secret settings) = Some claims \<and> user_of_claims claims = Inr u)"

lemma user_from_remote_token_ok: "user_from_remote_token w token settings = Inr u \<Longrightarrow> token_user w settings u"
  by (auto simp: user_from_remote_token_def token_user_def result_simps)

lemma authenticate_user_ok: "authenticate_user w credentials settings client = Inr u \<Longrightarrow> token_user w settings u"
  by (auto simp: authenticate_user_def user_from_remote_token_ok
      split: option.splits sum.splits auth_client_error.splits)

lemma resolve_user_ok:
  "resolve_user w req settings client adm = Inr (Some u) \<Longrightarrow> token_user w settings u"
  by (auto simp: resolve_user_def result_simps user_from_remote_token_ok authenticate_user_ok
      split: auth_mode.splits sum.splits option.splits if_splits)

lemma middleware_user:
  assumes "middleware_call w settings client req = Forwarded ctx (Some u) label"
  shows "token_user w settings u \<and> ac_enabled ctx"
  using assms resolve_user_ok
  by (auto simp: middleware_call_def Let_def split: if_splits sum.splits option.splits)

text \<open>The handler's view of a forwarded request.\<close>
definition forwarded_context :: "auth_settings \<Rightarrow> http_request \<Rightarrow> auth_context \<Rightarrow> user option \<Rightarrow> handler_context" where
  "forwarded_context settings req ctx u =
     \<lparr>hc_auth = Some ctx, hc_user = u, hc_settings = Some settings, hc_request_id = rq_id req\<rparr>"

definition may_access :: "auth_settings \<Rightarrow> stream_auth_config \<Rightarrow> stream_operation \<Rightarrow> user \<Rightarrow> bool" where
  "may_access settings auth op u =
    (is_admin u (as_admin_roles settings) \<or>
     (case op of
        ReadStream \<Rightarrow> (case sa_read_roles auth of None \<Rightarrow> True | Some roles \<Rightarrow> has_any_role u roles)
      | WriteStream \<Rightarrow> (case sa_write_roles auth of None \<Rightarrow> False | Some roles \<Rightarrow> has_any_role u roles)))"

lemma enforce_stream_auth_iff:
  assumes "as_enabled settings" "stream_auth_of global event_type = Some auth" "sa_required auth" "ac_enabled ctx"
  shows "enforce_stream_auth (forwarded_context settings req ctx u) global event_type op = Inr () \<longleftrightarrow>
         (\<exists>user. u = Some user \<and> may_access settings auth op user)"
  using assms
  by (cases op)
    (auto simp: enforce_stream_auth_def forwarded_context_def is_auth_enabled_def may_access_def Let_def
      split: option.splits)

section \<open>A service to apply the properties to\<close>

definition sample_world :: auth_world where
  "sample_world = \<lparr>w_header_text = Some,
     w_validate_jwt = (\<lambda>t s. if t = ''a.b.c'' \<and> s = ''k''
        then Some \<lparr>cl_sub = Some ''eve'', cl_iss = None, cl_exp = 0, cl_iat = None, cl_username = None, cl_realm = Some ''wx'', cl_roles = [''ops''], cl_attributes = []\<rparr>
        else None),
     w_send = (\<lambda>_ _. Inl ''down''), w_read_response = (\<lambda>_. None), w_read_string = (\<lambda>_. None)\<rparr>"

definition sample_settings :: auth_settings where
  "sample_settings = \<lparr>as_enabled = True, as_mode = TrustedProxy, as_url = [], as_jwt_secret = ''k'',
     as_admin_roles = [(''wx'', [''ops''])], as_timeout_ms = 5000\<rparr>"

definition sample_request :: "string \<Rightarrow> http_request" where
  "sample_request path = \<lparr>rq_path = path, rq_authorization = Some ''bearer a.b.c'', rq_id = ''r''\<rparr>"

definition eve :: user where
  "eve = \<lparr>u_username = ''eve'', u_realm = Some ''wx'', u_roles = [''ops''], u_attributes = []\<rparr>"

definition guarded_schema :: schema_map where
  "guarded_schema = [(''wx'', \<lparr>es_max_historical = None, es_payload = None, es_topic = None, es_endpoint = None,
     es_identifier = [], es_storage_policy = None,
     es_auth = Some \<lparr>sa_required = True, sa_read_roles = None, sa_write_roles = None, sa_plugins = Some [''ecpds'']\<rparr>\<rparr>)]"

lemmas space_eval = trim_def trim_start_def trim_end_def strip_seqs.simps split_whitespace_def split_ws.simps
  white_space_seqs_def utf8_2_def utf8_3_def starts_with_def find.simps char_of_def bit_0 bit_Suc

lemma sample_bearer: "extract_bearer_token_from_str ''bearer a.b.c'' = Some ''a.b.c''"
proof -
  have t: "trim ''bearer a.b.c'' = ''bearer a.b.c''" by (simp add: space_eval)
  have w: "split_whitespace ''bearer a.b.c'' = [''bearer'', ''a.b.c'']" by (simp add: space_eval)
  show ?thesis
    by (simp add: extract_bearer_token_from_str_def t w eq_ignore_ascii_case_def to_ascii_lowercase_def
        ascii_lower_def is_upper_def char_of_def bit_0 bit_Suc)
qed

lemma sample_settings_simps [simp]:
  "as_enabled sample_settings" "as_mode sample_settings = TrustedProxy" "as_jwt_secret sample_settings = ''k''"
  "as_admin_roles sample_settings = [(''wx'', [''ops''])]"
  by (simp_all add: sample_settings_def)

lemma eve_admin [simp]: "is_admin eve [(''wx'', [''ops''])]"
  by (simp add: is_admin_def has_any_role_def eve_def)

lemma sample_resolved: "resolve_user sample_world (sample_request path) sample_settings None adm = Inr (Some eve)"
proof -
  have "trim ''a.b.c'' = ''a.b.c''" by (simp add: space_eval)
  then show ?thesis
    by (simp add: resolve_user_def resolve_trusted_proxy_token_def extract_bearer_token_def sample_bearer
        user_from_remote_token_def user_of_claims_def sample_world_def sample_request_def eve_def)
qed

lemma sample_path [simp]: "rq_path (sample_request path) = path"
  by (simp add: sample_request_def)

lemma sample_forwarded:
  "middleware_call sample_world sample_settings None (sample_request ''/api/v1/admin/wipe'') =
   Forwarded \<lparr>ac_enabled = True, ac_mode = TrustedProxy\<rparr> (Some eve) (Some ''success'')"
  by (simp add: middleware_call_def sample_resolved starts_with_def Let_def)

section \<open>Properties\<close>

text \<open>
  C10: a protected stream. With authentication on, a request that the middleware forwards
  passes the check of a stream that requires authentication exactly when it carries a user
  whose claims were validated under the configured secret and who is an administrator, or
  may read when no read roles are set, or holds a role of the operation in its own realm;
  writing without write roles is for administrators only. A refusal is a 401 without a user
  and a 403 with one.
\<close>
theorem protected_stream_guarded:
  assumes "as_enabled settings" "middleware_call w settings client req = Forwarded ctx u label"
    "stream_auth_of global event_type = Some auth" "sa_required auth"
  shows "case enforce_stream_auth (forwarded_context settings req ctx u) global event_type op of
           Inr _ \<Rightarrow> \<exists>user. u = Some user \<and> token_user w settings user \<and> may_access settings auth op user
         | Inl response \<Rightarrow> if u = None then hr_status response = 401
             else hr_status response = 403 \<and> \<not> may_access settings auth op (the u)"
proof -
  have en: "ac_enabled ctx"
    using assms(1,2) by (auto simp: middleware_call_def Let_def split: if_splits sum.splits option.splits)
  note iff = enforce_stream_auth_iff [OF assms(1,3,4) en, of req u op]
  show ?thesis
  proof (cases "enforce_stream_auth (forwarded_context settings req ctx u) global event_type op")
    case (Inr x)
    then obtain user where "u = Some user" "may_access settings auth op user" using iff by auto
    then show ?thesis using Inr middleware_user [of w settings client req ctx user label] assms(2) by auto
  next
    case (Inl response)
    then have "\<not> (\<exists>user. u = Some user \<and> may_access settings auth op user)" using iff by auto
    moreover have "hr_status response = (if u = None then 401 else 403)"
      using Inl assms(3,4) en
      by (cases op)
        (auto simp: enforce_stream_auth_def forwarded_context_def is_auth_enabled_def Let_def
          unauthorized_response_def forbidden_response_def split: option.splits if_splits)
    ultimately show ?thesis using Inl by (cases u) auto
  qed
qed

theorem protected_stream_guarded_witness:
  "token_user sample_world sample_settings eve \<and>
   enforce_stream_auth (forwarded_context sample_settings (sample_request ''/api/v1/admin/wipe'')
     \<lparr>ac_enabled = True, ac_mode = TrustedProxy\<rparr> (Some eve)) (Some guarded_schema) ''wx'' WriteStream = Inr ()"
proof -
  let ?r = "enforce_stream_auth (forwarded_context sample_settings (sample_request ''/api/v1/admin/wipe'')
     \<lparr>ac_enabled = True, ac_mode = TrustedProxy\<rparr> (Some eve)) (Some guarded_schema) ''wx'' WriteStream"
  have a: "stream_auth_of (Some guarded_schema) ''wx'' =
      Some \<lparr>sa_required = True, sa_read_roles = None, sa_write_roles = None, sa_plugins = Some [''ecpds'']\<rparr>"
    by (simp add: stream_auth_of_def guarded_schema_def)
  have "?r = Inr ()"
    by (simp add: enforce_stream_auth_def a forwarded_context_def is_auth_enabled_def Let_def)
  then show ?thesis
    using protected_stream_guarded [OF _ sample_forwarded a, of WriteStream] by simp
qed

text \<open>Below the administration path the middleware resolves a user and asks for the role.\<close>
lemma middleware_admin_call:
  assumes "as_enabled settings" "starts_with ''/api/v1/admin'' (rq_path req)"
  shows "middleware_call w settings client req =
    (case resolve_user w req settings client True of
       Inl failure \<Rightarrow> Refused (failure_response (as_mode settings) (rq_id req) failure) (failure_reason failure)
     | Inr (Some user) \<Rightarrow>
         if \<not> is_admin user (as_admin_roles settings)
         then Refused (failure_response (as_mode settings) (rq_id req)
                (Forbidden ''User does not have required administrative role'')) ''forbidden''
         else Forwarded \<lparr>ac_enabled = True, ac_mode = as_mode settings\<rparr> (Some user) (Some ''success'')
     | Inr None \<Rightarrow> Forwarded \<lparr>ac_enabled = True, ac_mode = as_mode settings\<rparr> None None)"
proof -
  have "\<not> starts_with ''/api/v1/schema'' (rq_path req)" using assms(2) by (auto simp: starts_with_iff)
  then show ?thesis using assms by (simp add: middleware_call_def Let_def split: sum.split option.split)
qed

lemma admin_needs_user: "resolve_user w req settings client True \<noteq> Inr None"
  by (auto simp: resolve_user_def result_simps)

text \<open>
  The administration routes. With authentication on, a request below \<open>/api/v1/admin\<close> is
  forwarded only with a validated user who holds an administrator role, also when its
  credentials are missing, malformed or cannot be checked; otherwise it is answered with
  401, 403 or 503.
\<close>
lemma admin_routes_guarded:
  assumes "as_enabled settings" "starts_with ''/api/v1/admin'' (rq_path req)"
  shows "case middleware_call w settings client req of
           Forwarded ctx u label \<Rightarrow> \<exists>user. u = Some user \<and> token_user w settings user \<and>
             is_admin user (as_admin_roles settings) \<and> label = Some ''success''
         | Refused response label \<Rightarrow> hr_status response \<in> {401, 403, 503}"
proof -
  note call = middleware_admin_call [OF assms]
  have status: "hr_status (failure_response m rid f) \<in> {401, 403, 503}" for m rid f
    by (cases f) (auto simp: unauthorized_response_def)
  note some = admin_needs_user [of w req settings client]
  show ?thesis
  proof (cases "resolve_user w req settings client True")
    case (Inl f)
    then show ?thesis using status by (simp add: call)
  next
    case (Inr x)
    then obtain u where u: "resolve_user w req settings client True = Inr (Some u)" using some by (cases x) auto
    then show ?thesis using resolve_user_ok [OF u] by (simp add: call)
  qed
qed

lemma admin_routes_guarded_witness:
  "is_admin eve (as_admin_roles sample_settings)"
  using admin_routes_guarded [of sample_settings "sample_request ''/api/v1/admin/wipe''" sample_world None]
    sample_forwarded
  by (simp add: starts_with_def)

text \<open>Where the destinations of a user come from: the cache, or the fetch of this call.\<close>
definition offered :: "dest_cache \<Rightarrow> flight \<Rightarrow> string \<Rightarrow> string set \<Rightarrow> bool" where
  "offered cache flight username dests =
    (cache username = Some dests \<or>
     cache username = None \<and>
       ((\<exists>o1 shared. flight = RunsFetch (Inr (dests, o1)) shared) \<or> (\<exists>shared. flight = JoinsFetch (Inr dests) shared)))"

lemma try_get_or_fetch_ok:
  "try_get_or_fetch cache username flight = ((outcome, Inr dests), cache') \<Longrightarrow> offered cache flight username dests"
  by (auto simp: try_get_or_fetch_def offered_def result_simps split: option.splits flight.splits sum.splits)

lemma check_access_ok:
  assumes "check_access match_key cache username params flight = (access, cache')" "acr_result access = Inr ()"
  shows "\<exists>destination dests. map_of params match_key = Some destination \<and> destination \<in> dests \<and>
           offered cache flight username dests"
  using assms try_get_or_fetch_ok [of cache username flight]
  by (fastforce simp: check_access_def result_simps split: option.splits prod.splits if_splits)

lemma enforce_ecpds_ok:
  assumes "has_ecpds_plugin global event_type" "hc_user c = Some user"
    "hc_settings c = Some settings" "\<not> is_admin user (as_admin_roles settings)"
    "enforce_ecpds_auth c global event_type params checker cache flight = (Inr (), cache', counts)"
  shows "\<exists>match_key destination dests. checker = Some match_key \<and> map_of params match_key = Some destination \<and>
           destination \<in> dests \<and> CountDecision ''allow'' \<in> set counts \<and>
           offered cache flight (u_username user) dests"
proof -
  obtain match_key where mk: "checker = Some match_key"
    using assms by (auto simp: enforce_ecpds_auth_def split: option.splits)
  obtain access where ca: "check_access match_key cache (u_username user) params flight = (access, cache')"
      and res: "acr_result access = Inr ()" "CountDecision ''allow'' \<in> set counts"
    using assms mk
    by (auto simp: enforce_ecpds_auth_def Let_def split: prod.splits sum.splits ecpds_error.splits)
  show ?thesis using check_access_ok [OF ca res(1)] mk res(2) by auto
qed

text \<open>
  The destination check. When a user who is no administrator passes the ECPDS check of a
  stream, the request names a destination under the configured key, and that destination is
  in a list that was fetched successfully for this very user: an earlier fetch still in the
  cache, or the fetch this request ran or joined. A failed fetch never lets anyone pass.
\<close>
lemma ecpds_passes_only_granted:
  assumes "cache_reachable fetches cache" "has_ecpds_plugin global event_type" "hc_user c = Some user"
    "hc_settings c = Some settings" "\<not> is_admin user (as_admin_roles settings)"
    "enforce_ecpds_auth c global event_type params checker cache flight = (Inr (), cache', counts)"
  shows "\<exists>match_key destination dests. checker = Some match_key \<and> map_of params match_key = Some destination \<and>
           destination \<in> dests \<and> CountDecision ''allow'' \<in> set counts \<and>
           ((u_username user, dests) \<in> set fetches \<or>
            (\<exists>o1 shared. flight = RunsFetch (Inr (dests, o1)) shared) \<or>
            (\<exists>shared. flight = JoinsFetch (Inr dests) shared))"
  using enforce_ecpds_ok [OF assms(2-6)] cache_entries_fetched [OF assms(1)] unfolding offered_def by blast

definition mallory :: user where
  "mallory = \<lparr>u_username = ''mallory'', u_realm = Some ''wx'', u_roles = [''guest''], u_attributes = []\<rparr>"

lemma ecpds_passes_only_granted_witness:
  "\<exists>dests o1 shared. ''AUX'' \<in> dests \<and>
     RunsFetch (Inr ({''AUX''}, FSuccess)) False = RunsFetch (Inr (dests, o1)) shared"
proof -
  let ?c = "\<lparr>hc_auth = Some \<lparr>ac_enabled = True, ac_mode = TrustedProxy\<rparr>, hc_user = Some mallory,
             hc_settings = Some sample_settings, hc_request_id = ''r''\<rparr>"
  have p: "has_ecpds_plugin (Some guarded_schema) ''wx''"
    by (simp add: has_ecpds_plugin_def stream_auth_of_def guarded_schema_def)
  have a: "\<not> is_admin mallory (as_admin_roles sample_settings)"
    by (simp add: is_admin_def has_any_role_def mallory_def)
  have e: "enforce_ecpds_auth ?c (Some guarded_schema) ''wx'' [(''dest'', ''AUX'')] (Some ''dest'') (\<lambda>_. None)
        (RunsFetch (Inr ({''AUX''}, FSuccess)) False) =
        (Inr (), [''mallory'' \<mapsto> {''AUX''}], [CountMiss, CountFetch ''success'', CountDecision ''allow''])"
    using p a by (simp add: enforce_ecpds_auth_def check_access_def try_get_or_fetch_def mallory_def cache_counts_def)
  show ?thesis
    using ecpds_passes_only_granted [OF cache_reachable.Empty p _ _ a e] by auto
qed

definition usable :: "string \<Rightarrow> string + ecpds_reply \<Rightarrow> string list option" where
  "usable target_field answer =
    (case answer of
       Inr reply \<Rightarrow>
         (if 200 \<le> er_status reply \<and> er_status reply < 300
          then (case er_body reply of
                  Inr (records, success) \<Rightarrow>
                    if success = ''yes'' then Some (List.map_filter (active_destination target_field) records) else None
                | Inl _ \<Rightarrow> None)
          else None)
     | Inl _ \<Rightarrow> None)"

lemma fetch_from_server_ok: "ok (fetch_from_server h f i a) = usable f a"
  by (auto simp: fetch_from_server_def usable_def split: sum.splits prod.splits)

lemma granted_enumerate:
  "granted (map (\<lambda>(i, a). fetch_from_server h f i a) (enumerate n answers)) =
   {d. \<exists>a\<in>set answers. \<exists>ds. usable f a = Some ds \<and> d \<in> set ds}"
proof (induction answers arbitrary: n)
  case (Cons a answers)
  show ?case
  proof (cases "fetch_from_server h f n a")
    case (Inl e)
    then have "usable f a = None" using fetch_from_server_ok [of h f n a] by simp
    then show ?thesis using Cons Inl by simp
  next
    case (Inr ds)
    then have "usable f a = Some ds" using fetch_from_server_ok [of h f n a] by simp
    then show ?thesis using Cons Inr by auto
  qed
qed simp

lemma list_ex_enumerate:
  "list_ex (\<lambda>r. ok r \<noteq> None) (map (\<lambda>(i, a). fetch_from_server h f i a) (enumerate n answers)) \<longleftrightarrow>
   (\<exists>a\<in>set answers. usable f a \<noteq> None)"
  by (induction answers arbitrary: n) (auto simp: fetch_from_server_ok)

lemma list_all_enumerate:
  "list_all (\<lambda>r. ok r \<noteq> None) (map (\<lambda>(i, a). fetch_from_server h f i a) (enumerate n answers)) \<longleftrightarrow>
   (\<forall>a\<in>set answers. usable f a \<noteq> None)"
  by (induction answers arbitrary: n) (auto simp: fetch_from_server_ok)

text \<open>
  What a fetch returns. The destinations are those of the active records of the servers
  that gave a usable answer (a success status, the expected body and \<open>success = yes\<close>).
  The strict policy returns them exactly when there is a server and all servers are usable;
  the other policy when at least one is, and then reports \<open>FSuccess\<close> only when all are.
  Otherwise the reported outcome is the worst of the failures.
\<close>
lemma destinations_merged:
  "(let worst = (\<lambda>none. case failures (map (\<lambda>(i, a). fetch_from_server h target_field i a) (enumerate 0 answers)) of
        [] \<Rightarrow> none | os \<Rightarrow> Max (set os)) in
    case fetch_user_destinations h policy target_field answers of
      Inr (dests, outcome) \<Rightarrow>
        dests = {d. \<exists>a\<in>set answers. \<exists>ds. usable target_field a = Some ds \<and> d \<in> set ds} \<and>
        (outcome = FSuccess \<longleftrightarrow> (\<forall>a\<in>set answers. usable target_field a \<noteq> None)) \<and> outcome = worst FSuccess \<and>
        (case policy of Strict \<Rightarrow> answers \<noteq> [] \<and> (\<forall>a\<in>set answers. usable target_field a \<noteq> None)
         | AnySuccess \<Rightarrow> \<exists>a\<in>set answers. usable target_field a \<noteq> None)
    | Inl e \<Rightarrow>
        e = EcpdsUnavailable (worst FUnreachable) \<and>
        (case policy of Strict \<Rightarrow> answers = [] \<or> (\<exists>a\<in>set answers. usable target_field a = None)
         | AnySuccess \<Rightarrow> \<forall>a\<in>set answers. usable target_field a = None))"
proof -
  define results where "results = map (\<lambda>(i, a). fetch_from_server h target_field i a) (enumerate 0 answers)"
  have nil: "results = [] \<longleftrightarrow> answers = []" by (simp add: results_def enumerate_eq_zip)
  have granted: "granted results = {d. \<exists>a\<in>set answers. \<exists>ds. usable target_field a = Some ds \<and> d \<in> set ds}"
    unfolding results_def by (rule granted_enumerate)
  have failures: "failures results = [] \<longleftrightarrow> \<not> (\<exists>a\<in>set answers. usable target_field a = None)"
    unfolding failures_Nil_iff results_def list_all_enumerate by auto
  have some: "list_ex (\<lambda>r. ok r \<noteq> None) results \<longleftrightarrow> (\<exists>a\<in>set answers. usable target_field a \<noteq> None)"
    unfolding results_def by (rule list_ex_enumerate)
  have bad: "o1 \<noteq> FSuccess" if o1: "o1 \<in> set (failures results)" for o1
  proof -
    obtain e where e: "o1 = error_outcome e" "Inl e \<in> set results"
      using o1 by (auto simp: set_failures)
    obtain i a where "fetch_from_server h target_field i a = Inl e"
      using e(2) by (auto simp: results_def)
    then show ?thesis unfolding e(1)
      by (auto simp: fetch_from_server_def result_simps split: sum.splits if_splits)
  qed
  define worst where "worst none = (case failures results of [] \<Rightarrow> none | os \<Rightarrow> Max (set os))" for none
  have fold: "(case fold (\<lambda>o1 w. Some (worse w o1)) (failures results) None of Some o2 \<Rightarrow> o2 | None \<Rightarrow> none) = worst none"
    for none by (simp add: worst_is_Max worst_def split: list.split)
  have success: "worst FSuccess = FSuccess \<longleftrightarrow> failures results = []"
  proof (cases "failures results")
    case (Cons x xs)
    have "Max (set (failures results)) \<in> set (failures results)" by (rule Max_in) (simp_all add: Cons)
    then show ?thesis using bad by (auto simp: worst_def Cons simp del: list.set)
  qed (simp add: worst_def)
  show ?thesis
  proof (cases policy)
    case Strict
    have "fetch_user_destinations h policy target_field answers = merge_strict results"
      by (simp add: fetch_user_destinations_def results_def [symmetric] Strict merge_strict_def nil)
    moreover have "merge_strict results = (if answers = [] \<or> failures results \<noteq> []
        then Inl (EcpdsUnavailable (worst FUnreachable)) else Inr (granted results, worst FSuccess))"
      unfolding fold [symmetric] using fold_worse_None [of "failures results" None] nil
      by (auto simp: merge_strict_def merge_results_eq split: option.splits)
    ultimately show ?thesis
      using granted failures success unfolding Strict results_def [symmetric] worst_def [symmetric] Let_def by auto
  next
    case AnySuccess
    have "fetch_user_destinations h policy target_field answers = merge_any_success results"
      by (simp add: fetch_user_destinations_def results_def [symmetric] AnySuccess)
        (simp add: merge_any_success_def results_def)
    moreover have "merge_any_success results = (if list_ex (\<lambda>r. ok r \<noteq> None) results
        then Inr (granted results, worst FSuccess) else Inl (EcpdsUnavailable (worst FUnreachable)))"
      by (simp add: merge_any_success_def merge_results_eq fold)
    ultimately show ?thesis
      using granted failures success some unfolding AnySuccess results_def [symmetric] worst_def [symmetric] Let_def by auto
  qed
qed

text \<open>One server answers, the other one cannot be reached.\<close>
definition two_answers :: "(string + ecpds_reply) list" where
  "two_answers = [Inr \<lparr>er_status = 200, er_status_text = ''200 OK'',
      er_body = Inr ([JObject [(''active'', JBool True), (''name'', JString ''AUX'')]], ''yes'')\<rparr>, Inl ''timeout'']"

lemma destinations_merged_witness:
  "(\<exists>e. fetch_user_destinations sample_host Strict ''name'' two_answers = Inl e) \<and>
   (\<exists>dests. fetch_user_destinations sample_host AnySuccess ''name'' two_answers = Inr (dests, FUnreachable) \<and> dests = {''AUX''})"
proof -
  have u: "map (usable ''name'') two_answers = [Some [''AUX''], None]"
    by (simp add: two_answers_def usable_def active_destination_def json_get_def List.map_filter_def)
  have s: "set two_answers = {hd two_answers, two_answers ! 1}" by (simp add: two_answers_def)
  have h: "usable ''name'' (hd two_answers) = Some [''AUX'']" "usable ''name'' (two_answers ! 1) = None"
    using u by (simp_all add: two_answers_def)
  have a: "\<exists>e. fetch_user_destinations sample_host Strict ''name'' two_answers = Inl e"
    using destinations_merged [where h = sample_host and policy = Strict and target_field = "''name''" and answers = two_answers] s h
    by (auto split: sum.splits prod.splits)
  have b: "\<exists>dests o1. fetch_user_destinations sample_host AnySuccess ''name'' two_answers = Inr (dests, o1) \<and> dests = {''AUX''}"
    using destinations_merged [where h = sample_host and policy = AnySuccess and target_field = "''name''" and answers = two_answers] s h
    by (auto split: sum.splits prod.splits)
  have c: "map_res snd (fetch_user_destinations sample_host AnySuccess ''name'' two_answers) = Inr FUnreachable"
    by (simp add: fetch_user_destinations_def two_answers_def fetch_from_server_def merge_any_success_def
        active_destination_def json_get_def List.map_filter_def worse_def)
  show ?thesis using a b c by auto
qed

end
