(* ===== verification/Endpoints.thy ===== *)
theory Endpoints
  imports Routes Admin Access Streaming
begin

text \<open>
  Properties of the endpoints as a whole: what a notification request stores and counts,
  what a watch or replay request must have passed before its stream opens, the contract of
  the error responses, and the administration routes on the ids the event stream hands out.
\<close>

section \<open>Bodies of responses\<close>

lemma json_get_object:
  "distinct (map fst xs) \<Longrightarrow> json_get k (json_object xs) = map_of xs k"
proof -
  assume d: "distinct (map fst xs)"
  have "distinct (map fst (sort_key fst xs))" using d by (simp add: distinct_map)
  then have "map_of (sort_key fst xs) = map_of xs"
    using d by (simp add: map_of_inject_set)
  then show ?thesis by (simp add: json_get_def json_object_def)
qed

text \<open>
  The error codes of the API with their status, as the error reference lists them; \<open>UNKNOWN_EVENT_TYPE\<close>,
  which its table lacks, is documented with the strict mode of the schemas.
\<close>
definition documented_codes :: "(string \<times> nat) list" where
  "documented_codes =
     [(''INVALID_JSON'', 400), (''UNKNOWN_FIELD'', 400), (''INVALID_REQUEST_SHAPE'', 400),
      (''INVALID_NOTIFICATION_REQUEST'', 400), (''INVALID_WATCH_REQUEST'', 400),
      (''INVALID_REPLAY_REQUEST'', 400), (''UNKNOWN_EVENT_TYPE'', 400), (''UNAUTHORIZED'', 401),
      (''FORBIDDEN'', 403), (''NOTIFICATION_PROCESSING_FAILED'', 500), (''NOTIFICATION_STORAGE_FAILED'', 500),
      (''SSE_STREAM_INITIALIZATION_FAILED'', 500), (''INTERNAL_ERROR'', 500), (''SERVICE_UNAVAILABLE'', 503)]"

text \<open>A refusal: a documented code with its status, a text and the id of the request.\<close>
definition is_refusal :: "string \<Rightarrow> http_response \<Rightarrow> bool" where
  "is_refusal rid r =
    (Option.bind (Option.bind (json_get ''code'' (hr_body r)) as_str) (map_of documented_codes) = Some (hr_status r) \<and>
     Option.bind (json_get ''message'' (hr_body r)) as_str \<noteq> None \<and>
     json_get ''request_id'' (hr_body r) = Some (JString rid))"

lemmas refusal_simps = is_refusal_def json_get_object failure_json_def documented_codes_def Let_def

lemma refusal_error_response:
  "is_refusal rid (error_response (ParseError (parse_code source) label rid source))"
  "is_refusal rid (error_response (ValidationError (request_code kind) label rid e))"
  "is_refusal rid (error_response (ProcessingError (processing_code pk) label rid e))"
  "is_refusal rid (error_response (SseError SseStreamInitializationFailed topic rid e))"
     apply (cases source; simp add: refusal_simps)
    apply (cases kind; simp add: refusal_simps error_summary_def)
   apply (cases pk; simp add: refusal_simps error_summary_def)
  apply (simp add: refusal_simps error_summary_def)
  done

lemma refusal_responses [simp]:
  "is_refusal rid (request_parse_error_response kind pe rid)"
  "is_refusal rid (request_validation_error_response kind e rid)"
  "is_refusal rid (processing_error_response pk e rid)"
  "is_refusal rid (sse_error_response e topic rid)"
  by (simp_all only: request_parse_error_response_def request_validation_error_response_def
      processing_error_response_def sse_error_response_def api_parse_def api_validation_def
      api_processing_def api_sse_def refusal_error_response)

lemma refusal_plain [simp]:
  "is_refusal rid (unauthorized_response mode msg rid)"
  "is_refusal rid (forbidden_response msg rid)"
  "is_refusal rid (internal_error_response msg rid)"
  "is_refusal rid (ecpds_service_unavailable_response rid)"
  by (simp_all add: unauthorized_response_def forbidden_response_def internal_error_response_def
      ecpds_service_unavailable_response_def error_body_def refusal_simps)

lemma refusal_known_event_type:
  "enforce_known_event_type strict global rid et = Inl r \<Longrightarrow> is_refusal rid r \<and> hr_status r = 400"
  by (auto simp: enforce_known_event_type_def enforce_known_event_type_inner_def refusal_simps
      split: if_splits option.splits)

lemma refusal_stream_auth:
  "enforce_stream_auth c global et op = Inl r \<Longrightarrow> is_refusal (hc_request_id c) r"
  by (auto simp: enforce_stream_auth_def Let_def split: if_splits option.splits stream_operation.splits)

lemma refusal_ecpds:
  "enforce_ecpds_auth c global et params checker cache flight = (Inl r, cache', counts) \<Longrightarrow>
   is_refusal (hc_request_id c) r"
  by (auto simp: enforce_ecpds_auth_def Let_def
      split: if_splits option.splits prod.splits sum.splits ecpds_error.splits)

lemma status_plain [simp]:
  "hr_status (unauthorized_response mode msg rid) = 401"
  "hr_status (forbidden_response msg rid) = 403"
  "hr_status (internal_error_response msg rid) = 500"
  "hr_status (ecpds_service_unavailable_response rid) = 503"
  "hr_status (notification_response sv rid) = 200"
  by (simp_all add: unauthorized_response_def forbidden_response_def internal_error_response_def
      ecpds_service_unavailable_response_def notification_response_def)

lemma status_stream_auth:
  "enforce_stream_auth c global et op = Inl r \<Longrightarrow> hr_status r \<noteq> 200"
  by (auto simp: enforce_stream_auth_def Let_def split: if_splits option.splits stream_operation.splits)

section \<open>The notification endpoint\<close>

lemma save_mem:
  "save_to_backend (mem_writer cfg now) res payload s =
   (Inr (), fst (store_message cfg now (pr_topic res) payload (map_option spatial_headers (pr_spatial res)) s))"
  by (auto simp: save_to_backend_def mem_writer_def put_messages_def put_message_with_headers_def split: option.split)

text \<open>Every check has passed, with the request and its processed form.\<close>
definition admits :: "'d server \<Rightarrow> handler_context \<Rightarrow> string \<Rightarrow> notification_request \<Rightarrow> processing_result \<Rightarrow> bool" where
  "admits sv c body r res =
    (parse_and_validate_request (sv_host sv) (sv_read_request sv) body = Inr r \<and>
     enforce_known_event_type (sv_strict sv) (sv_global sv) (hc_request_id c) (nr_event_type r) = Inr () \<and>
     reject_end_point ''/notification'' r = Inr () \<and> \<not> has_key (nr_identifier r) ''point'' \<and>
     enforce_stream_auth c (sv_global sv) (nr_event_type r) WriteStream = Inr () \<and>
     process_request_with_values (sv_host sv) (sv_chrono sv) (handler_from_config (sv_global sv) (sv_strict sv))
       (nr_event_type r) (nr_identifier r) (nr_payload r) Notify = Inr res)"

lemma notify_checks_Inr: "notify_checks sv c body = Inr (r, res) \<longleftrightarrow> admits sv c body r res"
  by (auto simp: notify_checks_def admits_def process_notification_request_def result_simps Let_def simp del: has_key_iff
      split: if_splits)

lemma refusal_processing [simp]:
  "is_refusal rid (processing_refusal rid ke)" "hr_status (processing_refusal rid ke) \<noteq> 200"
  by (cases ke; cases "fst ke"; simp)+

lemma bucket_cases:
  "bucket_event_type_for_observability global et = ''generic'' \<or>
   bucket_event_type_for_observability global et \<in> fst ` set (case global of Some m \<Rightarrow> m | None \<Rightarrow> [])"
  by (auto simp: bucket_event_type_for_observability_def split: option.splits)

definition event_labels :: "'d server \<Rightarrow> string set" where
  "event_labels sv = {''unknown'', ''generic''} \<union> fst ` set (case sv_global sv of Some m \<Rightarrow> m | None \<Rightarrow> [])"

lemma bucket_label [simp]: "bucket_event_type_for_observability (sv_global sv) et \<in> event_labels sv"
  using bucket_cases [of "sv_global sv" et] by (auto simp: event_labels_def)

lemma unknown_label [simp]: "''unknown'' \<in> event_labels sv"
  by (simp add: event_labels_def)

lemma notify_checks_Inl:
  assumes "notify_checks sv c body = Inl (response, metrics)"
  shows "is_refusal (hc_request_id c) response \<and> hr_status response \<noteq> 200 \<and>
         (\<exists>label\<in>event_labels sv. metrics = [(label, ''error'')] \<or> metrics = [(label, ''rejected'')])"
  using assms refusal_known_event_type refusal_stream_auth status_stream_auth bucket_label [of sv]
  by (fastforce simp: notify_checks_def result_simps Let_def simp del: has_key_iff split: if_splits)

section \<open>What the endpoint needs of a store\<close>

text \<open>A message as a writer is asked to store it.\<close>
definition put_as :: "message \<Rightarrow> string \<Rightarrow> string \<Rightarrow> string alist option \<Rightarrow> bool" where
  "put_as m topic payload metadata = (m_topic m = topic \<and> m_payload m = payload \<and> m_metadata m = metadata)"

text \<open>
  The two writing operations: on success the message is held and nothing else has
  appeared, on failure nothing has changed.
\<close>
locale notification_store =
  fixes inv :: "'s \<Rightarrow> bool" and held :: "'s \<Rightarrow> message set" and wr :: "'s writer"
  assumes put_ok: "inv s \<Longrightarrow> wr_put_messages wr topic payload s = (Inr (), s') \<Longrightarrow>
      inv s' \<and> (\<exists>m. put_as m topic payload None \<and> m \<in> held s' \<and> held s' \<subseteq> insert m (held s))"
    and put_headers_ok: "inv s \<Longrightarrow> wr_put_message_with_headers wr topic headers payload s = (Inr (), s') \<Longrightarrow>
      inv s' \<and> (\<exists>m. put_as m topic payload headers \<and> m \<in> held s' \<and> held s' \<subseteq> insert m (held s))"
    and put_failed: "inv s \<Longrightarrow> wr_put_messages wr topic payload s = (Inl e, s') \<Longrightarrow> inv s' \<and> held s' = held s"
    and put_headers_failed: "inv s \<Longrightarrow> wr_put_message_with_headers wr topic headers payload s = (Inl e, s') \<Longrightarrow>
      inv s' \<and> held s' = held s"
begin

lemma save_ok:
  assumes "inv s" "save_to_backend wr res payload s = (Inr (), s')"
  shows "inv s' \<and> (\<exists>m. put_as m (pr_topic res) payload (map_option spatial_headers (pr_spatial res)) \<and>
           m \<in> held s' \<and> held s' \<subseteq> insert m (held s))"
proof (cases "pr_spatial res")
  case None
  then have "wr_put_messages wr (pr_topic res) payload s = (Inr (), s')"
    using assms(2) by (simp add: save_to_backend_def)
  from put_ok [OF assms(1) this] show ?thesis by (simp add: None)
next
  case (Some meta)
  then have "wr_put_message_with_headers wr (pr_topic res) (Some (spatial_headers meta)) payload s = (Inr (), s')"
    using assms(2) by (simp add: save_to_backend_def)
  from put_headers_ok [OF assms(1) this] show ?thesis by (simp add: Some)
qed

lemma save_failed:
  assumes "inv s" "save_to_backend wr res payload s = (Inl e, s')"
  shows "inv s' \<and> held s' = held s"
proof (cases "pr_spatial res")
  case None
  then show ?thesis using assms by (intro put_failed [of s "pr_topic res" payload e]) (simp_all add: save_to_backend_def)
next
  case (Some meta)
  then show ?thesis using assms
    by (intro put_headers_failed [of s "pr_topic res" "Some (spatial_headers meta)" payload e]) (simp_all add: save_to_backend_def)
qed

lemma notify_holds:
  assumes "inv s" "oc = notify sv wr c body s"
  shows "inv (oc_state oc) \<and>
    (if hr_status (oc_response oc) = 200
     then \<exists>r res m. admits sv c body r res \<and>
            put_as m (pr_topic res) (payload_text (sv_host sv) (nr_payload r)) (map_option spatial_headers (pr_spatial res)) \<and>
            m \<in> held (oc_state oc) \<and> held (oc_state oc) \<subseteq> insert m (held s)
     else held (oc_state oc) = held s)"
proof (cases "notify_checks sv c body")
  case (Inl x)
  obtain response metrics where x: "x = (response, metrics)" by (cases x)
  show ?thesis using notify_checks_Inl [of sv c body response metrics] Inl assms by (simp add: notify_def x)
next
  case (Inr x)
  obtain r res where x: "x = (r, res)" by (cases x)
  have adm: "admits sv c body r res" using Inr by (simp add: x notify_checks_Inr)
  obtain verdict s' where save: "save_to_backend wr res (payload_text (sv_host sv) (nr_payload r)) s = (verdict, s')"
    by (metis prod.exhaust)
  show ?thesis
  proof (cases verdict)
    case (Inl e)
    then show ?thesis using assms Inr save save_failed [OF assms(1) save [unfolded Inl]]
      by (simp add: notify_def x Let_def processing_error_response_def api_processing_def split: prod.splits)
  next
    case ok: (Inr u)
    then have "save_to_backend wr res (payload_text (sv_host sv) (nr_payload r)) s = (Inr (), s')" using save by simp
    then show ?thesis using assms(2) Inr adm save_ok [OF assms(1)]
      by (simp add: notify_def x Let_def notification_response_def) blast
  qed
qed

end

lemma store_held:
  assumes "mem_inv cfg s" "store_message cfg now topic payload metadata s = (s', m)"
  shows "mem_inv cfg s' \<and> put_as m topic payload metadata \<and> m \<in> set (all_messages s') \<and>
         set (all_messages s') \<subseteq> insert m (set (all_messages s))"
  using mem_inv_store [OF assms] store_message_messages [OF assms] store_message_stored [OF assms(2)]
    store_message_broadcast [OF assms(2)] by (simp add: put_as_def)

interpretation mem_store: notification_store "mem_inv cfg" "\<lambda>s. set (all_messages s)" "mem_writer cfg now" for cfg now
proof unfold_locales
  have stored: "mem_inv cfg s' \<and> (\<exists>m. put_as m topic payload metadata \<and> m \<in> set (all_messages s') \<and>
      set (all_messages s') \<subseteq> insert m (set (all_messages s)))"
    if "mem_inv cfg s" "fst (store_message cfg now topic payload metadata s) = s'" for s s' topic payload metadata
    using store_held [OF that(1), of now topic payload metadata s'] that(2) by (metis prod.collapse)
  show "mem_inv cfg s' \<and> (\<exists>m. put_as m topic payload None \<and> m \<in> set (all_messages s') \<and>
      set (all_messages s') \<subseteq> insert m (set (all_messages s)))"
    if "mem_inv cfg s" "wr_put_messages (mem_writer cfg now) topic payload s = (Inr (), s')" for s topic payload s'
    using that by (intro stored) (simp_all add: mem_writer_def put_messages_def)
  show "mem_inv cfg s' \<and> (\<exists>m. put_as m topic payload headers \<and> m \<in> set (all_messages s') \<and>
      set (all_messages s') \<subseteq> insert m (set (all_messages s)))"
    if "mem_inv cfg s" "wr_put_message_with_headers (mem_writer cfg now) topic headers payload s = (Inr (), s')"
    for s topic headers payload s'
    using that by (intro stored) (simp_all add: mem_writer_def put_message_with_headers_def)
qed (simp_all add: mem_writer_def)

text \<open>A server to apply the properties to: the weather schema, and bodies that hold one given request.\<close>
definition one_request :: "event_schema alist \<Rightarrow> notification_request \<Rightarrow> unit server" where
  "one_request schemas r = \<lparr>sv_host = sample_host\<lparr>json_parse := (\<lambda>_. Inr (JObject []))\<rparr>, sv_chrono = sample_chrono,
     sv_dates = \<lparr>dr_from_timestamp = (\<lambda>_ _. None), dr_rfc3339 = (\<lambda>_. None), dr_zoned = (\<lambda>_ _. None),
       dr_naive = (\<lambda>_ _. None), dr_show = (\<lambda>_. [])\<rparr>,
     sv_read_request = (\<lambda>_. Inr r), sv_global = Some schemas, sv_strict = True,
     sv_default_limit = 10, sv_processed_at = []\<rparr>"

definition wx_request :: "json alist \<Rightarrow> string option \<Rightarrow> string option \<Rightarrow> notification_request" where
  "wx_request params from_id to_id = \<lparr>nr_event_type = ''wx'', nr_identifier = params, nr_from_id = from_id,
     nr_from_date = None, nr_to_id = to_id, nr_to_date = None, nr_payload = None\<rparr>"

definition no_auth :: handler_context where
  "no_auth = \<lparr>hc_auth = None, hc_user = None, hc_settings = None, hc_request_id = ''r''\<rparr>"

lemmas request_defs = one_request_def wx_request_def no_auth_def parse_and_validate_request_def
  validate_known_fields_def enforce_known_event_type_def enforce_stream_auth_def is_auth_enabled_def
  handler_from_config_def from_config_with_strict_def

lemma notify_effect:
  assumes "mem_inv cfg s" "oc = notify sv (mem_writer cfg now) c body s"
  shows "if hr_status (oc_response oc) = 200
         then \<exists>r res m. admits sv c body r res \<and>
                set (all_messages (oc_state oc)) \<subseteq> insert m (set (all_messages s)) \<and>
                m \<in> set (all_messages (oc_state oc)) \<and>
                m = \<lparr>m_sequence = next_sequence s, m_topic = pr_topic res,
                     m_payload = payload_text (sv_host sv) (nr_payload r), m_timestamp = Some now,
                     m_metadata = map_option spatial_headers (pr_spatial res)\<rparr> \<and>
                next_sequence (oc_state oc) = Suc (next_sequence s)
         else oc_state oc = s \<and> \<not> (\<exists>r res. admits sv c body r res)"
proof (cases "notify_checks sv c body")
  case (Inl x)
  obtain response metrics where x: "x = (response, metrics)" by (cases x)
  have none: "\<not> (\<exists>r res. admits sv c body r res)" using Inl notify_checks_Inr by (metis sum.simps(4))
  show ?thesis using notify_checks_Inl [of sv c body response metrics] Inl none assms(2)
    by (simp add: notify_def x)
next
  case (Inr x)
  obtain r res where x: "x = (r, res)" by (cases x)
  have adm: "admits sv c body r res" using Inr by (simp add: x notify_checks_Inr)
  obtain s' m where sm: "store_message cfg now (pr_topic res) (payload_text (sv_host sv) (nr_payload r))
      (map_option spatial_headers (pr_spatial res)) s = (s', m)"
    by (cases "store_message cfg now (pr_topic res) (payload_text (sv_host sv) (nr_payload r))
      (map_option spatial_headers (pr_spatial res)) s")
  have "oc_state oc = s'" "hr_status (oc_response oc) = 200"
    using Inr assms(2) by (simp_all add: notify_def x save_mem sm Let_def)
  then show ?thesis
    using adm store_message_broadcast [OF sm] store_message_messages [OF assms(1) sm] store_message_stored [OF sm]
    by auto
qed

text \<open>
  C12: what a notification request does to the in-memory backend. It is answered with 200
  exactly when it passed every check, in particular the write check of its event type;
  then one message is stored, with the next sequence, the subject the request routes to,
  the payload as JSON text and the spatial headers, and nothing else appears. Any other
  answer leaves the backend as it was.
\<close>
theorem notify_stores:
  assumes "mem_inv cfg s" "oc = notify sv (mem_writer cfg now) c body s"
  shows "if hr_status (oc_response oc) = 200
         then \<exists>r res m. admits sv c body r res \<and>
                set (all_messages (oc_state oc)) \<subseteq> insert m (set (all_messages s)) \<and>
                m \<in> set (all_messages (oc_state oc)) \<and>
                m = \<lparr>m_sequence = next_sequence s, m_topic = pr_topic res,
                     m_payload = payload_text (sv_host sv) (nr_payload r), m_timestamp = Some now,
                     m_metadata = map_option spatial_headers (pr_spatial res)\<rparr> \<and>
                next_sequence (oc_state oc) = Suc (next_sequence s)
         else oc_state oc = s \<and> \<not> (\<exists>r res. admits sv c body r res)"
  by (rule notify_effect [OF assms])

lemma sample_admits:
  "admits (one_request [(''wx'', sample_schema)] (wx_request sample_notify None None)) no_auth []
     (wx_request sample_notify None None)
     \<lparr>pr_event_type = ''wx'', pr_topic = ''weather.north.a%2Eb'', pr_params = [(''step'', ''a.b''), (''region'', ''north'')],
      pr_constraints = [], pr_spatial = None, pr_from_schema = True\<rparr>"
  by (simp add: admits_def request_defs reject_end_point_def has_end_point_def sample_defs process_defs)

theorem notify_stores_witness:
  "\<exists>m. set (all_messages (oc_state (notify (one_request [(''wx'', sample_schema)] (wx_request sample_notify None None))
       (mem_writer small_config 9) no_auth [] after_three))) \<subseteq> insert m (set (all_messages after_three)) \<and>
     m_sequence m = 4 \<and> m_payload m = ''null''"
proof -
  let ?sv = "one_request [(''wx'', sample_schema)] (wx_request sample_notify None None)"
  have r: "r = wx_request sample_notify None None" if "admits ?sv no_auth [] r res" for r res
    using that by (simp add: admits_def request_defs)
  from notify_stores [OF after_three_inv refl, of ?sv 9 no_auth "[]"] sample_admits
  obtain r res m where adm: "admits ?sv no_auth [] r res" and m:
      "set (all_messages (oc_state (notify ?sv (mem_writer small_config 9) no_auth [] after_three)))
         \<subseteq> insert m (set (all_messages after_three))"
      "m_sequence m = 4" "m_payload m = payload_text (sv_host ?sv) (nr_payload r)"
    by (auto simp: after_three_def split: if_splits)
  have "nr_payload r = None" using r [OF adm] by (simp add: wx_request_def)
  then show ?thesis using m by (intro exI [of _ m]) (simp add: payload_text_def)
qed

text \<open>
  C29: the answer and the metric of every request. A notification request counts exactly
  one metric whose label is a configured event type, \<open>generic\<close> or \<open>unknown\<close>, with status
  \<open>success\<close> exactly for the answer 200. Every other answer, and every answer of a watch or
  replay request that opens no stream, is a refusal: a documented code with its
  status, a text and the id of the request.
\<close>
theorem requests_answered:
  "(let oc = notify sv wr c body s in
      (hr_status (oc_response oc) = 200 \<or> is_refusal (hc_request_id c) (oc_response oc)) \<and>
      (\<exists>label status. oc_metrics oc = [(label, status)] \<and> label \<in> event_labels sv \<and>
         status \<in> {''success'', ''error'', ''rejected''} \<and>
         (status = ''success'' \<longleftrightarrow> hr_status (oc_response oc) = 200))) \<and>
   (case sx_outcome (watch sv open_history open_live c checker cache flight body) of
      Answered response \<Rightarrow> is_refusal (hc_request_id c) response | Streaming _ _ \<Rightarrow> True) \<and>
   (case sx_outcome (replay sv open_replay c checker cache flight body) of
      Answered response \<Rightarrow> is_refusal (hc_request_id c) response | Streaming _ _ \<Rightarrow> True)"
proof -
  have stream: "is_refusal (hc_request_id c) response"
    if "admit_stream sv kind config c checker cache flight body = (Inl response, cache', counts)"
    for kind config response cache' counts
    using that refusal_known_event_type refusal_stream_auth refusal_ecpds
    by (fastforce simp: admit_stream_def stream_checks_def result_simps Let_def split: sum.splits prod.splits)
  have "case sx_outcome (watch sv open_history open_live c checker cache flight body) of
      Answered response \<Rightarrow> is_refusal (hc_request_id c) response | Streaming _ _ \<Rightarrow> True"
    using stream by (auto simp: watch_def split: prod.splits sum.splits)
  moreover have "case sx_outcome (replay sv open_replay c checker cache flight body) of
      Answered response \<Rightarrow> is_refusal (hc_request_id c) response | Streaming _ _ \<Rightarrow> True"
    using stream by (auto simp: replay_def split: prod.splits sum.splits)
  moreover have "let oc = notify sv wr c body s in
      (hr_status (oc_response oc) = 200 \<or> is_refusal (hc_request_id c) (oc_response oc)) \<and>
      (\<exists>label status. oc_metrics oc = [(label, status)] \<and> label \<in> event_labels sv \<and>
         status \<in> {''success'', ''error'', ''rejected''} \<and>
         (status = ''success'' \<longleftrightarrow> hr_status (oc_response oc) = 200))"
    using notify_checks_Inl [of sv c body]
    by (auto simp: notify_def Let_def split: sum.splits prod.splits)
  ultimately show ?thesis by blast
qed

lemma response_codes:
  "json_get ''code'' (hr_body (request_validation_error_response kind e rid)) = Some (JString (code_as_str (request_code kind)))"
  "json_get ''code'' (hr_body (processing_error_response pk e rid)) = Some (JString (code_as_str (processing_code pk)))"
  by (simp_all add: request_validation_error_response_def processing_error_response_def api_validation_def
        api_processing_def error_summary_def json_get_object failure_json_def Let_def)

text \<open>
  How a failed notification request is classified. A request that passes the guards but
  whose identifier is rejected is answered with 400 when one of the messages of the error
  is recognised by its wording, and with 500 otherwise, without touching the backend. A
  field the schema does not know is not recognised: this client error is reported as a
  failure of the server.
\<close>
lemma rejected_identifier_status:
  assumes "parse_and_validate_request (sv_host sv) (sv_read_request sv) body = Inr r"
    "enforce_known_event_type (sv_strict sv) (sv_global sv) (hc_request_id c) (nr_event_type r) = Inr ()"
    "reject_end_point ''/notification'' r = Inr ()" "\<not> has_key (nr_identifier r) ''point''"
    "enforce_stream_auth c (sv_global sv) (nr_event_type r) WriteStream = Inr ()"
    "process_request_with_values (sv_host sv) (sv_chrono sv) (handler_from_config (sv_global sv) (sv_strict sv))
       (nr_event_type r) (nr_identifier r) (nr_payload r) Notify = Inl e"
  shows "oc_state (notify sv wr c body s) = s \<and>
         hr_status (oc_response (notify sv wr c body s)) = (if is_notification_validation_error e then 400 else 500) \<and>
         json_get ''code'' (hr_body (oc_response (notify sv wr c body s))) = Some (JString
           (if is_notification_validation_error e then ''INVALID_NOTIFICATION_REQUEST'' else ''NOTIFICATION_PROCESSING_FAILED''))"
proof -
  have "notify_checks sv c body = Inl (refuse (bucket_event_type_for_observability (sv_global sv) (nr_event_type r)) ''error''
      (processing_refusal (hc_request_id c) (if is_notification_validation_error e then ValidationKind else ProcessingKind, e)))"
    using assms by (simp add: notify_checks_def process_notification_request_def Let_def del: has_key_iff)
  then show ?thesis by (auto simp: notify_def response_codes)
qed

lemma rejected_identifier_status_witness:
  "hr_status (oc_response (notify (one_request [(''wx'', sample_schema)]
     (wx_request ((''severtiy'', JString ''1'') # sample_notify) None None)) (mem_writer small_config 9) no_auth [] new_mem_state)) = 500"
proof -
  let ?r = "wx_request ((''severtiy'', JString ''1'') # sample_notify) None None"
  let ?sv = "one_request [(''wx'', sample_schema)] ?r"
  let ?e = "[unknown_field_msg ''severtiy'' ''notify'']"
  have e: "process_request_with_values (sv_host ?sv) (sv_chrono ?sv) (handler_from_config (sv_global ?sv) (sv_strict ?sv))
      (nr_event_type ?r) (nr_identifier ?r) (nr_payload ?r) Notify = Inl ?e"
    by (simp add: request_defs sample_defs process_defs bail_def)
  have "\<not> is_notification_validation_error ?e"
    by (simp add: is_notification_validation_error_def unknown_field_msg_def invalid_topic_base_text_def
        to_ascii_lowercase_def ascii_lower_def is_upper_def starts_with_def qt_def quote_def last_of_def char_of_def bit_0 bit_Suc Let_def)
  then show ?thesis
    using rejected_identifier_status [OF _ _ _ _ _ e, of "[]" no_auth "mem_writer small_config 9" new_mem_state]
    by (simp add: request_defs sample_notify_def reject_end_point_def has_end_point_def sample_defs)
qed

section \<open>The streaming endpoints\<close>

lemma process_request_event_type:
  "process_request_with_values h c reg et params payload op = Inr res \<Longrightarrow> pr_event_type res = et"
  by (auto simp: process_request_with_values_def Let_def result_simps split: option.splits)

lemma process_streaming_Inr:
  assumes "process_streaming h c d global strict r rid config = Inr context"
  shows "sc_event_type context = nr_event_type r"
    and "validate_replay_parameters h d r config = Inr (sc_start_at context, sc_end_at context)"
  using assms by (auto simp: process_streaming_def result_simps dest: process_request_event_type)

lemma admit_stream_Inr:
  assumes "admit_stream sv kind config c checker cache flight body = (Inr context, cache', counts)"
  obtains r where "parse_and_validate_request (sv_host sv) (sv_read_request sv) body = Inr r"
    "enforce_known_event_type (sv_strict sv) (sv_global sv) (hc_request_id c) (sc_event_type context) = Inr ()"
    "enforce_stream_auth c (sv_global sv) (sc_event_type context) ReadStream = Inr ()"
    "process_streaming (sv_host sv) (sv_chrono sv) (sv_dates sv) (sv_global sv) (sv_strict sv) r (hc_request_id c) config = Inr context"
    "enforce_ecpds_auth c (sv_global sv) (sc_event_type context) (sc_params context) checker cache flight = (Inr (), cache', counts)"
  using assms process_streaming_Inr(1)
  by (fastforce simp: admit_stream_def stream_checks_def result_simps Let_def split: sum.splits prod.splits)

text \<open>A stream of either endpoint, with its processed request.\<close>
definition opened :: "'b stream_exit \<Rightarrow> streaming_context \<Rightarrow> bool" where
  "opened e context = (\<exists>b. sx_outcome e = Streaming context b)"

lemma watch_opened:
  assumes "opened (watch sv open_history open_live c checker cache flight body) context"
  shows "\<exists>cache' counts. admit_stream sv WatchKind for_watch c checker cache flight body = (Inr context, cache', counts)"
  using assms by (auto simp: opened_def watch_def split: prod.splits sum.splits)

lemma replay_opened:
  assumes "opened (replay sv open_replay c checker cache flight body) context"
  shows "\<exists>cache' counts. admit_stream sv ReplayKind for_replay c checker cache flight body = (Inr context, cache', counts)"
  using assms by (auto simp: opened_def replay_def split: prod.splits sum.splits)

lemma opened_admitted:
  assumes "opened (watch sv open_history open_live c checker cache flight body) context \<or>
     opened (replay sv open_replay c checker cache flight body) context"
  obtains kind config cache' counts where "vc_operation config \<noteq> Notify"
    "admit_stream sv kind config c checker cache flight body = (Inr context, cache', counts)"
  using assms
proof (elim disjE)
  assume "opened (watch sv open_history open_live c checker cache flight body) context"
  from watch_opened [OF this] show thesis using that [of for_watch] by (auto simp: for_watch_def)
next
  assume "opened (replay sv open_replay c checker cache flight body) context"
  from replay_opened [OF this] show thesis using that [of for_replay] by (auto simp: for_replay_def)
qed

lemma permitted_reader:
  assumes "as_enabled settings" "middleware_call w settings client req = Forwarded actx u label"
    "admit_stream sv kind config (forwarded_context settings req actx u) checker cache flight body = (Inr context, cache', counts)"
    "stream_auth_of (sv_global sv) (sc_event_type context) = Some auth" "sa_required auth"
  shows "\<exists>user. u = Some user \<and> token_user w settings user \<and> may_access settings auth ReadStream user \<and>
           (has_ecpds_plugin (sv_global sv) (sc_event_type context) \<longrightarrow>
              is_admin user (as_admin_roles settings) \<or>
              (\<exists>match_key destination dests. checker = Some match_key \<and>
                 map_of (sc_params context) match_key = Some destination \<and> destination \<in> dests \<and>
                 offered cache flight (u_username user) dests))"
proof -
  let ?c = "forwarded_context settings req actx u"
  obtain r where auth: "enforce_stream_auth ?c (sv_global sv) (sc_event_type context) ReadStream = Inr ()"
      and ecpds: "enforce_ecpds_auth ?c (sv_global sv) (sc_event_type context) (sc_params context) checker cache flight
        = (Inr (), cache', counts)"
    using admit_stream_Inr [OF assms(3)] by metis
  have en: "ac_enabled actx"
    using assms(1,2) by (auto simp: middleware_call_def Let_def split: if_splits sum.splits option.splits)
  obtain user where u: "u = Some user" "may_access settings auth ReadStream user"
    using auth enforce_stream_auth_iff [OF assms(1,4,5) en] by blast
  have "token_user w settings user" using middleware_user assms(2) u(1) by blast
  moreover have "hc_user ?c = Some user" "hc_settings ?c = Some settings"
    by (simp_all add: forwarded_context_def u(1))
  ultimately show ?thesis using u enforce_ecpds_ok [OF _ _ _ _ ecpds] by blast
qed

text \<open>
  Nobody reads a protected stream past its rules. With authentication on, when a watch or
  a replay of a protected event type opens, the request was forwarded with a validated
  user whose roles allow reading it, and where the event type uses the ECPDS plugin, that
  user is an administrator or the request names a destination offered for this user.
\<close>
lemma streams_need_permission:
  assumes "as_enabled settings" "middleware_call w settings client req = Forwarded actx u label"
    "c = forwarded_context settings req actx u"
    "opened (watch sv open_history open_live c checker cache flight body) context \<or>
     opened (replay sv open_replay c checker cache flight body) context"
    "stream_auth_of (sv_global sv) (sc_event_type context) = Some auth" "sa_required auth"
  shows "\<exists>user. u = Some user \<and> token_user w settings user \<and> may_access settings auth ReadStream user \<and>
           (has_ecpds_plugin (sv_global sv) (sc_event_type context) \<longrightarrow>
              is_admin user (as_admin_roles settings) \<or>
              (\<exists>match_key destination dests. checker = Some match_key \<and>
                 map_of (sc_params context) match_key = Some destination \<and> destination \<in> dests \<and>
                 offered cache flight (u_username user) dests))"
  using opened_admitted [OF assms(4)] permitted_reader assms(1,2,5,6) unfolding assms(3) by metis

lemma guarded_auth:
  "stream_auth_of (Some guarded_schema) ''wx'' =
     Some \<lparr>sa_required = True, sa_read_roles = None, sa_write_roles = None, sa_plugins = Some [''ecpds'']\<rparr>"
  by (simp add: stream_auth_of_def guarded_schema_def)

lemmas stream_defs = stream_checks_def process_streaming_def validate_replay_parameters_def validate_spatial_filters_def
  validate_start_at_def validate_watch_parameters_def parse_sequence_field_def parse_date_field_def
  reject_end_point_def has_end_point_def validate_end_at_def for_watch_def for_replay_def

lemma streams_need_permission_witness:
  "token_user sample_world sample_settings eve \<and>
   opened (watch (one_request guarded_schema (wx_request [] None None)) (\<lambda>_ _. Inr ()) (\<lambda>_. Inr ())
       (forwarded_context sample_settings (sample_request ''/api/v1/admin/wipe'')
          \<lparr>ac_enabled = True, ac_mode = TrustedProxy\<rparr> (Some eve)) None (\<lambda>_. None) (JoinsFetch (Inr {}) False) [])
     \<lparr>sc_event_type = ''wx'', sc_topic = ''wx'', sc_params = [], sc_constraints = [], sc_start_at = LiveOnly,
      sc_end_at = EndLatest, sc_request_id = ''r'', sc_from_schema = True\<rparr>"
proof -
  let ?sv = "one_request guarded_schema (wx_request [] None None)"
  let ?c = "forwarded_context sample_settings (sample_request ''/api/v1/admin/wipe'')
     \<lparr>ac_enabled = True, ac_mode = TrustedProxy\<rparr> (Some eve)"
  let ?stream = "\<lparr>sc_event_type = ''wx'', sc_topic = ''wx'', sc_params = [], sc_constraints = [], sc_start_at = LiveOnly,
      sc_end_at = EndLatest, sc_request_id = ''r'', sc_from_schema = True\<rparr>"
  have adm: "enforce_stream_auth ?c (Some guarded_schema) ''wx'' ReadStream = Inr ()"
    by (simp add: enforce_stream_auth_def guarded_auth forwarded_context_def is_auth_enabled_def Let_def)
  have ecpds: "enforce_ecpds_auth ?c (Some guarded_schema) ''wx'' [] None (\<lambda>_. None) (JoinsFetch (Inr {}) False) =
      (Inr (), \<lambda>_. None, [CountDecision ''admin_bypass''])"
    by (simp add: enforce_ecpds_auth_def has_ecpds_plugin_def guarded_auth forwarded_context_def)
  have "stream_checks ?sv WatchKind for_watch ?c [] = Inr ?stream"
    using adm by (simp add: stream_defs one_request_def wx_request_def parse_and_validate_request_def
        validate_known_fields_def enforce_known_event_type_def handler_from_config_def from_config_with_strict_def
        sample_host_def guarded_schema_def process_defs build_generic_topic_def Let_def)
      (simp add: forwarded_context_def sample_request_def)
  then have o: "opened (watch ?sv (\<lambda>_ _. Inr ()) (\<lambda>_. Inr ()) ?c None (\<lambda>_. None) (JoinsFetch (Inr {}) False) []) ?stream"
    using ecpds by (simp add: opened_def watch_def admit_stream_def one_request_def)
  have auth: "stream_auth_of (sv_global ?sv) (sc_event_type ?stream) = Some \<lparr>sa_required = True,
      sa_read_roles = None, sa_write_roles = None, sa_plugins = Some [''ecpds'']\<rparr>"
    by (simp add: one_request_def guarded_auth)
  show ?thesis
    using streams_need_permission [OF _ sample_forwarded refl disjI1 [OF o] auth] o by auto
qed

lemma parse_sequence_field_u64: "parse_sequence_field f v = Inr (Some n) \<Longrightarrow> is_u64 n"
  using parse_u64_range by (auto simp: parse_sequence_field_def bail_def split: option.splits if_splits sum.splits)

lemma validate_start_at_Inr:
  "validate_start_at d r = Inr (StartSequence n) \<Longrightarrow> is_u64 n"
  using parse_sequence_field_u64
  by (auto simp: validate_start_at_def validate_watch_parameters_def result_simps bail_def
      split: if_splits option.splits)

lemma validate_end_at_Inr:
  assumes "validate_end_at d r start = Inr e"
  shows "case e of
           EndSequence n \<Rightarrow> is_u64 n \<and> (case start of StartSequence from_id \<Rightarrow> from_id \<le> n | _ \<Rightarrow> True)
         | EndDate t \<Rightarrow> (case start of StartDate from_date \<Rightarrow> from_date \<le> t | _ \<Rightarrow> True)
         | EndLatest \<Rightarrow> True"
  using assms parse_sequence_field_u64
  by (cases start) (auto simp: validate_end_at_def result_simps bail_def split: if_splits option.splits)

text \<open>
  C30: the range of a stream is well formed. A replay that opens has a start, a watch has no
  end, and an end of the same kind as the start never lies before it; sequences fit 64 bits.
\<close>
theorem stream_range_valid:
  assumes "opened (watch sv open_history open_live c checker cache flight body) wcontext"
    "opened (replay sv' open_replay c' checker' cache' flight' body') rcontext"
  shows "sc_end_at wcontext = EndLatest \<and> sc_start_at rcontext \<noteq> LiveOnly \<and>
         (case (sc_start_at rcontext, sc_end_at rcontext) of
            (StartSequence from_id, EndSequence to_id) \<Rightarrow> from_id \<le> to_id \<and> is_u64 from_id \<and> is_u64 to_id
          | (StartDate from_date, EndDate to_date) \<Rightarrow> from_date \<le> to_date
          | _ \<Rightarrow> True)"
proof -
  obtain wr where w: "validate_replay_parameters (sv_host sv) (sv_dates sv) wr for_watch =
      Inr (sc_start_at wcontext, sc_end_at wcontext)"
    using watch_opened [OF assms(1)] admit_stream_Inr process_streaming_Inr(2) by metis
  obtain rr where r: "validate_replay_parameters (sv_host sv') (sv_dates sv') rr for_replay =
      Inr (sc_start_at rcontext, sc_end_at rcontext)"
    using replay_opened [OF assms(2)] admit_stream_Inr process_streaming_Inr(2) by metis
  have "sc_end_at wcontext = EndLatest"
    using w by (auto simp: validate_replay_parameters_def result_simps for_watch_def reject_end_point_def
        has_end_point_def validate_end_at_def parse_sequence_field_def parse_date_field_def
        bail_def split: if_splits)
  moreover have "sc_start_at rcontext \<noteq> LiveOnly"
    using r by (auto simp: validate_replay_parameters_def result_simps for_replay_def bail_def split: if_splits)
  moreover have "validate_start_at (sv_dates sv') rr = Inr (sc_start_at rcontext)"
      "validate_end_at (sv_dates sv') rr (sc_start_at rcontext) = Inr (sc_end_at rcontext)"
    using r by (auto simp: validate_replay_parameters_def result_simps bail_def split: if_splits)
  ultimately show ?thesis using validate_start_at_Inr [of "sv_dates sv'" rr]
      validate_end_at_Inr [of "sv_dates sv'" rr "sc_start_at rcontext" "sc_end_at rcontext"]
    by (auto split: start_at.splits end_at.splits)
qed

lemma sample_sequences: "parse_u64 ''3'' = Inr 3" "parse_u64 ''5'' = Inr 5" "trim ''3'' \<noteq> []" "trim ''5'' \<noteq> []"
proof -
  have "show_nat 3 = ''3''" "show_nat 5 = ''5''"
    by (simp_all add: show_nat.simps [of 3] show_nat.simps [of 5] char_of_def bit_0 bit_Suc)
  then show "parse_u64 ''3'' = Inr 3" "parse_u64 ''5'' = Inr 5"
    using parse_u64_show [of 3] parse_u64_show [of 5] by (simp_all add: is_u64_def)
  show "trim ''3'' \<noteq> []" "trim ''5'' \<noteq> []" by (simp_all add: space_eval)
qed

lemma sample_range_checks:
  "stream_checks (one_request [(''wx'', sample_schema)] (wx_request sample_watch (Some ''3'') (Some ''5''))) ReplayKind for_replay no_auth [] =
   Inr \<lparr>sc_event_type = ''wx'', sc_topic = ''weather.north.%2A'', sc_params = [(''step'', ''*''), (''region'', ''north'')],
      sc_constraints = [], sc_start_at = StartSequence 3, sc_end_at = EndSequence 5, sc_request_id = ''r'', sc_from_schema = True\<rparr>"
  "stream_checks (one_request [(''wx'', sample_schema)] (wx_request sample_watch None None)) WatchKind for_watch no_auth [] =
   Inr \<lparr>sc_event_type = ''wx'', sc_topic = ''weather.north.%2A'', sc_params = [(''step'', ''*''), (''region'', ''north'')],
      sc_constraints = [], sc_start_at = LiveOnly, sc_end_at = EndLatest, sc_request_id = ''r'', sc_from_schema = True\<rparr>"
  by (simp_all add: request_defs stream_defs sample_sequences sample_defs process_defs)

lemma sample_no_ecpds:
  "enforce_ecpds_auth no_auth (Some [(''wx'', sample_schema)]) et params None cache flight = (Inr (), cache, [])"
  by (simp add: enforce_ecpds_auth_def no_auth_def)

theorem stream_range_valid_witness:
  "\<exists>context. opened (replay (one_request [(''wx'', sample_schema)] (wx_request sample_watch (Some ''3'') (Some ''5'')))
       (\<lambda>_ _. Inr ()) no_auth None (\<lambda>_. None) (JoinsFetch (Inr {}) False) []) context \<and>
     sc_start_at context = StartSequence 3 \<and> sc_end_at context = EndSequence 5 \<and> is_u64 5"
proof -
  let ?c = "\<lambda>start e. \<lparr>sc_event_type = ''wx'', sc_topic = ''weather.north.%2A'',
      sc_params = [(''step'', ''*''), (''region'', ''north'')], sc_constraints = [], sc_start_at = start, sc_end_at = e,
      sc_request_id = ''r'', sc_from_schema = True\<rparr>"
  let ?rv = "one_request [(''wx'', sample_schema)] (wx_request sample_watch (Some ''3'') (Some ''5''))"
  let ?wv = "one_request [(''wx'', sample_schema)] (wx_request sample_watch None None)"
  have g: "sv_global ?rv = Some [(''wx'', sample_schema)]" "sv_global ?wv = Some [(''wx'', sample_schema)]"
    by (simp_all add: one_request_def)
  have r: "opened (replay ?rv (\<lambda>_ _. Inr ()) no_auth None (\<lambda>_. None) (JoinsFetch (Inr {}) False) []) (?c (StartSequence 3) (EndSequence 5))"
    by (simp add: opened_def replay_def admit_stream_def sample_range_checks sample_no_ecpds g)
  have w: "opened (watch ?wv (\<lambda>_ _. Inr ()) (\<lambda>_. Inr ()) no_auth None (\<lambda>_. None) (JoinsFetch (Inr {}) False) []) (?c LiveOnly EndLatest)"
    by (simp add: opened_def watch_def admit_stream_def sample_range_checks sample_no_ecpds g)
  show ?thesis using stream_range_valid [OF w r] r by (intro exI [of _ "?c (StartSequence 3) (EndSequence 5)"]) simp
qed

section \<open>Administration\<close>

lemma to_ascii_lowercase_append: "to_ascii_lowercase (s @ t) = to_ascii_lowercase s @ to_ascii_lowercase t"
  by (simp add: to_ascii_lowercase_def)

lemma is_alphanumeric_lower: "is_alphanumeric (ascii_lower c) = is_alphanumeric c"
  by (auto simp: is_alphanumeric_def is_digit_def is_upper_def is_lower_def ascii_lower_def)

lemma ascii_lower_punct: "c = CHR ''_'' \<or> c = CHR ''-'' \<Longrightarrow> ascii_lower c = c"
  by (auto simp: ascii_lower_def is_upper_def)

lemma valid_base_lower:
  assumes "valid_base b"
  shows "valid_base (to_ascii_lowercase b)"
proof (cases b)
  case (Cons c cs)
  have "is_alphanumeric (ascii_lower x) \<or> ascii_lower x = CHR ''_'' \<or> ascii_lower x = CHR ''-''"
    if "x \<in> set b" for x
    using assms that is_alphanumeric_lower [of x] ascii_lower_punct [of x]
    by (auto simp: valid_base_def list_all_iff)
  then show ?thesis using assms Cons
    by (simp add: valid_base_def to_ascii_lowercase_def list_all_iff is_alphanumeric_lower)
qed (use assms in \<open>simp add: valid_base_def\<close>)

text \<open>The stream key of a base addresses every ASCII subject below it.\<close>
lemma in_stream_of_base:
  assumes "valid_base b" "list_all is_ascii (encode_subject (b # vs))"
  shows "in_stream h b (encode_subject (b # vs))"
proof -
  have low: "to_lowercase h b = to_ascii_lowercase b"
    using valid_base_chars [OF assms(1)] by (intro to_lowercase_ascii) (simp add: list_all_iff)
  have "encode_subject (b # vs) = (if vs = [] then b else b @ ''.'' @ encode_subject vs)"
    using assms(1) by (cases vs) (simp_all add: encode_subject_def)
  then show ?thesis
    using assms(2) valid_base_lower [OF assms(1)]
    by (auto simp: in_stream_def low to_lowercase_ascii to_ascii_lowercase_append starts_with_iff
        to_ascii_lowercase_def ascii_lower_def is_upper_def split: if_splits)
qed

lemma event_type_of_base_Some:
  "event_type_of_base base schemas = Some et \<Longrightarrow>
   \<exists>schema tc. (et, schema) \<in> set schemas \<and> es_topic schema = Some tc \<and> tc_base tc = base"
proof (induction schemas)
  case (Cons x schemas)
  obtain k s where x: "x = (k, s)" by (cases x)
  show ?case
  proof (cases "\<exists>tc. es_topic s = Some tc \<and> tc_base tc = base")
    case True
    then show ?thesis using Cons.prems by (auto simp: x)
  next
    case False
    then have "event_type_of_base base schemas = Some et"
      using Cons.prems by (auto simp: x split: option.splits if_splits)
    then show ?thesis using Cons.IH by auto
  qed
qed simp

text \<open>
  C28: an id from the event stream addresses its notification. The id of the CloudEvent made
  for a stored notification, given to the deletion route, is answered with 200 and removes
  exactly that notification; this needs an event type name that starts with a letter or
  digit and has no \<open>@\<close>.
\<close>
theorem event_id_deletes:
  assumes "mem_inv cfg s" "m \<in> set (all_messages s)" "is_u64 (m_sequence m)"
    "m_topic m = encode_subject (base # vs)" "valid_base base" "list_all is_ascii (m_topic m)"
    "wf_map schemas" "find_event_type_from_topic_base (Some schemas) base = Inr et"
    "et \<noteq> []" "is_alphanumeric (hd et)" "CHR ''@'' \<notin> set et" "sdk_build sdk = Inr"
    "create_cloud_event_from_notification h sdk (Some schemas) now m url = Inr ev"
    "delete_notification (Some schemas) (mem_delete h) rid (ce_id ev) s = (response, s')"
  shows "hr_status response = 200 \<and>
         all_messages s' = filter (\<lambda>x. m_sequence x \<noteq> m_sequence m) (all_messages s)"
proof -
  have id: "ce_id ev = et @ ''@'' @ show_nat (m_sequence m)"
    using assms(8,12,13) derive_encoded_base [OF assms(5), of vs]
    by (auto simp: create_cloud_event_from_notification_def create_cloud_event_def assms(4) result_simps with_context_def)
  have pos: "0 < m_sequence m" using mem_inv_message [OF assms(1,2)] by simp
  obtain schema tc where tc: "(et, schema) \<in> set schemas" "es_topic schema = Some tc" "tc_base tc = base"
    using event_type_of_base_Some assms(8)
    by (fastforce simp: find_event_type_from_topic_base_def result_simps)
  have key: "resolve_stream_key_alias (Some schemas) et = base"
    using tc assms(7) by (simp add: resolve_stream_key_alias_def)
  obtain r where d: "delete_message h base (m_sequence m) s = (r, snd (delete_message h base (m_sequence m) s))"
    by (metis prod.collapse)
  have there: "in_stream h base (m_topic m)" using in_stream_of_base [OF assms(5)] assms(4,6) by simp
  then have "r = Deleted" using delete_message_spec(2) [OF assms(1)] d assms(2) by (cases r) blast+
  then show ?thesis
    using d delete_message_spec(1) [OF assms(1)] assms(14)
      parse_notification_id_of [OF assms(11,9,10) pos assms(3)]
    by (auto simp: delete_notification_def id key mem_delete_def delete_response_def split: prod.splits)
qed

definition ev_schema :: "event_schema alist" where
  "ev_schema = [(''ev'', \<lparr>es_max_historical = None, es_payload = None,
     es_topic = Some \<lparr>tc_base = ''wx'', tc_key_order = [''k'']\<rparr>, es_endpoint = None, es_identifier = [],
     es_storage_policy = None, es_auth = None\<rparr>)]"

theorem event_id_deletes_witness:
  "all_messages (snd (delete_notification (Some ev_schema) (mem_delete sample_host) ''r'' (''ev@'' @ show_nat 2) after_three)) =
     [a_note 3 ''wx.n'']"
proof -
  have base: "valid_base ''wx''" by (simp add: valid_base_def is_alphanumeric_def is_digit_def is_upper_def is_lower_def)
  have topic: "m_topic (a_note 2 ''wx.n'') = encode_subject (''wx'' # [''n''])"
    by (simp add: a_note_def encode_subject_def is_reserved_char_def)
  have et: "find_event_type_from_topic_base (Some ev_schema) ''wx'' = Inr ''ev''"
    by (simp add: find_event_type_from_topic_base_def ev_schema_def)
  have "derive_event_type_from_topic (m_topic (a_note 2 ''wx.n'')) = Inr ''wx''"
    using derive_encoded_base [OF base] topic by simp
  moreover have "decode_subject ''wx.n'' = Inr [''wx'', ''n'']"
    by (simp add: decode_subject_def decode_token_def utf8_error.simps is_ascii_def)
  ultimately obtain ev where ev: "create_cloud_event_from_notification sample_host sample_sdk (Some ev_schema) 5 (a_note 2 ''wx.n'') [] = Inr ev"
      "ce_id ev = ''ev@'' @ show_nat 2"
    using et by (auto simp: create_cloud_event_from_notification_def create_cloud_event_def topic_to_request_def
        parse_topic_with_schema_def ev_schema_def sample_sdk_def a_note_def build_cloud_event_data_def
        attach_polygon_def attach_point_cloud_def parse_payload_to_json_def sample_host_def)
  show ?thesis
    using event_id_deletes [OF after_three_inv _ _ topic base _ _ et _ _ _ _ ev(1) prod.collapse [symmetric], of "''r''"] ev(2)
    by (simp add: after_three_def all_messages_def a_note_def is_u64_def is_ascii_def ev_schema_def sample_sdk_def
        is_alphanumeric_def is_digit_def is_upper_def is_lower_def)
qed

end
