(* ===== verification/Startup.thy ===== *)
theory Startup
  imports Configuration Endpoints JetStreamStreams
begin

text \<open>
  What a configuration that passed the startup checks guarantees of the running server: the
  composition of \<open>src/configuration/\<close> with the endpoints and the routing of their streams.
\<close>

text \<open>A user holding a role that the administrators of its own realm are listed with.\<close>
definition listed_admin :: "auth_settings \<Rightarrow> user \<Rightarrow> bool" where
  "listed_admin settings u =
    (\<exists>realm roles. u_realm u = Some realm \<and> map_of (as_admin_roles settings) realm = Some roles \<and>
       (''*'' \<in> set roles \<or> set roles \<inter> set (u_roles u) \<noteq> {}))"

lemma is_admin_listed:
  assumes "as_admin_roles settings \<noteq> []"
  shows "is_admin u (as_admin_roles settings) \<longleftrightarrow> listed_admin settings u"
  using assms
  by (auto simp: is_admin_def has_any_role_def listed_admin_def list_ex_iff split: option.splits if_splits)

section \<open>The tokens of a subject\<close>

text \<open>
  The keys whose values stand in a subject after its base: the key order of the topic, or, for a
  schema without a topic block, the sorted keys of the parameters (\<open>build_generic_topic\<close>).
\<close>
definition routed_keys :: "event_schema \<Rightarrow> string alist \<Rightarrow> string list" where
  "routed_keys schema params =
     (case es_topic schema of Some tc \<Rightarrow> tc_key_order tc | None \<Rightarrow> sort (map fst params))"

lemma map_filter_all: "\<forall>k\<in>set ks. f k \<noteq> None \<Longrightarrow> map f ks = map Some (List.map_filter f ks)"
  by (induction ks) (auto simp: List.map_filter_def)

lemma bare_base_encoded: "valid_base b \<Longrightarrow> encode_subject [b] = b"
  by (simp add: encode_subject_def)

lemma built_tokens:
  assumes "build_topic_with_schema et schema params = Inr topic" "valid_base (base_of_schema (Some schema) et)"
    "valid_params (routed_keys schema params) params"
  obtains vs where "map (map_of params) (routed_keys schema params) = map Some vs"
    "decode_subject topic = Inr (base_of_schema (Some schema) et # vs)"
proof (cases "es_topic schema")
  case (Some tc)
  then have valid: "valid_utf8 (tc_base tc)" "valid_params (tc_key_order tc) params"
    using assms(2,3) valid_base_utf8 by (simp_all add: base_of_schema_def routed_keys_def)
  from decode_built_topic [OF Some assms(1) valid] show thesis
    using that by (auto simp: Some base_of_schema_def routed_keys_def)
next
  case None
  let ?vs = "List.map_filter (map_of params) (sort (map fst params))"
  have keys: "routed_keys schema params = sort (map fst params)" and base: "valid_base et"
    using assms(2) by (simp_all add: None routed_keys_def base_of_schema_def)
  have vs: "map (map_of params) (routed_keys schema params) = map Some ?vs"
    unfolding keys by (rule map_filter_all) (auto simp: map_of_eq_None_iff)
  have utf8: "\<forall>v\<in>set (et # ?vs). valid_utf8 v"
    using valid_base_utf8 [OF base] valid_params_values [OF assms(3) vs] by auto
  have "topic = encode_subject (et # ?vs)"
    using assms(1) bare_base_encoded [OF base]
    by (auto simp: None build_topic_with_schema_def build_generic_topic_def List.map_filter_def)
  then have "decode_subject topic = Inr (base_of_schema (Some schema) et # ?vs)"
    using decode_encode_subject utf8 by (simp add: None base_of_schema_def)
  then show thesis using that vs by blast
qed

lemma processed:
  assumes "map_of (reg_schemas reg) et = Some schema" "process_request_with_values h c reg et params payload op = Inr r"
  shows "valid_base (base_of_schema (Some schema) et)"
    and "process_identifier h c reg et params payload op = Inr (pr_params r, pr_constraints r, pr_spatial r)"
    and "build_topic_with_schema et schema (routing_params schema op (pr_params r)) = Inr (pr_topic r)"
  using assms
  by (auto simp: process_request_with_values_def get_schema_def validate_topic_base_def result_simps Let_def split: if_splits)

lemma routing_keeps:
  assumes "op \<noteq> Notify"
  shows "routed_keys schema (routing_params schema op params) = routed_keys schema params"
    and "k \<noteq> ''polygon'' \<Longrightarrow> map_of (routing_params schema op params) k = map_of params k"
  using assms by (auto simp: routed_keys_def routing_params_def map_of_update split: option.split)

lemma routing_valid: "valid_params ks params \<Longrightarrow> valid_params ks (routing_params schema op params)"
  by (rule valid_params_routing)

text \<open>The tokens of the pattern of a stream, and the one under a key that the subject names.\<close>
lemma stream_tokens:
  assumes "process_streaming h c d global strict r rid config = Inr context" "vc_operation config \<noteq> Notify"
    "global = Some m" "map_of m (sc_event_type context) = Some schema"
    "valid_params (routed_keys schema (sc_params context)) (sc_params context)"
    "\<forall>tc. es_topic schema = Some tc \<longrightarrow> k \<in> set (tc_key_order tc)" "k \<noteq> ''polygon''"
    "map_of (sc_params context) k = Some v" "analyze_watch_pattern (sc_topic context) = Inr (coarse, full)"
  obtains vs i where "full = base_of_schema (Some schema) (sc_event_type context) # vs"
    "length vs = length (routed_keys schema (sc_params context))"
    "i < length vs" "routed_keys schema (sc_params context) ! i = k" "vs ! i = v"
proof -
  have et: "sc_event_type context = nr_event_type r" using assms(1) by (rule process_streaming_Inr)
  obtain res where res: "process_request_with_values h c (handler_from_config global strict)
        (nr_event_type r) (nr_identifier r) None (vc_operation config) = Inr res"
      "sc_topic context = pr_topic res" "sc_params context = pr_params res"
    using assms(1) by (auto simp: process_streaming_def result_simps)
  let ?rp = "routing_params schema (vc_operation config) (pr_params res)" and ?ks = "routed_keys schema (sc_params context)"
  have reg: "map_of (reg_schemas (handler_from_config global strict)) (nr_event_type r) = Some schema"
    using assms(3,4) et by (simp add: handler_from_config_def from_config_with_strict_def)
  note built = processed [OF reg res(1)]
  have keys: "routed_keys schema ?rp = ?ks" using routing_keeps(1) [OF assms(2)] res(3) by simp
  obtain vs where vs: "map (map_of ?rp) ?ks = map Some vs"
      "decode_subject (pr_topic res) = Inr (base_of_schema (Some schema) (nr_event_type r) # vs)"
    using built_tokens [OF built(3,1)] routing_valid assms(5) unfolding keys res(3) by metis
  have "k \<in> set ?ks"
    using assms(6,8) map_of_SomeD by (cases "es_topic schema") (force simp: routed_keys_def)+
  then obtain i where i: "i < length ?ks" "?ks ! i = k" by (auto simp: in_set_conv_nth)
  have len: "length vs = length ?ks" using arg_cong [OF vs(1), of length] by simp
  have "map_of ?rp k = Some v" using routing_keeps(2) [OF assms(2,7)] assms(8) res(3) by simp
  then have "vs ! i = v" using map_Some_nth [OF vs(1)] i by auto
  moreover have "full = base_of_schema (Some schema) (sc_event_type context) # vs"
    using assms(9) vs(2) res(2) et by (auto simp: analyze_watch_pattern_def)
  ultimately show thesis using that i len by simp
qed

lemma matched_token:
  assumes "matches_watch_pattern subject (base # vs)" "i < length vs" "vs ! i \<noteq> ''*''"
  obtains parts where "decode_subject subject = Inr parts" "length parts = Suc (length vs)" "parts ! Suc i = vs ! i"
proof -
  obtain parts where parts: "decode_subject subject = Inr parts"
    using assms(1) by (auto simp: matches_watch_pattern_def split: sum.splits)
  then have "length parts = Suc (length vs)" "parts ! Suc i = vs ! i"
    using matches_watch_pattern_iff [OF parts, of "base # vs"] assms by (auto simp: nth_Cons')
  then show thesis using that parts by blast
qed

section \<open>The keys of a generic subject\<close>

lemma keys_update: "fst ` set (AList.update k v m) = insert k (fst ` set m)"
  by (induction m) auto

lemma notify_keys:
  "notify_fields h c params idfs acc = Inr acc' \<Longrightarrow> distinct (map fst (fst acc)) \<Longrightarrow>
   distinct (map fst (fst acc')) \<and> fst ` set (fst acc') = fst ` set (fst acc) \<union> fst ` set idfs"
proof (induction idfs arbitrary: acc)
  case (Cons x rest)
  obtain f fc where x: "x = (f, fc)" by (cases x)
  obtain acc1 where a: "notify_field h c params f (if_rule fc) acc = Inr acc1" "notify_fields h c params rest acc1 = Inr acc'"
    using Cons.prems(1) by (auto simp: x result_simps)
  obtain w where "fst acc1 = AList.update f w (fst acc)" using notify_field_token [OF a(1)] by blast
  then show ?case using Cons.IH [OF a(2)] Cons.prems(2) by (auto simp: x distinct_update keys_update)
qed simp

lemma streaming_keys:
  "streaming_fields h c params op idfs acc = Inr acc' \<Longrightarrow> distinct (map fst (fst acc)) \<Longrightarrow>
   distinct (map fst (fst acc')) \<and> fst ` set (fst acc') = fst ` set (fst acc) \<union> fst ` set idfs"
proof (induction idfs arbitrary: acc)
  case (Cons x rest)
  obtain f fc where x: "x = (f, fc)" by (cases x)
  obtain acc1 where a: "streaming_field h c params op f (if_rule fc) acc = Inr acc1" "streaming_fields h c params op rest acc1 = Inr acc'"
    using Cons.prems(1) by (auto simp: x result_simps)
  obtain w where "fst acc1 = AList.update f w (fst acc)" using streaming_field_cases [OF a(1)] by blast
  then show ?case using Cons.IH [OF a(2)] Cons.prems(2) by (auto simp: x distinct_update keys_update)
qed simp

text \<open>A notification names the fields of the schema; a stream names them and at most spatial filters.\<close>
lemma notify_keys_exact:
  "process_notify_request h c schema params payload = Inr (ps, cons, meta) \<Longrightarrow>
   distinct (map fst ps) \<and> fst ` set ps = fst ` set (es_identifier schema)"
  using notify_keys [of h c params "es_identifier schema" "([], None)" "(ps, meta)"]
  by (auto simp: process_notify_request_def result_simps split: option.splits)

lemma streaming_keys_cover:
  assumes "process_streaming_request h c schema params op = Inr (ps, cons, meta)"
  shows "distinct (map fst ps) \<and> fst ` set (es_identifier schema) \<subseteq> fst ` set ps"
proof -
  obtain canon m where m: "streaming_fields h c params op (es_identifier schema) ([], []) = Inr (canon, cons)"
      "add_point_filter h params canon = Inr m" "add_polygon_filter h schema params m = Inr ps"
    using assms by (auto simp: process_streaming_request_def result_simps split: if_splits option.splits)
  have "m = canon \<or> (\<exists>p. m = AList.update ''point'' p canon)" "ps = m \<or> (\<exists>p. ps = AList.update ''polygon'' p m)"
    using m(2,3) by (auto simp: add_point_filter_def add_polygon_filter_def result_simps split: option.splits if_splits)
  then have "distinct (map fst ps) \<and> fst ` set canon \<subseteq> fst ` set ps" if "distinct (map fst canon)"
    using that by (elim disjE exE) (simp_all add: distinct_update keys_update subset_insertI2 subset_insertI del: subset_iff)
  then show ?thesis using streaming_keys [OF m(1)] by auto
qed

text \<open>So when a generic pattern and a generic subject have equally many tokens, they have the same keys.\<close>
lemma same_generic_keys:
  assumes "distinct (map fst ps)" "distinct (map fst qs)" "fst ` set ps \<subseteq> fst ` set qs" "length ps = length qs"
  shows "sort (map fst ps) = sort (map fst qs)"
proof -
  have "card (fst ` set qs) = card (fst ` set ps)" using assms(1,2,4) distinct_card [of "map fst ps"] distinct_card [of "map fst qs"] by simp
  then have "fst ` set ps = fst ` set qs" using assms(3) by (metis List.finite_set card_subset_eq finite_imageI)
  then show ?thesis using assms(1,2) by (intro sorted_distinct_set_unique) simp_all
qed

section \<open>Confined streams\<close>

text \<open>The stored subject has this value in the position that the keys give the key.\<close>
definition carries :: "string list \<Rightarrow> string \<Rightarrow> string \<Rightarrow> string \<Rightarrow> bool" where
  "carries keys subject key v =
    (case decode_subject subject of
       Inr parts \<Rightarrow> list_ex (\<lambda>i. keys ! i = key \<and> get_at parts (i + 1) = Some v) [0 ..< length keys]
     | Inl _ \<Rightarrow> False)"

text \<open>
  Every subject that the pattern of the stream matches has the value in the position of the key, and
  every accepted notification of the event type whose subject it matches has this value under the
  key; with a topic block or without. The parameters are strings of the program, so they are valid UTF-8.
\<close>
definition confined :: "host \<Rightarrow> 'd chrono \<Rightarrow> bool \<Rightarrow> schema_map option \<Rightarrow> streaming_context \<Rightarrow> string \<Rightarrow> string \<Rightarrow> bool" where
  "confined h c strict global context key v =
    (\<forall>schema coarse full.
       Option.bind global (\<lambda>m. map_of m (sc_event_type context)) = Some schema \<and>
       valid_params (routed_keys schema (sc_params context)) (sc_params context) \<and>
       analyze_watch_pattern (sc_topic context) = Inr (coarse, full) \<longrightarrow>
       (\<forall>subject. matches_watch_pattern subject full \<longrightarrow> carries (routed_keys schema (sc_params context)) subject key v) \<and>
       (\<forall>posted payload res.
          process_request_with_values h c (handler_from_config global strict) (sc_event_type context) posted payload Notify = Inr res \<and>
          valid_params (routed_keys schema (pr_params res)) (pr_params res) \<and> matches_watch_pattern (pr_topic res) full \<longrightarrow>
          map_of (pr_params res) key = Some v))"

lemma stream_request_keys:
  assumes "process_streaming h c d global strict r rid config = Inr context" "vc_operation config \<noteq> Notify"
    "global = Some m" "map_of m (sc_event_type context) = Some schema"
  shows "distinct (map fst (sc_params context)) \<and> fst ` set (es_identifier schema) \<subseteq> fst ` set (sc_params context)"
proof -
  have et: "sc_event_type context = nr_event_type r" using assms(1) by (rule process_streaming_Inr)
  obtain res where res: "process_request_with_values h c (handler_from_config global strict)
        (nr_event_type r) (nr_identifier r) None (vc_operation config) = Inr res" "sc_params context = pr_params res"
    using assms(1) by (auto simp: process_streaming_def result_simps)
  have reg: "map_of (reg_schemas (handler_from_config global strict)) (nr_event_type r) = Some schema"
    using assms(3,4) et by (simp add: handler_from_config_def from_config_with_strict_def)
  show ?thesis
    using processed(2) [OF reg res(1)] unfolding process_identifier_streaming [OF reg assms(2)] res(2)
    by (rule streaming_keys_cover)
qed

lemma confined_stream:
  assumes "process_streaming h c d global strict r rid config = Inr context" "vc_operation config \<noteq> Notify"
    "\<And>m schema tc. global = Some m \<Longrightarrow> map_of m (sc_event_type context) = Some schema \<Longrightarrow> es_topic schema = Some tc \<Longrightarrow>
       k \<in> set (tc_key_order tc)"
    "k \<noteq> ''polygon''" "map_of (sc_params context) k = Some v" "v \<noteq> ''*''"
  shows "confined h c strict global context k v"
  unfolding confined_def
proof (intro allI impI, elim conjE)
  fix schema coarse full
  assume a: "Option.bind global (\<lambda>m. map_of m (sc_event_type context)) = Some schema"
    "valid_params (routed_keys schema (sc_params context)) (sc_params context)"
    "analyze_watch_pattern (sc_topic context) = Inr (coarse, full)"
  let ?ks = "routed_keys schema (sc_params context)" and ?et = "sc_event_type context"
  obtain m where m: "global = Some m" "map_of m ?et = Some schema"
    using a(1) by (auto simp: Option.bind_eq_Some_conv)
  have topic: "\<forall>tc. es_topic schema = Some tc \<longrightarrow> k \<in> set (tc_key_order tc)" using assms(3) [OF m] by blast
  obtain vs i where vs: "full = base_of_schema (Some schema) ?et # vs" "length vs = length ?ks" "i < length vs" "?ks ! i = k" "vs ! i = v"
    using stream_tokens [OF assms(1,2) m a(2) topic assms(4,5) a(3)] by blast
  have star: "vs ! i \<noteq> ''*''" using assms(6) vs(5) by simp
  have subjects: "carries ?ks subject k v" if hit: "matches_watch_pattern subject full" for subject
  proof -
    obtain parts where "decode_subject subject = Inr parts" "length parts = Suc (length vs)" "parts ! Suc i = v"
      using matched_token [OF hit [unfolded vs(1)] vs(3) star] unfolding vs(5) by blast
    then show ?thesis using vs by (auto simp: carries_def list_ex_iff get_at_def intro!: bexI [of _ i])
  qed
  have posts: "map_of (pr_params res) k = Some v"
    if post: "process_request_with_values h c (handler_from_config global strict) ?et posted payload Notify = Inr res"
      "valid_params (routed_keys schema (pr_params res)) (pr_params res)" "matches_watch_pattern (pr_topic res) full"
    for posted payload res
  proof -
    have reg: "map_of (reg_schemas (handler_from_config global strict)) ?et = Some schema"
      using m by (simp add: handler_from_config_def from_config_with_strict_def)
    note built = processed [OF reg post(1)]
    have topic: "build_topic_with_schema ?et schema (pr_params res) = Inr (pr_topic res)"
      using built(3) by (simp add: routing_params_def)
    obtain ws where ws: "map (map_of (pr_params res)) (routed_keys schema (pr_params res)) = map Some ws"
        "decode_subject (pr_topic res) = Inr (base_of_schema (Some schema) ?et # ws)"
      by (rule built_tokens [OF topic built(1) post(2)])
    obtain parts where "decode_subject (pr_topic res) = Inr parts" "length parts = Suc (length vs)" "parts ! Suc i = v"
      using matched_token [OF post(3) [unfolded vs(1)] vs(3) star] unfolding vs(5) by blast
    then have tokens: "length ws = length vs" "ws ! i = v" using ws(2) by auto
    have "routed_keys schema (pr_params res) = ?ks"
    proof (cases "es_topic schema")
      case None
      have "process_notify_request h c schema posted payload = Inr (pr_params res, pr_constraints res, pr_spatial res)"
        using built(2) reg by (simp add: process_identifier_def get_schema_def)
      note keys = notify_keys_exact [OF this] stream_request_keys [OF assms(1,2) m]
      have "length (pr_params res) = length (sc_params context)"
        using arg_cong [OF ws(1), of length] tokens(1) vs(2) by (simp add: None routed_keys_def)
      then show ?thesis using keys by (simp add: None routed_keys_def same_generic_keys)
    qed (simp add: routed_keys_def)
    then show ?thesis using map_Some_nth [OF ws(1)] vs(2-4) tokens by auto
  qed
  show "(\<forall>subject. matches_watch_pattern subject full \<longrightarrow> carries ?ks subject k v) \<and>
      (\<forall>posted payload res.
         process_request_with_values h c (handler_from_config global strict) ?et posted payload Notify = Inr res \<and>
         valid_params (routed_keys schema (pr_params res)) (pr_params res) \<and> matches_watch_pattern (pr_topic res) full \<longrightarrow>
         map_of (pr_params res) k = Some v)"
    using subjects posts by blast
qed

section \<open>A configuration to apply the properties to\<close>

definition site_auth :: auth_settings where
  "site_auth = \<lparr>as_enabled = True, as_mode = TrustedProxy, as_url = [], as_jwt_secret = ''k'',
     as_admin_roles = [(''wx'', [''root''])], as_timeout_ms = 5000\<rparr>"

definition site_schemas :: schema_map where
  "site_schemas =
     [(''wx'', \<lparr>es_max_historical = None, es_payload = None,
        es_topic = Some \<lparr>tc_base = ''wx'', tc_key_order = [''d'']\<rparr>, es_endpoint = None,
        es_identifier = [(''d'', \<lparr>if_description = None, if_rule = StringHandler None True\<rparr>)],
        es_storage_policy = Some \<lparr>sp_retention_time = Some ''1h'', sp_max_messages = Some 5, sp_max_size = None,
          sp_allow_duplicates = Some True, sp_compression = None\<rparr>,
        es_auth = Some \<lparr>sa_required = True, sa_read_roles = None, sa_write_roles = None, sa_plugins = Some [''ecpds'']\<rparr>\<rparr>),
      (''ev'', \<lparr>es_max_historical = None, es_payload = None,
        es_topic = Some \<lparr>tc_base = ''ev'', tc_key_order = [''d'']\<rparr>, es_endpoint = None,
        es_identifier = [(''d'', \<lparr>if_description = None, if_rule = StringHandler None False\<rparr>)],
        es_storage_policy = None, es_auth = None\<rparr>)]"

definition site :: settings where
  "site = \<lparr>st_application = \<lparr>ap_homepage = default_homepage_settings, ap_host = ''h'', ap_port = 1,
       ap_base_url = ''b'', ap_static_files_path = ''s''\<rparr>,
     st_backend = \<lparr>bs_kind = ''jetstream'', bs_in_memory = None, bs_jetstream = None\<rparr>, st_logging = None,
     st_schema = Some site_schemas, st_strict = None, st_watch = default_watch_endpoint_settings,
     st_auth = site_auth, st_metrics = default_metrics_settings,
     st_ecpds = Some \<lparr>ec_username = ''u'', ec_password = ''p'', ec_target_field = ''t'', ec_match_key = ''d'',
       ec_cache_ttl_seconds = default_cache_ttl, ec_max_entries = default_max_entries,
       ec_request_timeout_seconds = default_request_timeout, ec_connect_timeout_seconds = default_connect_timeout,
       ec_partial_outage_policy = Strict, ec_servers = [''s'']\<rparr>\<rparr>"

definition site_libraries :: libraries where
  "site_libraries = \<lparr>lb_host = sample_host,
     lb_parse_url = (\<lambda>_. Inr \<lparr>pu_scheme = ''https'', pu_username = [], pu_password = None, pu_host = Some ''h'',
        pu_query = None, pu_fragment = None\<rparr>),
     lb_build_http = (\<lambda>_ _. Inr ())\<rparr>"

lemma site_trims [simp]:
  "trim [] = []" "trim ''k'' = ''k''" "trim ''wx'' = ''wx''" "trim ''root'' = ''root''" "trim ''u'' = ''u''"
  "trim ''p'' = ''p''" "trim ''t'' = ''t''" "trim ''d'' = ''d''" "trim ''s'' = ''s''"
  by (simp_all add: space_eval)

lemma site_bare: "\<not> not_bare ''d''"
  by (simp add: not_bare_def white_space_seqs_def utf8_2_def utf8_3_def starts_with_def char_of_def bit_0 bit_Suc)

lemma one_hour: "parse_retention_time_spec ''1h'' = Inr 3600"
proof -
  have "trim ''1h'' = ''1h''" by (simp add: space_eval)
  then show ?thesis
    by (simp add: parse_retention_time_spec_def parse_duration_spec_def split_digits_def is_digit_def parse_u64_def
        parse_unsigned_def scale_duration_def checked_mul_u64_def is_u64_def is_i64_def to_ascii_lowercase_def
        ascii_lower_def is_upper_def digit_val_def char_of_def bit_0 bit_Suc)
qed

lemma site_storage: "validate_schema_storage_policy_support site = Inr ()"
  by (simp add: one_hour JETSTREAM_CAPABILITIES_def validate_policy_fields_def result_simps validate_schema_storage_policy_support_def site_def site_schemas_def Let_def base_of_def
      capabilities_for_backend_kind_def bail_if_def new_binding_def validate_topic_base_def valid_base_def
      is_alphanumeric_def is_digit_def is_upper_def is_lower_def to_ascii_uppercase_def ascii_upper_def
      char_of_def bit_0 bit_Suc)

lemma site_schema_checks:
  "validate_topic_schema_settings site = Inr ()" "validate_spatial_schema_settings site = Inr ()"
  "validate_stream_plugin_settings sample_host True site = Inr ()" "validate_stream_auth_settings site = Inr ()"
  by (simp_all add: validate_topic_schema_settings_def validate_spatial_schema_settings_def
      validate_stream_plugin_settings_def validate_stream_auth_settings_def for_each_Inr schemas_of_def site_def
      site_schemas_def site_auth_def check_topic_schema_def check_spatial_schema_def check_stream_plugins_def
      check_stream_auth_def check_role_map_def check_plugin_def known_plugin_def PLUGINS_def bail_if_def Let_def
      result_simps)

lemma site_auth_checks: "validate_auth_settings site_auth = Inr ()"
  by (simp add: validate_auth_settings_def site_auth_def validate_realm_roles_def bail_if_def Let_def)

lemma site_ecpds:
  "validate_ecpds_settings sample_host (lb_parse_url site_libraries) site = Inr ()"
  "build_ecpds_checker (lb_build_http site_libraries) (lb_parse_url site_libraries) site = Inr (Some ''d'')"
  using site_bare
  by (simp_all add: validate_ecpds_settings_def build_ecpds_checker_def ecpds_streams_def uses_ecpds_def schemas_of_def
      site_def site_schemas_def site_libraries_def check_server_def check_ecpds_fields_def check_text_def bail_if_def
      check_ecpds_stream_def new_ecpds_client_def default_cache_ttl_def default_max_entries_def
      default_request_timeout_def default_connect_timeout_def Let_def)

lemma site_starts: "startup_checks site_libraries site = Inr (Some ''d'')"
  using site_storage site_schema_checks site_auth_checks site_ecpds
  by (simp add: startup_checks_def site_libraries_def validate_homepage_def homepage_urls_def bail_if_def Let_def)
    (simp add: site_def validate_metrics_settings_def default_metrics_settings_def)

section \<open>Properties\<close>

text \<open>
  C8: no stream of an ECPDS event type is open to just anyone. With a configuration that
  passed the startup checks, a watch or replay of an event type that lists the plugin opens
  only for a validated user, who either holds a listed administrator role or asked, under
  the configured key, for a destination offered for this user; and unless that destination
  is the wildcard, every subject the stream's pattern lets through has it in the position of
  the key, and so every accepted notification of the event type that the pattern lets through names it.
  This holds for event types with a topic block, whose key order the checks make contain the key, and
  for those without one, which the checks accept and whose subjects list the values by sorted key. Nothing
  here assumes that authentication is on or that the event type requires it: the checks do.
\<close>
theorem ecpds_streams_confined:
  assumes "startup_checks lb st = Inr checker" "sv_global sv = st_schema st"
    "middleware_call w (st_auth st) client req = Forwarded actx u label"
    "c = forwarded_context (st_auth st) req actx u"
    "opened (watch sv open_history open_live c checker cache flight body) context \<or>
     opened (replay sv open_replay c checker cache flight body) context"
    "has_ecpds_plugin (st_schema st) (sc_event_type context)"
  shows "\<exists>user key. u = Some user \<and> checker = Some key \<and> token_user w (st_auth st) user \<and>
           (listed_admin (st_auth st) user \<or>
            (\<exists>destination dests. map_of (sc_params context) key = Some destination \<and> destination \<in> dests \<and>
               offered cache flight (u_username user) dests \<and>
               (destination = ''*'' \<or>
                confined (sv_host sv) (sv_chrono sv) (sv_strict sv) (st_schema st) context key destination)))"
proof -
  note checked = startup_checks_Inr [OF assms(1)]
  obtain auth plugins where auth: "stream_auth_of (st_schema st) (sc_event_type context) = Some auth"
      "sa_plugins auth = Some plugins"
    using assms(6) by (auto simp: has_ecpds_plugin_def Option.bind_eq_Some_conv split: option.splits)
  have closed: "sa_required auth" "as_enabled (st_auth st)"
    using plugin_stream_protected [OF checked(5,6) auth] by auto
  have auth': "stream_auth_of (sv_global sv) (sc_event_type context) = Some auth" using auth(1) assms(2) by simp
  obtain kind config cache' counts where adm: "vc_operation config \<noteq> Notify"
      "admit_stream sv kind config c checker cache flight body = (Inr context, cache', counts)"
    using assms(5) by (rule opened_admitted)
  obtain r where proc: "process_streaming (sv_host sv) (sv_chrono sv) (sv_dates sv) (sv_global sv) (sv_strict sv) r
      (hc_request_id c) config = Inr context"
    using admit_stream_Inr [OF adm(2)] by metis
  obtain cfg :: ecpds_config and m schema where key: "checker = Some (ec_match_key cfg)" "st_schema st = Some m"
      "map_of m (sc_event_type context) = Some schema" "ec_match_key cfg \<noteq> ''polygon''"
      "\<forall>tc. es_topic schema = Some tc \<longrightarrow> ec_match_key cfg \<in> set (tc_key_order tc)"
    using ecpds_configured [OF checked(7) assms(6) checked(8)] by blast
  obtain user where user: "u = Some user" "token_user w (st_auth st) user"
      "is_admin user (as_admin_roles (st_auth st)) \<or>
       (\<exists>match_key destination dests. checker = Some match_key \<and>
          map_of (sc_params context) match_key = Some destination \<and> destination \<in> dests \<and>
          offered cache flight (u_username user) dests)"
    using permitted_reader [OF closed(2) assms(3) adm(2) [unfolded assms(4)] auth' closed(1)] assms(2,6) by auto
  have roles: "as_admin_roles (st_auth st) \<noteq> []" using validate_auth_roles [OF checked(4)] closed by simp
  have "confined (sv_host sv) (sv_chrono sv) (sv_strict sv) (st_schema st) context (ec_match_key cfg) v"
    if "map_of (sc_params context) (ec_match_key cfg) = Some v" "v \<noteq> ''*''" for v
    using key(2,3,5) unfolding assms(2) [symmetric]
    by (intro confined_stream [OF proc adm(1) _ key(4) that]) auto
  then show ?thesis using user key(1) is_admin_listed [OF roles] by auto
qed

definition site_request :: notification_request where
  "site_request = wx_request [(''d'', JString ''AUX'')] None None"

definition site_context :: streaming_context where
  "site_context = \<lparr>sc_event_type = ''wx'', sc_topic = ''wx.AUX'', sc_params = [(''d'', ''AUX'')], sc_constraints = [],
     sc_start_at = LiveOnly, sc_end_at = EndLatest, sc_request_id = ''r'', sc_from_schema = True\<rparr>"

definition site_handler :: handler_context where
  "site_handler = forwarded_context site_auth (sample_request ''/api/v1/watch'')
     \<lparr>ac_enabled = True, ac_mode = TrustedProxy\<rparr> (Some eve)"

definition site_watch :: "unit stream_exit" where
  "site_watch = watch (one_request site_schemas site_request) (\<lambda>_ _. Inr ()) (\<lambda>_. Inr ()) site_handler (Some ''d'')
     (\<lambda>_. None) (RunsFetch (Inr ({''AUX''}, FSuccess)) False) []"

lemma site_forwarded:
  "middleware_call sample_world site_auth None (sample_request ''/api/v1/watch'') =
   Forwarded \<lparr>ac_enabled = True, ac_mode = TrustedProxy\<rparr> (Some eve) (Some ''success'')"
proof -
  have t: "trim ''a.b.c'' = ''a.b.c''" by (simp add: space_eval)
  have "resolve_user sample_world (sample_request ''/api/v1/watch'') site_auth None False = Inr (Some eve)"
    using t by (simp add: resolve_user_def resolve_trusted_proxy_token_def extract_bearer_token_def sample_bearer
        user_from_remote_token_def user_of_claims_def sample_world_def sample_request_def eve_def site_auth_def)
  then show ?thesis by (simp add: middleware_call_def starts_with_def Let_def site_auth_def)
qed

lemma eve_not_listed: "\<not> listed_admin site_auth eve" "\<not> is_admin eve [(''wx'', [''root''])]"
  by (simp_all add: listed_admin_def site_auth_def eve_def is_admin_def has_any_role_def)

lemma site_watch_opened: "opened site_watch site_context"
proof -
  have sa: "stream_auth_of (Some site_schemas) ''wx'' =
      Some \<lparr>sa_required = True, sa_read_roles = None, sa_write_roles = None, sa_plugins = Some [''ecpds'']\<rparr>"
    by (simp add: stream_auth_of_def site_schemas_def)
  have auth: "enforce_stream_auth site_handler (Some site_schemas) ''wx'' ReadStream = Inr ()"
    by (simp add: site_handler_def enforce_stream_auth_def sa forwarded_context_def is_auth_enabled_def Let_def)
  have ecpds: "enforce_ecpds_auth site_handler (Some site_schemas) ''wx'' [(''d'', ''AUX'')] (Some ''d'') (\<lambda>_. None)
        (RunsFetch (Inr ({''AUX''}, FSuccess)) False) =
      (Inr (), [''eve'' \<mapsto> {''AUX''}], [CountMiss, CountFetch ''success'', CountDecision ''allow''])"
    using eve_not_listed
    by (simp add: enforce_ecpds_auth_def has_ecpds_plugin_def sa site_handler_def forwarded_context_def site_auth_def
        check_access_def try_get_or_fetch_def cache_counts_def) (simp add: eve_def)
  have "stream_checks (one_request site_schemas site_request) WatchKind for_watch site_handler [] = Inr site_context"
    using auth by (simp add: stream_defs one_request_def site_request_def wx_request_def parse_and_validate_request_def
        validate_known_fields_def enforce_known_event_type_def handler_from_config_def from_config_with_strict_def
        sample_host_def site_schemas_def process_defs Let_def site_context_def)
      (simp add: site_handler_def forwarded_context_def sample_request_def)
  then show ?thesis
    using ecpds by (simp add: opened_def site_watch_def watch_def admit_stream_def one_request_def site_context_def)
qed

theorem ecpds_streams_confined_witness:
  "startup_checks site_libraries site = Inr (Some ''d'') \<and> opened site_watch site_context \<and>
   (\<exists>dests. ''AUX'' \<in> dests \<and> offered (\<lambda>_. None) (RunsFetch (Inr ({''AUX''}, FSuccess)) False) ''eve'' dests) \<and>
   confined (sv_host (one_request site_schemas site_request)) sample_chrono True (Some site_schemas) site_context ''d'' ''AUX''"
proof -
  have sv: "sv_global (one_request site_schemas site_request) = st_schema site"
      "sv_chrono (one_request site_schemas site_request) = sample_chrono" "sv_strict (one_request site_schemas site_request)"
    by (simp_all add: one_request_def site_def)
  have st: "st_auth site = site_auth" "st_schema site = Some site_schemas" by (simp_all add: site_def)
  have p: "has_ecpds_plugin (st_schema site) (sc_event_type site_context)"
    by (simp add: has_ecpds_plugin_def stream_auth_of_def st site_schemas_def site_context_def)
  show ?thesis
    using ecpds_streams_confined [OF site_starts sv(1) _ _ disjI1 [OF site_watch_opened [unfolded site_watch_def]] p,
        of sample_world None "sample_request ''/api/v1/watch''"] site_forwarded site_handler_def
      site_starts site_watch_opened eve_not_listed(1)
    by (simp add: st sv(2,3)) (auto simp: site_context_def eve_def)
qed

text \<open>The same without a topic block: the pattern of a stream names the values by sorted key.\<close>
definition bare_schemas :: schema_map where
  "bare_schemas = [(''gx'', \<lparr>es_max_historical = None, es_payload = None, es_topic = None, es_endpoint = None,
     es_identifier = [(''e'', \<lparr>if_description = None, if_rule = StringHandler None False\<rparr>),
                      (''d'', \<lparr>if_description = None, if_rule = StringHandler None True\<rparr>)],
     es_storage_policy = None, es_auth = None\<rparr>)]"

definition bare_request :: notification_request where
  "bare_request = (wx_request [(''d'', JString ''AUX'')] None None)\<lparr>nr_event_type := ''gx''\<rparr>"

lemma bare_stream_confined:
  "\<exists>ctx. process_streaming sample_host sample_chrono d (Some bare_schemas) True bare_request ''r'' for_watch = Inr ctx \<and>
     sc_topic ctx = ''gx.AUX.%2A'' \<and> confined sample_host sample_chrono True (Some bare_schemas) ctx ''d'' ''AUX''"
proof -
  have "\<exists>ctx. process_streaming sample_host sample_chrono d (Some bare_schemas) True bare_request ''r'' for_watch = Inr ctx \<and>
      sc_topic ctx = ''gx.AUX.%2A'' \<and> sc_event_type ctx = ''gx'' \<and> map_of (sc_params ctx) ''d'' = Some ''AUX''"
    by (simp add: stream_defs bare_request_def wx_request_def bare_schemas_def process_defs handler_from_config_def
        from_config_with_strict_def sample_host_def Let_def build_generic_topic_def List.map_filter_def)
  then obtain ctx where ctx:
      "process_streaming sample_host sample_chrono d (Some bare_schemas) True bare_request ''r'' for_watch = Inr ctx"
      "sc_topic ctx = ''gx.AUX.%2A''" "sc_event_type ctx = ''gx''" "map_of (sc_params ctx) ''d'' = Some ''AUX''" by blast
  have "confined sample_host sample_chrono True (Some bare_schemas) ctx ''d'' ''AUX''"
    by (rule confined_stream [OF ctx(1)]) (use ctx in \<open>auto simp: for_watch_def bare_schemas_def\<close>)
  then show ?thesis using ctx by blast
qed

lemma base_upper_lower:
  "to_ascii_uppercase a \<noteq> to_ascii_uppercase b \<Longrightarrow> to_ascii_lowercase a \<noteq> to_ascii_lowercase b"
proof
  assume "to_ascii_lowercase a = to_ascii_lowercase b" "to_ascii_uppercase a \<noteq> to_ascii_uppercase b"
  moreover have "to_ascii_uppercase (to_ascii_lowercase s) = to_ascii_uppercase s" for s
    by (auto simp: to_ascii_uppercase_def to_ascii_lowercase_def ascii_upper_def ascii_lower_def is_upper_def is_lower_def)
  ultimately show False by metis
qed

lemma takeWhile_base:
  "dot \<notin> set x \<Longrightarrow> takeWhile (\<lambda>c. c \<noteq> dot) x = x"
  "dot \<notin> set x \<Longrightarrow> takeWhile (\<lambda>c. c \<noteq> dot) (x @ dot # t) = x"
  by (induction x) auto

lemma lower_dot: "to_ascii_lowercase (x @ dot # t) = to_ascii_lowercase x @ dot # to_ascii_lowercase t"
  by (simp add: to_ascii_lowercase_def ascii_lower_def is_upper_def)

lemma topic_of_other_base:
  assumes "to_ascii_uppercase b \<noteq> to_ascii_uppercase b'" "valid_base b" "valid_base b'"
    "list_all is_ascii (encode_subject (b' # vs))"
  shows "\<not> in_stream h b (encode_subject (b' # vs))"
proof
  assume stream: "in_stream h b (encode_subject (b' # vs))"
  have low: "to_lowercase h b = to_ascii_lowercase b"
    using valid_base_chars [OF assms(2)] by (intro to_lowercase_ascii) (simp add: list_all_iff)
  have nodot: "dot \<notin> set (to_ascii_lowercase x)" if "valid_base x" for x
    using that
    by (auto simp: valid_base_def list_all_iff to_ascii_lowercase_def ascii_lower_def is_alphanumeric_def
        is_digit_def is_upper_def is_lower_def dest!: arg_cong [where f = byte] split: if_splits)
  have "encode_subject (b' # vs) = b' \<or> (\<exists>t. encode_subject (b' # vs) = b' @ dot # t)"
    using assms(3) by (cases vs) (simp_all add: encode_subject_def)
  then have "takeWhile (\<lambda>c. c \<noteq> dot) (to_ascii_lowercase (encode_subject (b' # vs))) = to_ascii_lowercase b'"
  proof (elim disjE exE)
    assume e: "encode_subject (b' # vs) = b'"
    show ?thesis unfolding e by (rule takeWhile_base [OF nodot [OF assms(3)]])
  next
    fix t assume e: "encode_subject (b' # vs) = b' @ dot # t"
    show ?thesis unfolding e lower_dot by (rule takeWhile_base [OF nodot [OF assms(3)]])
  qed
  moreover have "takeWhile (\<lambda>c. c \<noteq> dot) (to_ascii_lowercase (encode_subject (b' # vs))) = to_ascii_lowercase b"
  proof -
    have "to_ascii_lowercase (encode_subject (b' # vs)) = to_ascii_lowercase b \<or>
        (\<exists>t. to_ascii_lowercase (encode_subject (b' # vs)) = (to_ascii_lowercase b @ ''.'') @ t)"
      using stream
      unfolding in_stream_def Let_def low to_lowercase_ascii [OF assms(4)]
        valid_base_encode [OF valid_base_lower [OF assms(2)]] starts_with_iff .
    then show ?thesis
    proof (elim disjE exE)
      assume e: "to_ascii_lowercase (encode_subject (b' # vs)) = to_ascii_lowercase b"
      show ?thesis unfolding e by (rule takeWhile_base [OF nodot [OF assms(2)]])
    next
      fix t assume e: "to_ascii_lowercase (encode_subject (b' # vs)) = (to_ascii_lowercase b @ ''.'') @ t"
      show ?thesis unfolding e append_assoc append_Cons append_Nil
        by (rule takeWhile_base [OF nodot [OF assms(2)]])
    qed
  qed
  ultimately show False using base_upper_lower [OF assms(1)] by simp
qed

text \<open>
  C15: the topics of different event types stay apart. With a configuration that passed the
  startup checks, the subjects of two event types with topic configuration belong to
  differently named streams; no pattern built for the one matches a subject built for the
  other, and a stream key of the one never addresses a subject of the other for deletion or
  wiping, in any letter case.
\<close>
theorem topics_isolated:
  assumes "startup_checks lb st = Inr checker"
    "(et, schema) \<in> set (schemas_of st)" "(et', schema') \<in> set (schemas_of st)" "et \<noteq> et'"
    "es_topic schema = Some tc" "es_topic schema' = Some tc'"
    "build_topic_with_schema et schema params = Inr topic" "valid_params (tc_key_order tc) params"
    "build_topic_with_schema et' schema' params' = Inr topic'" "valid_params (tc_key_order tc') params'"
    "list_all is_ascii topic'"
  shows "derive_stream_name_from_topic topic \<noteq> derive_stream_name_from_topic topic' \<and>
         (\<exists>coarse full. analyze_watch_pattern topic = Inr (coarse, full) \<and> \<not> matches_watch_pattern topic' full) \<and>
         \<not> in_stream h (tc_base tc) topic'"
proof -
  have bases: "check_topic_bases [] (schemas_of st) = Inr ()"
    using startup_checks_Inr(1) [OF assms(1)] assms(2)
    by (auto simp: validate_schema_storage_policy_support_def result_simps schemas_of_def Let_def split: option.splits)
  note distinct = check_topic_bases_Inr [OF bases]
  have vb: "valid_base (tc_base tc)" "valid_base (tc_base tc')"
    using distinct assms(2,3,5,6) by (auto simp: base_of_def)
  have "base_of (et, schema) = tc_base tc" "base_of (et', schema') = tc_base tc'"
    using assms(5,6) by (simp_all add: base_of_def)
  moreover have "(et, schema) \<noteq> (et', schema')" using assms(4) by simp
  ultimately have ne: "to_ascii_uppercase (tc_base tc) \<noteq> to_ascii_uppercase (tc_base tc')"
    using distinct assms(2,3) inj_onD unfolding distinct_map by metis
  obtain vs where vs: "decode_subject topic = Inr (tc_base tc # vs)"
    using decode_built_topic [OF assms(5,7) valid_base_utf8 [OF vb(1)] assms(8)] by metis
  obtain vs' where vs': "decode_subject topic' = Inr (tc_base tc' # vs')"
    using decode_built_topic [OF assms(6,9) valid_base_utf8 [OF vb(2)] assms(10)] by metis
  have "tc_base tc \<noteq> ''*''" using valid_base_chars [OF vb(1)] by (auto simp: is_reserved_char_def)
  moreover have "tc_base tc \<noteq> tc_base tc'" using ne by metis
  ultimately have "\<not> matches_watch_pattern topic' (tc_base tc # vs)"
    using matches_watch_pattern_iff [OF vs', of "tc_base tc # vs"] by fastforce
  then have "\<exists>coarse full. analyze_watch_pattern topic = Inr (coarse, full) \<and> \<not> matches_watch_pattern topic' full"
    using vs by (simp add: analyze_watch_pattern_def)
  moreover obtain ws where "topic' = encode_subject (tc_base tc' # ws)"
    using build_topic_Inr [OF assms(6)] assms(9) by blast
  ultimately show ?thesis
    using ne topic_of_other_base [OF ne vb] assms(11)
      derive_stream_built [OF assms(5,7) vb(1)] derive_stream_built [OF assms(6,9) vb(2)] by auto
qed

theorem topics_isolated_witness:
  "derive_stream_name_from_topic ''wx.a'' \<noteq> derive_stream_name_from_topic ''ev.a'' \<and>
   \<not> in_stream sample_host ''wx'' ''ev.a''"
proof -
  have m: "schemas_of site = site_schemas" by (simp add: schemas_of_def site_def)
  have enc: "encode_subject [b, ''a''] = b @ ''.a''" if "b = ''wx'' \<or> b = ''ev''" for b
    using that by (auto simp: encode_subject_def is_reserved_char_def)
  have v: "valid_params [''d''] [(''d'', ''a'')]"
    by (simp add: valid_params_def valid_utf8_def utf8_error.simps is_ascii_def)
  show ?thesis
    using topics_isolated [OF site_starts, of "''wx''" "snd (site_schemas ! 0)" "''ev''" "snd (site_schemas ! 1)"
        "\<lparr>tc_base = ''wx'', tc_key_order = [''d'']\<rparr>" "\<lparr>tc_base = ''ev'', tc_key_order = [''d'']\<rparr>"
        "[(''d'', ''a'')]" "''wx.a''" "[(''d'', ''a'')]" "''ev.a''" sample_host] v enc
    by (simp add: m site_schemas_def build_topic_with_schema_def is_ascii_def)
qed

text \<open>
  C32: every stream of a checked configuration can be configured. With a configuration that
  passed the startup checks, building the stream of any base succeeds, whatever the settings
  of the backend: at most one schema owns a storage policy for the base, in any letter case,
  its policy overrides the backend's defaults field by field, and a retention it sets is
  positive.
\<close>
theorem checked_streams_configured:
  assumes "startup_checks lb st = Inr checker"
  shows "length (filter (owns base) (schemas_of st)) \<le> 1 \<and>
         (let defaults = apply_backend_defaults jc (dflt\<lparr>sg_name := to_ascii_uppercase base, sg_subjects := [pattern],
                sg_storage := jc_storage_type jc, sg_retention := jc_retention_policy jc,
                sg_discard := jc_discard_policy jc, sg_max_messages_per_subject := 1\<rparr>) in
          build_stream_config_for_base dflt jc (to_ascii_uppercase base) pattern (st_schema st) =
          Inr (case owner_of base (schemas_of st) of
                 None \<Rightarrow> (defaults, None)
               | Some (event_type, policy) \<Rightarrow> (with_policy policy defaults, Some event_type)))"
proof -
  obtain kind caps where policies: "check_policies kind caps [] (schemas_of st) = Inr ()"
    using startup_checks_Inr(1) [OF assms]
    by (cases "st_schema st") (auto simp: validate_schema_storage_policy_support_def result_simps schemas_of_def Let_def)
  note chk = check_policies_owner [OF policies, of base]
  have lower: "owns (to_ascii_lowercase base) = owns base"
    by (rule ext) (auto simp: owns_def eq_ignore_ascii_case_def split: option.splits)
  have own: "owner_of (to_ascii_lowercase base) m = owner_of base m" for m by (simp add: owner_of_def lower)
  have resolved: "resolve_storage_policy_for_base (to_ascii_uppercase base) (st_schema st) = Inr (owner_of base (schemas_of st))"
    using select_policy_found [of "to_ascii_lowercase base" "schemas_of st" None] chk
    by (cases "st_schema st") (auto simp: resolve_storage_policy_for_base_def schemas_of_def lower own owner_of_def)
  have "validate_policy_fields kind event_type policy caps = Inr ()"
    if o: "owner_of base (schemas_of st) = Some (event_type, policy)" for event_type policy
  proof -
    obtain schema rest where f: "filter (owns base) (schemas_of st) = (event_type, schema) # rest"
        "policy = the (es_storage_policy schema)"
      using o by (cases "filter (owns base) (schemas_of st)") (auto simp: owner_of_def)
    then have "(event_type, schema) \<in> set (filter (owns base) (schemas_of st))" by simp
    then have "(event_type, schema) \<in> set (schemas_of st)" "owns base (event_type, schema)" by auto
    moreover from this(2) have "es_storage_policy schema = Some policy"
      using f(2) by (auto simp: owns_def split: option.splits)
    ultimately show ?thesis using chk by auto
  qed
  then show ?thesis
    using chk resolved policy_applies
    by (auto simp: build_stream_config_for_base_def Let_def split: option.splits)
qed

definition bare_stream :: stream_config where
  "bare_stream = \<lparr>sg_name = [], sg_subjects = [], sg_storage = FileStorage, sg_retention = Limits,
     sg_discard = OldMessages, sg_max_messages = 0, sg_max_bytes = 0, sg_max_age = 0,
     sg_max_messages_per_subject = 0, sg_num_replicas = 0, sg_compression = None, sg_duplicate_window = 0\<rparr>"

definition site_jetstream :: jetstream_config where
  "site_jetstream = \<lparr>jc_nats_url = ''n'', jc_timeout_seconds = 30, jc_retry_attempts = 3, jc_token = None,
     jc_max_messages = Some 9, jc_max_bytes = None, jc_retention_time = None, jc_storage_type = FileStorage,
     jc_replicas = None, jc_retention_policy = Limits, jc_discard_policy = OldMessages,
     jc_max_reconnect_attempts = None, jc_reconnect_delay_ms = 2000, jc_publish_retry_attempts = 5,
     jc_publish_retry_base_delay_ms = 150\<rparr>"

theorem checked_streams_configured_witness:
  "\<exists>stream. build_stream_config_for_base bare_stream site_jetstream ''WX'' ''wx.>'' (st_schema site) =
       Inr (stream, Some ''wx'') \<and>
     sg_max_messages stream = 5 \<and> sg_max_age stream = 3600 * nanos_per_sec \<and> sg_max_messages_per_subject stream = -1"
proof -
  have up: "to_ascii_uppercase ''wx'' = ''WX''"
    by (simp add: to_ascii_uppercase_def ascii_upper_def is_lower_def char_of_def bit_0 bit_Suc)
  have "owner_of ''wx'' (schemas_of site) = Some (''wx'', the (es_storage_policy (snd (site_schemas ! 0))))"
    by (simp add: owner_of_def owns_def schemas_of_def site_def site_schemas_def eq_ignore_ascii_case_def
        to_ascii_lowercase_def ascii_lower_def is_upper_def)
  then show ?thesis
    using checked_streams_configured [OF site_starts, of "''wx''" site_jetstream "''wx.>''" bare_stream]
    by (simp add: up Let_def with_policy_def site_schemas_def one_hour apply_backend_defaults_def site_jetstream_def)
qed

end
