(* ===== verification/Metrics.thy ===== *)
theory Metrics
  imports Startup "HOL-Library.Multiset"
begin

text \<open>
  The metrics of the server: the series of \<open>src/metrics.rs\<close>, the guards of the SSE connections,
  the middleware of \<open>src/middleware/http_metrics.rs\<close>, the metered backend of
  \<open>src/notification_backend/metered.rs\<close> and what the handlers count. A labelled metric is
  a map from label values to its value; a series that was never asked for is absent. A
  histogram is the number of its observations. Counters and refcounts are unbounded.
\<close>

section \<open>Series\<close>

type_synonym 'n series = "string list \<rightharpoonup> 'n"

text \<open>\<open>with_label_values\<close> creates the series at zero when it is missing.\<close>
definition with_label_values :: "string list \<Rightarrow> 'n::zero series \<Rightarrow> 'n series" where
  "with_label_values labels m = (case m labels of None \<Rightarrow> m(labels \<mapsto> 0) | Some _ \<Rightarrow> m)"

definition reading :: "'n::zero series \<Rightarrow> string list \<Rightarrow> 'n" where
  "reading m labels = (case m labels of None \<Rightarrow> 0 | Some n \<Rightarrow> n)"

definition add_to :: "'n \<Rightarrow> string list \<Rightarrow> 'n::{zero,plus} series \<Rightarrow> 'n series" where
  "add_to n labels m = m(labels \<mapsto> reading m labels + n)"

abbreviation inc :: "string list \<Rightarrow> 'n::{zero,plus,one} series \<Rightarrow> 'n series" where
  "inc \<equiv> add_to 1"

abbreviation dec :: "string list \<Rightarrow> int series \<Rightarrow> int series" where
  "dec \<equiv> add_to (- 1)"

lemma reading_add_to [simp]: "reading (add_to n l m) k = (if k = l then reading m l + n else reading m k)"
  by (simp add: reading_def add_to_def)

lemma reading_empty [simp]: "reading Map.empty k = 0"
  by (simp add: reading_def)

lemma reading_with_label_values [simp]: "reading (with_label_values l m) k = reading m k"
  by (auto simp: reading_def with_label_values_def split: option.splits)

lemma dom_with_label_values [simp]: "dom (with_label_values l m) = insert l (dom m)"
  by (auto simp: with_label_values_def split: option.splits)

text \<open>A series per label values of a list, at zero.\<close>
definition preinit :: "string list list \<Rightarrow> 'n::zero series \<Rightarrow> 'n series" where
  "preinit ls m = fold with_label_values ls m"

lemma reading_preinit [simp]: "reading (preinit ls m) k = reading m k"
  by (induction ls arbitrary: m) (simp_all add: preinit_def)

lemma dom_preinit [simp]: "dom (preinit ls m) = set ls \<union> dom m"
  by (induction ls arbitrary: m) (auto simp: preinit_def)

section \<open>The metrics\<close>

record ecpds_metrics =
  em_cache_hits_total :: nat
  em_cache_misses_total :: nat
  em_cache_size :: nat
  em_access_decisions_total :: "nat series"
  em_fetch_total :: "nat series"

record app_metrics =
  am_build_info :: "int series"
  am_http_requests_total :: "nat series"
  am_http_request_duration_seconds :: "nat series"
  am_http_requests_in_flight :: "int series"
  am_backend_operations_total :: "nat series"
  am_backend_operation_duration_seconds :: "nat series"
  am_notifications_total :: "nat series"
  am_sse_connections_active :: "int series"
  am_sse_connections_total :: "nat series"
  am_sse_unique_users_active :: "int series"
  am_sse_events_sent_total :: "nat series"
  am_sse_stream_errors_total :: "nat series"
  am_sse_connection_duration_seconds :: "nat series"
  am_auth_requests_total :: "nat series"
  am_ecpds :: ecpds_metrics
  am_unique_users :: "string \<rightharpoonup> string \<rightharpoonup> nat"

definition new_ecpds_metrics :: ecpds_metrics where
  "new_ecpds_metrics =
     \<lparr>em_cache_hits_total = 0, em_cache_misses_total = 0, em_cache_size = 0,
      em_access_decisions_total = preinit (map (\<lambda>l. [l]) [''allow'', ''deny_destination'', ''deny_match_key_missing'',
        ''unavailable'', ''admin_bypass'', ''error'']) Map.empty,
      em_fetch_total = preinit (map (\<lambda>l. [l]) [''success'', ''http_401'', ''http_403'', ''http_4xx'', ''http_5xx'',
        ''invalid_response'', ''unreachable'']) Map.empty\<rparr>"

definition new_app_metrics :: "string \<Rightarrow> app_metrics" where
  "new_app_metrics version =
     \<lparr>am_build_info = [[version] \<mapsto> 1],
      am_http_requests_total = Map.empty, am_http_request_duration_seconds = Map.empty,
      am_http_requests_in_flight = Map.empty,
      am_backend_operations_total = Map.empty, am_backend_operation_duration_seconds = Map.empty,
      am_notifications_total = preinit [[''unknown'', ''error''], [''unknown'', ''rejected'']] Map.empty,
      am_sse_connections_active = Map.empty, am_sse_connections_total = Map.empty,
      am_sse_unique_users_active = Map.empty, am_sse_events_sent_total = Map.empty,
      am_sse_stream_errors_total = Map.empty, am_sse_connection_duration_seconds = Map.empty,
      am_auth_requests_total = preinit (concat (map (\<lambda>mode. map (\<lambda>outcome. [mode, outcome])
        [''success'', ''unauthorized'', ''forbidden'', ''service_unavailable'']) [''direct'', ''trusted_proxy''])) Map.empty,
      am_ecpds = new_ecpds_metrics, am_unique_users = Map.empty\<rparr>"

definition preinit_notification_series :: "string list \<Rightarrow> app_metrics \<Rightarrow> app_metrics" where
  "preinit_notification_series event_types m =
     m\<lparr>am_notifications_total := preinit (concat (map (\<lambda>event_type. [[event_type, ''success''], [event_type, ''error'']]) event_types))
         (am_notifications_total m)\<rparr>"

section \<open>SSE connections\<close>

record guard =
  g_route :: string
  g_event_type :: string
  g_username :: "string option"

text \<open>The refcount of a user of a route.\<close>
definition user_count :: "app_metrics \<Rightarrow> string \<Rightarrow> string \<Rightarrow> nat" where
  "user_count m route u = (case am_unique_users m route of None \<Rightarrow> 0 | Some users \<Rightarrow>
     (case users u of None \<Rightarrow> 0 | Some n \<Rightarrow> n))"

definition track_sse_connection :: "string \<Rightarrow> string \<Rightarrow> string option \<Rightarrow> app_metrics \<Rightarrow> guard \<times> app_metrics" where
  "track_sse_connection route event_type username m =
    (let m1 = m\<lparr>am_sse_connections_active := inc [route, event_type] (am_sse_connections_active m),
                am_sse_connections_total := inc [route, event_type] (am_sse_connections_total m)\<rparr>;
         m2 = (case username of
                 None \<Rightarrow> m1
               | Some u \<Rightarrow>
                   (let users = (case am_unique_users m1 route of None \<Rightarrow> Map.empty | Some us \<Rightarrow> us);
                        refs = (case users u of None \<Rightarrow> 0 | Some n \<Rightarrow> n) + 1;
                        m' = m1\<lparr>am_unique_users := (am_unique_users m1)(route \<mapsto> users(u \<mapsto> refs))\<rparr>
                    in if refs = 1
                       then m'\<lparr>am_sse_unique_users_active := inc [route] (am_sse_unique_users_active m')\<rparr>
                       else m'));
         m3 = m2\<lparr>am_sse_connection_duration_seconds := with_label_values [route] (am_sse_connection_duration_seconds m2)\<rparr>
     in (\<lparr>g_route = route, g_event_type = event_type, g_username = username\<rparr>, m3))"

definition drop_guard :: "guard \<Rightarrow> app_metrics \<Rightarrow> app_metrics" where
  "drop_guard g m =
    (let m1 = m\<lparr>am_sse_connection_duration_seconds := inc [g_route g] (am_sse_connection_duration_seconds m),
                am_sse_connections_active := dec [g_route g, g_event_type g] (am_sse_connections_active m)\<rparr>
     in case g_username g of
          None \<Rightarrow> m1
        | Some username \<Rightarrow>
            (case am_unique_users m1 (g_route g) of
               None \<Rightarrow> m1
             | Some route_users \<Rightarrow>
                 (case route_users username of
                    None \<Rightarrow> m1
                  | Some refs \<Rightarrow>
                      (let fewer = refs - 1 in
                       if fewer = 0
                       then m1\<lparr>am_unique_users := (am_unique_users m1)(g_route g \<mapsto> route_users(username := None)),
                               am_sse_unique_users_active := dec [g_route g] (am_sse_unique_users_active m1)\<rparr>
                       else m1\<lparr>am_unique_users := (am_unique_users m1)(g_route g \<mapsto> route_users(username \<mapsto> fewer))\<rparr>))))"

text \<open>The frames a connection delivers, with the labels of its guard.\<close>
definition delivery_metrics :: "guard \<Rightarrow> app_metrics \<Rightarrow> app_metrics" where
  "delivery_metrics g m =
     m\<lparr>am_sse_events_sent_total := with_label_values [g_route g, g_event_type g] (am_sse_events_sent_total m),
       am_sse_stream_errors_total := with_label_values [g_route g, g_event_type g] (am_sse_stream_errors_total m)\<rparr>"

definition inc_events_sent :: "guard \<Rightarrow> app_metrics \<Rightarrow> app_metrics" where
  "inc_events_sent g m = m\<lparr>am_sse_events_sent_total := inc [g_route g, g_event_type g] (am_sse_events_sent_total m)\<rparr>"

definition inc_stream_errors :: "guard \<Rightarrow> app_metrics \<Rightarrow> app_metrics" where
  "inc_stream_errors g m = m\<lparr>am_sse_stream_errors_total := inc [g_route g, g_event_type g] (am_sse_stream_errors_total m)\<rparr>"

section \<open>HTTP requests\<close>

definition method_label :: "string \<Rightarrow> string" where
  "method_label method =
    (if method \<in> {''GET'', ''POST'', ''PUT'', ''DELETE'', ''PATCH'', ''HEAD'', ''OPTIONS'', ''CONNECT'', ''TRACE''}
     then method else ''other'')"

text \<open>What the inner service returns: a response with the matched pattern and its status, or an error with its status.\<close>
datatype handled = Handled "string option" nat | Failed nat

fun route_label :: "handled \<Rightarrow> string" where
  "route_label (Handled pattern _) = (case pattern of None \<Rightarrow> ''unmatched'' | Some p \<Rightarrow> p)"
| "route_label (Failed _) = ''error''"

fun handled_status :: "handled \<Rightarrow> nat" where
  "handled_status (Handled _ status) = status"
| "handled_status (Failed status) = status"

definition enter_request :: "string \<Rightarrow> app_metrics \<Rightarrow> app_metrics" where
  "enter_request label m = m\<lparr>am_http_requests_in_flight := inc [label] (am_http_requests_in_flight m)\<rparr>"

text \<open>Dropping the in-flight guard, when the request is answered or cancelled.\<close>
definition leave_request :: "string \<Rightarrow> app_metrics \<Rightarrow> app_metrics" where
  "leave_request label m = m\<lparr>am_http_requests_in_flight := dec [label] (am_http_requests_in_flight m)\<rparr>"

definition record_request :: "string \<Rightarrow> handled \<Rightarrow> app_metrics \<Rightarrow> app_metrics" where
  "record_request label result m =
     m\<lparr>am_http_requests_total := inc [route_label result, label, show_nat (handled_status result)] (am_http_requests_total m),
       am_http_request_duration_seconds := inc [route_label result, label] (am_http_request_duration_seconds m)\<rparr>"

text \<open>The whole call, around an inner service that may itself count; without metrics it only passes through.\<close>
definition http_metrics_call ::
  "string \<Rightarrow> (app_metrics option \<Rightarrow> handled \<times> app_metrics option) \<Rightarrow> app_metrics option \<Rightarrow> handled \<times> app_metrics option" where
  "http_metrics_call method service metrics =
    (let label = method_label method in
     case service (map_option (enter_request label) metrics) of
       (result, metrics') \<Rightarrow> (result, map_option (\<lambda>m. leave_request label (record_request label result m)) metrics'))"

section \<open>The metered backend\<close>

definition ALL_OPERATIONS :: "string list" where
  "ALL_OPERATIONS = [''publish'', ''get_batch'', ''wipe_stream'', ''wipe_all'', ''delete_message'']"

definition new_metered :: "string \<Rightarrow> app_metrics \<Rightarrow> app_metrics" where
  "new_metered backend m =
    (let series = concat (map (\<lambda>operation. map (\<lambda>outcome. [backend, operation, outcome]) [''ok'', ''error'']) ALL_OPERATIONS)
     in m\<lparr>am_backend_operations_total := preinit series (am_backend_operations_total m),
          am_backend_operation_duration_seconds := preinit series (am_backend_operation_duration_seconds m)\<rparr>)"

definition record_operation :: "string \<Rightarrow> string \<Rightarrow> bool \<Rightarrow> app_metrics \<Rightarrow> app_metrics" where
  "record_operation backend operation is_ok m =
    (let labels = [backend, operation, if is_ok then ''ok'' else ''error'']
     in m\<lparr>am_backend_operations_total := inc labels (am_backend_operations_total m),
          am_backend_operation_duration_seconds := inc labels (am_backend_operation_duration_seconds m)\<rparr>)"

text \<open>An operation of the backend over its own state, timed.\<close>
definition metered :: "string \<Rightarrow> string \<Rightarrow> ('s \<Rightarrow> (err + 'r) \<times> 's) \<Rightarrow> 's \<times> app_metrics \<Rightarrow> (err + 'r) \<times> 's \<times> app_metrics" where
  "metered backend operation inner sm =
    (case inner (fst sm) of (result, s') \<Rightarrow>
       (result, s', record_operation backend operation (case result of Inl _ \<Rightarrow> False | Inr _ \<Rightarrow> True) (snd sm)))"

text \<open>The writer the notification endpoint uses.\<close>
definition metered_writer :: "string \<Rightarrow> 's writer \<Rightarrow> ('s \<times> app_metrics) writer" where
  "metered_writer backend wr =
     \<lparr>wr_put_messages = (\<lambda>topic payload. metered backend ''publish'' (wr_put_messages wr topic payload)),
      wr_put_message_with_headers = (\<lambda>topic headers payload. metered backend ''publish'' (wr_put_message_with_headers wr topic headers payload))\<rparr>"

section \<open>What the handlers count\<close>

definition count_notification :: "string \<times> string \<Rightarrow> app_metrics \<Rightarrow> app_metrics" where
  "count_notification metric m =
     m\<lparr>am_notifications_total := inc [fst metric, snd metric] (am_notifications_total m)\<rparr>"

definition mode_label :: "auth_mode \<Rightarrow> string" where
  "mode_label mode = (case mode of Direct \<Rightarrow> ''direct'' | TrustedProxy \<Rightarrow> ''trusted_proxy'')"

fun auth_outcome :: "middleware_result \<Rightarrow> string option" where
  "auth_outcome (Forwarded _ _ outcome) = outcome"
| "auth_outcome (Refused _ reason) = Some reason"

definition count_auth :: "auth_mode \<Rightarrow> middleware_result \<Rightarrow> app_metrics \<Rightarrow> app_metrics" where
  "count_auth mode result m =
    (case auth_outcome result of
       None \<Rightarrow> m
     | Some outcome \<Rightarrow> m\<lparr>am_auth_requests_total := inc [mode_label mode, outcome] (am_auth_requests_total m)\<rparr>)"

fun count_ecpds :: "ecpds_count \<Rightarrow> ecpds_metrics \<Rightarrow> ecpds_metrics" where
  "count_ecpds CountHit m = m\<lparr>em_cache_hits_total := em_cache_hits_total m + 1\<rparr>"
| "count_ecpds CountMiss m = m\<lparr>em_cache_misses_total := em_cache_misses_total m + 1\<rparr>"
| "count_ecpds (CountFetch o1) m = m\<lparr>em_fetch_total := inc [o1] (em_fetch_total m)\<rparr>"
| "count_ecpds (CountDecision d) m = m\<lparr>em_access_decisions_total := inc [d] (em_access_decisions_total m)\<rparr>"

text \<open>The metrics of a starting server: created, with a series per configured event type and per backend operation.\<close>
definition startup_metrics :: "string \<Rightarrow> schema_map option \<Rightarrow> settings \<Rightarrow> app_metrics option" where
  "startup_metrics version global st =
    (if ms_enabled (st_metrics st)
     then Some (new_metered (bs_kind (st_backend st))
       (case global of
          Some schema \<Rightarrow> preinit_notification_series (map fst schema) (new_app_metrics version)
        | None \<Rightarrow> new_app_metrics version))
     else None)"

section \<open>The gauges\<close>

text \<open>Refcounts that have dropped to zero are removed.\<close>
definition no_zero :: "app_metrics \<Rightarrow> bool" where
  "no_zero m = (\<forall>route users u. am_unique_users m route = Some users \<longrightarrow> users u \<noteq> Some 0)"

lemma track_simps [simp]:
  "fst (track_sse_connection r et un m) = \<lparr>g_route = r, g_event_type = et, g_username = un\<rparr>"
  "am_sse_connections_active (snd (track_sse_connection r et un m)) = inc [r, et] (am_sse_connections_active m)"
  "am_http_requests_in_flight (snd (track_sse_connection r et un m)) = am_http_requests_in_flight m"
  "no_zero m \<Longrightarrow> no_zero (snd (track_sse_connection r et un m))"
  "user_count (snd (track_sse_connection r et un m)) r' u = user_count m r' u + (if r' = r \<and> un = Some u then 1 else 0)"
  "reading (am_sse_unique_users_active (snd (track_sse_connection r et un m))) [r'] =
     reading (am_sse_unique_users_active m) [r'] + (if r' = r \<and> (\<exists>u. un = Some u \<and> user_count m r u = 0) then 1 else 0)"
  by (auto simp: track_sse_connection_def Let_def no_zero_def user_count_def split: option.splits if_splits)

lemma no_zeroD: "no_zero m \<Longrightarrow> am_unique_users m route = Some users \<Longrightarrow> users u = Some n \<Longrightarrow> n \<noteq> 0"
  unfolding no_zero_def by metis

lemma drop_simps [simp]:
  "am_sse_connections_active (drop_guard g m) = dec [g_route g, g_event_type g] (am_sse_connections_active m)"
  "am_http_requests_in_flight (drop_guard g m) = am_http_requests_in_flight m"
  "no_zero m \<Longrightarrow> no_zero (drop_guard g m)"
  "user_count (drop_guard g m) r' u = user_count m r' u - (if r' = g_route g \<and> g_username g = Some u then 1 else 0)"
  by (auto simp: drop_guard_def Let_def no_zero_def user_count_def split: option.splits if_splits)

lemma drop_unique [simp]:
  "no_zero m \<Longrightarrow> reading (am_sse_unique_users_active (drop_guard g m)) [r'] =
     reading (am_sse_unique_users_active m) [r'] - (if r' = g_route g \<and> (\<exists>u. g_username g = Some u \<and> user_count m r' u = 1) then 1 else 0)"
  by (auto simp: drop_guard_def Let_def user_count_def le_Suc_eq dest: no_zeroD split: option.splits if_splits)

text \<open>
  The metrics with the open connections and the requests in flight: connections open and
  close, requests enter, are answered or cancelled, and everything is counted in any order.
\<close>
type_synonym metrics_state = "app_metrics \<times> guard multiset \<times> string multiset"

inductive metrics_step :: "metrics_state \<Rightarrow> metrics_state \<Rightarrow> bool" where
  Connect: "track_sse_connection route event_type username m = (g, m') \<Longrightarrow> metrics_step (m, G, F) (m', add_mset g G, F)"
| Disconnect: "metrics_step (m, add_mset g G, F) (drop_guard g m, G, F)"
| Deliver: "g \<in># G \<Longrightarrow> m' \<in> {delivery_metrics g m, inc_events_sent g m, inc_stream_errors g m} \<Longrightarrow> metrics_step (m, G, F) (m', G, F)"
| Enter: "label = method_label method \<Longrightarrow> metrics_step (m, G, F) (enter_request label m, G, add_mset label F)"
| Answer: "metrics_step (m, G, add_mset label F) (leave_request label (record_request label result m), G, F)"
| Cancel: "metrics_step (m, G, add_mset label F) (leave_request label m, G, F)"
| Operation: "metrics_step (m, G, F) (record_operation backend operation is_ok m, G, F)"
| Notification: "metrics_step (m, G, F) (count_notification metric m, G, F)"
| Authentication: "metrics_step (m, G, F) (count_auth mode result m, G, F)"
| Destination: "metrics_step (m, G, F) (m\<lparr>am_ecpds := count_ecpds c (am_ecpds m)\<rparr>, G, F)"

definition active_users :: "guard multiset \<Rightarrow> string \<Rightarrow> string set" where
  "active_users G route = {u. \<exists>g\<in>#G. g_route g = route \<and> g_username g = Some u}"

definition user_guards :: "guard multiset \<Rightarrow> string \<Rightarrow> string \<Rightarrow> guard multiset" where
  "user_guards G route u = {#g \<in># G. g_route g = route \<and> g_username g = Some u#}"

fun gauges_ok :: "metrics_state \<Rightarrow> bool" where
  "gauges_ok (m, G, F) =
    (no_zero m \<and> (\<forall>route u. user_count m route u = size (user_guards G route u)) \<and>
     (\<forall>route event_type. reading (am_sse_connections_active m) [route, event_type] =
        int (size {#g \<in># G. g_route g = route \<and> g_event_type g = event_type#})) \<and>
     (\<forall>route. reading (am_sse_unique_users_active m) [route] = int (card (active_users G route))) \<and>
     (\<forall>label. reading (am_http_requests_in_flight m) [label] = int (count F label)))"

lemma active_users_add [simp]:
  "active_users (add_mset g G) route =
     (case g_username g of Some u \<Rightarrow> if g_route g = route then insert u (active_users G route) else active_users G route
      | None \<Rightarrow> active_users G route)"
  by (auto simp: active_users_def split: option.splits)

lemma finite_active_users [simp]: "finite (active_users G route)"
  by (induction G) (auto simp: active_users_def[of "{#}"] split: option.splits)

lemma active_iff: "u \<in> active_users G route \<longleftrightarrow> size (user_guards G route u) \<noteq> 0"
  by (induction G) (auto simp: active_users_def user_guards_def)

lemma user_guards_add [simp]:
  "user_guards (add_mset g G) route u =
     (if g_route g = route \<and> g_username g = Some u then add_mset g (user_guards G route u) else user_guards G route u)"
  by (simp add: user_guards_def)

lemma gauges_ok_step: "metrics_step x y \<Longrightarrow> gauges_ok x \<Longrightarrow> gauges_ok y"
proof (induction rule: metrics_step.induct)
  case (Connect route event_type username m g m' G F)
  note m' = track_simps [where r = route and et = event_type and un = username and m = m, unfolded Connect.hyps fst_conv snd_conv]
  show ?case using Connect.prems
    by (auto simp: m' card_insert_if active_iff split: option.splits)
next
  case (Disconnect m g G F)
  then show ?case by (auto simp: card_insert_if active_iff split: option.splits)
next
  case (Deliver g G m' m F)
  then show ?case
    by (auto simp: delivery_metrics_def inc_events_sent_def inc_stream_errors_def no_zero_def user_count_def)
qed (auto simp: enter_request_def leave_request_def record_request_def record_operation_def count_notification_def
       count_auth_def no_zero_def user_count_def Let_def split: option.splits)

lemma gauges_ok_start:
  assumes "startup_metrics version global st = Some m0"
  shows "gauges_ok (m0, {#}, {#})"
  using assms by (auto simp: startup_metrics_def new_metered_def preinit_notification_series_def new_app_metrics_def
      no_zero_def user_count_def user_guards_def active_users_def Let_def split: if_splits option.splits)

lemma gauges_ok_reachable:
  assumes "metrics_step\<^sup>*\<^sup>* x y" "gauges_ok x"
  shows "gauges_ok y"
  using assms by (induction rule: rtranclp_induct) (auto intro: gauges_ok_step simp del: gauges_ok.simps)

text \<open>
  C9: the gauges are exact. From a starting server, after any sequence of connections that open
  and close, of requests that enter, are answered or cancelled, and of counts, the active
  gauge of a route and event type is the number of its open connections, the gauge of unique
  users of a route is the number of users with a connection open there, however many
  connections they share, and the in-flight gauge of a method is the number of its requests
  in progress. No gauge leaks and none is negative.
\<close>
theorem gauges_exact:
  assumes "startup_metrics version global st = Some m0" "metrics_step\<^sup>*\<^sup>* (m0, {#}, {#}) (m, G, F)"
  shows "reading (am_sse_connections_active m) [route, event_type] =
           int (size {#g \<in># G. g_route g = route \<and> g_event_type g = event_type#}) \<and>
         reading (am_sse_unique_users_active m) [route] =
           int (card {u. \<exists>g\<in>#G. g_route g = route \<and> g_username g = Some u}) \<and>
         reading (am_http_requests_in_flight m) [label] = int (count F label)"
  using gauges_ok_reachable [OF assms(2) gauges_ok_start [OF assms(1)]] by (simp add: active_users_def)

definition monitored :: settings where
  "monitored = site\<lparr>st_metrics := \<lparr>ms_enabled = True, ms_host = ''127.0.0.1'', ms_port = Some 9090\<rparr>\<rparr>"

text \<open>One user opens a watch and a replay of the same route twice, and one of the connections closes.\<close>
theorem gauges_exact_witness:
  "\<exists>m :: app_metrics. reading (am_sse_connections_active m) [''/api/v1/watch'', ''mars''] = 1 \<and>
     reading (am_sse_unique_users_active m) [''/api/v1/watch''] = 1 \<and>
     reading (am_http_requests_in_flight m) [''GET''] = 0"
proof -
  let ?watch = "track_sse_connection ''/api/v1/watch''"
  let ?m0 = "the (startup_metrics ''1.0'' None monitored)"
  let ?m1 = "snd (?watch ''mars'' (Some ''ann'') ?m0)"
  let ?m2 = "snd (?watch ''wx'' (Some ''ann'') ?m1)"
  let ?g = "\<lambda>et. \<lparr>g_route = ''/api/v1/watch'', g_event_type = et, g_username = Some ''ann''\<rparr>"
  have start: "startup_metrics ''1.0'' None monitored = Some ?m0"
    by (simp add: startup_metrics_def monitored_def)
  have "metrics_step (?m0, {#}, {#}) (?m1, {#?g ''mars''#}, {#})"
    by (rule metrics_step.Connect [where route = "''/api/v1/watch''" and event_type = "''mars''" and username = "Some ''ann''"])
       (simp add: prod_eq_iff)
  moreover have "metrics_step (?m1, {#?g ''mars''#}, {#}) (?m2, {#?g ''wx'', ?g ''mars''#}, {#})"
    by (rule metrics_step.Connect [where route = "''/api/v1/watch''" and event_type = "''wx''" and username = "Some ''ann''"])
       (simp add: prod_eq_iff)
  moreover have "metrics_step (?m2, {#?g ''wx'', ?g ''mars''#}, {#}) (drop_guard (?g ''wx'') ?m2, {#?g ''mars''#}, {#})"
    by (rule metrics_step.Disconnect)
  ultimately have "metrics_step\<^sup>*\<^sup>* (?m0, {#}, {#}) (drop_guard (?g ''wx'') ?m2, {#?g ''mars''#}, {#})"
    by (meson converse_rtranclp_into_rtranclp rtranclp.rtrancl_refl)
  then obtain m where "metrics_step\<^sup>*\<^sup>* (?m0, {#}, {#}) (m, {#?g ''mars''#}, {#})" by blast
  from gauges_exact [OF start this, of "''/api/v1/watch''" "''mars''" "''GET''"]
  show ?thesis by (intro exI [of _ m]) simp
qed

section \<open>Series that exist from the start\<close>

lemma preinit_apply: "preinit ls m k = (case m k of Some n \<Rightarrow> Some n | None \<Rightarrow> if k \<in> set ls then Some 0 else None)"
  by (induction ls arbitrary: m) (auto simp: preinit_def with_label_values_def split: option.splits)

lemma preinit_value [simp]: "preinit ls Map.empty k = (if k \<in> set ls then Some 0 else None)"
  by (simp add: preinit_apply)

text \<open>Whether the series of a count of the ECPDS check is there at zero.\<close>
fun ecpds_series_at_zero :: "ecpds_metrics \<Rightarrow> ecpds_count \<Rightarrow> bool" where
  "ecpds_series_at_zero m (CountFetch o1) = (em_fetch_total m [o1] = Some 0)"
| "ecpds_series_at_zero m (CountDecision d) = (em_access_decisions_total m [d] = Some 0)"
| "ecpds_series_at_zero m _ = True"

lemma startup_series:
  assumes "startup_metrics version global st = Some m0"
  shows "am_notifications_total m0 [label, status] =
           (if label \<in> fst ` set (case global of Some m \<Rightarrow> m | None \<Rightarrow> []) \<and> status \<in> {''success'', ''error''} \<or>
               label = ''unknown'' \<and> status \<in> {''error'', ''rejected''} then Some 0 else None)"
    "am_auth_requests_total m0 = am_auth_requests_total (new_app_metrics version)"
    "am_ecpds m0 = new_ecpds_metrics"
    "operation \<in> set ALL_OPERATIONS \<Longrightarrow> outcome \<in> {''ok'', ''error''} \<Longrightarrow>
       am_backend_operations_total m0 [bs_kind (st_backend st), operation, outcome] = Some 0"
proof -
  define m1 where "m1 = (case global of Some schema \<Rightarrow> preinit_notification_series (map fst schema) (new_app_metrics version)
        | None \<Rightarrow> new_app_metrics version)"
  have m0: "m0 = new_metered (bs_kind (st_backend st)) m1"
    using assms by (simp add: startup_metrics_def m1_def split: if_splits)
  have m1: "am_auth_requests_total m1 = am_auth_requests_total (new_app_metrics version)" "am_ecpds m1 = new_ecpds_metrics"
    "am_backend_operations_total m1 = Map.empty"
    by (auto simp: m1_def preinit_notification_series_def new_app_metrics_def split: option.splits)
  show "am_auth_requests_total m0 = am_auth_requests_total (new_app_metrics version)" "am_ecpds m0 = new_ecpds_metrics"
    by (simp_all add: m0 new_metered_def Let_def m1)
  show "am_backend_operations_total m0 [bs_kind (st_backend st), operation, outcome] = Some 0"
    if "operation \<in> set ALL_OPERATIONS" "outcome \<in> {''ok'', ''error''}"
    using that by (auto simp: m0 new_metered_def Let_def m1)
  have "am_notifications_total m1 [label, status] =
      (if label \<in> fst ` set (case global of Some m \<Rightarrow> m | None \<Rightarrow> []) \<and> status \<in> {''success'', ''error''} \<or>
          label = ''unknown'' \<and> status \<in> {''error'', ''rejected''} then Some 0 else None)"
  proof (cases global)
    case None
    then show ?thesis by (auto simp: m1_def new_app_metrics_def)
  next
    case (Some schema)
    let ?ls = "concat (map (\<lambda>event_type. [[event_type, ''success''], [event_type, ''error'']]) (map fst schema))"
    let ?n = "am_notifications_total (new_app_metrics version)"
    have "am_notifications_total m1 [label, status] = preinit ?ls ?n [label, status]"
      by (simp add: m1_def Some preinit_notification_series_def)
    moreover have "[label, status] \<in> set ?ls \<longleftrightarrow> label \<in> fst ` set schema \<and> status \<in> {''success'', ''error''}" by force
    moreover have "?n [label, status] = (if label = ''unknown'' \<and> status \<in> {''error'', ''rejected''} then Some 0 else None)"
      by (auto simp: new_app_metrics_def)
    ultimately show ?thesis by (simp only: preinit_apply Some option.case) auto
  qed
  then show "am_notifications_total m0 [label, status] =
           (if label \<in> fst ` set (case global of Some m \<Rightarrow> m | None \<Rightarrow> []) \<and> status \<in> {''success'', ''error''} \<or>
               label = ''unknown'' \<and> status \<in> {''error'', ''rejected''} then Some 0 else None)"
    by (simp add: m0 new_metered_def Let_def)
qed

lemma failure_reason_cases: "failure_reason f \<in> {''unauthorized'', ''forbidden'', ''service_unavailable''}"
  by (cases f) simp_all

lemma auth_outcome_cases:
  "auth_outcome (middleware_call w settings client req) = Some outcome \<Longrightarrow>
   outcome \<in> {''success'', ''unauthorized'', ''forbidden'', ''service_unavailable''}"
  using failure_reason_cases by (auto simp: middleware_call_def Let_def split: if_splits sum.splits option.splits)

lemma deny_label_zero: "em_access_decisions_total new_ecpds_metrics [deny_label r] = Some 0"
  by (cases r) (simp_all add: new_ecpds_metrics_def)

lemma fetch_label_zero: "em_fetch_total new_ecpds_metrics [outcome_label o1] = Some 0"
  by (cases o1) (simp_all add: new_ecpds_metrics_def)

lemma cache_counts_zero: "list_all (ecpds_series_at_zero new_ecpds_metrics) (cache_counts outcome)"
  by (auto simp: cache_counts_def fetch_label_zero split: option.splits cache_outcome.splits)

lemma decision_zero:
  "d \<in> {''allow'', ''deny_destination'', ''deny_match_key_missing'', ''unavailable'', ''admin_bypass'', ''error''} \<Longrightarrow>
   em_access_decisions_total new_ecpds_metrics [d] = Some 0"
  by (auto simp: new_ecpds_metrics_def)

lemma ecpds_counts_zero:
  "list_all (ecpds_series_at_zero new_ecpds_metrics) (snd (snd (enforce_ecpds_auth c global event_type params checker cache flight)))"
  using cache_counts_zero
  by (auto simp: enforce_ecpds_auth_def Let_def decision_zero deny_label_zero split: option.splits prod.splits sum.splits ecpds_error.splits)

lemma auth_outcome_zero:
  assumes "auth_outcome (middleware_call w settings client req) = Some outcome"
  shows "am_auth_requests_total (new_app_metrics version) [mode_label mode, outcome] = Some 0"
  using auth_outcome_cases [OF assms] by (cases mode) (auto simp: mode_label_def new_app_metrics_def)

lemma notify_metric:
  "\<exists>label status. oc_metrics (notify sv wr c body s) = [(label, status)] \<and>
     label \<in> event_labels sv \<and> status \<in> {''success'', ''error'', ''rejected''}"
proof (cases "notify_checks sv c body")
  case (Inl x)
  obtain response metrics where x: "x = (response, metrics)" by (cases x)
  show ?thesis using notify_checks_Inl [OF Inl [unfolded x]] by (auto simp: notify_def Inl x)
next
  case (Inr x)
  then show ?thesis by (cases x) (simp add: notify_def Let_def split: prod.splits sum.splits)
qed

text \<open>
  The counted series exist from the start. On a server started for a schema, an
  authentication, a decision or fetch of the ECPDS check and an operation of the backend are
  counted in series that were there at zero, so an alert on their rate sees the first
  event. A notification request is counted in such a series unless it is rejected before it
  is admitted to a configured event type, or falls in the \<open>generic\<close> bucket: those series
  appear only with their first event.
\<close>
lemma counted_series_exist:
  assumes "startup_metrics version (sv_global sv) st = Some m0"
  shows "(\<exists>label status. oc_metrics (notify sv wr c body s) = [(label, status)] \<and>
           am_notifications_total m0 [label, status] =
             (if label = ''unknown'' \<and> status \<noteq> ''success'' \<or>
                 label \<in> fst ` set (case sv_global sv of Some m \<Rightarrow> m | None \<Rightarrow> []) \<and> status \<noteq> ''rejected''
              then Some 0 else None)) \<and>
         (case auth_outcome (middleware_call w settings client req) of
            Some outcome \<Rightarrow> am_auth_requests_total m0 [mode_label (as_mode settings), outcome] = Some 0 | None \<Rightarrow> True) \<and>
         list_all (ecpds_series_at_zero (am_ecpds m0))
           (snd (snd (enforce_ecpds_auth hc global event_type params checker cache flight))) \<and>
         list_all (\<lambda>operation. \<forall>is_ok. am_backend_operations_total m0
             [bs_kind (st_backend st), operation, if is_ok then ''ok'' else ''error''] = Some 0) ALL_OPERATIONS"
proof -
  note m0 = startup_series [OF assms]
  obtain label status where n: "oc_metrics (notify sv wr c body s) = [(label, status)]"
    "status \<in> {''success'', ''error'', ''rejected''}" using notify_metric [of sv wr c body s] by blast
  have "am_notifications_total m0 [label, status] =
             (if label = ''unknown'' \<and> status \<noteq> ''success'' \<or>
                 label \<in> fst ` set (case sv_global sv of Some m \<Rightarrow> m | None \<Rightarrow> []) \<and> status \<noteq> ''rejected''
              then Some 0 else None)"
    using n(2) by (elim insertE emptyE) (simp_all add: m0(1))
  moreover have "case auth_outcome (middleware_call w settings client req) of
      Some outcome \<Rightarrow> am_auth_requests_total m0 [mode_label (as_mode settings), outcome] = Some 0 | None \<Rightarrow> True"
    by (cases "auth_outcome (middleware_call w settings client req)") (simp_all only: m0(2) auth_outcome_zero option.case)
  moreover have "list_all (\<lambda>operation. \<forall>is_ok. am_backend_operations_total m0
      [bs_kind (st_backend st), operation, if is_ok then ''ok'' else ''error''] = Some 0) ALL_OPERATIONS"
    by (auto simp: list_all_iff m0(4))
  ultimately show ?thesis using n(1) ecpds_counts_zero by (auto simp: m0(3))
qed

lemma counted_series_exist_witness:
  "let m0 = the (startup_metrics ''1.0'' (Some [(''wx'', sample_schema)]) monitored) in
   list_all (\<lambda>operation. \<forall>is_ok. am_backend_operations_total m0
     [bs_kind (st_backend monitored), operation, if is_ok then ''ok'' else ''error''] = Some 0) ALL_OPERATIONS"
proof -
  let ?sv = "one_request [(''wx'', sample_schema)] (wx_request sample_notify None None)"
  let ?m0 = "the (startup_metrics ''1.0'' (Some [(''wx'', sample_schema)]) monitored)"
  have "startup_metrics ''1.0'' (sv_global ?sv) monitored = Some ?m0"
    by (simp add: startup_metrics_def monitored_def one_request_def)
  from counted_series_exist [OF this, THEN conjunct2, THEN conjunct2, THEN conjunct2] show ?thesis unfolding Let_def .
qed

section \<open>The metered backend\<close>

lemma metered_writer_simps:
  "wr_put_messages (metered_writer b wr) topic payload (s, m) =
     (case wr_put_messages wr topic payload s of (r, s') \<Rightarrow>
        (r, s', record_operation b ''publish'' (case r of Inl _ \<Rightarrow> False | Inr _ \<Rightarrow> True) m))"
  "wr_put_message_with_headers (metered_writer b wr) topic headers payload (s, m) =
     (case wr_put_message_with_headers wr topic headers payload s of (r, s') \<Rightarrow>
        (r, s', record_operation b ''publish'' (case r of Inl _ \<Rightarrow> False | Inr _ \<Rightarrow> True) m))"
  by (simp_all add: metered_writer_def metered_def)

text \<open>
  Metering changes nothing else. Over the metered backend a notification request gets the
  same answer, counts the same metric and leaves the same backend state as over the bare
  one. A request that passes the checks counts exactly one operation \<open>publish\<close>, \<open>ok\<close> exactly
  when it is answered with 200; a request that is refused counts none.
\<close>
lemma metering_transparent:
  "(let plain = notify sv wr c body s; oc = notify sv (metered_writer backend wr) c body (s, m) in
     oc_response oc = oc_response plain \<and> oc_metrics oc = oc_metrics plain \<and> fst (oc_state oc) = oc_state plain \<and>
     snd (oc_state oc) = (case notify_checks sv c body of
        Inl _ \<Rightarrow> m
      | Inr _ \<Rightarrow> record_operation backend ''publish'' (hr_status (oc_response plain) = 200) m))"
proof (cases "notify_checks sv c body")
  case (Inl x)
  then show ?thesis by (cases x) (simp add: notify_def Let_def)
next
  case (Inr x)
  have "hr_status (processing_error_response NotificationStorage e rid) \<noteq> 200" for e rid
    by (simp add: processing_error_response_def api_processing_def split: prod.splits)
  then show ?thesis
    by (cases x) (auto simp: notify_def Inr Let_def save_to_backend_def metered_writer_simps notification_response_def
        split: option.splits prod.splits sum.splits)
qed

text \<open>A metered store keeps the contract of the store it wraps.\<close>
locale metered_store = notification_store + fixes backend :: string

sublocale metered_store \<subseteq> metered: notification_store "\<lambda>x. inv (fst x)" "\<lambda>x. held (fst x)" "metered_writer backend wr"
proof unfold_locales
  fix x x' :: "'a \<times> app_metrics" and topic payload headers e
  assume inv: "inv (fst x)"
  show "inv (fst x') \<and> (\<exists>m. put_as m topic payload None \<and> m \<in> held (fst x') \<and> held (fst x') \<subseteq> insert m (held (fst x)))"
    if "wr_put_messages (metered_writer backend wr) topic payload x = (Inr (), x')"
    using that by (intro put_ok [OF inv]) (auto simp: metered_writer_def metered_def split: prod.splits)
  show "inv (fst x') \<and> (\<exists>m. put_as m topic payload headers \<and> m \<in> held (fst x') \<and> held (fst x') \<subseteq> insert m (held (fst x)))"
    if "wr_put_message_with_headers (metered_writer backend wr) topic headers payload x = (Inr (), x')"
    using that by (intro put_headers_ok [OF inv]) (auto simp: metered_writer_def metered_def split: prod.splits)
  show "inv (fst x') \<and> held (fst x') = held (fst x)"
    if "wr_put_messages (metered_writer backend wr) topic payload x = (Inl e, x')"
    using that by (intro put_failed [OF inv]) (auto simp: metered_writer_def metered_def split: prod.splits)
  show "inv (fst x') \<and> held (fst x') = held (fst x)"
    if "wr_put_message_with_headers (metered_writer backend wr) topic headers payload x = (Inl e, x')"
    using that by (intro put_headers_failed [OF inv]) (auto simp: metered_writer_def metered_def split: prod.splits)
qed

interpretation metered_mem: metered_store "mem_inv cfg" "\<lambda>s. set (all_messages s)" "mem_writer cfg now" backend for cfg now backend ..

lemma http_metrics_call_balanced:
  assumes "service (Some (enter_request (method_label method) m)) = (result, Some (enter_request (method_label method) m'))"
  shows "fst (http_metrics_call method service (Some m)) = result \<and>
         (\<forall>l. reading (am_http_requests_in_flight (the (snd (http_metrics_call method service (Some m))))) l =
              reading (am_http_requests_in_flight m') l)"
  using assms by (simp add: http_metrics_call_def Let_def enter_request_def leave_request_def record_request_def)

end
