(* ===== verification/Pages.thy ===== *)
theory Pages
  imports Telemetry Metrics
begin

text \<open>
  The endpoints that carry no notifications: the homepage, \<open>src/routes/home.rs\<close>, the schema
  endpoints, \<open>src/routes/schema.rs\<close>, the probes, \<open>src/routes/health_check.rs\<close> and \<open>ready.rs\<close>, and
  the metrics endpoint of \<open>src/metrics.rs\<close>; the middleware that adds the request id and
  chooses the level of the request span, \<open>src/middleware/request_id.rs\<close> and \<open>access_log.rs\<close>;
  and the factory of the backends, \<open>src/notification_backend/mod.rs\<close>. The version of the
  server is an argument. The texts of the page and of the metrics are strings of characters.
\<close>

section \<open>The homepage\<close>

definition escape_html :: "char \<Rightarrow> string" where
  "escape_html c =
    (if c = CHR ''&'' then ''&amp;'' else if c = CHR 0x22 then ''&quot;'' else if c = CHR 0x27 then ''&#39;''
     else if c = CHR ''<'' then ''&lt;'' else if c = CHR ''>'' then ''&gt;'' else [c])"

definition replacements :: "string \<Rightarrow> homepage_settings \<Rightarrow> (string \<times> string) list" where
  "replacements version links =
     [(''SERVER_VERSION'', version),
      (''CLIENT_DOCUMENTATION_URL'', hp_client_documentation_url links),
      (''CLIENT_REPOSITORY_URL'', hp_client_repository_url links),
      (''SERVER_DOCUMENTATION_URL'', hp_server_documentation_url links),
      (''SERVER_REPOSITORY_URL'', hp_server_repository_url links)]"

text \<open>What a token stands for: the escaped value of a known one, an unknown one itself with its braces.\<close>
definition replace_token :: "(string \<times> string) list \<Rightarrow> string \<Rightarrow> string" where
  "replace_token values token =
    (case List.find (\<lambda>(key, _). key = token) values of
       Some (_, value) \<Rightarrow> concat (map escape_html value)
     | None \<Rightarrow> ''{{'' @ token @ ''}}'')"

lemma find_str_bound: "find_str p s = Some n \<Longrightarrow> n + length p \<le> length s"
proof (induction s arbitrary: n)
  case (Cons c s)
  show ?case
  proof (cases "starts_with p (c # s)")
    case True
    then have "length p \<le> length (c # s)" by (metis starts_with_def length_take min.cobounded1)
    then show ?thesis using Cons.prems True by simp
  qed (use Cons in auto)
qed (auto split: if_splits)

text \<open>One pass over the template: what stands before the next token, the token, the rest.\<close>
function render :: "(string \<times> string) list \<Rightarrow> string \<Rightarrow> string" where
  "render values remaining =
    (case find_str ''{{'' remaining of
       None \<Rightarrow> remaining
     | Some start \<Rightarrow> take start remaining @
        (let token_on = drop start remaining in
         case find_str ''}}'' token_on of
           None \<Rightarrow> token_on
         | Some fin \<Rightarrow> replace_token values (drop 2 (take fin token_on)) @ render values (drop (fin + 2) token_on)))"
  by pat_completeness auto
termination
  by (relation "measure (length \<circ> snd)") (auto dest!: find_str_bound)

declare render.simps [simp del]

definition render_homepage :: "string \<Rightarrow> string \<Rightarrow> homepage_settings \<Rightarrow> string" where
  "render_homepage version html links = render (replacements version links) html"

text \<open>A response with a text: its status, content type and body.\<close>
record text_response =
  tr_status :: nat
  tr_content_type :: "string option"
  tr_body :: string

definition homepage :: "string \<Rightarrow> string option \<Rightarrow> application_settings \<Rightarrow> text_response" where
  "homepage version index_file settings =
    (let html = (case index_file of Some text \<Rightarrow> text
       | None \<Rightarrow> ''<h1>Index file not found</h1><p>Please check the static files configuration.</p>'')
     in \<lparr>tr_status = 200, tr_content_type = Some ''text/html; charset=utf-8'',
         tr_body = render_homepage version html (ap_homepage settings)\<rparr>)"

text \<open>The characters that structure a page.\<close>
definition markup :: "char \<Rightarrow> bool" where
  "markup c = (c \<in> {CHR ''<'', CHR ''>'', CHR 0x22, CHR 0x27})"

lemma escape_no_markup [simp]: "filter markup (escape_html c) = []"
  by (simp add: escape_html_def markup_def)

lemma filter_concat_empty: "(\<And>x. filter P (f x) = []) \<Longrightarrow> filter P (concat (map f xs)) = []"
  by (induction xs) simp_all

lemma find_str_at:
  assumes "find_str p s = Some n"
  shows "s = take n s @ p @ drop (n + length p) s"
  using assms
proof (induction s arbitrary: n)
  case (Cons c s)
  show ?case
  proof (cases "starts_with p (c # s)")
    case True
    then have "take (length p) (c # s) = p" by (simp add: starts_with_def)
    then show ?thesis using Cons.prems True append_take_drop_id [of "length p" "c # s"] by simp
  next
    case False
    then obtain m where "n = Suc m" "find_str p s = Some m" using Cons.prems by auto
    then show ?thesis using Cons.IH [of m] by simp
  qed
qed (auto split: if_splits)

lemma find_str_drop: "find_str p s = Some n \<Longrightarrow> drop n s = p @ drop (n + length p) s"
  using find_str_at [of p s n] find_str_bound [of p s n] by (metis append_eq_append_conv append_take_drop_id)

lemma find_key_mem: "List.find (\<lambda>(key, _). key = token) values = Some (k, v) \<Longrightarrow> k = token \<and> (k, v) \<in> set values"
  by (induction "values") (auto split: if_splits)

lemma replace_token_markup:
  assumes "\<forall>(key, _)\<in>set values. filter markup key = []"
  shows "filter markup (replace_token values token) = filter markup token"
proof (cases "List.find (\<lambda>(key, _). key = token) values")
  case (Some kv)
  then show ?thesis using assms find_key_mem [of token "values"]
    by (cases kv) (auto simp: replace_token_def filter_concat_empty)
qed (simp add: replace_token_def markup_def)

lemma replacements_markup: "\<forall>(key, _)\<in>set (replacements version links). filter markup key = []"
  by (simp add: replacements_def markup_def)

lemma token_markup: "filter markup (drop 2 (take n (''{{'' @ s))) = filter markup (take n (''{{'' @ s))"
  by (cases n; cases "n - 1") (auto simp: markup_def)

lemma render_markup:
  assumes "\<forall>(key, _)\<in>set values. filter markup key = []"
  shows "filter markup (render values s) = filter markup s"
  using assms
proof (induction "values" s rule: render.induct)
  case (1 "values" s)
  note prem = "1.prems" and IH = "1.IH"
  show ?case
  proof (cases "find_str ''{{'' s")
    case None
    then show ?thesis by (simp add: render.simps [of "values" s])
  next
    case start: (Some start)
    let ?on = "drop start s"
    have on: "?on = ''{{'' @ drop (start + 2) s" using find_str_drop [OF start] by simp
    have s: "filter markup s = filter markup (take start s) @ filter markup ?on"
      by (metis append_take_drop_id filter_append)
    show ?thesis
    proof (cases "find_str ''}}'' ?on")
      case None
      then show ?thesis using s by (simp add: render.simps [of "values" s] start)
    next
      case fin: (Some fin)
      have "?on = take fin ?on @ ''}}'' @ drop (fin + 2) ?on" using find_str_at [OF fin] by simp
      then have "filter markup ?on = filter markup (take fin ?on @ ''}}'' @ drop (fin + 2) ?on)" by (rule arg_cong)
      then have "filter markup ?on = filter markup (take fin ?on) @ filter markup (drop (fin + 2) ?on)"
        by (simp only: filter_append) (simp add: markup_def)
      moreover have "filter markup (drop 2 (take fin ?on)) = filter markup (take fin ?on)"
        unfolding on by (rule token_markup)
      ultimately show ?thesis using s IH [OF start refl fin prem] prem
        by (simp add: render.simps [of "values" s] start fin Let_def replace_token_markup)
    qed
  qed
qed

text \<open>
  The links cannot change the page. Whatever the configured links and the version contain,
  the rendered homepage has exactly the angle brackets and quotes of the template, in its
  order: a link can neither open a tag nor leave the attribute it stands in. Rendering
  is one pass that ends on every template, so inserted text is never read as a token.
\<close>
lemma homepage_markup_fixed:
  "filter markup (render_homepage version html links) = filter markup html"
  unfolding render_homepage_def by (rule render_markup [OF replacements_markup])

text \<open>The slice of the token is never reversed: the closing braces come after the opening ones.\<close>
lemma token_slice_ok:
  assumes "find_str ''{{'' s = Some start" "find_str ''}}'' (drop start s) = Some fin"
  shows "2 \<le> fin"
proof -
  have "drop start s = ''{{'' @ drop (start + 2) s" using find_str_drop [OF assms(1)] by simp
  then have "find_str ''}}'' (''{{'' @ drop (start + 2) s) = Some fin" using assms(2) by simp
  then show ?thesis by (auto simp: starts_with_def)
qed

section \<open>Probes and metrics\<close>

definition health_check :: http_response where
  "health_check = \<lparr>hr_status = 200, hr_headers = [], hr_body = JObject [(''status'', JString ''ok'')]\<rparr>"

definition ready :: "bool \<Rightarrow> http_response" where
  "ready connection_healthy =
    (if connection_healthy
     then \<lparr>hr_status = 200, hr_headers = [],
           hr_body = JObject [(''status'', JString ''ready''), (''backend_connected'', JBool True)]\<rparr>
     else \<lparr>hr_status = 503, hr_headers = [],
           hr_body = JObject [(''status'', JString ''not_ready''), (''backend_connected'', JBool False)]\<rparr>)"

text \<open>The encoder of the metrics library, which may fail, and its content type are arguments.\<close>
definition metrics_handler :: "(app_metrics \<Rightarrow> string option) \<Rightarrow> string \<Rightarrow> app_metrics \<Rightarrow> text_response" where
  "metrics_handler encode format_type registry =
    (case encode registry of
       None \<Rightarrow> \<lparr>tr_status = 500, tr_content_type = None, tr_body = []\<rparr>
     | Some buffer \<Rightarrow> \<lparr>tr_status = 200, tr_content_type = Some format_type, tr_body = buffer\<rparr>)"

section \<open>Schemas\<close>

text \<open>\<open>ser\<close> is the derived serializer of a schema as the API shows it.\<close>
definition get_notification_schema :: "(api_event_schema \<Rightarrow> json) \<Rightarrow> schema_map option \<Rightarrow> http_response" where
  "get_notification_schema ser global =
    (case global of
       Some schemas \<Rightarrow>
         (let api = map (\<lambda>(key, s). (key, api_schema_of s)) schemas
          in \<lparr>hr_status = 200, hr_headers = [], hr_body = json_object
                [(''status'', JString ''success''),
                 (''schema'', json_object (map (\<lambda>(key, s). (key, ser s)) api)),
                 (''event_types'', JArray (map (JString \<circ> fst) api)),
                 (''total_schemas'', JNumber (PosInt (length api)))]\<rparr>)
     | None \<Rightarrow> \<lparr>hr_status = 200, hr_headers = [], hr_body = json_object
                [(''status'', JString ''success''), (''schema'', JObject []), (''event_types'', JArray []),
                 (''total_schemas'', JNumber (PosInt 0)), (''message'', JString ''No notification schema configured'')]\<rparr>)"

definition get_event_schema ::
  "(api_event_schema \<Rightarrow> json) \<Rightarrow> schema_map option \<Rightarrow> string \<Rightarrow> string \<Rightarrow> http_response" where
  "get_event_schema ser global event_type request_id =
    (case global of
       Some schemas \<Rightarrow>
         (case map_of schemas event_type of
            Some event_schema \<Rightarrow> \<lparr>hr_status = 200, hr_headers = [], hr_body = json_object
                [(''status'', JString ''success''), (''event_type'', JString event_type),
                 (''schema'', ser (api_schema_of event_schema))]\<rparr>
          | None \<Rightarrow> \<lparr>hr_status = 404, hr_headers = [], hr_body = json_object
                [(''status'', JString ''error''), (''message'', JString (''Event type '' @ qt event_type @ '' not found'')),
                 (''available_types'', JArray (map (JString \<circ> fst) schemas)), (''request_id'', JString request_id)]\<rparr>)
     | None \<Rightarrow> \<lparr>hr_status = 404, hr_headers = [], hr_body = json_object
                [(''status'', JString ''error''), (''message'', JString ''No notification schema configured''),
                 (''request_id'', JString request_id)]\<rparr>)"

text \<open>Topics, storage policies and authorization of a schema never reach an answer.\<close>
lemma schema_answers_public:
  assumes "list_all2 (\<lambda>(k1, s1) (k2, s2). k1 = k2 \<and> es_payload s1 = es_payload s2 \<and> es_identifier s1 = es_identifier s2) a b"
  shows "get_notification_schema ser (Some a) = get_notification_schema ser (Some b)"
    "get_event_schema ser (Some a) event_type rid = get_event_schema ser (Some b) event_type rid"
proof -
  have api: "map (\<lambda>(key, s). (key, api_schema_of s)) a = map (\<lambda>(key, s). (key, api_schema_of s)) b"
    using assms by (induction rule: list_all2_induct) (auto simp: api_schema_of_def)
  have keys: "map (JString \<circ> fst) a = map (JString \<circ> fst) b"
    using assms by (induction rule: list_all2_induct) auto
  have "rel_option (\<lambda>s1 s2. api_schema_of s1 = api_schema_of s2) (map_of a event_type) (map_of b event_type)"
    using assms by (induction rule: list_all2_induct) (auto simp: api_schema_of_def)
  then show "get_event_schema ser (Some a) event_type rid = get_event_schema ser (Some b) event_type rid"
    by (auto simp: get_event_schema_def keys option_rel_Some1 split: option.splits)
  show "get_notification_schema ser (Some a) = get_notification_schema ser (Some b)"
    by (simp add: get_notification_schema_def api Let_def)
qed

section \<open>Request ids and spans\<close>

definition request_id_from_request :: "string option \<Rightarrow> string" where
  "request_id_from_request request_id = unwrap_or [] request_id"

definition insert_header :: "string \<Rightarrow> string \<Rightarrow> (string \<times> string) list \<Rightarrow> (string \<times> string) list" where
  "insert_header name v headers = filter (\<lambda>(n, _). n \<noteq> name) headers @ [(name, v)]"

text \<open>The middleware, over what the inner service returned; \<open>header_value\<close> is the check of the HTTP library.\<close>
definition request_id_header :: "(string \<Rightarrow> bool) \<Rightarrow> string option \<Rightarrow> 'e + http_response \<Rightarrow> 'e + http_response" where
  "request_id_header header_value request_id result =
     map_res (\<lambda>res. case request_id of
         Some rid \<Rightarrow> if header_value rid
           then res\<lparr>hr_headers := insert_header ''x-request-id'' rid (hr_headers res)\<rparr> else res
       | None \<Rightarrow> res) result"

definition is_infrastructure_path :: "string \<Rightarrow> bool" where
  "is_infrastructure_path path =
    (path = ''/health'' \<or> path = ''/metrics'' \<or> starts_with ''/static/'' path \<or>
     starts_with ''/swagger-ui/'' path \<or> starts_with ''/api-docs/'' path)"

definition on_request_start :: "string \<Rightarrow> level" where
  "on_request_start path = (if is_infrastructure_path path then LDebug else LInfo)"

section \<open>The backend of a server\<close>

definition mem_config_of :: "backend_settings \<Rightarrow> mem_config" where
  "mem_config_of bs =
    (let im = bs_in_memory bs
     in \<lparr>max_history_per_topic = unwrap_or 1 (Option.bind im im_max_history_per_topic),
         max_topics = unwrap_or 10000 (Option.bind im im_max_topics),
         enable_metrics = unwrap_or False (Option.bind im im_enable_metrics)\<rparr>)"

datatype 'c backend = InMemory mem_config mem_state | JetStream jetstream_config 'c

fun backend_capabilities :: "'c backend \<Rightarrow> capabilities" where
  "backend_capabilities (InMemory _ _) = IN_MEMORY_CAPABILITIES"
| "backend_capabilities (JetStream _ _) = JETSTREAM_CAPABILITIES"

text \<open>\<open>answer\<close> is what the client library answers to the n-th attempt to connect; the delays between the attempts are returned.\<close>
definition build_backend ::
  "string option \<Rightarrow> (nat \<Rightarrow> string + 'c) \<Rightarrow> backend_settings \<Rightarrow> (err + 'c backend) \<times> nat list" where
  "build_backend env_token answer bs =
    (if bs_kind bs = ''in_memory'' then (Inr (InMemory (mem_config_of bs) new_mem_state), [])
     else if bs_kind bs = ''jetstream''
     then (case bind_res (jetstream_config_of env_token bs) (\<lambda>cfg. map_res (\<lambda>_. cfg) (validate_jetstream_config cfg)) of
             Inl e \<Rightarrow> (Inl e, [])
           | Inr cfg \<Rightarrow> (case connect cfg answer of (r, delays) \<Rightarrow> (map_res (JetStream cfg) r, delays)))
     else (bail (''Unknown notification_backend kind: '' @ bs_kind bs), []))"

text \<open>The capabilities the configuration was checked against are those of the backend that is built.\<close>
lemma built_capabilities:
  assumes "fst (build_backend env_token answer bs) = Inr b"
  shows "capabilities_for_backend_kind (bs_kind bs) = Some (backend_capabilities b)"
  using assms by (auto simp: build_backend_def capabilities_for_backend_kind_def result_simps split: if_splits sum.splits prod.splits)

lemma built_jetstream_checked:
  assumes "fst (build_backend env_token answer bs) = Inr (JetStream cfg conn)"
  shows "validate_jetstream_config cfg = Inr ()"
  using assms by (auto simp: build_backend_def result_simps split: if_splits sum.splits prod.splits)

end
