(* ===== verification/SchemaJson.thy ===== *)
theory SchemaJson
  imports Pages Endpoints
begin

text \<open>
  The JSON form of the field rules: the hand-written reader and writer of
  \<open>IdentifierFieldConfig\<close> and the shape the schema endpoints answer with
  (\<open>src/configuration/types.rs\<close>), over the rules of \<open>aviso-validators/src/types.rs\<close>, whose attributes
  give each rule the tag \<open>type\<close> beside its fields. The texts of the library's own errors
  are not modelled.
\<close>

section \<open>Rules\<close>

fun opt_json :: "('a \<Rightarrow> json) \<Rightarrow> 'a option \<Rightarrow> json" where
  "opt_json f None = JNull"
| "opt_json f (Some x) = f x"

definition json_of_i64 :: "int \<Rightarrow> json" where
  "json_of_i64 i = JNumber (if 0 \<le> i then PosInt (nat i) else NegInt i)"

text \<open>A float that is not finite becomes \<open>null\<close>.\<close>
definition json_of_float :: "f64 \<Rightarrow> json" where
  "json_of_float x = (case json_of_f64 x of Some v \<Rightarrow> v | None \<Rightarrow> JNull)"

fun rule_name :: "validation_rules \<Rightarrow> string" where
  "rule_name (StringHandler _ _) = ''StringHandler''"
| "rule_name (DateHandler _ _) = ''DateHandler''"
| "rule_name (EnumHandler _ _) = ''EnumHandler''"
| "rule_name (ExpverHandler _ _) = ''ExpverHandler''"
| "rule_name (IntHandler _ _) = ''IntHandler''"
| "rule_name (FloatHandler _ _) = ''FloatHandler''"
| "rule_name (TimeHandler _) = ''TimeHandler''"
| "rule_name (PolygonHandler _) = ''PolygonHandler''"
| "rule_name (PointCloudHandler _ _) = ''PointCloudHandler''"

fun rule_options :: "validation_rules \<Rightarrow> json alist" where
  "rule_options (StringHandler max_length _) = [(''max_length'', opt_json (\<lambda>n. JNumber (PosInt n)) max_length)]"
| "rule_options (DateHandler canonical_format _) = [(''canonical_format'', JString canonical_format)]"
| "rule_options (EnumHandler allowed _) = [(''values'', JArray (map JString allowed))]"
| "rule_options (ExpverHandler dflt _) = [(''default'', opt_json JString dflt)]"
| "rule_options (IntHandler bounds _) =
     [(''range'', opt_json (\<lambda>(a, b). JArray [json_of_i64 a, json_of_i64 b]) bounds)]"
| "rule_options (FloatHandler bounds _) =
     [(''range'', opt_json (\<lambda>(a, b). JArray [json_of_float a, json_of_float b]) bounds)]"
| "rule_options (TimeHandler _) = []"
| "rule_options (PolygonHandler _) = []"
| "rule_options (PointCloudHandler _ max_points) = [(''max_points'', JNumber (PosInt max_points))]"

definition rule_entries :: "validation_rules \<Rightarrow> json alist" where
  "rule_entries r = (''type'', JString (rule_name r)) # (''required'', JBool (is_required r)) # rule_options r"

section \<open>Reading rules\<close>

fun as_bool :: "json \<Rightarrow> bool option" where
  "as_bool (JBool b) = Some b"
| "as_bool _ = None"

text \<open>An optional field may be absent or \<open>null\<close>.\<close>
definition read_option :: "(json \<Rightarrow> 'a option) \<Rightarrow> json alist \<Rightarrow> string \<Rightarrow> 'a option option" where
  "read_option f m k =
    (case map_of m k of None \<Rightarrow> Some None | Some JNull \<Rightarrow> Some None | Some v \<Rightarrow> map_option Some (f v))"

definition read_field :: "(json \<Rightarrow> 'a option) \<Rightarrow> json alist \<Rightarrow> string \<Rightarrow> 'a option" where
  "read_field f m k = Option.bind (map_of m k) f"

fun read_all :: "(json \<Rightarrow> 'a option) \<Rightarrow> json list \<Rightarrow> 'a list option" where
  "read_all f [] = Some []"
| "read_all f (v # vs) = Option.bind (f v) (\<lambda>x. map_option (Cons x) (read_all f vs))"

definition as_strings :: "json \<Rightarrow> string list option" where
  "as_strings v = Option.bind (as_array v) (read_all as_str)"

definition as_pair :: "(json \<Rightarrow> 'a option) \<Rightarrow> json \<Rightarrow> ('a \<times> 'a) option" where
  "as_pair f v =
    (case as_array v of
       Some [x, y] \<Rightarrow> Option.bind (f x) (\<lambda>a. map_option (Pair a) (f y))
     | _ \<Rightarrow> None)"

definition rule_from_entries :: "json alist \<Rightarrow> validation_rules option" where
  "rule_from_entries m =
     Option.bind (read_field as_str m ''type'') (\<lambda>name.
     Option.bind (read_field as_bool m ''required'') (\<lambda>required.
     if name = ''StringHandler'' then map_option (\<lambda>n. StringHandler n required) (read_option as_u64 m ''max_length'')
     else if name = ''DateHandler'' then map_option (\<lambda>s. DateHandler s required) (read_field as_str m ''canonical_format'')
     else if name = ''EnumHandler'' then map_option (\<lambda>vs. EnumHandler vs required) (read_field as_strings m ''values'')
     else if name = ''ExpverHandler'' then map_option (\<lambda>d. ExpverHandler d required) (read_option as_str m ''default'')
     else if name = ''IntHandler'' then map_option (\<lambda>r. IntHandler r required) (read_option (as_pair as_i64) m ''range'')
     else if name = ''FloatHandler'' then map_option (\<lambda>r. FloatHandler r required) (read_option (as_pair as_f64) m ''range'')
     else if name = ''TimeHandler'' then Some (TimeHandler required)
     else if name = ''PolygonHandler'' then Some (PolygonHandler required)
     else if name = ''PointCloudHandler'' then
       map_option (PointCloudHandler required)
         (case map_of m ''max_points'' of None \<Rightarrow> Some DEFAULT_MAX_POINTS | Some v \<Rightarrow> as_u64 v)
     else None))"

section \<open>Fields\<close>

datatype field_error = DerivedError | UnknownFields string

text \<open>
  The rule is read, written again and compared with what was given: a field the rule does not
  have is an error, although the derived reader ignores it. The description is taken out first.
\<close>
definition deserialize_field :: "json \<Rightarrow> field_error + identifier_field_config" where
  "deserialize_field v =
    bind_res (of_option DerivedError (as_object v)) (\<lambda>m.
    bind_res (of_option DerivedError (read_option as_str m ''description'')) (\<lambda>description.
    let rule_value = map_collect (filter (\<lambda>(k, _). k \<noteq> ''description'') m) in
    bind_res (of_option DerivedError (rule_from_entries rule_value)) (\<lambda>rule.
    let unknown_fields = filter (\<lambda>k. \<not> has_key (rule_entries rule) k) (map fst rule_value) in
    if unknown_fields \<noteq> [] then Inl (UnknownFields (''unknown field(s): '' @ join '', '' unknown_fields))
    else Inr \<lparr>if_description = description, if_rule = rule\<rparr>)))"

definition serialize_field :: "identifier_field_config \<Rightarrow> json" where
  "serialize_field c =
     json_object (optional_entry ''description'' (map_option JString (if_description c)) @ rule_entries (if_rule c))"

text \<open>The shape of the schema endpoints, where a missing payload is \<open>null\<close>.\<close>
definition api_schema_json :: "api_event_schema \<Rightarrow> json" where
  "api_schema_json s = json_object
     [(''payload'', opt_json (\<lambda>p. json_object [(''required'', JBool (pc_required p))]) (ae_payload s)),
      (''identifier'', json_object (map (\<lambda>(k, c). (k, serialize_field c)) (ae_identifier s)))]"

section \<open>Round trip\<close>

text \<open>The values a JSON number can carry.\<close>
fun rule_ok :: "validation_rules \<Rightarrow> bool" where
  "rule_ok (IntHandler (Some (a, b)) _) = (is_i64 a \<and> is_i64 b)"
| "rule_ok (FloatHandler (Some (a, b)) _) = (is_finite a \<and> is_finite b)"
| "rule_ok _ = True"

lemma as_i64_of [simp]: "is_i64 i \<Longrightarrow> as_i64 (json_of_i64 i) = Some i"
  by (auto simp: json_of_i64_def is_i64_def)

lemma as_f64_of [simp]: "is_finite x \<Longrightarrow> as_f64 (json_of_float x) = Some x"
  by (simp add: json_of_float_def json_of_f64_def)

lemma read_all_strings [simp]: "read_all as_str (map JString xs) = Some xs"
  by (induction xs) simp_all

lemma read_option_opt [simp]:
  "map_of m k = Some (opt_json f x) \<Longrightarrow> (\<And>y. x = Some y \<Longrightarrow> g (f y) = Some y \<and> f y \<noteq> JNull) \<Longrightarrow> read_option g m k = Some x"
  by (cases x) (auto simp: read_option_def split: json.splits)

lemma read_option_null [simp]: "map_of m k = Some JNull \<Longrightarrow> read_option g m k = Some None"
  by (simp add: read_option_def)

lemma rule_read_back:
  assumes "rule_ok r" "\<And>k. k \<in> fst ` set (rule_entries r) \<Longrightarrow> map_of m k = map_of (rule_entries r) k"
  shows "rule_from_entries m = Some r"
proof -
  have get: "map_of m ''type'' = Some (JString (rule_name r))" "map_of m ''required'' = Some (JBool (is_required r))"
    "\<And>k v. rule_options r = [(k, v)] \<Longrightarrow> k \<noteq> ''type'' \<Longrightarrow> k \<noteq> ''required'' \<Longrightarrow> map_of m k = Some v"
    using assms(2) by (simp_all add: rule_entries_def)
  show ?thesis
    using assms(1) get
    by (cases r) (auto simp: rule_from_entries_def read_field_def as_strings_def as_pair_def elim!: rule_ok.elims)
qed

lemma keys_collect: "fst ` set (map_collect kvs) = fst ` set kvs"
  using dom_map_of_conv_image_fst [of "map_collect kvs"] dom_map_of_conv_image_fst [of "rev kvs"] by (simp add: map_of_collect)

lemma rule_entries_keys: "distinct (map fst (rule_entries r))" "''description'' \<notin> fst ` set (rule_entries r)"
  by (cases r; simp add: rule_entries_def)+

lemma map_of_filter_keys: "map_of (filter (\<lambda>(k, _). P k) m) k = (if P k then map_of m k else None)"
  by (induction m) auto

lemma sorted_object_lookup:
  "distinct (map fst xs) \<Longrightarrow> map_of (sort_key fst xs) = map_of (xs :: json alist)"
  using json_get_object [of xs] by (auto simp: json_get_def json_object_def)

lemma field_survives:
  assumes "rule_ok (if_rule c)"
  shows "deserialize_field (serialize_field c) = Inr c"
proof -
  define entries where "entries = optional_entry ''description'' (map_option JString (if_description c)) @ rule_entries (if_rule c)"
  define m where "m = sort_key fst entries"
  define rule_value where "rule_value = map_collect (filter (\<lambda>(k, _). k \<noteq> ''description'') m)"
  note keys = rule_entries_keys [of "if_rule c"]
  have distinct: "distinct (map fst entries)"
    using keys by (simp add: entries_def optional_entry_def split: option.split)
  then have lookup: "map_of m = map_of entries" unfolding m_def by (rule sorted_object_lookup)
  have dm: "distinct (map fst (filter (\<lambda>(k, _). k \<noteq> ''description'') m))"
    using distinct by (intro distinct_map_filter) (simp add: m_def distinct_map)
  have description: "read_option as_str m ''description'' = Some (if_description c)"
  proof (cases "if_description c")
    case None
    have "map_of m ''description'' = None"
      using keys(2) unfolding lookup entries_def None by (simp add: optional_entry_def map_of_eq_None_iff)
    then show ?thesis by (simp add: read_option_def None)
  next
    case (Some d)
    have "map_of m ''description'' = Some (JString d)"
      unfolding lookup entries_def Some by (simp add: optional_entry_def)
    then show ?thesis by (simp add: read_option_def Some)
  qed
  have fields: "map_of rule_value k = (if k \<noteq> ''description'' then map_of (rule_entries (if_rule c)) k else None)" for k
    unfolding rule_value_def map_of_collect map_of_rev_distinct [OF dm] map_of_filter_keys lookup entries_def
    by (simp add: optional_entry_def split: option.split)
  have rule: "rule_from_entries rule_value = Some (if_rule c)"
  proof (rule rule_read_back [OF assms])
    fix k assume "k \<in> fst ` set (rule_entries (if_rule c))"
    then have "k \<noteq> ''description''" using keys(2) by metis
    then show "map_of rule_value k = map_of (rule_entries (if_rule c)) k" by (simp add: fields)
  qed
  have "fst ` set rule_value \<subseteq> fst ` set (rule_entries (if_rule c))"
    using fields by (metis (no_types, lifting) dom_map_of_conv_image_fst domI domIff subsetI)
  then have known: "filter (\<lambda>k. \<not> has_key (rule_entries (if_rule c)) k) (map fst rule_value) = []"
    by (auto simp: filter_empty_conv)
  show ?thesis
    unfolding deserialize_field_def serialize_field_def json_object_def
      entries_def [symmetric] m_def [symmetric] as_object.simps of_option.simps bind_res.simps description
      Let_def rule_value_def [symmetric] rule known
    by simp
qed

text \<open>Nothing that was written in a field is ignored.\<close>
lemma field_strict:
  assumes "deserialize_field (JObject m) = Inr c" "k \<in> fst ` set m"
  shows "k = ''description'' \<or> k \<in> fst ` set (rule_entries (if_rule c))"
proof -
  let ?rest = "filter (\<lambda>(k, _). k \<noteq> ''description'') m"
  have "filter (\<lambda>k. \<not> has_key (rule_entries (if_rule c)) k) (map fst (map_collect ?rest)) = []"
    using assms(1) by (auto simp: deserialize_field_def Let_def result_simps simp del: has_key_iff split: if_splits)
  then have "fst ` set (map_collect ?rest) \<subseteq> fst ` set (rule_entries (if_rule c))"
    by (auto simp: filter_empty_conv)
  then have "fst ` set ?rest \<subseteq> fst ` set (rule_entries (if_rule c))" unfolding keys_collect .
  then show ?thesis using assms(2) by force
qed

text \<open>
  C36: the rules a client reads are the rules that are enforced. In the answer of the schema
  endpoint for a configured event type every identifier field of its schema appears, in a form that
  the configuration reader reads back to exactly this field, description and rule; and the
  reader ignores nothing: whatever it accepts has only keys of the rule it read.
\<close>
theorem schema_fields_roundtrip:
  assumes "map_of schemas event_type = Some schema" "distinct (map fst (es_identifier schema))"
    "(k, c) \<in> set (es_identifier schema)" "rule_ok (if_rule c)"
  shows "\<exists>v. Option.bind (json_get ''schema'' (hr_body (get_event_schema api_schema_json (Some schemas) event_type rid)))
             (\<lambda>s. Option.bind (json_get ''identifier'' s) (json_get k)) = Some v \<and>
           deserialize_field v = Inr c \<and>
           (\<forall>m c'. deserialize_field (JObject m) = Inr c' \<longrightarrow>
              fst ` set m \<subseteq> insert ''description'' (fst ` set (rule_entries (if_rule c'))))"
proof -
  let ?fields = "map (\<lambda>(k, c). (k, serialize_field c)) (ae_identifier (api_schema_of schema))"
  have same: "\<lparr>if_description = if_description b, if_rule = if_rule b\<rparr> = b" for b :: identifier_field_config by simp
  have fields: "?fields = map (\<lambda>(k, c). (k, serialize_field c)) (es_identifier schema)"
    by (auto simp: api_schema_of_def same)
  have "map_of ?fields k = Some (serialize_field c)"
    unfolding fields using assms(2,3) by (intro map_of_is_SomeI) (force simp: comp_def case_prod_unfold)+
  moreover have "distinct (map fst ?fields)" unfolding fields using assms(2) by (simp add: comp_def case_prod_unfold)
  ultimately have "Option.bind (json_get ''schema'' (hr_body (get_event_schema api_schema_json (Some schemas) event_type rid)))
      (\<lambda>s. Option.bind (json_get ''identifier'' s) (json_get k)) = Some (serialize_field c)"
    by (simp add: get_event_schema_def assms(1) api_schema_json_def json_get_object)
  then show ?thesis using field_survives [OF assms(4)] field_strict by blast
qed

theorem schema_fields_roundtrip_witness:
  "\<exists>v. Option.bind (json_get ''schema'' (hr_body (get_event_schema api_schema_json (Some [(''wx'', sample_schema)]) ''wx'' ''r'')))
         (\<lambda>s. Option.bind (json_get ''identifier'' s) (json_get ''region'')) = Some v \<and>
       deserialize_field v = Inr \<lparr>if_description = None, if_rule = EnumHandler [''North'', ''south''] True\<rparr>"
proof -
  have schema: "map_of [(''wx'', sample_schema)] ''wx'' = Some sample_schema" "distinct (map fst (es_identifier sample_schema))"
    "(''region'', \<lparr>if_description = None, if_rule = EnumHandler [''North'', ''south''] True\<rparr>) \<in> set (es_identifier sample_schema)"
    by (simp_all add: sample_schema_def)
  show ?thesis using schema_fields_roundtrip [OF schema, of "''r''"] by auto
qed

text \<open>A misspelt field of a rule is refused, with its name.\<close>
lemma misspelt_field_refused:
  "deserialize_field (JObject [(''max_lenght'', JNumber (PosInt 3)), (''required'', JBool True), (''type'', JString ''StringHandler'')]) =
   Inl (UnknownFields ''unknown field(s): max_lenght'')"
  by (simp add: deserialize_field_def read_option_def rule_from_entries_def read_field_def map_collect_def rule_entries_def
      List_Lexorder.list_less_def lexordp_def)

end
