(* ===== verification/SettingsJson.thy ===== *)
theory SettingsJson
  imports SchemaJson Startup Telemetry
begin

text \<open>
  The JSON form of the settings, derived on the structures of \<open>src/configuration/types.rs\<close>,
  \<open>auth.rs\<close>, \<open>homepage.rs\<close> and \<open>aviso-ecpds/src/config.rs\<close>, and what the process logs of it at its
  start: \<open>redacted_config_json\<close> of \<open>src/main.rs\<close>. The hand-written debug forms of the two structures
  that hold a password are here as well.
\<close>

section \<open>The derived forms\<close>

definition json_of_nat :: "nat \<Rightarrow> json" where
  "json_of_nat n = JNumber (PosInt n)"

definition strings_json :: "string list \<Rightarrow> json" where
  "strings_json xs = JArray (map JString xs)"

definition realm_roles_json :: "realm_roles \<Rightarrow> json" where
  "realm_roles_json rr = json_object (map (\<lambda>(realm, roles). (realm, strings_json roles)) rr)"

definition homepage_json :: "homepage_settings \<Rightarrow> json" where
  "homepage_json hp = json_object
     [(''client_documentation_url'', JString (hp_client_documentation_url hp)),
      (''client_repository_url'', JString (hp_client_repository_url hp)),
      (''server_documentation_url'', JString (hp_server_documentation_url hp)),
      (''server_repository_url'', JString (hp_server_repository_url hp))]"

definition application_json :: "application_settings \<Rightarrow> json" where
  "application_json ap = json_object
     [(''homepage'', homepage_json (ap_homepage ap)), (''host'', JString (ap_host ap)),
      (''port'', json_of_nat (ap_port ap)), (''base_url'', JString (ap_base_url ap)),
      (''static_files_path'', JString (ap_static_files_path ap))]"

definition watch_endpoint_json :: "watch_endpoint_settings \<Rightarrow> json" where
  "watch_endpoint_json we = json_object
     [(''sse_heartbeat_interval_sec'', json_of_nat (we_sse_heartbeat_interval_sec we)),
      (''connection_max_duration_sec'', json_of_nat (we_connection_max_duration_sec we)),
      (''replay_batch_size'', json_of_nat (we_replay_batch_size we)),
      (''max_historical_notifications'', json_of_nat (we_max_historical_notifications we)),
      (''replay_batch_delay_ms'', json_of_nat (we_replay_batch_delay_ms we)),
      (''concurrent_notification_processing'', json_of_nat (we_concurrent_notification_processing we))]"

fun storage_type_json :: "storage_type \<Rightarrow> json" where
  "storage_type_json FileStorage = JString ''file''"
| "storage_type_json MemoryStorage = JString ''memory''"

fun retention_policy_json :: "retention_policy \<Rightarrow> json" where
  "retention_policy_json Limits = JString ''limits''"
| "retention_policy_json Interest = JString ''interest''"
| "retention_policy_json Workqueue = JString ''workqueue''"

fun discard_policy_json :: "discard_policy \<Rightarrow> json" where
  "discard_policy_json OldMessages = JString ''old''"
| "discard_policy_json NewMessages = JString ''new''"

definition jetstream_json :: "jetstream_settings \<Rightarrow> json" where
  "jetstream_json js = json_object
     [(''nats_url'', opt_json JString (js_nats_url js)), (''token'', opt_json JString (js_token js)),
      (''timeout_seconds'', opt_json json_of_nat (js_timeout_seconds js)),
      (''retry_attempts'', opt_json json_of_nat (js_retry_attempts js)),
      (''max_messages'', opt_json json_of_i64 (js_max_messages js)),
      (''max_bytes'', opt_json json_of_i64 (js_max_bytes js)),
      (''retention_time'', opt_json JString (js_retention_time js)),
      (''storage_type'', opt_json storage_type_json (js_storage_type js)),
      (''replicas'', opt_json json_of_nat (js_replicas js)),
      (''retention_policy'', opt_json retention_policy_json (js_retention_policy js)),
      (''discard_policy'', opt_json discard_policy_json (js_discard_policy js)),
      (''max_reconnect_attempts'', opt_json json_of_nat (js_max_reconnect_attempts js)),
      (''reconnect_delay_ms'', opt_json json_of_nat (js_reconnect_delay_ms js)),
      (''publish_retry_attempts'', opt_json json_of_nat (js_publish_retry_attempts js)),
      (''publish_retry_base_delay_ms'', opt_json json_of_nat (js_publish_retry_base_delay_ms js))]"

definition in_memory_json :: "in_memory_settings \<Rightarrow> json" where
  "in_memory_json im = json_object
     [(''max_history_per_topic'', opt_json json_of_nat (im_max_history_per_topic im)),
      (''max_topics'', opt_json json_of_nat (im_max_topics im)),
      (''enable_metrics'', opt_json JBool (im_enable_metrics im))]"

definition backend_json :: "backend_settings \<Rightarrow> json" where
  "backend_json bs = json_object
     [(''kind'', JString (bs_kind bs)), (''in_memory'', opt_json in_memory_json (bs_in_memory bs)),
      (''jetstream'', opt_json jetstream_json (bs_jetstream bs))]"

definition metrics_json :: "metrics_settings \<Rightarrow> json" where
  "metrics_json ms = json_object
     [(''enabled'', JBool (ms_enabled ms)), (''host'', JString (ms_host ms)),
      (''port'', opt_json json_of_nat (ms_port ms))]"

fun otlp_protocol_json :: "otlp_protocol \<Rightarrow> json" where
  "otlp_protocol_json Grpc = JString ''grpc''"
| "otlp_protocol_json Http = JString ''http''"

definition otlp_json :: "otlp_settings \<Rightarrow> json" where
  "otlp_json ot = json_object
     [(''enabled'', JBool (ot_enabled ot)), (''endpoint'', opt_json JString (ot_endpoint ot)),
      (''protocol'', otlp_protocol_json (ot_protocol ot))]"

definition logging_json :: "logging_settings \<Rightarrow> json" where
  "logging_json lg = json_object
     [(''level'', JString (lg_level lg)), (''format'', JString (lg_format lg)),
      (''otlp'', opt_json otlp_json (lg_otlp lg))]"

fun auth_mode_json :: "auth_mode \<Rightarrow> json" where
  "auth_mode_json Direct = JString ''direct''"
| "auth_mode_json TrustedProxy = JString ''trusted_proxy''"

definition serialize_redacted_jwt_secret :: "string \<Rightarrow> json" where
  "serialize_redacted_jwt_secret _ = JString ''[REDACTED]''"

definition auth_json :: "auth_settings \<Rightarrow> json" where
  "auth_json a = json_object
     [(''enabled'', JBool (as_enabled a)), (''mode'', auth_mode_json (as_mode a)),
      (''auth_o_tron_url'', JString (as_url a)),
      (''jwt_secret'', serialize_redacted_jwt_secret (as_jwt_secret a)),
      (''admin_roles'', realm_roles_json (as_admin_roles a)), (''timeout_ms'', json_of_nat (as_timeout_ms a))]"

fun outage_policy_json :: "outage_policy \<Rightarrow> json" where
  "outage_policy_json Strict = JString ''strict''"
| "outage_policy_json AnySuccess = JString ''any_success''"

definition ecpds_json :: "ecpds_config \<Rightarrow> json" where
  "ecpds_json ec = json_object
     [(''username'', JString (ec_username ec)), (''password'', JString (ec_password ec)),
      (''target_field'', JString (ec_target_field ec)), (''match_key'', JString (ec_match_key ec)),
      (''cache_ttl_seconds'', json_of_nat (ec_cache_ttl_seconds ec)),
      (''max_entries'', json_of_nat (ec_max_entries ec)),
      (''request_timeout_seconds'', json_of_nat (ec_request_timeout_seconds ec)),
      (''connect_timeout_seconds'', json_of_nat (ec_connect_timeout_seconds ec)),
      (''partial_outage_policy'', outage_policy_json (ec_partial_outage_policy ec)),
      (''servers'', strings_json (ec_servers ec))]"

definition topic_json :: "topic_config \<Rightarrow> json" where
  "topic_json tc = json_object [(''base'', JString (tc_base tc)), (''key_order'', strings_json (tc_key_order tc))]"

definition payload_json :: "payload_config \<Rightarrow> json" where
  "payload_json pc = json_object [(''required'', JBool (pc_required pc))]"

definition storage_policy_json :: "event_storage_policy \<Rightarrow> json" where
  "storage_policy_json sp = json_object
     [(''retention_time'', opt_json JString (sp_retention_time sp)),
      (''max_messages'', opt_json json_of_i64 (sp_max_messages sp)),
      (''max_size'', opt_json JString (sp_max_size sp)),
      (''allow_duplicates'', opt_json JBool (sp_allow_duplicates sp)),
      (''compression'', opt_json JBool (sp_compression sp))]"

definition stream_auth_json :: "stream_auth_config \<Rightarrow> json" where
  "stream_auth_json sa = json_object
     [(''required'', JBool (sa_required sa)), (''read_roles'', opt_json realm_roles_json (sa_read_roles sa)),
      (''write_roles'', opt_json realm_roles_json (sa_write_roles sa)),
      (''plugins'', opt_json strings_json (sa_plugins sa))]"

definition event_schema_json :: "event_schema \<Rightarrow> json" where
  "event_schema_json es = json_object
     [(''max_historical_notifications'', opt_json json_of_nat (es_max_historical es)),
      (''payload'', opt_json payload_json (es_payload es)), (''topic'', opt_json topic_json (es_topic es)),
      (''endpoint'', opt_json topic_json (es_endpoint es)),
      (''identifier'', json_object (map (\<lambda>(k, c). (k, serialize_field c)) (es_identifier es))),
      (''storage_policy'', opt_json storage_policy_json (es_storage_policy es)),
      (''auth'', opt_json stream_auth_json (es_auth es))]"

definition settings_json :: "settings \<Rightarrow> json" where
  "settings_json st = json_object
     [(''application'', application_json (st_application st)),
      (''notification_backend'', backend_json (st_backend st)),
      (''logging'', opt_json logging_json (st_logging st)),
      (''notification_schema'',
        opt_json (\<lambda>schemas. json_object (map (\<lambda>(k, es). (k, event_schema_json es)) schemas)) (st_schema st)),
      (''notification_schema_strict'', opt_json JBool (st_strict st)),
      (''watch_endpoint'', watch_endpoint_json (st_watch st)), (''auth'', auth_json (st_auth st)),
      (''metrics'', metrics_json (st_metrics st)), (''ecpds'', opt_json ecpds_json (st_ecpds st))]"

section \<open>What is logged\<close>

definition redacted_config_json :: "settings \<Rightarrow> json" where
  "redacted_config_json st = redact_value_recursive (settings_json st)"

text \<open>The debug form of a structure, of a map and of a truth value.\<close>
definition debug_struct :: "string \<Rightarrow> string alist \<Rightarrow> string" where
  "debug_struct name members = name @ '' { '' @ join '', '' (map (\<lambda>(k, v). k @ '': '' @ v) members) @ '' }''"

definition debug_roles :: "host \<Rightarrow> realm_roles \<Rightarrow> string" where
  "debug_roles h rr = ''{'' @ join '', '' (map (\<lambda>(realm, roles). debug_str h realm @ '': '' @ debug_list h roles) rr) @ ''}''"

definition debug_bool :: "bool \<Rightarrow> string" where
  "debug_bool b = (if b then ''true'' else ''false'')"

definition fmt_auth_settings :: "host \<Rightarrow> auth_settings \<Rightarrow> string" where
  "fmt_auth_settings h a = debug_struct ''AuthSettings''
     [(''enabled'', debug_bool (as_enabled a)),
      (''mode'', case as_mode a of Direct \<Rightarrow> ''Direct'' | TrustedProxy \<Rightarrow> ''TrustedProxy''),
      (''auth_o_tron_url'', debug_str h (as_url a)), (''jwt_secret'', debug_str h ''[REDACTED]''),
      (''admin_roles'', debug_roles h (as_admin_roles a)), (''timeout_ms'', show_nat (as_timeout_ms a))]"

definition fmt_ecpds_config :: "host \<Rightarrow> ecpds_config \<Rightarrow> string" where
  "fmt_ecpds_config h ec = debug_struct ''EcpdsConfig''
     [(''username'', debug_str h (ec_username ec)), (''password'', debug_str h ''[REDACTED]''),
      (''target_field'', debug_str h (ec_target_field ec)), (''match_key'', debug_str h (ec_match_key ec)),
      (''cache_ttl_seconds'', show_nat (ec_cache_ttl_seconds ec)), (''max_entries'', show_nat (ec_max_entries ec)),
      (''request_timeout_seconds'', show_nat (ec_request_timeout_seconds ec)),
      (''connect_timeout_seconds'', show_nat (ec_connect_timeout_seconds ec)),
      (''partial_outage_policy'', case ec_partial_outage_policy ec of Strict \<Rightarrow> ''Strict'' | AnySuccess \<Rightarrow> ''AnySuccess''),
      (''servers'', debug_list h (ec_servers ec))]"

section \<open>The start logs no secret\<close>

lemma redact_recursive_simps [simp]:
  "redact_value_recursive (JArray items) = JArray (map redact_value_recursive items)"
  "redact_value_recursive (JString s) =
     (case redact_url_userinfo s of Some redacted_url \<Rightarrow> JString redacted_url | None \<Rightarrow> JString s)"
  "redact_value_recursive (JNumber n) = JNumber n" "redact_value_recursive (JBool b) = JBool b"
  "redact_value_recursive JNull = JNull"
  by (simp_all add: redact_value_recursive.simps)

lemma sort_key_map_values: "sort_key fst (map (\<lambda>(k, v). (k, f k v)) xs) = map (\<lambda>(k, v). (k, f k v)) (sort_key fst xs)"
proof -
  have "insort_key fst (k, f k v) (map (\<lambda>(k, v). (k, f k v)) ys) = map (\<lambda>(k, v). (k, f k v)) (insort_key fst (k, v) ys)"
    for k v ys by (induction ys) auto
  then show ?thesis by (induction xs) (auto simp: sort_key_def)
qed

definition redacted_entry :: "string \<times> json \<Rightarrow> string \<times> json" where
  "redacted_entry = (\<lambda>(key, child). (key, if is_sensitive_key key then redacted_text else redact_value_recursive child))"

lemma redacted_entry_eq: "is_sensitive_key k \<or> redact_value_recursive v = redact_value_recursive v' \<Longrightarrow>
  redacted_entry (k, v) = redacted_entry (k, v')"
  by (auto simp: redacted_entry_def)

lemma redact_object [simp]: "redact_value_recursive (json_object entries) = json_object (map redacted_entry entries)"
  by (simp add: redacted_entry_def redact_value_recursive.simps [of "JObject entries" for entries] json_object_def
      sort_key_map_values [where f = "\<lambda>key child. if is_sensitive_key key then redacted_text else redact_value_recursive child"])

text \<open>What of the settings is secret: two texts, the passwords and tokens, and the URLs that may carry credentials.\<close>
record secrets =
  se_jwt_secret :: string
  se_password :: string
  se_token :: "string option"
  se_auth_url :: string
  se_servers :: "string list"
  se_nats_url :: "string option"
  se_endpoint :: "string option"

definition put_secrets :: "secrets \<Rightarrow> settings \<Rightarrow> settings" where
  "put_secrets x st = st
     \<lparr>st_auth := (st_auth st)\<lparr>as_jwt_secret := se_jwt_secret x, as_url := se_auth_url x\<rparr>,
      st_ecpds := map_option (\<lambda>ec. ec\<lparr>ec_password := se_password x, ec_servers := se_servers x\<rparr>) (st_ecpds st),
      st_backend := (st_backend st)\<lparr>bs_jetstream :=
        map_option (\<lambda>js. js\<lparr>js_token := se_token x, js_nats_url := se_nats_url x\<rparr>) (bs_jetstream (st_backend st))\<rparr>,
      st_logging := map_option (\<lambda>lg. lg\<lparr>lg_otlp := map_option (\<lambda>ot. ot\<lparr>ot_endpoint := se_endpoint x\<rparr>) (lg_otlp lg)\<rparr>)
        (st_logging st)\<rparr>"

definition same_url :: "string \<Rightarrow> string \<Rightarrow> bool" where
  "same_url s t \<longleftrightarrow> s = t \<or> url_alike s t"

text \<open>Passwords and tokens are arbitrary; of the URLs only the credentials differ.\<close>
definition secrets_alike :: "secrets \<Rightarrow> secrets \<Rightarrow> bool" where
  "secrets_alike x y \<longleftrightarrow> same_url (se_auth_url x) (se_auth_url y) \<and> list_all2 same_url (se_servers x) (se_servers y) \<and>
     rel_option same_url (se_nats_url x) (se_nats_url y) \<and> rel_option same_url (se_endpoint x) (se_endpoint y)"

lemma same_url_redacted: "same_url s t \<Longrightarrow> redact_value_recursive (JString s) = redact_value_recursive (JString t)"
  unfolding same_url_def url_alike_def by (elim disjE exE conjE) (simp_all only: redact_url_spec redact_recursive_simps option.case)

lemma same_urls_redacted:
  "rel_option same_url a b \<Longrightarrow> redact_value_recursive (opt_json JString a) = redact_value_recursive (opt_json JString b)"
  "list_all2 same_url us vs \<Longrightarrow> redact_value_recursive (strings_json us) = redact_value_recursive (strings_json vs)"
  by (cases a; cases b; simp add: same_url_redacted del: redact_recursive_simps(2))
    (induction us vs rule: list_all2_induct, auto simp: strings_json_def same_url_redacted simp del: redact_recursive_simps(2))

lemma secret_keys [simp]: "is_sensitive_key ''password''" "is_sensitive_key ''token''"
  by code_simp+

lemma redacted_auth:
  assumes "same_url u v"
  shows "redact_value_recursive (auth_json (a\<lparr>as_jwt_secret := s, as_url := u\<rparr>)) =
    redact_value_recursive (auth_json (a\<lparr>as_jwt_secret := t, as_url := v\<rparr>))"
  using redacted_entry_eq [OF disjI2, OF same_url_redacted, OF assms, of "''auth_o_tron_url''"]
  by (simp add: auth_json_def serialize_redacted_jwt_secret_def)

lemma redacted_ecpds:
  assumes "list_all2 same_url us vs"
  shows "redact_value_recursive (ecpds_json (ec\<lparr>ec_password := s, ec_servers := us\<rparr>)) =
    redact_value_recursive (ecpds_json (ec\<lparr>ec_password := t, ec_servers := vs\<rparr>))"
  using redacted_entry_eq [OF disjI2, OF same_urls_redacted(2), OF assms, of "''servers''"]
    redacted_entry_eq [OF disjI1, OF secret_keys(1), of "JString s" "JString t"]
  by (simp add: ecpds_json_def)

lemma redacted_jetstream:
  assumes "rel_option same_url u v"
  shows "redact_value_recursive (jetstream_json (js\<lparr>js_token := s, js_nats_url := u\<rparr>)) =
    redact_value_recursive (jetstream_json (js\<lparr>js_token := t, js_nats_url := v\<rparr>))"
  using redacted_entry_eq [OF disjI2, OF same_urls_redacted(1), OF assms, of "''nats_url''"]
    redacted_entry_eq [OF disjI1, OF secret_keys(2), of "opt_json JString s" "opt_json JString t"]
  by (simp add: jetstream_json_def)

lemma redacted_otlp:
  assumes "rel_option same_url u v"
  shows "redact_value_recursive (otlp_json (ot\<lparr>ot_endpoint := u\<rparr>)) =
    redact_value_recursive (otlp_json (ot\<lparr>ot_endpoint := v\<rparr>))"
  using redacted_entry_eq [OF disjI2, OF same_urls_redacted(1), OF assms, of "''endpoint''"] by (simp add: otlp_json_def)

lemma redacted_opt:
  "(\<And>z. redact_value_recursive (f (g z)) = redact_value_recursive (f (h z))) \<Longrightarrow>
   redacted_entry (k, opt_json f (map_option g z)) = redacted_entry (k, opt_json f (map_option h z))"
  by (rule redacted_entry_eq) (cases z; simp)

lemma redacted_settings:
  assumes "secrets_alike x y"
  shows "redacted_config_json (put_secrets x st) = redacted_config_json (put_secrets y st)"
proof -
  have url: "same_url (se_auth_url x) (se_auth_url y)" "list_all2 same_url (se_servers x) (se_servers y)"
    "rel_option same_url (se_nats_url x) (se_nats_url y)" "rel_option same_url (se_endpoint x) (se_endpoint y)"
    using assms by (simp_all add: secrets_alike_def)
  let ?x = "put_secrets x st" and ?y = "put_secrets y st"
  have "redacted_entry (''auth'', auth_json (st_auth ?x)) = redacted_entry (''auth'', auth_json (st_auth ?y))"
    using redacted_auth [OF url(1)] by (simp add: put_secrets_def redacted_entry_def)
  moreover have "redacted_entry (''jetstream'', opt_json jetstream_json (bs_jetstream (st_backend ?x))) =
      redacted_entry (''jetstream'', opt_json jetstream_json (bs_jetstream (st_backend ?y)))"
    unfolding put_secrets_def by (simp, rule redacted_opt, rule redacted_jetstream, rule url(3))
  then have "redacted_entry (''notification_backend'', backend_json (st_backend ?x)) =
      redacted_entry (''notification_backend'', backend_json (st_backend ?y))"
    by (intro redacted_entry_eq disjI2) (simp add: backend_json_def put_secrets_def)
  moreover have "redacted_entry (''otlp'', opt_json otlp_json (map_option (\<lambda>ot. ot\<lparr>ot_endpoint := se_endpoint x\<rparr>) o1)) =
      redacted_entry (''otlp'', opt_json otlp_json (map_option (\<lambda>ot. ot\<lparr>ot_endpoint := se_endpoint y\<rparr>) o1))" for o1
    by (rule redacted_opt, rule redacted_otlp, rule url(4))
  then have "redacted_entry (''logging'', opt_json logging_json (st_logging ?x)) =
      redacted_entry (''logging'', opt_json logging_json (st_logging ?y))"
    unfolding put_secrets_def by (simp, intro redacted_opt) (simp add: logging_json_def)
  moreover have "redacted_entry (''ecpds'', opt_json ecpds_json (st_ecpds ?x)) =
      redacted_entry (''ecpds'', opt_json ecpds_json (st_ecpds ?y))"
    unfolding put_secrets_def by (simp, rule redacted_opt, rule redacted_ecpds, rule url(2))
  moreover have "st_application ?x = st_application ?y" "st_schema ?x = st_schema ?y" "st_strict ?x = st_strict ?y"
    "st_watch ?x = st_watch ?y" "st_metrics ?x = st_metrics ?y"
    by (simp_all add: put_secrets_def)
  ultimately show ?thesis by (simp add: redacted_config_json_def settings_json_def)
qed

text \<open>The first at sign ends what is taken for credentials, so a password that contains one is written out from there.\<close>
lemma at_sign_leaks:
  "redact_value_recursive (JString ''nats://user:p@ss@host:4222'') = JString ''nats://[REDACTED]@ss@host:4222''"
  by code_simp

text \<open>
  C37: the start logs no secret. The dump of the effective configuration is the same for any
  passwords, tokens and signing secrets, and for any credentials in the URLs of the authentication
  service, the ECPDS servers, the NATS server and the log collector, where they contain no at
  sign, slash, question mark or number sign; so are the debug forms of the structures that hold a password. What is
  not secret is not lost: the settings of the streams are dumped as they are.
\<close>
theorem startup_dump_secret_free:
  assumes "secrets_alike x y"
  shows "redacted_config_json (put_secrets x st) = redacted_config_json (put_secrets y st) \<and>
    json_get ''watch_endpoint'' (redacted_config_json st) = Some (watch_endpoint_json (st_watch st)) \<and>
    fmt_auth_settings h (a\<lparr>as_jwt_secret := se_jwt_secret x\<rparr>) = fmt_auth_settings h a \<and>
    fmt_ecpds_config h (ec\<lparr>ec_password := se_password x\<rparr>) = fmt_ecpds_config h ec"
proof -
  have keys: "\<not> is_sensitive_key ''watch_endpoint''" "\<not> is_sensitive_key ''sse_heartbeat_interval_sec''"
    "\<not> is_sensitive_key ''connection_max_duration_sec''" "\<not> is_sensitive_key ''replay_batch_size''"
    "\<not> is_sensitive_key ''max_historical_notifications''" "\<not> is_sensitive_key ''replay_batch_delay_ms''"
    "\<not> is_sensitive_key ''concurrent_notification_processing''"
    by code_simp+
  have watch: "redacted_entry (''watch_endpoint'', watch_endpoint_json w) = (''watch_endpoint'', watch_endpoint_json w)" for w
    by (simp add: redacted_entry_def keys watch_endpoint_json_def json_of_nat_def)
  have names: "map fst (map redacted_entry entries) = map fst entries" for entries
    by (simp add: redacted_entry_def case_prod_unfold)
  have lookup: "json_get k (json_object (map redacted_entry entries)) = map_of (map redacted_entry entries) k"
    if "distinct (map fst entries)" for k entries
    by (rule json_get_object) (simp only: names that)
  have "json_get ''watch_endpoint'' (redacted_config_json st) = Some (watch_endpoint_json (st_watch st))"
    unfolding redacted_config_json_def settings_json_def redact_object
    by (subst lookup, simp) (simp add: watch, simp add: redacted_entry_def)
  then show ?thesis using redacted_settings [OF assms] by (simp add: fmt_auth_settings_def fmt_ecpds_config_def)
qed

definition sample_secrets :: "string \<Rightarrow> string \<Rightarrow> secrets" where
  "sample_secrets secret url =
     \<lparr>se_jwt_secret = secret, se_password = secret, se_token = Some secret, se_auth_url = ''https://auth'',
      se_servers = [''https://ecpds''], se_nats_url = Some url, se_endpoint = None\<rparr>"

theorem startup_dump_secret_free_witness:
  "let x = put_secrets (sample_secrets ''s3'' ''nats://u:p@h/x'') site; y = put_secrets (sample_secrets ''t'' ''nats://me@h/x'') site
   in as_jwt_secret (st_auth x) \<noteq> as_jwt_secret (st_auth y) \<and> redacted_config_json x = redacted_config_json y"
proof -
  have "url_alike ''nats://u:p@h/x'' ''nats://me@h/x''"
    unfolding url_alike_def
    by (intro exI [of _ "''nats''"] exI [of _ "''u:p''"] exI [of _ "''me''"] exI [of _ "''h/x''"]) (simp add: starts_with_def)
  then have "secrets_alike (sample_secrets ''s3'' ''nats://u:p@h/x'') (sample_secrets ''t'' ''nats://me@h/x'')"
    by (simp add: secrets_alike_def sample_secrets_def same_url_def)
  from startup_dump_secret_free [OF this, of site] show ?thesis
    by (simp add: Let_def) (simp add: put_secrets_def sample_secrets_def)
qed

end
