(* ===== verification/Stores.thy ===== *)
theory Stores
  imports Endpoints Admin JetStreamReplay "HOL-Library.Multiset"
begin

text \<open>
  The backend as the endpoints use it: the operations of the trait \<open>NotificationBackend\<close>
  (\<open>src/notification_backend/mod.rs\<close>) as the record \<open>backend_ops\<close>, implemented by the in-memory
  backend and by JetStream, and the opening of the three kinds of streams over it
  (\<open>src/sse/live.rs\<close>, \<open>src/sse/replay.rs\<close>). The locales \<open>put_store\<close> and \<open>backend_store\<close> are the
  contract both backends keep: writing may store a notification more than once, nothing else
  adds a message.
\<close>

section \<open>The operations\<close>

text \<open>\<open>'l\<close> is the live part of a subscription.\<close>
record ('s, 'l) backend_ops =
  bo_writer :: "'s writer"
  bo_wipe_stream :: "string \<Rightarrow> 's \<Rightarrow> (err + wipe_result) \<times> 's"
  bo_wipe_all :: "'s \<Rightarrow> (err + unit) \<times> 's"
  bo_delete_message :: "string \<Rightarrow> nat \<Rightarrow> 's \<Rightarrow> (err + delete_result) \<times> 's"
  bo_get_messages_batch :: "batch_params \<Rightarrow> 's \<Rightarrow> (err + batch_result) \<times> 's"
  bo_subscribe_to_topic :: "string \<Rightarrow> 's \<Rightarrow> (err + 'l \<times> nat) \<times> 's"
  bo_history_end :: "string \<Rightarrow> 's \<Rightarrow> (err + nat) \<times> 's"
  bo_first_sequence_after :: "string \<Rightarrow> int \<Rightarrow> 's \<Rightarrow> (err + nat option) \<times> 's"
  bo_connection_healthy :: "'s \<Rightarrow> bool"

text \<open>The live part of an in-memory subscription is the receiver, which filters by the pattern.\<close>
definition mem_ops :: "host \<Rightarrow> mem_config \<Rightarrow> int \<Rightarrow> (mem_state, string list) backend_ops" where
  "mem_ops h cfg now =
     \<lparr>bo_writer = mem_writer cfg now, bo_wipe_stream = mem_wipe h, bo_wipe_all = mem_wipe_all,
      bo_delete_message = mem_delete h,
      bo_get_messages_batch = (\<lambda>p s. (get_messages_batch s p, s)),
      bo_subscribe_to_topic = (\<lambda>topic s.
        (map_res (\<lambda>sub. (sub_pattern sub, sub_history_end sub)) (subscribe_to_topic s topic), s)),
      bo_history_end = (\<lambda>topic s. (history_end s topic, s)),
      bo_first_sequence_after = (\<lambda>topic after s. (first_sequence_after s topic after, s)),
      bo_connection_healthy = (\<lambda>_. True)\<rparr>"

record 's jetstream_backend =
  jb_host :: host
  jb_config :: jetstream_config
  jb_default :: stream_config
  jb_schema :: "schema_map option"
  jb_nats :: "'s nats"
  jb_reader :: "'s reader"
  jb_warden :: "'s warden"
  jb_connected :: "'s \<Rightarrow> bool"

definition jb_ensure :: "'s jetstream_backend \<Rightarrow> string \<Rightarrow> 's \<Rightarrow> (err + string) \<times> 's" where
  "jb_ensure jb = ensure_stream_for_topic (jb_host jb) (jb_nats jb) (jb_default jb) (jb_config jb) (jb_schema jb)"

text \<open>At least one attempt to subscribe is made, so the code after the attempts is never reached.\<close>
definition jb_subscribe :: "'s jetstream_backend \<Rightarrow> string \<Rightarrow> 's \<Rightarrow> (err + message list \<times> nat) \<times> 's" where
  "jb_subscribe jb topic s =
    (case fst (jetstream_subscribe_to_topic (jb_config jb) (jb_reader jb) (jb_ensure jb) topic s) of
       (Some r, s') \<Rightarrow> (r, s')
     | (None, s') \<Rightarrow> (bail ''unreachable'', s'))"

text \<open>Each method of the trait forwards to the function of its module.\<close>
definition jetstream_ops :: "'s jetstream_backend \<Rightarrow> ('s, message list) backend_ops" where
  "jetstream_ops jb =
     \<lparr>bo_writer =
        \<lparr>wr_put_messages = jetstream_put_messages (jb_config jb) (jb_nats jb) (jb_ensure jb),
         wr_put_message_with_headers = jetstream_put_message_with_headers (jb_config jb) (jb_nats jb) (jb_ensure jb)\<rparr>,
      bo_wipe_stream = jetstream_wipe_stream (jb_warden jb), bo_wipe_all = jetstream_wipe_all (jb_warden jb),
      bo_delete_message = jetstream_delete_message (jb_warden jb),
      bo_get_messages_batch = jetstream_get_messages_batch (jb_reader jb) (jb_ensure jb),
      bo_subscribe_to_topic = jb_subscribe jb,
      bo_history_end = jetstream_history_end (jb_reader jb) (jb_ensure jb),
      bo_first_sequence_after = jetstream_first_sequence_after (jb_reader jb) (jb_ensure jb),
      bo_connection_healthy = jb_connected jb\<rparr>"

lemma subscribe_attempts_Some:
  "xs \<noteq> [] \<Longrightarrow> last xs = mx \<Longrightarrow> fst (fst (subscribe_attempts create d mx xs s)) \<noteq> None"
proof (induction create d mx xs s rule: subscribe_attempts.induct)
  case (2 create base_delay max_attempts attempt rest s)
  then show ?case by (cases rest) (auto split: prod.splits sum.splits)
qed simp

lemma subscription_attempted:
  "fst (fst (jetstream_subscribe_to_topic jc rd ensure topic s)) \<noteq> None"
  unfolding jetstream_subscribe_to_topic_def Let_def by (rule subscribe_attempts_Some) simp_all

section \<open>Opening a stream\<close>

text \<open>What a stream is made of: its live part, the end of its history and the limit of a replay.\<close>
datatype 'l stream_opening = LiveStream 'l | HistoryThenLive 'l nat nat | ReplayOnly nat nat

definition open_live :: "('s, 'l) backend_ops \<Rightarrow> 's \<Rightarrow> streaming_context \<Rightarrow> (err + 'l stream_opening) \<times> 's" where
  "open_live ops s context =
    (case bo_subscribe_to_topic ops (sc_topic context) s of
       (r, s') \<Rightarrow> (map_res (\<lambda>(live, _). LiveStream live) r, s'))"

definition open_history :: "('s, 'l) backend_ops \<Rightarrow> 's \<Rightarrow> streaming_context \<Rightarrow> nat \<Rightarrow> (err + 'l stream_opening) \<times> 's" where
  "open_history ops s context max_allowed =
    (case bo_subscribe_to_topic ops (sc_topic context) s of
       (r, s') \<Rightarrow> (map_res (\<lambda>(live, history). HistoryThenLive live history max_allowed) r, s'))"

text \<open>\<open>resolve_end_sequence\<close> asks for the first sequence after the end only when the end is a date.\<close>
definition open_replay :: "('s, 'l) backend_ops \<Rightarrow> 's \<Rightarrow> streaming_context \<Rightarrow> nat \<Rightarrow> (err + 'l stream_opening) \<times> 's" where
  "open_replay ops s context max_allowed =
    (case bo_history_end ops (sc_topic context) s of
       (Inl e, s') \<Rightarrow> (Inl e, s')
     | (Inr last_seq, s') \<Rightarrow>
    (case (case sc_end_at context of
             EndDate to_date \<Rightarrow> bo_first_sequence_after ops (sc_topic context) to_date s'
           | _ \<Rightarrow> (Inr None, s')) of
       (first_after, s'') \<Rightarrow>
         (map_res (\<lambda>end_sequence. ReplayOnly end_sequence max_allowed)
            (resolve_end_sequence (\<lambda>_. Inr last_seq) (\<lambda>_ _. first_after) (sc_topic context) (sc_end_at context)), s'')))"

section \<open>The contract\<close>

text \<open>
  A write adds at most \<open>n\<close> messages, each one that \<open>P\<close> accepts, and when it succeeded one of
  them is there. Others may have gone, by the limits of the store.
\<close>
definition adds :: "('s \<Rightarrow> message multiset) \<Rightarrow> nat \<Rightarrow> (message \<Rightarrow> bool) \<Rightarrow> bool \<Rightarrow> 's \<Rightarrow> 's \<Rightarrow> bool" where
  "adds held n P succeeded s s' \<longleftrightarrow>
    (\<exists>new. size new \<le> n \<and> (\<forall>m\<in>#new. P m) \<and> held s' \<subseteq># held s + new \<and> (succeeded \<longrightarrow> (\<exists>m\<in>#new. m \<in># held s')))"

lemma adds_none: "held s' \<subseteq># held s \<Longrightarrow> adds held n P False s s'"
  unfolding adds_def by (intro exI [of _ "{#}"]) simp

lemma adds_mono: "adds held n P b s s' \<Longrightarrow> n \<le> k \<Longrightarrow> (b' \<longrightarrow> b) \<Longrightarrow> adds held k P b' s s'"
  unfolding adds_def by (meson le_trans)

lemma adds_after:
  assumes "held s1 \<subseteq># held s" "adds held n P b s1 s2"
  shows "adds held n P b s s2"
proof -
  obtain new where new: "size new \<le> n" "\<forall>m\<in>#new. P m" "held s2 \<subseteq># held s1 + new" "b \<longrightarrow> (\<exists>m\<in>#new. m \<in># held s2)"
    using assms(2) unfolding adds_def by blast
  have "held s2 \<subseteq># held s + new" using new(3) assms(1) by (meson subset_mset.add_right_mono subset_mset.order_trans)
  then show ?thesis using new unfolding adds_def by blast
qed

lemma adds_then:
  assumes "adds held n P b s s1" "adds held k P b' s1 s2"
  shows "adds held (n + k) P b' s s2"
proof -
  obtain new where new: "size new \<le> n" "\<forall>m\<in>#new. P m" "held s1 \<subseteq># held s + new"
    using assms(1) unfolding adds_def by blast
  obtain more where more: "size more \<le> k" "\<forall>m\<in>#more. P m" "held s2 \<subseteq># held s1 + more" "b' \<longrightarrow> (\<exists>m\<in>#more. m \<in># held s2)"
    using assms(2) unfolding adds_def by blast
  have "held s2 \<subseteq># held s + (new + more)"
    using more(3) new(3) by (metis (no_types) add.assoc subset_mset.add_right_mono subset_mset.order_trans)
  then show ?thesis using new(1,2) more(1,2,4) unfolding adds_def
    by (intro exI [of _ "new + more"]) auto
qed

lemma adds_one: "P m \<Longrightarrow> held s' \<subseteq># add_mset m (held s) \<Longrightarrow> (b \<longrightarrow> m \<in># held s') \<Longrightarrow> adds held 1 P b s s'"
  unfolding adds_def by (intro exI [of _ "{#m#}"]) auto

text \<open>The two writing operations, which may store up to \<open>copies\<close> messages for one notification.\<close>
locale put_store =
  fixes inv :: "'s \<Rightarrow> bool" and held :: "'s \<Rightarrow> message multiset" and wr :: "'s writer" and copies :: nat
  assumes put: "inv s \<Longrightarrow> wr_put_messages wr topic payload s = (r, s') \<Longrightarrow>
      inv s' \<and> adds held copies (\<lambda>m. put_as m topic payload None) (r = Inr ()) s s'"
    and put_headers: "inv s \<Longrightarrow> wr_put_message_with_headers wr topic headers payload s = (r, s') \<Longrightarrow>
      inv s' \<and> adds held copies (\<lambda>m. put_as m topic payload headers) (r = Inr ()) s s'"
begin

lemma save_adds:
  assumes "inv s" "save_to_backend wr res payload s = (r, s')"
  shows "inv s' \<and>
    adds held copies (\<lambda>m. put_as m (pr_topic res) payload (map_option spatial_headers (pr_spatial res))) (r = Inr ()) s s'"
  using assms put [of s "pr_topic res" payload r s'] put_headers [of s "pr_topic res" _ payload r s']
  by (cases "pr_spatial res") (simp_all add: save_to_backend_def)

lemma notify_adds:
  assumes "inv s" "oc = notify sv wr c body s"
  shows "inv (oc_state oc) \<and>
    (if \<exists>r res. admits sv c body r res
     then \<exists>r res. admits sv c body r res \<and>
       adds held copies (\<lambda>m. put_as m (pr_topic res) (payload_text (sv_host sv) (nr_payload r))
         (map_option spatial_headers (pr_spatial res))) (hr_status (oc_response oc) = 200) s (oc_state oc)
     else oc_state oc = s \<and> hr_status (oc_response oc) \<noteq> 200)"
proof (cases "notify_checks sv c body")
  case (Inl x)
  obtain response metrics where x: "x = (response, metrics)" by (cases x)
  have "\<not> (\<exists>r res. admits sv c body r res)" using Inl notify_checks_Inr by (metis sum.simps(4))
  then show ?thesis using notify_checks_Inl [of sv c body response metrics] Inl assms by (simp add: notify_def x)
next
  case (Inr x)
  obtain r res where x: "x = (r, res)" by (cases x)
  have adm: "admits sv c body r res" using Inr by (simp add: x notify_checks_Inr)
  obtain verdict s' where save: "save_to_backend wr res (payload_text (sv_host sv) (nr_payload r)) s = (verdict, s')"
    by (metis prod.exhaust)
  have "oc_state oc = s' \<and> (hr_status (oc_response oc) = 200 \<longleftrightarrow> verdict = Inr ())"
    using assms(2) Inr save
    by (cases verdict)
      (auto simp: notify_def x Let_def processing_error_response_def api_processing_def notification_response_def split: prod.splits)
  then show ?thesis using adm save_adds [OF assms(1) save] by auto
qed

end

text \<open>Nothing but the writing operations adds a message.\<close>
locale backend_store = put_store inv held "bo_writer ops" copies
  for inv :: "'s \<Rightarrow> bool" and held :: "'s \<Rightarrow> message multiset" and ops :: "('s, 'l) backend_ops" and copies :: nat +
  assumes wipe_stream: "inv s \<Longrightarrow> bo_wipe_stream ops key s = (wiped, s') \<Longrightarrow> inv s' \<and> held s' \<subseteq># held s"
    and wipe_all: "inv s \<Longrightarrow> bo_wipe_all ops s = (all_wiped, s') \<Longrightarrow> inv s' \<and> held s' \<subseteq># held s"
    and delete_message: "inv s \<Longrightarrow> bo_delete_message ops key n s = (deleted, s') \<Longrightarrow> inv s' \<and> held s' \<subseteq># held s"
    and get_messages_batch: "inv s \<Longrightarrow> bo_get_messages_batch ops p s = (batch, s') \<Longrightarrow> inv s' \<and> held s' \<subseteq># held s"
    and subscribe: "inv s \<Longrightarrow> bo_subscribe_to_topic ops topic s = (sub, s') \<Longrightarrow> inv s' \<and> held s' \<subseteq># held s"
    and history_end: "inv s \<Longrightarrow> bo_history_end ops topic s = (last_seq, s') \<Longrightarrow> inv s' \<and> held s' \<subseteq># held s"
    and first_sequence_after: "inv s \<Longrightarrow> bo_first_sequence_after ops topic after s = (first_seq, s') \<Longrightarrow>
      inv s' \<and> held s' \<subseteq># held s"
begin

lemma open_live_keeps: "inv s \<Longrightarrow> open_live ops s context = (r, s') \<Longrightarrow> inv s' \<and> held s' \<subseteq># held s"
  using subscribe by (auto simp: open_live_def split: prod.splits)

lemma open_history_keeps: "inv s \<Longrightarrow> open_history ops s context limit = (r, s') \<Longrightarrow> inv s' \<and> held s' \<subseteq># held s"
  using subscribe by (auto simp: open_history_def split: prod.splits)

lemma open_replay_keeps:
  assumes "inv s" "open_replay ops s context limit = (r, s')"
  shows "inv s' \<and> held s' \<subseteq># held s"
proof -
  obtain last_seq s1 where last_seq: "bo_history_end ops (sc_topic context) s = (last_seq, s1)" by (metis prod.exhaust)
  note one = history_end [OF assms(1) last_seq]
  show ?thesis
  proof (cases last_seq)
    case (Inl e)
    then show ?thesis using assms(2) last_seq one by (simp add: open_replay_def)
  next
    case (Inr n)
    show ?thesis
    proof (cases "sc_end_at context")
      case (EndDate d)
      obtain first_seq s2 where first: "bo_first_sequence_after ops (sc_topic context) d s1 = (first_seq, s2)"
        by (metis prod.exhaust)
      have "s' = s2" using assms(2) last_seq Inr EndDate first by (simp add: open_replay_def)
      then show ?thesis using first_sequence_after [of s1 "sc_topic context" d first_seq s2] first one
        by (meson subset_mset.order_trans)
    qed (use assms(2) last_seq Inr one in \<open>auto simp: open_replay_def\<close>)
  qed
qed

end

section \<open>The in-memory backend\<close>

lemma sub_mset_by_set:
  assumes "distinct xs" "set xs \<subseteq> set_mset M"
  shows "mset xs \<subseteq># M"
proof (rule mset_subset_eqI)
  fix a show "count (mset xs) a \<le> count M a"
    using assms by (cases "a \<in> set xs") (auto simp: distinct_count_atmost_1 not_in_iff Suc_le_eq)
qed

lemma messages_distinct: "mem_inv cfg s \<Longrightarrow> distinct (all_messages s)"
  using sequences_distinct [of cfg s] by (simp add: distinct_map)

lemma mem_shrinks:
  "mem_inv cfg s' \<Longrightarrow> set (all_messages s') \<subseteq> set (all_messages s) \<Longrightarrow> mset (all_messages s') \<subseteq># mset (all_messages s)"
  by (intro sub_mset_by_set messages_distinct) auto

lemma mem_adds:
  assumes "mem_inv cfg s" "fst (store_message cfg now topic payload metadata s) = s'"
  shows "mem_inv cfg s' \<and> adds (\<lambda>s. mset (all_messages s)) 1 (\<lambda>m. put_as m topic payload metadata) True s s'"
proof -
  obtain m where "store_message cfg now topic payload metadata s = (s', m)" using assms(2) by (metis prod.collapse)
  note held = store_held [OF assms(1) this]
  have "mset (all_messages s') \<subseteq># add_mset m (mset (all_messages s))"
    using held by (intro sub_mset_by_set messages_distinct [of cfg]) auto
  then show ?thesis using held by (intro conjI adds_one [where m = m]) simp_all
qed

interpretation mem_backend: backend_store "mem_inv cfg" "\<lambda>s. mset (all_messages s)" "mem_ops h cfg now" 1
  for cfg h now
proof unfold_locales
  fix s s' :: mem_state assume inv: "mem_inv cfg s"
  let ?keeps = "mem_inv cfg s' \<and> mset (all_messages s') \<subseteq># mset (all_messages s)"
  show "mem_inv cfg s' \<and> adds (\<lambda>s. mset (all_messages s)) 1 (\<lambda>m. put_as m topic payload None) (r = Inr ()) s s'"
    if "wr_put_messages (bo_writer (mem_ops h cfg now)) topic payload s = (r, s')" for topic payload r
    using that mem_adds [OF inv, of now topic payload None s'] by (auto simp: mem_ops_def mem_writer_def put_messages_def)
  show "mem_inv cfg s' \<and> adds (\<lambda>s. mset (all_messages s)) 1 (\<lambda>m. put_as m topic payload headers) (r = Inr ()) s s'"
    if "wr_put_message_with_headers (bo_writer (mem_ops h cfg now)) topic headers payload s = (r, s')"
    for topic headers payload r
    using that mem_adds [OF inv, of now topic payload headers s']
    by (auto simp: mem_ops_def mem_writer_def put_message_with_headers_def)
  show ?keeps if "bo_wipe_stream (mem_ops h cfg now) key s = (wiped, s')" for key wiped
    using that wipe_stream_spec [OF inv] mem_inv_wipe_stream [OF inv]
    by (auto simp: mem_ops_def mem_wipe_def intro!: mem_shrinks split: prod.splits)
  show ?keeps if "bo_wipe_all (mem_ops h cfg now) s = (all_wiped, s')" for all_wiped
    using that mem_inv_wipe_all [OF inv] by (auto simp: mem_ops_def mem_wipe_all_def wipe_all_def all_messages_def)
  show ?keeps if del: "bo_delete_message (mem_ops h cfg now) key n s = (deleted, s')" for key n deleted
  proof -
    obtain r where r: "delete_message h key n s = (r, s')"
      using del by (auto simp: mem_ops_def mem_delete_def split: prod.splits)
    then have "set (all_messages s') \<subseteq> set (all_messages s)"
      using delete_message_spec [OF inv, of h key n s'] by (cases r) auto
    then show ?thesis using mem_inv_delete [OF inv r] by (auto intro: mem_shrinks)
  qed
qed (auto simp: mem_ops_def)

end
