(* ===== verification/JetStreamStore.thy ===== *)
theory JetStreamStore
  imports Stores
begin

text \<open>
  JetStream keeps the contract of a backend: what the operations of
  \<open>src/notification_backend/jetstream/\<close> do to the stored messages, given what the server
  documents of its own operations.
\<close>

section \<open>What the server promises\<close>

text \<open>
  Creating and updating streams adds no message. A publication stores at most the one message
  it carries, by the time of its acknowledgement, whether or not the answer arrives; an acknowledged
  message is stored, under the sequence of the acknowledgement. \<open>held\<close> is what the streams hold. So it is
  for streams with limits retention; with interest retention a message nobody waits for may be
  acknowledged and dropped, and nothing is claimed of such a server.
\<close>
definition stores_published :: "('s \<Rightarrow> message multiset) \<Rightarrow> 's nats \<Rightarrow> bool" where
  "stores_published held nt \<longleftrightarrow>
    (\<forall>name s. held (snd (nt_get_stream nt name s)) \<subseteq># held s) \<and>
    (\<forall>config s. held (snd (nt_create_stream nt config s)) \<subseteq># held s) \<and>
    (\<forall>config s. held (snd (nt_update_stream nt config s)) \<subseteq># held s) \<and>
    (\<forall>topic headers payload s. \<exists>m. put_as m topic payload headers \<and>
       (case nt_publish nt topic headers payload s of (sent, s1) \<Rightarrow>
          held s1 \<subseteq># add_mset m (held s) \<and>
          (case nt_acknowledge nt s1 of (acknowledged, s2) \<Rightarrow> sent = Inr () \<longrightarrow>
             held s2 \<subseteq># add_mset m (held s) \<and> (\<forall>n. acknowledged = Inr n \<longrightarrow> m \<in># held s2 \<and> m_sequence m = n))))"

text \<open>Purging and deleting only remove.\<close>
definition removes_only :: "('s \<Rightarrow> message multiset) \<Rightarrow> 's warden \<Rightarrow> bool" where
  "removes_only held wd \<longleftrightarrow>
    (\<forall>name s. held (snd (wd_purge wd name s)) \<subseteq># held s) \<and>
    (\<forall>name n s. held (snd (wd_delete_message wd name n s)) \<subseteq># held s)"

definition sound_server :: "('s \<Rightarrow> message multiset) \<Rightarrow> 's jetstream_backend \<Rightarrow> bool" where
  "sound_server held jb \<longleftrightarrow> stores_published held (jb_nats jb) \<and> removes_only held (jb_warden jb)"

lemma stores_publishedD:
  assumes "stores_published held nt"
  shows "nt_get_stream nt name s = (r, s') \<Longrightarrow> held s' \<subseteq># held s"
    and "nt_create_stream nt config s = (r', s') \<Longrightarrow> held s' \<subseteq># held s"
    and "nt_update_stream nt config s = (r', s') \<Longrightarrow> held s' \<subseteq># held s"
  using assms unfolding stores_published_def by (metis snd_conv)+

lemma stores_published_publish:
  assumes "stores_published held nt" "nt_publish nt topic headers payload s = (sent, s1)" "nt_acknowledge nt s1 = (ack, s2)"
  shows "\<exists>m. put_as m topic payload headers \<and> held s1 \<subseteq># add_mset m (held s) \<and>
    (sent = Inr () \<longrightarrow> held s2 \<subseteq># add_mset m (held s) \<and> (\<forall>n. ack = Inr n \<longrightarrow> m \<in># held s2))"
proof -
  have "\<exists>m. put_as m topic payload headers \<and>
     (case nt_publish nt topic headers payload s of (sent, s1) \<Rightarrow>
        held s1 \<subseteq># add_mset m (held s) \<and>
        (case nt_acknowledge nt s1 of (acknowledged, s2) \<Rightarrow> sent = Inr () \<longrightarrow>
           held s2 \<subseteq># add_mset m (held s) \<and> (\<forall>n. acknowledged = Inr n \<longrightarrow> m \<in># held s2 \<and> m_sequence m = n)))"
    using assms(1) unfolding stores_published_def by blast
  then show ?thesis by (auto simp: assms(2,3))
qed

section \<open>Ensuring a stream\<close>

lemma reconcile_existing_keeps:
  assumes "stores_published held nt" "reconcile_existing_stream_config h nt name current desired s = (r, s')"
  shows "held s' \<subseteq># held s"
  using assms(2) stores_publishedD(3) [OF assms(1)]
  by (auto simp: reconcile_existing_stream_config_def and_then_def context_of_def
      split: if_splits prod.splits sum.splits)

lemma ensure_stream_keeps:
  assumes "stores_published held nt" "ensure_stream_for_topic h nt dflt jc schema_map topic s = (r, s')"
  shows "held s' \<subseteq># held s"
proof -
  note get = stores_publishedD(1) [OF assms(1)] and create = stores_publishedD(2) [OF assms(1)]
    and reconcile = reconcile_existing_keeps [OF assms(1)]
  show ?thesis
    using assms(2) unfolding ensure_stream_for_topic_def and_then_def context_of_def
    by (auto split: sum.splits prod.splits if_splits
        dest!: get create reconcile intro: subset_mset.order_trans)
qed

section \<open>Publishing\<close>

abbreviation ensure_keeps :: "('s \<Rightarrow> message multiset) \<Rightarrow> (string \<Rightarrow> 's \<Rightarrow> (err + string) \<times> 's) \<Rightarrow> bool" where
  "ensure_keeps held ensure \<equiv> \<forall>topic s. held (snd (ensure topic s)) \<subseteq># held s"

lemma publish_once_adds:
  assumes "stores_published held nt" "ensure_keeps held ensure" "publish_once nt ensure topic headers payload s = (r, s')"
  shows "adds held 1 (\<lambda>m. put_as m topic payload headers) (r = Inr ()) s s'"
proof -
  obtain e s0 where e: "ensure topic s = (e, s0)" by (metis prod.exhaust)
  have keeps: "held s0 \<subseteq># held s" using assms(2) e by (metis snd_conv)
  show ?thesis
  proof (cases e)
    case (Inl x)
    then have "s' = s0" "r \<noteq> Inr ()" using assms(3) e by (auto simp: publish_once_def and_then_def)
    then show ?thesis using adds_none [of held s0 s 1] keeps by simp
  next
    case (Inr name)
    obtain sent s1 where sent: "nt_publish nt topic headers payload s0 = (sent, s1)" by (metis prod.exhaust)
    obtain ack s2 where ack: "nt_acknowledge nt s1 = (ack, s2)" by (metis prod.exhaust)
    obtain m where m: "put_as m topic payload headers" "held s1 \<subseteq># add_mset m (held s0)"
        "sent = Inr () \<longrightarrow> held s2 \<subseteq># add_mset m (held s0) \<and> (\<forall>n. ack = Inr n \<longrightarrow> m \<in># held s2)"
      using stores_published_publish [OF assms(1) sent ack] by blast
    note run = assms(3) [unfolded publish_once_def and_then_def context_of_def e Inr sent ack split sum.case]
    have stored: "held s' \<subseteq># add_mset m (held s0) \<and> (r = Inr () \<longrightarrow> m \<in># held s')"
    proof (cases sent)
      case (Inl x)
      then show ?thesis using run m(2) by auto
    next
      case (Inr u)
      then show ?thesis using run m(3) by (cases ack) auto
    qed
    have "adds held 1 (\<lambda>m. put_as m topic payload headers) (r = Inr ()) s0 s'"
      by (rule adds_one [where m = m]) (use m(1) stored in simp_all)
    then show ?thesis by (rule adds_after [of held s0 s, OF keeps])
  qed
qed

lemma publish_attempts_adds:
  assumes "\<And>s r s'. once s = (r, s') \<Longrightarrow> adds held 1 P (r = Inr ()) s s'"
    "publish_attempts once base mx attempts s = ((r, s'), delays)"
  shows "adds held (length attempts) P (r = Inr ()) s s'"
  using assms(2)
proof (induction attempts arbitrary: s delays)
  case Nil
  then show ?case using adds_none [of held s s 0 P] by (auto simp: bail_def)
next
  case (Cons a attempts)
  obtain x s1 where x: "once s = (x, s1)" by (metis prod.exhaust)
  note first = assms(1) [OF x]
  show ?case
  proof (cases x)
    case (Inr u)
    then have "s' = s1" "r = Inr ()" using Cons.prems x by auto
    then show ?thesis using adds_mono [OF first, of "length (a # attempts)"] Inr by simp
  next
    case (Inl e)
    show ?thesis
    proof (cases "a < mx \<and> is_channel_closed_error e")
      case True
      then obtain ds where "publish_attempts once base mx attempts s1 = ((r, s'), ds)"
        using Cons.prems x Inl by (auto split: prod.splits)
      from adds_then [OF first Cons.IH [OF this]] show ?thesis by simp
    next
      case False
      then have "s' = s1" "r = Inl e" using Cons.prems x Inl by (simp_all split: if_splits)
      then show ?thesis using adds_mono [OF first, of "length (a # attempts)" False] by simp
    qed
  qed
qed

lemma jetstream_put_adds:
  assumes "stores_published held nt" "ensure_keeps held ensure"
  shows "jetstream_put_messages jc nt ensure topic payload s = (r, s') \<Longrightarrow>
      adds held (jc_publish_retry_attempts jc) (\<lambda>m. put_as m topic payload None) (r = Inr ()) s s'"
    and "jetstream_put_message_with_headers jc nt ensure topic headers payload s = (r, s') \<Longrightarrow>
      adds held (jc_publish_retry_attempts jc) (\<lambda>m. put_as m topic payload headers) (r = Inr ()) s s'"
proof -
  have "adds held (jc_publish_retry_attempts jc) (\<lambda>m. put_as m topic payload headers) (r = Inr ()) s s'"
    if run: "fst (publish_with_retry jc (publish_once nt ensure topic headers payload) s) = (r, s')" for headers
  proof -
    obtain delays where "publish_with_retry jc (publish_once nt ensure topic headers payload) s = ((r, s'), delays)"
      using run by (metis prod.collapse)
    note attempts = this [unfolded publish_with_retry_def]
    have "adds held 1 (\<lambda>m. put_as m topic payload headers) (v = Inr ()) u u'"
      if "publish_once nt ensure topic headers payload u = (v, u')" for u v u'
      by (rule publish_once_adds [OF assms that])
    from publish_attempts_adds [OF this attempts] show ?thesis unfolding length_upt diff_Suc_1 .
  qed
  then show "jetstream_put_messages jc nt ensure topic payload s = (r, s') \<Longrightarrow>
      adds held (jc_publish_retry_attempts jc) (\<lambda>m. put_as m topic payload None) (r = Inr ()) s s'"
    and "jetstream_put_message_with_headers jc nt ensure topic headers payload s = (r, s') \<Longrightarrow>
      adds held (jc_publish_retry_attempts jc) (\<lambda>m. put_as m topic payload headers) (r = Inr ()) s s'"
    unfolding jetstream_put_messages_def jetstream_put_message_with_headers_def by blast+
qed

section \<open>The other operations\<close>

lemma subscribe_attempts_keep:
  assumes "\<And>s r s'. create s = (r, s') \<Longrightarrow> held s' \<subseteq># held s"
    "subscribe_attempts create d mx attempts s = ((r, s'), delays)"
  shows "held s' \<subseteq># held s"
  using assms(2)
proof (induction attempts arbitrary: s delays)
  case (Cons a attempts)
  obtain x s1 where x: "create s = (x, s1)" by (metis prod.exhaust)
  note first = assms(1) [OF x]
  show ?case
  proof (cases "\<exists>e. x = Inl e \<and> a \<noteq> mx")
    case True
    then obtain ds where "subscribe_attempts create d mx attempts s1 = ((r, s'), ds)"
      using Cons.prems x by (auto split: prod.splits)
    from subset_mset.order_trans [OF Cons.IH [OF this] first] show ?thesis .
  next
    case False
    then show ?thesis using Cons.prems x first by (auto split: sum.splits)
  qed
qed simp

lemma subscription_keeps:
  assumes "ensure_keeps held ensure" "create_subscription_internal rd ensure topic s = (r, s')"
  shows "held s' \<subseteq># held s"
  using assms(2) assms(1)
  by (auto simp: create_subscription_internal_def split: sum.splits prod.splits) (metis snd_conv)+

lemma reading_keeps:
  assumes "ensure_keeps held ensure"
  shows "jetstream_get_messages_batch rd ensure p s = (r1, s') \<Longrightarrow> held s' \<subseteq># held s"
    and "jetstream_history_end rd ensure topic s = (r2, s') \<Longrightarrow> held s' \<subseteq># held s"
    and "jetstream_first_sequence_after rd ensure topic t s = (r3, s') \<Longrightarrow> held s' \<subseteq># held s"
proof -
  have keeps: "ensure x s = (r, s1) \<Longrightarrow> held s1 \<subseteq># held s" for x r s1 using assms by (metis snd_conv)
  show "jetstream_get_messages_batch rd ensure p s = (r1, s') \<Longrightarrow> held s' \<subseteq># held s"
    by (auto simp: jetstream_get_messages_batch_def split: sum.splits prod.splits dest: keeps)
  show "jetstream_history_end rd ensure topic s = (r2, s') \<Longrightarrow> held s' \<subseteq># held s"
    by (auto simp: jetstream_history_end_def split: sum.splits prod.splits dest: keeps)
  show "jetstream_first_sequence_after rd ensure topic t s = (r3, s') \<Longrightarrow> held s' \<subseteq># held s"
    by (auto simp: jetstream_first_sequence_after_def split: sum.splits prod.splits dest: keeps)
qed

lemma wiping_keeps:
  assumes "removes_only held wd"
  shows "jetstream_wipe_stream wd key s = (r1, s') \<Longrightarrow> held s' \<subseteq># held s"
    and "held (wipe_streams wd names s) \<subseteq># held s"
    and "jetstream_delete_message wd key n s = (r2, s') \<Longrightarrow> held s' \<subseteq># held s"
proof -
  have purge: "wd_purge wd name s = (r, s1) \<Longrightarrow> held s1 \<subseteq># held s" for name s r s1
    using assms unfolding removes_only_def by (metis snd_conv)
  have delete: "wd_delete_message wd name n s = (r, s1) \<Longrightarrow> held s1 \<subseteq># held s" for name n s r s1
    using assms unfolding removes_only_def by (metis snd_conv)
  have wipe: "jetstream_wipe_stream wd key s = (r, s') \<Longrightarrow> held s' \<subseteq># held s" for key s r s'
    by (auto simp: jetstream_wipe_stream_def and_then_def context_of_def Let_def
        split: sum.splits prod.splits if_splits dest: purge)
  then show "jetstream_wipe_stream wd key s = (r1, s') \<Longrightarrow> held s' \<subseteq># held s" .
  show "held (wipe_streams wd names s) \<subseteq># held s"
  proof (induction names arbitrary: s)
    case (Cons name names)
    show ?case
    proof (cases name)
      case (Inr key)
      obtain r s1 where "jetstream_wipe_stream wd key s = (r, s1)" by (metis prod.exhaust)
      then show ?thesis using wipe Cons.IH [of s1] by (auto simp: Inr intro: subset_mset.order_trans)
    qed (simp add: Cons.IH)
  qed simp
  show "jetstream_delete_message wd key n s = (r2, s') \<Longrightarrow> held s' \<subseteq># held s"
    by (auto simp: jetstream_delete_message_def and_then_def context_of_def Let_def
        split: sum.splits prod.splits if_splits dest: delete)
qed

lemma jb_ensure_keeps: "sound_server held jb \<Longrightarrow> ensure_keeps held (jb_ensure jb)"
  using ensure_stream_keeps unfolding sound_server_def jb_ensure_def by (metis prod.collapse)

interpretation js_backend: backend_store "\<lambda>_. sound_server held jb" held "jetstream_ops jb"
    "jc_publish_retry_attempts (jb_config jb)" for held jb
proof unfold_locales
  fix s s' assume sound: "sound_server held jb"
  then have nt: "stores_published held (jb_nats jb)" and wd: "removes_only held (jb_warden jb)"
    by (simp_all add: sound_server_def)
  note ensure = jb_ensure_keeps [OF sound]
  let ?keeps = "sound_server held jb \<and> held s' \<subseteq># held s"
  show "sound_server held jb \<and>
      adds held (jc_publish_retry_attempts (jb_config jb)) (\<lambda>m. put_as m topic payload None) (r = Inr ()) s s'"
    if "wr_put_messages (bo_writer (jetstream_ops jb)) topic payload s = (r, s')" for topic payload r
    using that jetstream_put_adds(1) [OF nt ensure] sound by (simp add: jetstream_ops_def)
  show "sound_server held jb \<and>
      adds held (jc_publish_retry_attempts (jb_config jb)) (\<lambda>m. put_as m topic payload headers) (r = Inr ()) s s'"
    if "wr_put_message_with_headers (bo_writer (jetstream_ops jb)) topic headers payload s = (r, s')"
    for topic headers payload r
    using that jetstream_put_adds(2) [OF nt ensure] sound by (simp add: jetstream_ops_def)
  show ?keeps if "bo_wipe_stream (jetstream_ops jb) key s = (wiped, s')" for key wiped
    using that wiping_keeps(1) [OF wd] sound by (simp add: jetstream_ops_def)
  show ?keeps if "bo_wipe_all (jetstream_ops jb) s = (all_wiped, s')" for all_wiped
    using that wiping_keeps(2) [OF wd] sound by (auto simp: jetstream_ops_def jetstream_wipe_all_def)
  show ?keeps if "bo_delete_message (jetstream_ops jb) key n s = (deleted, s')" for key n deleted
    using that wiping_keeps(3) [OF wd] sound by (simp add: jetstream_ops_def)
  show ?keeps if "bo_get_messages_batch (jetstream_ops jb) p s = (batch, s')" for p batch
    using that reading_keeps(1) [OF ensure] sound by (simp add: jetstream_ops_def)
  show ?keeps if "bo_history_end (jetstream_ops jb) topic s = (last_seq, s')" for topic last_seq
    using that reading_keeps(2) [OF ensure] sound by (simp add: jetstream_ops_def)
  show ?keeps if "bo_first_sequence_after (jetstream_ops jb) topic after s = (first_seq, s')" for topic after first_seq
    using that reading_keeps(3) [OF ensure] sound by (simp add: jetstream_ops_def)
  show ?keeps if sub: "bo_subscribe_to_topic (jetstream_ops jb) topic s = (sub, s')" for topic sub
  proof -
    obtain r delays where "jetstream_subscribe_to_topic (jb_config jb) (jb_reader jb) (jb_ensure jb) topic s = ((r, s'), delays)"
      using sub by (auto simp: jetstream_ops_def jb_subscribe_def split: prod.splits option.splits)
        (metis fst_conv prod.collapse)+
    then show ?thesis
      using subscribe_attempts_keep [OF subscription_keeps [OF ensure]] sound
      by (auto simp: jetstream_subscribe_to_topic_def Let_def)
  qed
qed

section \<open>Notifications over JetStream\<close>

text \<open>
  C6: a notification to JetStream is stored at least once. When it is answered with 200, a
  message with its topic, payload and headers is stored. Whatever the answer, what appears in the
  streams are at most as many copies of this notification as there are attempts, and only
  of a request that passed every check; a request that did not changes nothing at all.
\<close>
theorem jetstream_at_least_once:
  assumes "sound_server held jb" "oc = notify sv (bo_writer (jetstream_ops jb)) c body s"
  shows "if \<exists>r res. admits sv c body r res
     then \<exists>r res new. admits sv c body r res \<and> size new \<le> jc_publish_retry_attempts (jb_config jb) \<and>
       (\<forall>m\<in>#new. put_as m (pr_topic res) (payload_text (sv_host sv) (nr_payload r))
          (map_option spatial_headers (pr_spatial res))) \<and>
       held (oc_state oc) \<subseteq># held s + new \<and>
       (hr_status (oc_response oc) = 200 \<longrightarrow> (\<exists>m\<in>#new. m \<in># held (oc_state oc)))
     else oc_state oc = s \<and> hr_status (oc_response oc) \<noteq> 200"
  using js_backend.notify_adds [OF assms] unfolding adds_def by (simp split: if_splits)

text \<open>
  A server that keeps what is published and loses the first acknowledgements, as many as its
  second part says.
\<close>
definition lossy_nats :: "(message list \<times> nat) nats" where
  "lossy_nats =
     \<lparr>nt_get_stream = (\<lambda>_ s. (Inl \<lparr>je_code = Some (STREAM_NOT_FOUND, 404), je_text = ''stream not found''\<rparr>, s)),
      nt_create_stream = (\<lambda>_ s. (Inr (), s)), nt_update_stream = (\<lambda>_ s. (Inr (), s)),
      nt_publish = (\<lambda>topic headers payload (ms, lost).
        (Inr (), (ms @ [\<lparr>m_sequence = Suc (length ms), m_topic = topic, m_payload = payload,
                         m_timestamp = Some (int (Suc (length ms))), m_metadata = headers\<rparr>], lost))),
      nt_acknowledge = (\<lambda>(ms, lost). case lost of
          0 \<Rightarrow> (Inr (length ms), (ms, 0))
        | Suc n \<Rightarrow> (Inl \<lparr>je_code = None, je_text = ''channel closed''\<rparr>, (ms, n)))\<rparr>"

text \<open>A stored message without headers, as a consumer hands it out.\<close>
definition as_served :: "message \<Rightarrow> js_message \<times> js_info" where
  "as_served m = (let info = \<lparr>ji_sequence = m_sequence m, ji_published = the (m_timestamp m)\<rparr> in
     (\<lparr>jm_subject = m_topic m, jm_payload = m_payload m, jm_headers = None, jm_info = Inr info\<rparr>, info))"

definition plain_stream :: stream_config where
  "plain_stream = \<lparr>sg_name = [], sg_subjects = [], sg_storage = FileStorage, sg_retention = Limits, sg_discard = OldMessages,
     sg_max_messages = 0, sg_max_bytes = 0, sg_max_age = 0, sg_max_messages_per_subject = 0, sg_num_replicas = 1,
     sg_compression = None, sg_duplicate_window = 0\<rparr>"

definition lossy_backend :: "(message list \<times> nat) jetstream_backend" where
  "lossy_backend =
     \<lparr>jb_host = sample_host, jb_config = three_tries, jb_default = plain_stream, jb_schema = None, jb_nats = lossy_nats,
      jb_reader = \<lparr>rd_get_stream = \<lambda>_ s. Inr \<lparr>ss_messages = length (fst s), ss_last_sequence = length (fst s)\<rparr>,
        rd_info = \<lambda>_ s. Inr \<lparr>ss_messages = length (fst s), ss_last_sequence = length (fst s)\<rparr>,
        rd_create_consumer = \<lambda>_ _ s. Inr (length (fst s)),
        rd_fetch = \<lambda>config _ mx s. Inr (map (\<lambda>(m, _). Inr m) (take mx
          (filter (\<lambda>(m, info). covers (pl_filter_subject config) (jm_subject m) \<and> delivers (pl_deliver_policy config) info)
             (map as_served (fst s))))),
        rd_messages = \<lambda>_ _ _. Inr [],
        rd_millis = ''0'', rd_uuid = ''u''\<rparr>,
      jb_warden = \<lparr>wd_get_stream = \<lambda>_ _. Inr (), wd_info = \<lambda>_ _. Inr \<lparr>ss_messages = 0, ss_last_sequence = 0\<rparr>,
        wd_purge = \<lambda>_ s. (Inr (), ([], snd s)), wd_delete_message = \<lambda>_ _ s. (Inr False, s), wd_streams = \<lambda>_. []\<rparr>,
      jb_connected = \<lambda>_. True\<rparr>"

lemma lossy_sound: "sound_server (\<lambda>s. mset (fst s)) lossy_backend"
  by (auto simp: sound_server_def stores_published_def removes_only_def lossy_backend_def lossy_nats_def put_as_def
      split: nat.splits prod.splits)

text \<open>More cannot be promised: when an acknowledgement is lost, the notification is stored twice.\<close>
lemma lost_acknowledgement_duplicates:
  "case jetstream_put_messages three_tries lossy_nats (\<lambda>_ s. (Inr ''WX'', s)) ''wx.a'' ''1'' ([], 1) of (r, s) \<Rightarrow>
     r = Inr () \<and> map m_sequence (fst s) = [1, 2] \<and> (\<forall>m\<in>set (fst s). put_as m ''wx.a'' ''1'' None)"
  by (simp add: jetstream_put_messages_def publish_with_retry_def publish_once_def and_then_def context_of_def
      three_tries_def lossy_nats_def is_channel_closed_error_def
      to_ascii_lowercase_def ascii_lower_def is_upper_def starts_with_def put_as_def upt_rec)

lemma lossy_ensures:
  "topic = ''weather.north.a%2Eb'' \<or> topic = ''weather.north.>'' \<Longrightarrow>
     \<exists>name. jb_ensure lossy_backend topic s = (Inr name, s) \<and> derive_stream_name_from_topic topic = Inr name"
  by (auto simp: jb_ensure_def ensure_stream_for_topic_def derive_stream_name_from_topic_def derive_event_type_from_topic_def
      decode_subject_base_def decode_token_def new_binding_def validate_topic_base_def bail_if_def is_alphanumeric_def is_digit_def
      is_upper_def is_lower_def utf8_error.simps is_ascii_def valid_base_def to_ascii_uppercase_def ascii_upper_def char_of_def
      bit_0 bit_Suc lossy_backend_def lossy_nats_def build_stream_config_for_base_def resolve_storage_policy_for_base_def
      apply_backend_defaults_def plain_stream_def three_tries_def Let_def)

lemma lossy_put:
  "\<exists>m. jetstream_put_messages three_tries lossy_nats (jb_ensure lossy_backend) ''weather.north.a%2Eb'' payload ([], 0) =
     (Inr (), ([m], 0))"
proof -
  obtain name where "jb_ensure lossy_backend ''weather.north.a%2Eb'' ([], 0) = (Inr name, ([], 0))"
    using lossy_ensures by blast
  then show ?thesis
    by (simp add: jetstream_put_messages_def publish_with_retry_def publish_once_def and_then_def context_of_def
        three_tries_def lossy_nats_def upt_rec)
qed

theorem jetstream_at_least_once_witness:
  "\<exists>new. size new \<le> 3 \<and> (\<forall>m\<in>#new. m_payload m = ''null'') \<and>
     mset (fst (oc_state (notify (one_request [(''wx'', sample_schema)] (wx_request sample_notify None None))
       (bo_writer (jetstream_ops lossy_backend)) no_auth [] ([], 1)))) \<subseteq># new"
proof -
  let ?sv = "one_request [(''wx'', sample_schema)] (wx_request sample_notify None None)"
  have payload: "payload_text (sv_host ?sv) (nr_payload r) = ''null''" if "admits ?sv no_auth [] r res" for r res
    using that by (auto simp: admits_def request_defs payload_text_def)
  show ?thesis
    using jetstream_at_least_once [OF lossy_sound refl, of ?sv no_auth "[]" "([], 1)"] sample_admits payload
    by (auto simp: put_as_def lossy_backend_def three_tries_def split: if_splits)
qed

end
