(* ===== verification/Server.thy ===== *)
theory Server
  imports Access JetStreamStore SchemaJson
begin

text \<open>
  The server as a whole, \<open>configure_ops_routes\<close>, \<open>configure_api_v1\<close> and \<open>run\<close> of
  \<open>src/startup.rs\<close>: which handler a request reaches, what stands in front of it, and what a
  request does to the backend, for any operations that keep the contract of \<open>Stores\<close>. The web library routes on the decoded path of a
  request, while the middleware reads its raw path; the decoding is an argument, as are
  the extraction of a JSON body and of a path segment. The services of the libraries
  (static files, the documentation browser) answer for themselves.
\<close>

section \<open>Routes\<close>

datatype handler =
    HealthHandler | ReadyHandler | HomepageHandler | LibraryService
  | NotifyHandler | WatchHandler | ReplayHandler | SchemaListHandler | SchemaHandler string
  | WipeStreamHandler | WipeAllHandler | DeleteHandler string

text \<open>A scope takes the paths at and below its prefix and hands on what follows it.\<close>
definition scope_tail :: "string \<Rightarrow> string \<Rightarrow> string option" where
  "scope_tail start path =
     Option.bind (strip_prefix start path) (\<lambda>tail. if tail = [] \<or> hd tail = CHR ''/'' then Some tail else None)"

text \<open>A pattern that ends in one dynamic segment.\<close>
definition last_segment :: "string \<Rightarrow> string \<Rightarrow> string option" where
  "last_segment start path =
     Option.bind (strip_prefix start path) (\<lambda>s. if s = [] \<or> CHR ''/'' \<in> set s then None else Some s)"

definition configure_ops_routes :: "string \<Rightarrow> string \<Rightarrow> handler option" where
  "configure_ops_routes verb path =
    (if scope_tail ''/static'' path \<noteq> None then Some LibraryService
     else if verb = ''GET'' \<and> path = ''/health'' then Some HealthHandler
     else if verb = ''GET'' \<and> path = ''/ready'' then Some ReadyHandler
     else if verb = ''GET'' \<and> path = ''/'' then Some HomepageHandler
     else None)"

definition admin_routes :: "string \<Rightarrow> string \<Rightarrow> handler option" where
  "admin_routes verb tail =
    (if verb \<noteq> ''DELETE'' then None
     else if tail = ''/wipe/stream'' then Some WipeStreamHandler
     else if tail = ''/wipe/all'' then Some WipeAllHandler
     else map_option DeleteHandler (last_segment ''/notification/'' tail))"

definition configure_api_v1 :: "string \<Rightarrow> string \<Rightarrow> handler option" where
  "configure_api_v1 verb tail =
    (if verb = ''POST'' \<and> tail = ''/notification'' then Some NotifyHandler
     else if verb = ''POST'' \<and> tail = ''/watch'' then Some WatchHandler
     else if verb = ''POST'' \<and> tail = ''/replay'' then Some ReplayHandler
     else if verb = ''GET'' \<and> tail = ''/schema'' then Some SchemaListHandler
     else (case (if verb = ''GET'' then last_segment ''/schema/'' tail else None) of
             Some event_type \<Rightarrow> Some (SchemaHandler event_type)
           | None \<Rightarrow> Option.bind (scope_tail ''/admin'' tail) (admin_routes verb)))"

datatype dispatched = Runs handler "(auth_context \<times> user option) option" | RefusedBy http_response | NoRoute

text \<open>\<open>route_path\<close> is the path the router matches, a function of the raw path.\<close>
definition dispatch ::
  "auth_world \<Rightarrow> auth_settings \<Rightarrow> string option \<Rightarrow> (string \<Rightarrow> string) \<Rightarrow> string \<Rightarrow> http_request \<Rightarrow> dispatched" where
  "dispatch w settings client route_path verb req =
    (let path = route_path (rq_path req) in
     if starts_with ''/swagger-ui/'' path \<or> path = ''/api-docs/openapi.json'' then Runs LibraryService None
     else (case configure_ops_routes verb path of
       Some h \<Rightarrow> Runs h None
     | None \<Rightarrow>
    (case scope_tail ''/api/v1'' path of
       None \<Rightarrow> NoRoute
     | Some tail \<Rightarrow>
    (case middleware_call w settings client req of
       Refused response _ \<Rightarrow> RefusedBy response
     | Forwarded ctx u _ \<Rightarrow>
         (case configure_api_v1 verb tail of Some h \<Rightarrow> Runs h (Some (ctx, u)) | None \<Rightarrow> NoRoute)))))"

fun administers :: "handler \<Rightarrow> bool" where
  "administers WipeStreamHandler = True"
| "administers WipeAllHandler = True"
| "administers (DeleteHandler _) = True"
| "administers _ = False"

section \<open>Serving a request\<close>

record 'd app =
  ax_server :: "'d server"
  ax_world :: auth_world
  ax_settings :: auth_settings
  ax_client :: "string option"
  ax_checker :: "string option"
  ax_route_path :: "string \<Rightarrow> string"
  ax_segment :: "string \<Rightarrow> string"
  ax_wipe_request :: "string \<Rightarrow> http_response + string"
  ax_version :: string
  ax_application :: application_settings
  ax_index_file :: "string option"

datatype 'l reply = Reply http_response | Page text_response | Opened streaming_context "'l stream_opening" | Delegated | Unrouted

text \<open>A stream was opened with the state \<open>s\<close> when its checks had passed; otherwise the backend was not asked.\<close>
definition stream_reply ::
  "string \<Rightarrow> 's \<Rightarrow> ((err + 'l stream_opening) \<times> 's) stream_exit \<Rightarrow> 'l reply \<times> dest_cache \<times> 's" where
  "stream_reply rid s e =
    (case sx_outcome e of
       Answered r \<Rightarrow> (Reply r, sx_cache e, s)
     | Streaming ctx (Inr b, s') \<Rightarrow> (Opened ctx b, sx_cache e, s')
     | Streaming ctx (Inl err, s') \<Rightarrow> (Reply (sse_error_response err (sc_topic ctx) rid), sx_cache e, s'))"

text \<open>What a request finds: the backend, the cache of destinations and what its fetch would do.\<close>
fun run_handler ::
  "'d app \<Rightarrow> ('s, 'l) backend_ops \<Rightarrow> handler \<Rightarrow> handler_context \<Rightarrow> string \<Rightarrow> dest_cache \<Rightarrow> flight \<Rightarrow> 's \<Rightarrow>
   'l reply \<times> dest_cache \<times> 's" where
  "run_handler ax ops HealthHandler c body cache flight s = (Reply health_check, cache, s)"
| "run_handler ax ops ReadyHandler c body cache flight s = (Reply (ready (bo_connection_healthy ops s)), cache, s)"
| "run_handler ax ops HomepageHandler c body cache flight s =
    (Page (homepage (ax_version ax) (ax_index_file ax) (ax_application ax)), cache, s)"
| "run_handler ax ops LibraryService c body cache flight s = (Delegated, cache, s)"
| "run_handler ax ops NotifyHandler c body cache flight s =
    (let oc = notify (ax_server ax) (bo_writer ops) c body s in (Reply (oc_response oc), cache, oc_state oc))"
| "run_handler ax ops WatchHandler c body cache flight s =
    stream_reply (hc_request_id c) s
      (watch (ax_server ax) (\<lambda>ctx limit. Inr (open_history ops s ctx limit)) (\<lambda>ctx. Inr (open_live ops s ctx)) c
         (ax_checker ax) cache flight body)"
| "run_handler ax ops ReplayHandler c body cache flight s =
    stream_reply (hc_request_id c) s
      (replay (ax_server ax) (\<lambda>ctx limit. Inr (open_replay ops s ctx limit)) c (ax_checker ax) cache flight body)"
| "run_handler ax ops SchemaListHandler c body cache flight s =
    (Reply (get_notification_schema api_schema_json (sv_global (ax_server ax))), cache, s)"
| "run_handler ax ops (SchemaHandler event_type) c body cache flight s =
    (Reply (get_event_schema api_schema_json (sv_global (ax_server ax)) (ax_segment ax event_type) (hc_request_id c)), cache, s)"
| "run_handler ax ops WipeStreamHandler c body cache flight s =
    (case ax_wipe_request ax body of
       Inl response \<Rightarrow> (Reply response, cache, s)
     | Inr stream_name \<Rightarrow>
         (case wipe_stream_route (sv_global (ax_server ax)) (bo_wipe_stream ops) (hc_request_id c) stream_name s of
            (response, s') \<Rightarrow> (Reply response, cache, s')))"
| "run_handler ax ops WipeAllHandler c body cache flight s =
    (case wipe_all_route (bo_wipe_all ops) (hc_request_id c) s of (response, s') \<Rightarrow> (Reply response, cache, s'))"
| "run_handler ax ops (DeleteHandler raw_id) c body cache flight s =
    (case delete_notification (sv_global (ax_server ax)) (bo_delete_message ops) (hc_request_id c)
            (ax_segment ax raw_id) s of
       (response, s') \<Rightarrow> (Reply response, cache, s'))"

text \<open>What a handler sees of the request; outside the API scope there is nothing of the middleware.\<close>
definition handler_context_of :: "auth_settings \<Rightarrow> http_request \<Rightarrow> (auth_context \<times> user option) option \<Rightarrow> handler_context" where
  "handler_context_of settings req forwarded =
     \<lparr>hc_auth = map_option fst forwarded, hc_user = Option.bind forwarded snd,
      hc_settings = Some settings, hc_request_id = rq_id req\<rparr>"

definition serve ::
  "'d app \<Rightarrow> ('s, 'l) backend_ops \<Rightarrow> string \<Rightarrow> http_request \<Rightarrow> string \<Rightarrow> dest_cache \<Rightarrow> flight \<Rightarrow> 's \<Rightarrow>
   'l reply \<times> dest_cache \<times> 's" where
  "serve ax ops verb req body cache flight s =
    (case dispatch (ax_world ax) (ax_settings ax) (ax_client ax) (ax_route_path ax) verb req of
       NoRoute \<Rightarrow> (Unrouted, cache, s)
     | RefusedBy response \<Rightarrow> (Reply response, cache, s)
     | Runs h forwarded \<Rightarrow> run_handler ax ops h (handler_context_of (ax_settings ax) req forwarded) body cache flight s)"

section \<open>Who reaches what\<close>

lemma handler_context_forwarded:
  "handler_context_of settings req (Some (ctx, u)) = forwarded_context settings req ctx u"
  by (simp add: handler_context_of_def forwarded_context_def)

lemma ops_not_api: "configure_ops_routes verb path = Some h \<Longrightarrow> \<not> administers h \<and> h \<noteq> NotifyHandler"
  by (auto simp: configure_ops_routes_def split: if_splits)

lemma scope_tail_iff: "scope_tail p path = Some tail \<longleftrightarrow> path = p @ tail \<and> (tail = [] \<or> hd tail = CHR ''/'')"
  by (auto simp: scope_tail_def strip_prefix_def starts_with_iff Option.bind_eq_Some_conv split: if_splits)

lemma api_admin_path:
  assumes "configure_api_v1 verb tail = Some h" "administers h"
  shows "starts_with ''/admin'' tail"
proof (cases "scope_tail ''/admin'' tail")
  case None
  have "\<not> administers h"
    using assms(1) unfolding configure_api_v1_def None bind.simps
    by (simp only: split: if_split_asm option.split_asm) auto
  then show ?thesis using assms(2) by simp
qed (simp add: scope_tail_iff starts_with_iff)

lemma dispatch_Runs:
  assumes "dispatch w settings client route_path verb req = Runs h forwarded" "administers h \<or> h = NotifyHandler"
  obtains ctx u label tail where "forwarded = Some (ctx, u)" "route_path (rq_path req) = ''/api/v1'' @ tail"
    "configure_api_v1 verb tail = Some h" "middleware_call w settings client req = Forwarded ctx u label"
  using assms ops_not_api [of verb "route_path (rq_path req)"] that
  by (auto simp: dispatch_def Let_def scope_tail_iff split: if_splits option.splits middleware_result.splits)

lemma admin_forwarded:
  assumes "as_enabled settings" "starts_with ''/api/v1/admin'' (rq_path req)"
    "middleware_call w settings client req = Forwarded ctx u label"
  shows "\<exists>user. u = Some user \<and> resolve_user w req settings client True = Inr (Some user) \<and> token_user w settings user \<and>
    is_admin user (as_admin_roles settings)"
proof -
  note call = middleware_admin_call [OF assms(1,2)]
  obtain user where u: "resolve_user w req settings client True = Inr (Some user)"
    using assms(3) admin_needs_user unfolding call by (auto split: sum.splits option.splits)
  then show ?thesis using resolve_user_ok [OF u] assms(3) u unfolding call by (auto split: if_splits)
qed

section \<open>What a request does to the store\<close>

text \<open>A stream handler leaves the state as it was or as one of the openings left it.\<close>
lemma stream_reply_state:
  assumes "stream_reply rid s e = (r, cache', s')"
  shows "s' = s \<or> (\<exists>ctx x. sx_outcome e = Streaming ctx (x, s'))"
  using assms by (auto simp: stream_reply_def split: stream_outcome.splits prod.splits sum.splits)

lemma watch_opening:
  assumes "run_handler ax ops WatchHandler c body cache flight s = (r, cache', s')" "s' \<noteq> s"
  shows "\<exists>ctx x. (\<exists>limit. open_history ops s ctx limit = (x, s')) \<or> open_live ops s ctx = (x, s')"
proof -
  obtain ctx x where "sx_outcome (watch (ax_server ax) (\<lambda>ctx limit. Inr (open_history ops s ctx limit))
      (\<lambda>ctx. Inr (open_live ops s ctx)) c (ax_checker ax) cache flight body) = Streaming ctx (x, s')"
    using stream_reply_state [OF assms(1) [unfolded run_handler.simps]] assms(2) by blast
  then show ?thesis unfolding watch_def by (simp split: prod.splits sum.splits if_splits) metis+
qed

lemma replay_opening:
  assumes "run_handler ax ops ReplayHandler c body cache flight s = (r, cache', s')" "s' \<noteq> s"
  shows "\<exists>ctx x limit. open_replay ops s ctx limit = (x, s')"
proof -
  obtain ctx x where "sx_outcome (replay (ax_server ax) (\<lambda>ctx limit. Inr (open_replay ops s ctx limit)) c
      (ax_checker ax) cache flight body) = Streaming ctx (x, s')"
    using stream_reply_state [OF assms(1) [unfolded run_handler.simps]] assms(2) by blast
  then show ?thesis unfolding replay_def by (simp split: prod.splits sum.splits) metis+
qed

context backend_store
begin

text \<open>Only the notification endpoint adds messages.\<close>
lemma handler_shrinks:
  assumes "inv s" "h \<noteq> NotifyHandler" "run_handler ax ops h c body cache flight s = (r, cache', s')"
  shows "inv s' \<and> held s' \<subseteq># held s"
proof (cases "s' = s")
  case False
  show ?thesis
  proof (cases h)
    case WatchHandler
    from watch_opening [OF assms(3) [unfolded this] False] show ?thesis
      using open_history_keeps [OF assms(1)] open_live_keeps [OF assms(1)] by blast
  next
    case ReplayHandler
    from replay_opening [OF assms(3) [unfolded this] False] show ?thesis
      using open_replay_keeps [OF assms(1)] by blast
  next
    case WipeStreamHandler
    obtain name where "ax_wipe_request ax body = Inr name"
      using assms(3) False by (cases "ax_wipe_request ax body") (auto simp: WipeStreamHandler)
    then obtain wiped where "bo_wipe_stream ops (resolve_stream_key_alias (sv_global (ax_server ax)) name) s = (wiped, s')"
      using assms(3) by (auto simp: WipeStreamHandler wipe_stream_route_def split: sum.splits prod.splits wipe_result.splits)
    then show ?thesis by (rule wipe_stream [OF assms(1)])
  next
    case WipeAllHandler
    obtain wiped where "bo_wipe_all ops s = (wiped, s')"
      using assms(3) by (auto simp: WipeAllHandler wipe_all_route_def split: sum.splits prod.splits)
    then show ?thesis by (rule wipe_all [OF assms(1)])
  next
    case (DeleteHandler raw_id)
    obtain key n deleted where "bo_delete_message ops key n s = (deleted, s')"
      using assms(3) False
      by (auto simp: DeleteHandler delete_notification_def split: sum.splits prod.splits delete_result.splits)
    then show ?thesis by (rule delete_message [OF assms(1)])
  qed (use assms False in auto)
qed (simp add: assms(1))

end

lemma admits_may_write:
  assumes "as_enabled settings" "middleware_call w settings client req = Forwarded ctx u label"
    "admits sv (forwarded_context settings req ctx u) body r res"
    "stream_auth_of (sv_global sv) (nr_event_type r) = Some auth" "sa_required auth"
  shows "\<exists>user. u = Some user \<and> token_user w settings user \<and> may_access settings auth WriteStream user"
proof -
  have en: "ac_enabled ctx"
    using assms(1,2) by (auto simp: middleware_call_def Let_def split: if_splits sum.splits option.splits)
  obtain user where u: "u = Some user" "may_access settings auth WriteStream user"
    using assms(3) enforce_stream_auth_iff [OF assms(1,4,5) en, of req u WriteStream] by (auto simp: admits_def)
  then show ?thesis using middleware_user [of w settings client req ctx user label] assms(2) by simp
qed

lemma api_methods:
  "configure_api_v1 verb tail = Some h \<Longrightarrow> administers h \<Longrightarrow> verb = ''DELETE''"
  "configure_api_v1 verb tail = Some NotifyHandler \<Longrightarrow> verb = ''POST'' \<and> tail = ''/notification''"
proof -
  have none: "admin_routes verb t \<noteq> Some NotifyHandler" for t by (auto simp: admin_routes_def)
  show "verb = ''POST'' \<and> tail = ''/notification''" if "configure_api_v1 verb tail = Some NotifyHandler"
    using that none by (auto simp: configure_api_v1_def Option.bind_eq_Some_conv split: if_split_asm option.split_asm)
  have "\<not> administers h" if "configure_api_v1 verb tail = Some h" "verb \<noteq> ''DELETE''"
    using that unfolding configure_api_v1_def admin_routes_def
    by (simp only: split: if_split_asm option.split_asm) (auto simp: Option.bind_eq_Some_conv)
  then show "verb = ''DELETE''" if "configure_api_v1 verb tail = Some h" "administers h" using that by blast
qed

text \<open>What a permitted sender is.\<close>
definition may_send :: "'d app \<Rightarrow> user option \<Rightarrow> string \<Rightarrow> bool" where
  "may_send ax u event_type \<longleftrightarrow>
    (\<forall>auth. stream_auth_of (sv_global (ax_server ax)) event_type = Some auth \<and> sa_required auth \<longrightarrow>
       (\<exists>user. u = Some user \<and> token_user (ax_world ax) (ax_settings ax) user \<and>
          may_access (ax_settings ax) auth WriteStream user))"

text \<open>What an accepted notification is stored as.\<close>
definition stored_as :: "'d app \<Rightarrow> notification_request \<Rightarrow> processing_result \<Rightarrow> message \<Rightarrow> bool" where
  "stored_as ax nr res m \<longleftrightarrow>
     put_as m (pr_topic res) (payload_text (sv_host (ax_server ax)) (nr_payload nr)) (map_option spatial_headers (pr_spatial res))"

context backend_store
begin

lemma notify_authorised:
  assumes "as_enabled (ax_settings ax)" "inv s" "s' \<noteq> s"
    "middleware_call (ax_world ax) (ax_settings ax) (ax_client ax) req = Forwarded ctx u label"
    "run_handler ax ops NotifyHandler (forwarded_context (ax_settings ax) req ctx u) body cache flight s = (r, cache', s')"
  shows "\<exists>nr res new. admits (ax_server ax) (forwarded_context (ax_settings ax) req ctx u) body nr res \<and>
     may_send ax u (nr_event_type nr) \<and> size new \<le> copies \<and> (\<forall>m\<in>#new. stored_as ax nr res m) \<and> held s' \<subseteq># held s + new"
proof -
  let ?c = "forwarded_context (ax_settings ax) req ctx u"
  have s': "s' = oc_state (notify (ax_server ax) (bo_writer ops) ?c body s)" using assms(5) by (auto simp: Let_def)
  obtain nr res new where m: "admits (ax_server ax) ?c body nr res" "size new \<le> copies"
      "\<forall>m\<in>#new. stored_as ax nr res m" "held s' \<subseteq># held s + new"
    using notify_adds [OF assms(2) refl, of "ax_server ax" ?c body] assms(3)
    unfolding s' [symmetric] adds_def stored_as_def by (auto split: if_splits)
  have "may_send ax u (nr_event_type nr)"
    unfolding may_send_def using admits_may_write [OF assms(1,4) m(1)] by blast
  then show ?thesis using m by blast
qed

lemma appears_authorised:
  assumes "as_enabled (ax_settings ax)" "inv s" "route_path = ax_route_path ax (rq_path req)"
    "serve ax ops verb req body cache flight s = (r, cache', s')" "\<not> held s' \<subseteq># held s"
  shows "verb = ''POST'' \<and> route_path = ''/api/v1/notification'' \<and>
    (\<exists>ctx u nr res new. admits (ax_server ax) (forwarded_context (ax_settings ax) req ctx u) body nr res \<and>
       may_send ax u (nr_event_type nr) \<and> size new \<le> copies \<and> (\<forall>m\<in>#new. stored_as ax nr res m) \<and>
       held s' \<subseteq># held s + new)"
proof -
  obtain h forwarded where h: "dispatch (ax_world ax) (ax_settings ax) (ax_client ax) (ax_route_path ax) verb req = Runs h forwarded"
      "run_handler ax ops h (handler_context_of (ax_settings ax) req forwarded) body cache flight s = (r, cache', s')"
    using assms(4,5) by (auto simp: serve_def split: dispatched.splits)
  have notify: "h = NotifyHandler" using handler_shrinks [OF assms(2) _ h(2)] assms(5) by blast
  obtain ctx u label tail where d: "forwarded = Some (ctx, u)" "route_path = ''/api/v1'' @ tail"
      "configure_api_v1 verb tail = Some h"
      "middleware_call (ax_world ax) (ax_settings ax) (ax_client ax) req = Forwarded ctx u label"
    using dispatch_Runs [OF h(1)] notify assms(3) by metis
  have "s' \<noteq> s" using assms(5) by auto
  note notify_authorised [OF assms(1,2) this d(4) h(2) [unfolded notify d(1) handler_context_forwarded]]
  moreover have "verb = ''POST'' \<and> route_path = ''/api/v1/notification''"
    using api_methods(2) [OF d(3) [unfolded notify]] d(2) by simp
  ultimately show ?thesis by blast
qed

end

lemma mem_handler_keeps:
  assumes "\<not> administers h" "h \<noteq> NotifyHandler"
    "run_handler ax (mem_ops hs cfg now) h c body cache flight s = (r, cache', s')"
  shows "s' = s"
proof -
  have opens: "snd (open_live (mem_ops hs cfg now) s ctx) = s" "snd (open_history (mem_ops hs cfg now) s ctx limit) = s"
    "snd (open_replay (mem_ops hs cfg now) s ctx limit) = s" for ctx limit
    by (auto simp: open_live_def open_history_def open_replay_def mem_ops_def split: sum.splits end_at.splits)
  show ?thesis
  proof (rule ccontr)
    assume "s' \<noteq> s"
    then have "h \<noteq> WatchHandler" "h \<noteq> ReplayHandler"
      using watch_opening [of ax "mem_ops hs cfg now" c body cache flight s r cache' s']
        replay_opening [of ax "mem_ops hs cfg now" c body cache flight s r cache' s'] opens assms(3) by (metis snd_conv)+
    then show False using assms \<open>s' \<noteq> s\<close> by (cases h) auto
  qed
qed


text \<open>
  C35: who may write to JetStream. With authentication on, messages appear in the streams only by
  a \<open>POST\<close> routed to the notification endpoint that passed every check, of a validated user who may
  write there if its event type is protected; and what appears are copies of this notification,
  no more than there are attempts. Opening watches and replays, which ensure and reconcile their
  streams, wiping and deleting never add a message.
\<close>
theorem jetstream_writes_authorised:
  assumes "as_enabled (ax_settings ax)" "sound_server held jb"
    "serve ax (jetstream_ops jb) verb req body cache flight s = (r, cache', s')" "\<not> held s' \<subseteq># held s"
  shows "verb = ''POST'' \<and> ax_route_path ax (rq_path req) = ''/api/v1/notification'' \<and>
    (\<exists>ctx u nr res new. admits (ax_server ax) (forwarded_context (ax_settings ax) req ctx u) body nr res \<and>
       may_send ax u (nr_event_type nr) \<and> size new \<le> jc_publish_retry_attempts (jb_config jb) \<and>
       (\<forall>m\<in>#new. stored_as ax nr res m) \<and> held s' \<subseteq># held s + new)"
  by (rule js_backend.appears_authorised [OF assms(1,2) refl assms(3,4)])

text \<open>A server over the in-memory backend with authentication on, whose router decodes its paths.\<close>
definition decoded_path :: "string \<Rightarrow> string" where
  "decoded_path p = (case decode_token p of Inr q \<Rightarrow> q | Inl _ \<Rightarrow> p)"

definition sample_app :: "unit app" where
  "sample_app = \<lparr>ax_server = one_request [(''wx'', sample_schema)] (wx_request sample_notify None None),
     ax_world = sample_world, ax_settings = sample_settings, ax_client = None, ax_checker = None,
     ax_route_path = decoded_path, ax_segment = decoded_path, ax_wipe_request = Inr,
     ax_version = ''1.0'', ax_application = st_application site, ax_index_file = None\<rparr>"

lemma decoded_paths:
  "decoded_path ''/api/v1/admin/wipe/all'' = ''/api/v1/admin/wipe/all''"
  "decoded_path ''/api/v1/%61dmin/wipe/all'' = ''/api/v1/admin/wipe/all''"
  by code_simp+

lemma forwarded_without_credentials:
  assumes "rq_authorization req = None" "\<not> starts_with ''/api/v1/admin'' (rq_path req)"
  obtains ctx where "middleware_call w settings client req = Forwarded ctx None None"
proof -
  have "resolve_user w req settings client False = Inr None"
    using assms(1) by (simp add: resolve_user_def resolve_direct_credentials_def resolve_trusted_proxy_token_def split: auth_mode.split)
  then have "\<exists>ctx. middleware_call w settings client req = Forwarded ctx None None"
    using assms(2) by (simp add: middleware_call_def Let_def)
  then show ?thesis using that by blast
qed

text \<open>
  C39: a path that reaches the router in another spelling escapes the check of the
  administration routes. The middleware compares the raw path, the router matches the
  decoded one: for any settings, a \<open>DELETE\<close> request without credentials whose raw path does
  not start with \<open>/api/v1/admin\<close> but decodes to the path of \<open>wipe_all\<close> is answered with 200 and
  empties the store.
\<close>
theorem escaped_path_wipes:
  assumes "ax_route_path ax (rq_path req) = ''/api/v1/admin/wipe/all''"
    "\<not> starts_with ''/api/v1/admin'' (rq_path req)" "rq_authorization req = None"
  shows "serve ax (mem_ops hs cfg now) ''DELETE'' req body cache flight s =
           (Reply (wipe_response 200 True ''Successfully wiped all data'' (rq_id req)), cache, wipe_all s)"
proof -
  have route: "configure_api_v1 ''DELETE'' ''/admin/wipe/all'' = Some WipeAllHandler"
    "configure_ops_routes ''DELETE'' ''/api/v1/admin/wipe/all'' = None"
    "scope_tail ''/api/v1'' ''/api/v1/admin/wipe/all'' = Some ''/admin/wipe/all''"
    "\<not> starts_with ''/swagger-ui/'' ''/api/v1/admin/wipe/all''"
    by (simp_all add: configure_api_v1_def configure_ops_routes_def admin_routes_def scope_tail_def strip_prefix_def starts_with_def)
  obtain ctx where "middleware_call (ax_world ax) (ax_settings ax) (ax_client ax) req = Forwarded ctx None None"
    by (rule forwarded_without_credentials [OF assms(3,2)])
  then have "dispatch (ax_world ax) (ax_settings ax) (ax_client ax) (ax_route_path ax) ''DELETE'' req =
      Runs WipeAllHandler (Some (ctx, None))"
    by (simp add: dispatch_def assms(1) route Let_def)
  then show ?thesis
    by (simp add: serve_def wipe_all_route_def mem_ops_def mem_wipe_all_def handler_context_of_def)
qed

abbreviation sample_ops :: "(mem_state, string list) backend_ops" where
  "sample_ops \<equiv> mem_ops sample_host small_config 9"

theorem escaped_path_wipes_witness:
  "as_enabled (ax_settings sample_app) \<and>
   (let req = \<lparr>rq_path = ''/api/v1/%61dmin/wipe/all'', rq_authorization = None, rq_id = ''r''\<rparr>
    in all_messages (snd (snd (serve sample_app sample_ops ''DELETE'' req [] Map.empty (JoinsFetch (Inr {}) False) after_three))) = [])"
proof -
  let ?req = "\<lparr>rq_path = ''/api/v1/%61dmin/wipe/all'', rq_authorization = None, rq_id = ''r''\<rparr>"
  have "ax_route_path sample_app (rq_path ?req) = ''/api/v1/admin/wipe/all''"
    by (simp add: sample_app_def decoded_paths)
  from escaped_path_wipes [OF this, of sample_host small_config 9 "[]" Map.empty "JoinsFetch (Inr {}) False" after_three]
  show ?thesis by (simp add: starts_with_def wipe_all_def all_messages_def) (simp add: sample_app_def)
qed


lemma sample_admits_any:
  "admits (one_request [(''wx'', sample_schema)] (wx_request sample_notify None None)) c []
     (wx_request sample_notify None None)
     \<lparr>pr_event_type = ''wx'', pr_topic = ''weather.north.a%2Eb'', pr_params = [(''step'', ''a.b''), (''region'', ''north'')],
      pr_constraints = [], pr_spatial = None, pr_from_schema = True\<rparr>"
  by (simp add: admits_def request_defs reject_end_point_def has_end_point_def sample_defs process_defs
      enforce_stream_auth_def stream_auth_of_def)

theorem jetstream_writes_authorised_witness:
  "let s' = snd (snd (serve sample_app (jetstream_ops lossy_backend) ''POST'' (sample_request ''/api/v1/notification'') []
     Map.empty (JoinsFetch (Inr {}) False) ([], 0)))
   in fst s' \<noteq> [] \<and> (\<exists>new. size new \<le> 3 \<and> mset (fst s') \<subseteq># new \<and> (\<forall>m\<in>#new. m_topic m = ''weather.north.a%2Eb''))"
proof -
  let ?req = "sample_request ''/api/v1/notification''"
  let ?ctx = "\<lparr>ac_enabled = True, ac_mode = TrustedProxy\<rparr>"
  let ?c = "forwarded_context sample_settings ?req ?ctx (Some eve)"
  let ?s = "serve sample_app (jetstream_ops lossy_backend) ''POST'' ?req [] Map.empty (JoinsFetch (Inr {}) False) ([], 0)"
  have call: "middleware_call sample_world sample_settings None ?req = Forwarded ?ctx (Some eve) (Some ''success'')"
    by (simp add: middleware_call_def sample_resolved starts_with_def Let_def)
  have route: "configure_api_v1 ''POST'' ''/notification'' = Some NotifyHandler"
    "configure_ops_routes ''POST'' ''/api/v1/notification'' = None"
    "scope_tail ''/api/v1'' ''/api/v1/notification'' = Some ''/notification''"
    "\<not> starts_with ''/swagger-ui/'' ''/api/v1/notification''" "decoded_path ''/api/v1/notification'' = ''/api/v1/notification''"
    by (simp_all add: configure_api_v1_def configure_ops_routes_def scope_tail_def strip_prefix_def starts_with_def) code_simp
  let ?oc = "notify (ax_server sample_app) (bo_writer (jetstream_ops lossy_backend)) ?c [] ([], 0)"
  have serve: "?s = (Reply (oc_response ?oc), Map.empty, oc_state ?oc)"
    by (simp add: serve_def dispatch_def sample_app_def call route handler_context_forwarded Let_def)
  obtain m where "jetstream_put_messages three_tries lossy_nats (jb_ensure lossy_backend) ''weather.north.a%2Eb''
      (payload_text (sv_host (ax_server sample_app)) None) ([], 0) = (Inr (), ([m], 0))"
    using lossy_put by blast
  then have m: "oc_state ?oc = ([m], 0)"
    using sample_admits_any [of ?c, folded notify_checks_Inr]
    by (simp add: notify_def sample_app_def save_to_backend_def jetstream_ops_def lossy_backend_def wx_request_def Let_def)
  have enabled: "as_enabled (ax_settings sample_app)" by (simp add: sample_app_def sample_settings_def)
  have "\<not> mset (fst (oc_state ?oc)) \<subseteq># mset (fst ([], 0 :: nat))" by (simp add: m)
  from jetstream_writes_authorised [OF enabled lossy_sound serve this]
  obtain ctx u nr res new where new:
      "admits (ax_server sample_app) (forwarded_context (ax_settings sample_app) ?req ctx u) [] nr res"
      "size new \<le> jc_publish_retry_attempts (jb_config lossy_backend)" "\<forall>m\<in>#new. stored_as sample_app nr res m"
      "mset (fst (oc_state ?oc)) \<subseteq># mset (fst ([], 0 :: nat)) + new"
    by blast
  have "pr_topic res = ''weather.north.a%2Eb''"
    using new(1) sample_admits_any [of "forwarded_context (ax_settings sample_app) ?req ctx u"]
    by (auto simp: sample_app_def simp flip: notify_checks_Inr)
  moreover have "size new \<le> 3" using new(2) by (simp add: lossy_backend_def three_tries_def)
  ultimately show ?thesis
    using new(3,4) m unfolding Let_def serve snd_conv
    by (intro conjI exI [of _ new]) (auto simp: stored_as_def put_as_def)
qed

end
