(* ===== verification/Connections.thy ===== *)
theory Connections
  imports Metrics
begin

text \<open>
  The response of a stream as the HTTP server holds it: the heartbeat timer, the response headers
  and the body with its connection guard (\<open>create_heartbeat_stream\<close>, \<open>create_sse_response\<close> and
  \<open>frames_to_sse_byte_stream\<close> of \<open>src/sse/helpers.rs\<close>, \<open>GuardedSseStream\<close> of \<open>src/metrics.rs\<close>) and the
  tracking of a connection in \<open>src/routes/watch.rs\<close> and \<open>replay.rs\<close>. The server polls the body one
  chunk at a time and drops the response when the body has ended or the client has gone.
\<close>

section \<open>The heartbeat\<close>

text \<open>The frames of the ticks that pass, at their times. A timer with the period zero panics.\<close>
definition create_heartbeat_stream :: "string \<Rightarrow> nat \<Rightarrow> int list \<Rightarrow> stream_frame list option" where
  "create_heartbeat_stream topic interval_seconds ticks =
    (if interval_seconds = 0 then None else Some (map (Heartbeat topic) ticks))"

section \<open>The response\<close>

record sse_response =
  sr_status :: nat
  sr_content_type :: string
  sr_headers :: "(string \<times> string) list"
  sr_frames :: "stream_frame list"
  sr_guard :: "guard option"

definition create_sse_response :: "stream_frame list \<Rightarrow> guard option \<Rightarrow> sse_response" where
  "create_sse_response stream g =
     \<lparr>sr_status = 200, sr_content_type = ''text/event-stream'',
      sr_headers = [(''Cache-Control'', ''no-cache''), (''Connection'', ''keep-alive''),
                    (''Access-Control-Allow-Origin'', ''*''), (''X-Accel-Buffering'', ''no'')],
      sr_frames = stream, sr_guard = g\<rparr>"

text \<open>\<open>metrics.as_ref().map(..)\<close>: without metrics there is no guard.\<close>
definition track_stream :: "string \<Rightarrow> string \<Rightarrow> handler_context \<Rightarrow> app_metrics option \<Rightarrow> guard option \<times> app_metrics option" where
  "track_stream route event_type_label c metrics =
    (case metrics of
       None \<Rightarrow> (None, None)
     | Some m \<Rightarrow>
         (case track_sse_connection route event_type_label (map_option u_username (hc_user c)) m of
            (g, m') \<Rightarrow> (Some g, Some m')))"

definition drop_stream_guard :: "guard option \<Rightarrow> app_metrics option \<Rightarrow> app_metrics option" where
  "drop_stream_guard g metrics = (case g of None \<Rightarrow> metrics | Some g \<Rightarrow> map_option (drop_guard g) metrics)"

text \<open>The guard moves into the response; when the stream cannot be set up it is dropped at once.\<close>
definition tracked_response ::
  "string \<Rightarrow> string \<Rightarrow> handler_context \<Rightarrow> err + stream_frame list \<Rightarrow> app_metrics option \<Rightarrow>
   (err + sse_response) \<times> app_metrics option" where
  "tracked_response route event_type_label c prepared metrics =
    (case track_stream route event_type_label c metrics of
       (g, metrics') \<Rightarrow>
         (case prepared of
            Inl e \<Rightarrow> (Inl e, drop_stream_guard g metrics')
          | Inr frames \<Rightarrow>
              (Inr (create_sse_response frames g),
               (case g of None \<Rightarrow> metrics' | Some g \<Rightarrow> map_option (delivery_metrics g) metrics'))))"

text \<open>The counters of a delivered frame carry the labels of the guard.\<close>
definition count_frame :: "guard option \<Rightarrow> sse_frame_kind \<Rightarrow> app_metrics option \<Rightarrow> app_metrics option" where
  "count_frame delivery kind metrics =
    (case delivery of
       None \<Rightarrow> metrics
     | Some d \<Rightarrow>
         (case kind of
            KNotification \<Rightarrow> map_option (inc_events_sent d) metrics
          | KStreamError \<Rightarrow> map_option (inc_stream_errors d) metrics
          | KInfrastructure \<Rightarrow> metrics))"

definition poll_next ::
  "('poly, 'rect) sse_env \<Rightarrow> string \<Rightarrow> sse_response \<times> app_metrics option \<Rightarrow>
   (err + string) option \<times> sse_response \<times> app_metrics option" where
  "poll_next env rid rm =
    (case sr_frames (fst rm) of
       [] \<Rightarrow> (None, rm)
     | f # fs \<Rightarrow>
         (case frame_to_sse_bytes env rid f of
            Inl e \<Rightarrow> (Some (Inl e), (fst rm)\<lparr>sr_frames := fs\<rparr>, snd rm)
          | Inr (bytes, kind) \<Rightarrow>
              (Some (Inr bytes), (fst rm)\<lparr>sr_frames := fs\<rparr>, count_frame (sr_guard (fst rm)) kind (snd rm))))"

text \<open>The server polls until the body ends, at most \<open>n\<close> times, and drops the response.\<close>
fun polls ::
  "('poly, 'rect) sse_env \<Rightarrow> string \<Rightarrow> nat \<Rightarrow> sse_response \<times> app_metrics option \<Rightarrow>
   (err + string) list \<times> sse_response \<times> app_metrics option" where
  "polls env rid 0 rm = ([], rm)"
| "polls env rid (Suc n) rm =
    (case poll_next env rid rm of
       (None, rm') \<Rightarrow> ([], rm')
     | (Some chunk, rm') \<Rightarrow> (case polls env rid n rm' of (chunks, rm'') \<Rightarrow> (chunk # chunks, rm'')))"

definition drop_response :: "sse_response \<times> app_metrics option \<Rightarrow> app_metrics option" where
  "drop_response rm = drop_stream_guard (sr_guard (fst rm)) (snd rm)"

section \<open>The watch responses\<close>

text \<open>
  The body of a live watch and of a watch with a start, with the settings of the endpoint; \<open>merge\<close>
  is the interleaving the scheduler chooses. None when the heartbeat timer panics.
\<close>
definition live_watch_frames ::
  "('poly, 'rect) sse_env \<Rightarrow> ('poly, 'rect) replay_request \<Rightarrow> watch_endpoint_settings \<Rightarrow> message list \<Rightarrow> int list \<Rightarrow>
   (stream_frame list \<Rightarrow> stream_frame list \<Rightarrow> stream_frame list) \<Rightarrow> (nat \<times> stop_cause) option \<Rightarrow> stream_frame list option" where
  "live_watch_frames env rr we live ticks merge stop =
     map_option (\<lambda>beats.
       create_watch_sse_stream env rr (we_connection_max_duration_sec we)
         (merge (create_live_notification_stream
                   (List.map_filter (filter_notification_message env (rr_params rr) (rr_constraints rr) (rr_prepared rr)) live)) beats)
         stop)
       (create_heartbeat_stream (rr_topic rr) (we_sse_heartbeat_interval_sec we) ticks)"

definition history_watch_frames ::
  "('poly, 'rect) sse_env \<Rightarrow> ('poly, 'rect) replay_request \<Rightarrow> watch_endpoint_settings \<Rightarrow> start_at \<Rightarrow> stream_frame list \<Rightarrow>
   message list \<Rightarrow> int list \<Rightarrow> (stream_frame list \<Rightarrow> stream_frame list \<Rightarrow> stream_frame list) \<Rightarrow>
   (nat \<times> stop_cause) option \<Rightarrow> stream_frame list option" where
  "history_watch_frames env rr we start_at history live ticks merge stop =
     map_option (\<lambda>beats.
       create_historical_then_live_stream env rr (we_replay_batch_size we) start_at
         (merge (history_then_live env rr history live) beats) stop)
       (create_heartbeat_stream (rr_topic rr) (we_sse_heartbeat_interval_sec we) ticks)"

text \<open>With an interval of zero, which the startup checks accept, every watch panics.\<close>
lemma zero_heartbeat_panics:
  assumes "we_sse_heartbeat_interval_sec we = 0"
  shows "live_watch_frames env rr we live ticks merge stop = None"
    "history_watch_frames env rr we start_at history live ticks merge stop = None"
  by (simp_all add: live_watch_frames_def history_watch_frames_def create_heartbeat_stream_def assms)

lemma watch_settings_unread:
  "validate_schema_storage_policy_support (st\<lparr>st_watch := we\<rparr>) = validate_schema_storage_policy_support st"
  "validate_topic_schema_settings (st\<lparr>st_watch := we\<rparr>) = validate_topic_schema_settings st"
  "validate_spatial_schema_settings (st\<lparr>st_watch := we\<rparr>) = validate_spatial_schema_settings st"
  "validate_stream_plugin_settings h b (st\<lparr>st_watch := we\<rparr>) = validate_stream_plugin_settings h b st"
  "validate_stream_auth_settings (st\<lparr>st_watch := we\<rparr>) = validate_stream_auth_settings st"
  "validate_metrics_settings (st\<lparr>st_watch := we\<rparr>) = validate_metrics_settings st"
  "validate_ecpds_settings h p (st\<lparr>st_watch := we\<rparr>) = validate_ecpds_settings h p st"
  "build_ecpds_checker bh p (st\<lparr>st_watch := we\<rparr>) = build_ecpds_checker bh p st"
proof -
  have same: "st_application (st\<lparr>st_watch := we\<rparr>) = st_application st" "st_backend (st\<lparr>st_watch := we\<rparr>) = st_backend st"
    "st_schema (st\<lparr>st_watch := we\<rparr>) = st_schema st" "st_auth (st\<lparr>st_watch := we\<rparr>) = st_auth st"
    "st_metrics (st\<lparr>st_watch := we\<rparr>) = st_metrics st" "st_ecpds (st\<lparr>st_watch := we\<rparr>) = st_ecpds st"
    by simp_all
  note defs = validate_schema_storage_policy_support_def validate_topic_schema_settings_def
    validate_spatial_schema_settings_def validate_stream_plugin_settings_def validate_stream_auth_settings_def
    validate_metrics_settings_def validate_ecpds_settings_def build_ecpds_checker_def ecpds_streams_def schemas_of_def
  show "validate_schema_storage_policy_support (st\<lparr>st_watch := we\<rparr>) = validate_schema_storage_policy_support st"
    "validate_topic_schema_settings (st\<lparr>st_watch := we\<rparr>) = validate_topic_schema_settings st"
    "validate_spatial_schema_settings (st\<lparr>st_watch := we\<rparr>) = validate_spatial_schema_settings st"
    "validate_stream_plugin_settings h b (st\<lparr>st_watch := we\<rparr>) = validate_stream_plugin_settings h b st"
    "validate_stream_auth_settings (st\<lparr>st_watch := we\<rparr>) = validate_stream_auth_settings st"
    "validate_metrics_settings (st\<lparr>st_watch := we\<rparr>) = validate_metrics_settings st"
    "validate_ecpds_settings h p (st\<lparr>st_watch := we\<rparr>) = validate_ecpds_settings h p st"
    "build_ecpds_checker bh p (st\<lparr>st_watch := we\<rparr>) = build_ecpds_checker bh p st"
    unfolding defs same by (rule refl)+
qed

lemma watch_settings_unchecked: "startup_checks lb (st\<lparr>st_watch := we\<rparr>) = startup_checks lb st"
  by (simp add: startup_checks_def watch_settings_unread)

section \<open>Accounting\<close>

lemma am_readings [simp]:
  "am_sse_events_sent_total (snd (track_sse_connection r et un m)) = am_sse_events_sent_total m"
  "am_sse_stream_errors_total (snd (track_sse_connection r et un m)) = am_sse_stream_errors_total m"
  "am_sse_connections_total (snd (track_sse_connection r et un m)) = inc [r, et] (am_sse_connections_total m)"
  "am_sse_events_sent_total (drop_guard g m) = am_sse_events_sent_total m"
  "am_sse_stream_errors_total (drop_guard g m) = am_sse_stream_errors_total m"
  "am_sse_connections_total (drop_guard g m) = am_sse_connections_total m"
  by (auto simp: track_sse_connection_def drop_guard_def Let_def split: option.split)

text \<open>What the delivery of frames changes: two counters.\<close>
definition delivered_more :: "guard \<Rightarrow> nat \<Rightarrow> nat \<Rightarrow> app_metrics \<Rightarrow> app_metrics \<Rightarrow> bool" where
  "delivered_more g sent errors m m' \<longleftrightarrow>
    (\<forall>k. reading (am_sse_events_sent_total m') k = reading (am_sse_events_sent_total m) k + (if k = [g_route g, g_event_type g] then sent else 0)) \<and>
    (\<forall>k. reading (am_sse_stream_errors_total m') k = reading (am_sse_stream_errors_total m) k + (if k = [g_route g, g_event_type g] then errors else 0)) \<and>
    am_sse_connections_active m' = am_sse_connections_active m \<and> am_sse_connections_total m' = am_sse_connections_total m \<and>
    am_sse_unique_users_active m' = am_sse_unique_users_active m \<and> am_unique_users m' = am_unique_users m"

lemma delivered_more_refl: "delivered_more g 0 0 m m" by (simp add: delivered_more_def)

lemma delivered_more_trans:
  "delivered_more g a b m m' \<Longrightarrow> delivered_more g c d m' m'' \<Longrightarrow> delivered_more g (a + c) (b + d) m m''"
  by (simp add: delivered_more_def)

lemma delivered_more_inc:
  "delivered_more g 1 0 m (inc_events_sent g m)" "delivered_more g 0 1 m (inc_stream_errors g m)"
  "delivered_more g 0 0 m (delivery_metrics g m)"
  by (simp_all add: delivered_more_def inc_events_sent_def inc_stream_errors_def delivery_metrics_def)

definition counted :: "sse_frame_kind \<Rightarrow> ('poly, 'rect) sse_env \<Rightarrow> string \<Rightarrow> stream_frame list \<Rightarrow> nat" where
  "counted kind env rid fs = length (filter ((=) kind) (rendered_kinds env rid fs))"

lemma polls_account:
  assumes "sr_guard r = Some g"
  shows "\<exists>r' m'. polls env rid n (r, Some m) =
      (take n (fst (frames_to_sse_byte_stream env rid None (sr_frames r))), r', Some m') \<and> sr_guard r' = Some g \<and>
     delivered_more g (counted KNotification env rid (take n (sr_frames r))) (counted KStreamError env rid (take n (sr_frames r))) m m'"
  using assms
proof (induction n arbitrary: r m)
  case 0
  then show ?case by (simp add: counted_def delivered_more_refl)
next
  case (Suc n)
  show ?case
  proof (cases "sr_frames r")
    case Nil
    then show ?thesis using Suc(2) by (simp add: poll_next_def counted_def delivered_more_refl)
  next
    case (Cons f fs)
    obtain bytes kind where f: "frame_to_sse_bytes env rid f = Inr (bytes, kind)" using frame_to_sse_bytes_total by blast
    define m1 where "m1 = (case kind of KNotification \<Rightarrow> inc_events_sent g m | KStreamError \<Rightarrow> inc_stream_errors g m | KInfrastructure \<Rightarrow> m)"
    have step: "poll_next env rid (r, Some m) = (Some (Inr bytes), r\<lparr>sr_frames := fs\<rparr>, Some m1)"
      using Suc(2) by (cases kind) (simp_all add: poll_next_def Cons f count_frame_def m1_def)
    have "delivered_more g (if kind = KNotification then 1 else 0) (if kind = KStreamError then 1 else 0) m m1"
      using delivered_more_inc delivered_more_refl by (cases kind) (simp_all add: m1_def)
    moreover obtain r' m' where rest: "polls env rid n (r\<lparr>sr_frames := fs\<rparr>, Some m1) =
        (take n (fst (frames_to_sse_byte_stream env rid None fs)), r', Some m')" "sr_guard r' = Some g"
        "delivered_more g (counted KNotification env rid (take n fs)) (counted KStreamError env rid (take n fs)) m1 m'"
      using Suc(1) [of "r\<lparr>sr_frames := fs\<rparr>" m1] Suc(2) by auto
    moreover have "fst (frames_to_sse_byte_stream env rid None (f # fs)) =
        Inr bytes # fst (frames_to_sse_byte_stream env rid None fs)"
      by (simp add: f record_frame_delivery_def split: prod.split)
    ultimately show ?thesis
      using delivered_more_trans
      by (cases kind) (fastforce simp: Cons step f counted_def)+
  qed
qed

text \<open>
  C38: a connection is counted from its start to its end, and every frame once. When the stream of a
  tracked request is set up and the client reads it for any number of chunks, the connection is
  active and its user counted exactly until the response is dropped; the chunks are the frames in
  their order, and the counters of the connection grow by the notifications and errors among them,
  no others. When the stream cannot be set up the gauges are as before.
\<close>
theorem connection_accounted:
  "(case tracked_response route event_type c (Inr frames) (Some m) of
     (Inl e, metrics) \<Rightarrow> False
   | (Inr r, metrics) \<Rightarrow>
       (\<exists>chunks r' m'. polls env rid n (r, metrics) = (chunks, r', Some m') \<and>
          chunks = take n (fst (frames_to_sse_byte_stream env rid None frames)) \<and>
          reading (am_sse_connections_active m') [route, event_type] = reading (am_sse_connections_active m) [route, event_type] + 1 \<and>
          (\<forall>u. user_count m' route u = user_count m route u + (if map_option u_username (hc_user c) = Some u then 1 else 0)) \<and>
          (\<exists>m''. drop_response (r', Some m') = Some m'' \<and>
             (\<forall>k. reading (am_sse_connections_active m'') k = reading (am_sse_connections_active m) k) \<and>
             (\<forall>rt u. user_count m'' rt u = user_count m rt u) \<and>
             (\<forall>k. reading (am_sse_connections_total m'') k =
                reading (am_sse_connections_total m) k + (if k = [route, event_type] then 1 else 0)) \<and>
             (\<forall>k. reading (am_sse_events_sent_total m'') k = reading (am_sse_events_sent_total m) k +
                (if k = [route, event_type] then counted KNotification env rid (take n frames) else 0)) \<and>
             (\<forall>k. reading (am_sse_stream_errors_total m'') k = reading (am_sse_stream_errors_total m) k +
                (if k = [route, event_type] then counted KStreamError env rid (take n frames) else 0))))) \<and>
   (\<exists>m''. tracked_response route event_type c (Inl e) (Some m) = (Inl e, Some m'') \<and>
      (\<forall>k. reading (am_sse_connections_active m'') k = reading (am_sse_connections_active m) k) \<and>
      (\<forall>rt u. user_count m'' rt u = user_count m rt u))"
proof -
  define g where "g = \<lparr>g_route = route, g_event_type = event_type, g_username = map_option u_username (hc_user c)\<rparr>"
  obtain m1 where m1: "track_sse_connection route event_type (map_option u_username (hc_user c)) m = (g, m1)"
    using track_simps(1) [where r = route and et = event_type and un = "map_option u_username (hc_user c)" and m = m]
    by (cases "track_sse_connection route event_type (map_option u_username (hc_user c)) m") (simp add: g_def)
  note track = track_simps [where r = route and et = event_type and un = "map_option u_username (hc_user c)" and m = m, unfolded m1 snd_conv]
    am_readings(1-3) [where r = route and et = event_type and un = "map_option u_username (hc_user c)" and m = m, unfolded m1 snd_conv]
  let ?r = "create_sse_response frames (Some g)"
  have start: "tracked_response route event_type c (Inr frames) (Some m) = (Inr ?r, Some (delivery_metrics g m1))"
    by (simp add: tracked_response_def track_stream_def m1)
  have frames: "sr_guard ?r = Some g" "sr_frames ?r = frames" by (simp_all add: create_sse_response_def)
  obtain r' m' where run: "polls env rid n (?r, Some (delivery_metrics g m1)) =
      (take n (fst (frames_to_sse_byte_stream env rid None frames)), r', Some m')" "sr_guard r' = Some g"
      "delivered_more g (counted KNotification env rid (take n frames)) (counted KStreamError env rid (take n frames))
         (delivery_metrics g m1) m'"
    using polls_account [OF frames(1), of env rid n "delivery_metrics g m1"] unfolding frames(2) by blast
  have total: "delivered_more g (counted KNotification env rid (take n frames)) (counted KStreamError env rid (take n frames)) m1 m'"
    using delivered_more_trans [OF delivered_more_inc(3) run(3)] by simp
  have users: "user_count m' rt u = user_count m1 rt u" for rt u
    using total by (simp add: delivered_more_def user_count_def)
  have dropped: "drop_response (r', Some m') = Some (drop_guard g m')"
    by (simp add: drop_response_def drop_stream_guard_def run(2))
  have failed: "tracked_response route event_type c (Inl e) (Some m) = (Inl e, Some (drop_guard g m1))"
    by (simp add: tracked_response_def track_stream_def m1 drop_stream_guard_def)
  have labels: "g_route g = route" "g_event_type g = event_type" "g_username g = map_option u_username (hc_user c)"
    by (simp_all add: g_def)
  have restored: "user_count (drop_guard g m') rt u = user_count m rt u" "user_count (drop_guard g m1) rt u = user_count m rt u" for rt u
    using users track(5) by (simp_all add: labels)
  show ?thesis
    unfolding start failed prod.case sum.case run(1)
    using total track restored
    by (auto simp: delivered_more_def dropped labels users)
qed

end
