(* ===== verification/Delivery.thy ===== *)
theory Delivery
  imports Server Connections
begin

text \<open>
  From a notification to its readers, over the endpoints and the in-memory backend together: a
  notification that was accepted is delivered to a replay that asks for it, as long as it stays
  stored, and to a watch that asks for it and was open when it came. The streams are the ones the
  routes open, \<open>create_replay_only_stream\<close> and \<open>create_watch_sse_stream\<close> called by
  \<open>src/routes/replay.rs\<close> and \<open>watch.rs\<close> with the context of the request.
\<close>

section \<open>The call of the route\<close>

text \<open>What the route passes on, with the filter that \<open>create_replay_only_stream\<close> prepares of it.\<close>
definition replay_request_of :: "('poly, 'rect) sse_env \<Rightarrow> streaming_context \<Rightarrow> nat \<Rightarrow> ('poly, 'rect) replay_request" where
  "replay_request_of env ctx max_allowed =
     \<lparr>rr_topic = sc_topic ctx, rr_params = sc_params ctx, rr_constraints = sc_constraints ctx,
      rr_prepared = prepare_spatial_filter (env_host env) (env_geo env) (sc_params ctx),
      rr_request_id = sc_request_id ctx, rr_max_allowed = max_allowed\<rparr>"

section \<open>Asking for a notification\<close>

text \<open>An event type whose routing is well formed, as the startup checks leave it.\<close>
definition routable :: "schema_map \<Rightarrow> string \<Rightarrow> event_schema \<Rightarrow> topic_config \<Rightarrow> bool" where
  "routable schemas et schema tc \<longleftrightarrow>
     wf_map schemas \<and> distinct (bases_of schemas) \<and> map_of schemas et = Some schema \<and> es_topic schema = Some tc \<and>
     wf_map (es_identifier schema) \<and> set (tc_key_order tc) \<subseteq> fst ` set (es_identifier schema) \<and>
     ''point'' \<notin> set (tc_key_order tc) \<and> distinct (tc_key_order tc)"

text \<open>
  A reader without a geometry asks for a notification when, field by field, the value of the reader
  selects the value of the notification, and every constraint holds of the canonical value.
\<close>
definition asks_for ::
  "'d server \<Rightarrow> event_schema \<Rightarrow> topic_config \<Rightarrow> notification_request \<Rightarrow> streaming_context \<Rightarrow>
   notification_request \<Rightarrow> processing_result \<Rightarrow> bool" where
  "asks_for sv schema tc reader ctx posted res \<longleftrightarrow>
     nr_event_type reader = nr_event_type posted \<and>
     (\<forall>k\<in>set (tc_key_order tc). k = ''polygon'' \<or>
        Routing.selects (sv_host sv) (sv_chrono sv) schema (nr_identifier reader) (nr_identifier posted) k) \<and>
     (\<forall>(f, con)\<in>set (sc_constraints ctx). f \<in> set (tc_key_order tc) \<and>
        (\<exists>w. map_of (pr_params res) f = Some w \<and> w \<noteq> [] \<and> w \<noteq> ''*'' \<and> matches_constraint_value (sv_host sv) w con)) \<and>
     map_of (sc_params ctx) ''point'' = None \<and> map_of (sc_params ctx) ''polygon'' \<in> {None, Some ''*''}"

lemma process_streaming_result:
  assumes "process_streaming h c d global strict r rid config = Inr ctx"
  obtains res where "process_request_with_values h c (handler_from_config global strict)
      (nr_event_type r) (nr_identifier r) None (vc_operation config) = Inr res"
    "sc_topic ctx = pr_topic res" "sc_params ctx = pr_params res"
  using assms by (auto simp: process_streaming_def result_simps)

lemma plain_filter:
  assumes "cons \<noteq> [] \<Longrightarrow> matches_identifier_constraints h global topic cons"
    "map_of request ''point'' = None" "map_of request ''polygon'' \<in> {None, Some ''*''}"
  shows "matches_notification_filters_prepared h g global topic request cons prepared metadata payload"
  using assms by (auto simp: matches_notification_filters_prepared_def Let_def)

lemma asked_selected:
  assumes "routable schemas (nr_event_type posted) schema tc" "asks_for sv schema tc reader ctx posted res"
    "sv_global sv = Some schemas" "admits sv c body posted res" "config = for_replay \<or> config = for_watch"
    "process_streaming (sv_host sv) (sv_chrono sv) (sv_dates sv) (sv_global sv) (sv_strict sv) reader rid config = Inr ctx"
    "valid_params (tc_key_order tc) (pr_params res)" "valid_params (tc_key_order tc) (sc_params ctx)"
  shows "\<exists>coarse full. analyze_watch_pattern (sc_topic ctx) = Inr (coarse, full) \<and> matches_watch_pattern (pr_topic res) full"
    and "matches_notification_filters_prepared (sv_host sv) g (Some schemas) (pr_topic res) (sc_params ctx) (sc_constraints ctx)
           prepared metadata payload"
proof -
  let ?reg = "handler_from_config (Some schemas) (sv_strict sv)"
  have reg: "reg_schemas ?reg = schemas" by (simp add: handler_from_config_def from_config_with_strict_def)
  note rt = assms(1) [unfolded routable_def] and ask = assms(2) [unfolded asks_for_def]
  have posted: "process_request_with_values (sv_host sv) (sv_chrono sv) ?reg (nr_event_type posted) (nr_identifier posted)
      (nr_payload posted) Notify = Inr res"
    using assms(3,4) by (simp add: admits_def)
  obtain res2 where reader: "process_request_with_values (sv_host sv) (sv_chrono sv) ?reg (nr_event_type posted) (nr_identifier reader)
      None (vc_operation config) = Inr res2" "sc_topic ctx = pr_topic res2" "sc_params ctx = pr_params res2"
    using process_streaming_result [OF assms(6)] assms(3) ask by metis
  have op: "vc_operation config \<noteq> Notify" using assms(5) by (auto simp: for_replay_def for_watch_def)
  have schema: "map_of (reg_schemas ?reg) (nr_event_type posted) = Some schema" "es_topic schema = Some tc" "wf_map (es_identifier schema)"
    "set (tc_key_order tc) \<subseteq> fst ` set (es_identifier schema)" "''point'' \<notin> set (tc_key_order tc)"
    using rt by (simp_all add: reg)
  obtain coarse full where "analyze_watch_pattern (pr_topic res2) = Inr (coarse, full)"
      "matches_watch_pattern (pr_topic res) full \<longleftrightarrow> (\<forall>k\<in>set (tc_key_order tc). k = ''polygon'' \<or>
         Routing.selects (sv_host sv) (sv_chrono sv) schema (nr_identifier reader) (nr_identifier posted) k)"
    using watch_routes [OF schema op posted reader(1) assms(7)] assms(8) unfolding reader(3) by blast
  then show "\<exists>coarse full. analyze_watch_pattern (sc_topic ctx) = Inr (coarse, full) \<and> matches_watch_pattern (pr_topic res) full"
    using ask unfolding reader(2) by blast
  have "matches_identifier_constraints (sv_host sv) (Some schemas) (pr_topic res) (sc_constraints ctx)"
  proof -
    have known: "wf_map (reg_schemas ?reg)" "distinct (bases_of (reg_schemas ?reg))" "distinct (tc_key_order tc)"
      using rt by (simp_all add: reg)
    show ?thesis
      using constraints_see_values [OF known(1,2) schema(1,2) known(3) posted assms(7), of "sc_constraints ctx"] ask
      by (simp add: reg)
  qed
  then show "matches_notification_filters_prepared (sv_host sv) g (Some schemas) (pr_topic res) (sc_params ctx) (sc_constraints ctx)
      prepared metadata payload"
    using ask by (intro plain_filter) simp_all
qed

section \<open>Delivery\<close>

text \<open>The message an accepted notification is stored as.\<close>
definition posted_message :: "'d server \<Rightarrow> int \<Rightarrow> mem_state \<Rightarrow> notification_request \<Rightarrow> processing_result \<Rightarrow> message" where
  "posted_message sv now s posted res =
     \<lparr>m_sequence = next_sequence s, m_topic = pr_topic res, m_payload = payload_text (sv_host sv) (nr_payload posted),
      m_timestamp = Some now, m_metadata = map_option spatial_headers (pr_spatial res)\<rparr>"

lemma admitted_stored:
  assumes "mem_inv cfg s" "admits (ax_server ax) c body posted res"
    "run_handler ax (mem_ops hs cfg now) NotifyHandler c body cache flight s = (Reply r, cache', s1)"
  shows "hr_status r = 200 \<and> posted_message (ax_server ax) now s posted res \<in> set (all_messages s1)"
proof -
  let ?oc = "notify (ax_server ax) (mem_writer cfg now) c body s"
  have oc: "r = oc_response ?oc" "s1 = oc_state ?oc" using assms(3) by (simp_all add: mem_ops_def Let_def)
  have same: "posted' = posted \<and> res' = res" if "admits (ax_server ax) c body posted' res'" for posted' res'
    using that assms(2) unfolding admits_def by auto
  note effect = notify_effect [OF assms(1) refl, of "ax_server ax" now c body]
  have ok: "hr_status (oc_response ?oc) = 200" using effect assms(2) by presburger
  then obtain posted' res' m where "admits (ax_server ax) c body posted' res'" "m \<in> set (all_messages (oc_state ?oc))"
      "m = posted_message (ax_server ax) now s posted' res'"
    using effect [unfolded ok if_P [OF refl]] unfolding posted_message_def by blast
  then show ?thesis using same ok unfolding oc by blast
qed

text \<open>The request behind an opened replay, over any backend.\<close>
lemma replay_request_read:
  assumes "run_handler ax ops ReplayHandler c body cache flight s = (Opened ctx x, cache', s')"
  obtains reader where "parse_and_validate_request (sv_host (ax_server ax)) (sv_read_request (ax_server ax)) body = Inr reader"
    "process_streaming (sv_host (ax_server ax)) (sv_chrono (ax_server ax)) (sv_dates (ax_server ax)) (sv_global (ax_server ax))
       (sv_strict (ax_server ax)) reader (hc_request_id c) for_replay = Inr ctx"
proof -
  have "opened (replay (ax_server ax) (\<lambda>ctx limit. Inr (open_replay ops s ctx limit)) c (ax_checker ax) cache flight body) ctx"
    using assms by (auto simp: opened_def stream_reply_def split: stream_outcome.splits prod.splits sum.splits)
  then obtain cache'' counts where "admit_stream (ax_server ax) ReplayKind for_replay c (ax_checker ax) cache flight body = (Inr ctx, cache'', counts)"
    using replay_opened by blast
  from admit_stream_Inr [OF this] show thesis using that by metis
qed

lemma replay_end_bounded:
  assumes "mem_inv cfg s"
    "run_handler ax (mem_ops hs cfg now) ReplayHandler c body cache flight s = (Opened ctx (ReplayOnly e max_allowed), cache', s')"
  shows "e < next_sequence s"
proof -
  let ?ops = "mem_ops hs cfg now"
  let ?x = "replay (ax_server ax) (\<lambda>ctx limit. Inr (open_replay ?ops s ctx limit)) c (ax_checker ax) cache flight body"
  have out: "sx_outcome ?x = Streaming ctx (Inr (ReplayOnly e max_allowed), s')"
    using assms(2) by (auto simp: stream_reply_def split: stream_outcome.splits prod.splits sum.splits)
  obtain limit where limit: "open_replay ?ops s ctx limit = (Inr (ReplayOnly e max_allowed), s')"
    using out by (auto simp: replay_def split: prod.splits sum.splits)
  have "1 \<le> next_sequence s" using assms(1) by (simp add: mem_inv_def)
  then show ?thesis
    using limit by (auto simp: open_replay_def mem_ops_def resolve_end_sequence_def history_end_def result_simps
        split: sum.splits end_at.splits option.splits prod.splits)
qed

lemma history_frames_kept:
  assumes "until_replay_terminal (hist @ [completed]) = hist @ ys" "\<not> is_replay_terminal start"
  shows "set hist \<subseteq> set (apply_stream_lifecycle (start # hist @ [completed]) topic None rid now)"
  using assms by (auto simp: apply_stream_lifecycle_def Let_def)

lemma scanned_until_terminal:
  assumes "scan_batch env rr 0 L = (fs, d, b)" "\<not> is_replay_terminal completed"
  shows "\<exists>ys. until_replay_terminal (fs @ [completed]) = fs @ ys"
proof -
  obtain pre where pre: "fs = pre @ (if b then [Control (ReplayLimitReached (rr_topic rr) (rr_max_allowed rr) (env_now env))] else [])"
      "\<forall>f\<in>set pre. \<exists>bytes kind. f = Rendered bytes kind"
    using scan_terminal [OF assms(1)] by blast
  have "\<forall>f\<in>set pre. \<not> is_replay_terminal f" using pre(2) by fastforce
  from until_replay_terminal_append [OF this] show ?thesis using assms(2) by (simp add: pre(1))
qed

text \<open>What the history scans and may deliver is in the frames of the replay, or the limit is reached.\<close>
lemma scanned_is_delivered:
  assumes "create_historical_replay_stream env rr fetch fuel batch_size st e = Some (fst (scan_batch env rr 0 L))"
  shows "\<exists>frames. create_replay_only_stream env rr fetch fuel batch_size st en e None = Some frames \<and>
    (\<forall>m\<in>set L. deliverable env rr m \<longrightarrow> Rendered (fst (renders env rr m)) KNotification \<in> set frames \<or>
       Control (ReplayLimitReached (rr_topic rr) (rr_max_allowed rr) (env_now env)) \<in> set frames)"
proof -
  obtain fs d b where scan: "scan_batch env rr 0 L = (fs, d, b)" by (metis prod_cases3)
  let ?start = "replay_start_frame env rr batch_size st (reported_end en e)"
  let ?fin = "replay_completed_frame env rr"
  let ?frames = "apply_stream_lifecycle (?start # fs @ [?fin]) (rr_topic rr) None (rr_request_id rr) (env_now env)"
  have plain: "\<not> is_replay_terminal ?start" "\<not> is_replay_terminal ?fin"
    by (simp_all add: replay_start_frame_def replay_completed_frame_def split: prod.split)
  have kept: "set fs \<subseteq> set ?frames"
    using scanned_until_terminal [OF scan plain(2)] history_frames_kept [OF _ plain(1)] by blast
  have found: "Rendered (fst (renders env rr m)) KNotification \<in> set fs \<or>
      Control (ReplayLimitReached (rr_topic rr) (rr_max_allowed rr) (env_now env)) \<in> set fs"
    if "m \<in> set L" "deliverable env rr m" for m
  proof (cases b)
    case True
    then show ?thesis using scan_terminal [OF scan] by auto
  next
    case False
    then have "length (filter (deliverable env rr) L) \<le> rr_max_allowed rr" using scan_delivered [OF le0 scan] by simp
    then have "delivered_frames fs = map (\<lambda>m. Rendered (fst (renders env rr m)) KNotification) (filter (deliverable env rr) L)"
      using scan_notifications [OF le0 scan] by simp
    then have "Rendered (fst (renders env rr m)) KNotification \<in> set (delivered_frames fs)" using that by simp
    then show ?thesis by (simp add: delivered_frames_def)
  qed
  show ?thesis
  proof (intro exI [of _ ?frames] conjI)
    show "create_replay_only_stream env rr fetch fuel batch_size st en e None = Some ?frames"
      by (simp add: create_replay_only_stream_def assms scan)
  qed (use found kept in blast)
qed

text \<open>
  C1: what is posted is delivered. With a well-formed event type, a notification that passes the
  checks is answered with 200 and stored. Any replay whose request asks for it, whoever opens it and
  whatever else is stored, evicted or deleted meanwhile, delivers it while it stays stored,
  if it lies between the start and the end of the replay and can be rendered; or the
  replay reaches its limit and says so.
\<close>
theorem posted_is_replayed:
  assumes "sv_global (ax_server ax) = Some schemas" "routable schemas (nr_event_type posted) schema tc"
    and "admits (ax_server ax) c body posted res" "mem_inv cfg s"
      "run_handler ax (mem_ops hs cfg now) NotifyHandler c body cache flight s = (Reply r, cache1, s1)"
      "m = posted_message (ax_server ax) now s posted res"
    and "evolves hs cfg t" "\<forall>k. m \<in> set (all_messages (t k))"
    and "parse_and_validate_request (sv_host (ax_server ax)) (sv_read_request (ax_server ax)) body2 = Inr reader"
      "run_handler ax (mem_ops hs cfg later) ReplayHandler c2 body2 cache2 flight2 (t 0) =
         (Opened ctx (ReplayOnly e max_allowed), cache3, s3)"
      "asks_for (ax_server ax) schema tc reader ctx posted res"
      "valid_params (tc_key_order tc) (pr_params res)" "valid_params (tc_key_order tc) (sc_params ctx)"
    and "starts_at (sc_start_at ctx) m" "m_sequence m \<le> e" "start_closed (sc_start_at ctx) (all_messages (t 0))"
    and "env_host env = sv_host (ax_server ax)" "env_schemas env = Some schemas"
      "renders env (replay_request_of env ctx max_allowed) m = (bytes, KNotification)"
    and "0 < batch_size" "length (all_messages (t 0)) + 2 \<le> fuel"
  shows "hr_status r = 200 \<and> m \<in> set (all_messages s1) \<and>
    (\<exists>frames. create_replay_only_stream env (replay_request_of env ctx max_allowed) (\<lambda>k. get_messages_batch (t k)) fuel
         batch_size (sc_start_at ctx) (sc_end_at ctx) e None = Some frames \<and>
       (Rendered bytes KNotification \<in> set frames \<or>
        Control (ReplayLimitReached (sc_topic ctx) max_allowed (env_now env)) \<in> set frames))"
proof -
  let ?rr = "replay_request_of env ctx max_allowed"
  have rr: "rr_topic ?rr = sc_topic ctx" "rr_max_allowed ?rr = max_allowed" by (simp_all add: replay_request_of_def)
  have inv: "mem_inv cfg (t 0)" using assms(7) by (simp add: evolves_def)
  note e = replay_end_bounded [OF inv assms(10)]
  obtain reader' where "parse_and_validate_request (sv_host (ax_server ax)) (sv_read_request (ax_server ax)) body2 = Inr reader'"
      and stream: "process_streaming (sv_host (ax_server ax)) (sv_chrono (ax_server ax)) (sv_dates (ax_server ax))
       (sv_global (ax_server ax)) (sv_strict (ax_server ax)) reader' (hc_request_id c2) for_replay = Inr ctx"
    by (rule replay_request_read [OF assms(10)])
  then have "reader' = reader" using assms(9) by simp
  note asked = asked_selected [OF assms(2,11,1,3) disjI1 [OF refl] stream [unfolded this] assms(12,13)]
  obtain coarse full where pattern: "analyze_watch_pattern (rr_topic ?rr) = Inr (coarse, full)" "matches_watch_pattern (pr_topic res) full"
    using asked(1) unfolding rr by blast
  have topic: "m_topic m = pr_topic res" by (simp add: assms(6) posted_message_def)
  have "Replay.selects env ?rr m"
    using asked(2) by (simp add: Replay.selects_def assms(17,18) topic replay_request_of_def)
  then have deliverable: "deliverable env ?rr m" by (simp add: deliverable_def assms(19))
  obtain L where L: "create_historical_replay_stream env ?rr (\<lambda>k. get_messages_batch (t k)) fuel batch_size (sc_start_at ctx) e =
        Some (fst (scan_batch env ?rr 0 L))" "{m. (\<forall>k. m \<in> set (all_messages (t k))) \<and> wanted full e (sc_start_at ctx) m} \<subseteq> set L"
    using replay_scans [where h = hs and cfg = cfg and env = env, OF assms(7) pattern(1) e assms(20,16,21)] by blast
  have "wanted full e (sc_start_at ctx) m" using assms(14,15) pattern(2) by (simp add: wanted_def topic)
  then have "m \<in> set L" using L(2) assms(8) by blast
  note m = this deliverable
  obtain frames where frames: "create_replay_only_stream env ?rr (\<lambda>k. get_messages_batch (t k)) fuel batch_size
        (sc_start_at ctx) (sc_end_at ctx) e None = Some frames"
      "\<forall>m\<in>set L. deliverable env ?rr m \<longrightarrow> Rendered (fst (renders env ?rr m)) KNotification \<in> set frames \<or>
         Control (ReplayLimitReached (rr_topic ?rr) (rr_max_allowed ?rr) (env_now env)) \<in> set frames"
    using scanned_is_delivered [OF L(1), of "sc_end_at ctx"] by blast
  have "Rendered bytes KNotification \<in> set frames \<or> Control (ReplayLimitReached (sc_topic ctx) max_allowed (env_now env)) \<in> set frames"
    using mp [OF bspec [OF frames(2) m(1)] m(2)] unfolding rr assms(19) fst_conv .
  then show ?thesis using admitted_stored [OF assms(4,3,5)] assms(6) frames(1) by blast
qed

section \<open>A notification and its replay\<close>

text \<open>A server that reads the empty body as a notification and any other as the given request of a reader.\<close>
definition server_with :: "notification_request \<Rightarrow> unit server" where
  "server_with reader = (one_request [(''wx'', sample_schema)] (wx_request sample_notify None None))
     \<lparr>sv_host := sample_host\<lparr>json_parse := (\<lambda>s. Inr (JObject (if s = [] then [] else [(''from_id'', JString ''3'')])))\<rparr>,
      sv_read_request := (\<lambda>v. Inr (if v = JObject [] then wx_request sample_notify None None
                                   else reader))\<rparr>"

abbreviation two_requests :: "unit server" where
  "two_requests \<equiv> server_with (wx_request sample_watch (Some ''3'') (Some ''5''))"

definition delivery_app :: "unit app" where
  "delivery_app = sample_app\<lparr>ax_server := two_requests\<rparr>"

definition wx_result :: processing_result where
  "wx_result = \<lparr>pr_event_type = ''wx'', pr_topic = ''weather.north.a%2Eb'', pr_params = [(''step'', ''a.b''), (''region'', ''north'')],
     pr_constraints = [], pr_spatial = None, pr_from_schema = True\<rparr>"

definition wx_context :: streaming_context where
  "wx_context = \<lparr>sc_event_type = ''wx'', sc_topic = ''weather.north.%2A'', sc_params = [(''step'', ''*''), (''region'', ''north'')],
     sc_constraints = [], sc_start_at = StartSequence 3, sc_end_at = EndSequence 5, sc_request_id = ''r'', sc_from_schema = True\<rparr>"

lemma wx_admitted: "admits (server_with reader) no_auth [] (wx_request sample_notify None None) wx_result"
  by (simp add: admits_def server_with_def request_defs reject_end_point_def has_end_point_def sample_defs process_defs wx_result_def)

lemma wx_reader: "parse_and_validate_request (sv_host (server_with reader)) (sv_read_request (server_with reader)) ''r'' = Inr reader"
  by (simp add: parse_and_validate_request_def server_with_def validate_known_fields_def is_valid_field_def all_field_names_def)

lemma wx_checked:
  "stream_checks two_requests ReplayKind for_replay no_auth ''r'' = Inr wx_context"
  by (simp add: server_with_def wx_context_def request_defs stream_defs sample_sequences sample_defs process_defs
      is_valid_field_def all_field_names_def)

lemma wx_asks:
  "asks_for (server_with reader) sample_schema sample_topic (wx_request sample_watch start to) (wx_context\<lparr>sc_start_at := st, sc_end_at := en\<rparr>)
     (wx_request sample_notify None None) wx_result"
  by (simp add: asks_for_def server_with_def wx_request_def wx_context_def wx_result_def Routing.selects_def one_request_def
      sample_defs process_defs)

lemma wx_routable: "routable [(''wx'', sample_schema)] ''wx'' sample_schema sample_topic"
  by (simp add: routable_def sample_defs)

definition wx_env :: "((f64 \<times> f64) list, (f64 \<times> f64) \<times> (f64 \<times> f64)) sse_env" where
  "wx_env = sample_env\<lparr>env_host := sv_host two_requests, env_schemas := Some [(''wx'', sample_schema)]\<rparr>"

lemma wx_renders:
  assumes "m_topic m = ''weather.north.a%2Eb''" "m_metadata m = None"
  obtains bytes where "renders wx_env (replay_request_of wx_env wx_context k) m = (bytes, KNotification)"
  using wx_note_renders [OF assms, of wx_env "replay_request_of wx_env wx_context k"]
  by (auto simp: wx_env_def sample_env_def)

theorem posted_is_replayed_witness:
  "\<exists>r s1 e frames bytes.
     run_handler delivery_app sample_ops NotifyHandler no_auth [] Map.empty (JoinsFetch (Inr {}) False) after_three =
       (Reply r, Map.empty, s1) \<and> hr_status r = 200 \<and>
     run_handler delivery_app sample_ops ReplayHandler no_auth ''r'' Map.empty (JoinsFetch (Inr {}) False) s1 =
       (Opened wx_context (ReplayOnly e 10), Map.empty, s1) \<and>
     create_replay_only_stream wx_env (replay_request_of wx_env wx_context 10) (\<lambda>_. get_messages_batch s1)
       (length (all_messages s1) + 2) 1 (StartSequence 3) (EndSequence 5) e None = Some frames \<and>
     (Rendered bytes KNotification \<in> set frames \<or>
      Control (ReplayLimitReached ''weather.north.%2A'' 10 7) \<in> set frames)"
proof -
  let ?posted = "wx_request sample_notify None None"
  let ?m = "posted_message two_requests 9 after_three ?posted wx_result"
  let ?oc = "notify two_requests (mem_writer small_config 9) no_auth [] after_three"
  let ?s1 = "oc_state ?oc"
  have app: "ax_server delivery_app = two_requests" by (simp add: delivery_app_def)
  have post: "run_handler delivery_app sample_ops NotifyHandler no_auth [] Map.empty (JoinsFetch (Inr {}) False) after_three =
      (Reply (oc_response ?oc), Map.empty, ?s1)"
    by (simp add: app mem_ops_def Let_def)
  note admitted = wx_admitted [where reader = "wx_request sample_watch (Some ''3'') (Some ''5'')", folded app]
  note stored = admitted_stored [OF after_three_inv admitted post, unfolded app]
  note effect = notify_effect [OF after_three_inv refl, of two_requests 9 no_auth "[]"]
  have next_seq: "next_sequence ?s1 = 5" using effect stored by (auto simp: after_three_def split: if_splits)
  have inv: "mem_inv small_config ?s1" using mem_backend.notify_adds [OF after_three_inv refl, THEN conjunct1, of two_requests sample_host 9 no_auth "[]"]
    by (simp add: mem_ops_def)
  have global: "sv_global two_requests = Some [(''wx'', sample_schema)]" by (simp add: server_with_def one_request_def)
  have limit: "replay_limit_for_event_type (Some [(''wx'', sample_schema)]) (sv_default_limit two_requests) ''wx'' = 10"
    by (simp add: replay_limit_for_event_type_def server_with_def one_request_def sample_schema_def)
  have open_it: "run_handler delivery_app sample_ops ReplayHandler no_auth ''r'' Map.empty (JoinsFetch (Inr {}) False) ?s1 =
      (Opened wx_context (ReplayOnly 4 10), Map.empty, ?s1)"
    by (simp add: app replay_def admit_stream_def wx_checked global sample_no_ecpds stream_reply_def open_replay_def mem_ops_def
        resolve_end_sequence_def history_end_def sample_analyzed wx_context_def next_seq limit delivery_app_def sample_app_def)
  obtain bytes where bytes: "renders wx_env (replay_request_of wx_env wx_context 10) ?m = (bytes, KNotification)"
    by (rule wx_renders [of ?m]) (simp_all add: posted_message_def wx_result_def)
  have m: "m_sequence ?m = 4" by (simp add: posted_message_def after_three_def)
  have start: "sc_start_at wx_context = StartSequence 3" "sc_end_at wx_context = EndSequence 5" by (simp_all add: wx_context_def)
  have "sv_global (ax_server delivery_app) = Some [(''wx'', sample_schema)]"
      "routable [(''wx'', sample_schema)] (nr_event_type ?posted) sample_schema sample_topic"
      "asks_for (ax_server delivery_app) sample_schema sample_topic (wx_request sample_watch (Some ''3'') (Some ''5'')) wx_context ?posted wx_result"
    using global wx_routable wx_asks [where st = "StartSequence 3" and en = "EndSequence 5"]
    by (simp_all add: app wx_request_def) (simp add: wx_context_def)
  note conf = this(1,2) and ask = this(3)
  have valid: "valid_params (tc_key_order sample_topic) (pr_params wx_result)"
      "valid_params (tc_key_order sample_topic) (sc_params wx_context)"
    using sample_valid_params by (simp_all add: wx_result_def wx_context_def)
  have "starts_at (sc_start_at wx_context) ?m" "m_sequence ?m \<le> 4" "start_closed (sc_start_at wx_context) (all_messages ?s1)"
    by (simp_all add: start starts_at_def m)
  note covered = this
  have env: "env_host wx_env = sv_host (ax_server delivery_app)" "env_schemas wx_env = Some [(''wx'', sample_schema)]"
    by (simp_all add: wx_env_def app)
  have "?m = posted_message (ax_server delivery_app) 9 after_three ?posted wx_result" "\<forall>k::nat. ?m \<in> set (all_messages ?s1)"
    using stored by (simp_all add: app)
  note m_there = this
  from posted_is_replayed [OF conf admitted after_three_inv post m_there(1) evolves_still [OF inv, of sample_host] m_there(2)
      wx_reader [where reader = "wx_request sample_watch (Some ''3'') (Some ''5'')", folded app] open_it ask valid covered env bytes, of 1 "length (all_messages ?s1) + 2"]
  show ?thesis using post open_it stored bytes
    by (auto simp: start wx_context_def wx_env_def sample_env_def)
qed

section \<open>A watch that is open\<close>

lemma mem_run_append: "mem_run h cfg s1 after s2 \<Longrightarrow> mem_run h cfg s before s1 \<Longrightarrow> mem_run h cfg s (before @ after) s2"
  by (induction rule: mem_run.induct) (use mem_run.More in force)+

lemma admitted_sent:
  assumes "admits (ax_server ax) c body posted res"
    "run_handler ax (mem_ops hs cfg now) NotifyHandler c body cache flight s = (Reply r, cache', s1)"
  shows "mem_run hs cfg s [posted_message (ax_server ax) now s posted res] s1"
proof -
  obtain s' m where stored: "store_message cfg now (pr_topic res) (payload_text (sv_host (ax_server ax)) (nr_payload posted))
      (map_option spatial_headers (pr_spatial res)) s = (s', m)" by fastforce
  have "s1 = s'"
    using assms(2) assms(1) [folded notify_checks_Inr] by (simp add: mem_ops_def notify_def save_mem stored Let_def)
  then show ?thesis
    using mem_run.More [OF mem_run.Stop mem_step.Store [OF stored]] store_message_broadcast [OF stored]
    by (simp add: posted_message_def)
qed

lemma opened_live:
  assumes "run_handler ax (mem_ops hs cfg now) WatchHandler c body cache flight s = (Opened ctx (LiveStream pattern), cache', s')"
  obtains reader where "parse_and_validate_request (sv_host (ax_server ax)) (sv_read_request (ax_server ax)) body = Inr reader"
    "process_streaming (sv_host (ax_server ax)) (sv_chrono (ax_server ax)) (sv_dates (ax_server ax)) (sv_global (ax_server ax))
       (sv_strict (ax_server ax)) reader (hc_request_id c) for_watch = Inr ctx"
    "\<exists>coarse. analyze_watch_pattern (sc_topic ctx) = Inr (coarse, pattern)"
proof -
  let ?ops = "mem_ops hs cfg now"
  let ?x = "watch (ax_server ax) (\<lambda>ctx limit. Inr (open_history ?ops s ctx limit)) (\<lambda>ctx. Inr (open_live ?ops s ctx)) c
    (ax_checker ax) cache flight body"
  have out: "sx_outcome ?x = Streaming ctx (Inr (LiveStream pattern), s')"
    using assms by (auto simp: stream_reply_def split: stream_outcome.splits prod.splits sum.splits)
  have "fst (open_history ?ops s ctx limit) \<noteq> Inr (LiveStream pattern)" for limit
    by (auto simp: open_history_def result_simps split: prod.splits)
  then have "open_live ?ops s ctx = (Inr (LiveStream pattern), s')"
    using out by (auto simp: watch_def split: prod.splits sum.splits if_splits) (metis fst_conv)+
  then have "\<exists>coarse. analyze_watch_pattern (sc_topic ctx) = Inr (coarse, pattern)"
    by (auto simp: open_live_def mem_ops_def subscribe_to_topic_def result_simps)
  moreover obtain cache'' counts where "admit_stream (ax_server ax) WatchKind for_watch c (ax_checker ax) cache flight body = (Inr ctx, cache'', counts)"
    using watch_opened [of _ _ _ _ _ _ _ _ ctx] out by (fastforce simp: opened_def)
  ultimately show thesis using admit_stream_Inr [of "ax_server ax" WatchKind for_watch c "ax_checker ax" cache flight body ctx] that by metis
qed

text \<open>
  C4: what is posted is watched. A notification that passes the checks while a live watch is open whose
  request asks for it is sent to the channels of the subscriptions, in its place between
  what is sent before and after it; from a channel that has not lagged, and in whatever
  way the heartbeats are interleaved, the watch yields it as a live notification.
\<close>
theorem posted_is_watched:
  assumes "sv_global (ax_server ax) = Some schemas" "routable schemas (nr_event_type posted) schema tc"
    and "parse_and_validate_request (sv_host (ax_server ax)) (sv_read_request (ax_server ax)) body2 = Inr reader"
      "run_handler ax (mem_ops hs cfg earlier) WatchHandler c2 body2 cache2 flight2 s0 =
         (Opened ctx (LiveStream pattern), cache3, s0')"
      "asks_for (ax_server ax) schema tc reader ctx posted res"
      "valid_params (tc_key_order tc) (pr_params res)" "valid_params (tc_key_order tc) (sc_params ctx)"
    and "mem_run hs cfg s0 before s" "admits (ax_server ax) c body posted res"
      "run_handler ax (mem_ops hs cfg now) NotifyHandler c body cache flight s = (Reply r, cache1, s1)"
      "mem_run hs cfg s1 after s2" "m = posted_message (ax_server ax) now s posted res"
    and "env_host env = sv_host (ax_server ax)" "env_schemas env = Some schemas"
      "0 < we_sse_heartbeat_interval_sec we" "\<And>xs ys. merges xs ys (merge xs ys)"
  shows "mem_run hs cfg s0 (before @ m # after) s2 \<and>
    (\<exists>frames. live_watch_frames env (replay_request_of env ctx k) we
         (subscription_stream pattern (map Received (before @ m # after))) ticks merge None = Some frames \<and>
       NotificationFrame m DeliverLive \<in> set frames)"
proof -
  let ?rr = "replay_request_of env ctx k" and ?live = "subscription_stream pattern (map Received (before @ m # after))"
  obtain reader' coarse where "parse_and_validate_request (sv_host (ax_server ax)) (sv_read_request (ax_server ax)) body2 = Inr reader'"
      and stream: "process_streaming (sv_host (ax_server ax)) (sv_chrono (ax_server ax)) (sv_dates (ax_server ax))
       (sv_global (ax_server ax)) (sv_strict (ax_server ax)) reader' (hc_request_id c2) for_watch = Inr ctx"
      and pattern: "analyze_watch_pattern (sc_topic ctx) = Inr (coarse, pattern)"
    using opened_live [OF assms(4)] by metis
  then have "reader' = reader" using assms(3) by simp
  note asked = asked_selected [OF assms(2,5,1,9) disjI2 [OF refl] stream [unfolded this] assms(6,7)]
  have topic: "m_topic m = pr_topic res" by (simp add: assms(12) posted_message_def)
  have "m \<in> set ?live" unfolding subscription_stream_received using asked(1) pattern by (simp add: topic)
  moreover have "filter_notification_message env (rr_params ?rr) (rr_constraints ?rr) (rr_prepared ?rr) m = Some m"
    using asked(2) by (simp add: filter_notification_message_def assms(13,14) topic replay_request_of_def)
  ultimately have "m \<in> set (List.map_filter (filter_notification_message env (rr_params ?rr) (rr_constraints ?rr) (rr_prepared ?rr)) ?live)"
    by (force simp: List.map_filter_def)
  then have live: "NotificationFrame m DeliverLive \<in> set (create_live_notification_stream
      (List.map_filter (filter_notification_message env (rr_params ?rr) (rr_constraints ?rr) (rr_prepared ?rr)) ?live))"
    by (simp add: create_live_notification_stream_def)
  let ?xs = "create_live_notification_stream
      (List.map_filter (filter_notification_message env (rr_params ?rr) (rr_constraints ?rr) (rr_prepared ?rr)) ?live)"
  let ?ys = "map (Heartbeat (rr_topic ?rr)) ticks"
  have merged: "set (merge ?xs ?ys) = set ?xs \<union> set ?ys" using merges_mset [OF assms(16)] by blast
  then have "\<forall>f\<in>set (merge ?xs ?ys). \<not> is_replay_terminal f" by (auto simp: create_live_notification_stream_def)
  then have "until_replay_terminal (merge ?xs ?ys) = merge ?xs ?ys" by (rule until_replay_terminal_id)
  then have "NotificationFrame m DeliverLive \<in> set (create_watch_sse_stream env ?rr (we_connection_max_duration_sec we) (merge ?xs ?ys) None)"
    using live merged by (simp add: create_watch_sse_stream_def apply_stream_lifecycle_def Let_def)
  moreover have "mem_run hs cfg s0 (before @ [m] @ after) s2"
    using mem_run_append [OF assms(11) mem_run_append [OF admitted_sent [OF assms(9,10), folded assms(12)] assms(8)]] by simp
  ultimately show ?thesis using assms(15) by (simp add: live_watch_frames_def create_heartbeat_stream_def)
qed

definition live_context :: streaming_context where
  "live_context = wx_context\<lparr>sc_start_at := LiveOnly, sc_end_at := EndLatest\<rparr>"

lemma wx_live_checked:
  "stream_checks (server_with (wx_request sample_watch None None)) WatchKind for_watch no_auth ''r'' = Inr live_context"
  by (simp add: server_with_def live_context_def wx_context_def request_defs stream_defs sample_defs process_defs
      is_valid_field_def all_field_names_def)

theorem posted_is_watched_witness:
  "\<exists>pattern frames. NotificationFrame (posted_message (server_with (wx_request sample_watch None None)) 9 after_three
       (wx_request sample_notify None None) wx_result) DeliverLive \<in> set frames \<and>
     live_watch_frames wx_env (replay_request_of wx_env live_context 0) default_watch_endpoint_settings
       (subscription_stream pattern [Received (posted_message (server_with (wx_request sample_watch None None)) 9 after_three
          (wx_request sample_notify None None) wx_result)]) [] (@) None = Some frames"
proof -
  let ?posted = "wx_request sample_notify None None" and ?reader = "wx_request sample_watch None None"
  let ?sv = "server_with ?reader"
  let ?app = "sample_app\<lparr>ax_server := ?sv\<rparr>"
  let ?oc = "notify ?sv (mem_writer small_config 9) no_auth [] after_three"
  have app: "ax_server ?app = ?sv" by simp
  have global: "sv_global ?sv = Some [(''wx'', sample_schema)]" by (simp add: server_with_def one_request_def)
  have post: "run_handler ?app sample_ops NotifyHandler no_auth [] Map.empty (JoinsFetch (Inr {}) False) after_three =
      (Reply (oc_response ?oc), Map.empty, oc_state ?oc)"
    by (simp add: mem_ops_def Let_def)
  have open_it: "run_handler ?app sample_ops WatchHandler no_auth ''r'' Map.empty (JoinsFetch (Inr {}) False) after_three =
      (Opened live_context (LiveStream [''weather'', ''north'', ''*'']), Map.empty, after_three)"
    by (simp add: watch_def admit_stream_def wx_live_checked global sample_no_ecpds stream_reply_def open_live_def mem_ops_def
        subscribe_to_topic_def sample_analyzed live_context_def wx_context_def sample_app_def)
  have conf: "sv_global (ax_server ?app) = Some [(''wx'', sample_schema)]"
      "routable [(''wx'', sample_schema)] (nr_event_type ?posted) sample_schema sample_topic"
    using global wx_routable by (simp_all add: wx_request_def)
  have ask: "asks_for (ax_server ?app) sample_schema sample_topic ?reader live_context ?posted wx_result"
    using wx_asks by (simp add: live_context_def)
  have valid: "valid_params (tc_key_order sample_topic) (pr_params wx_result)"
      "valid_params (tc_key_order sample_topic) (sc_params live_context)"
    using sample_valid_params by (simp_all add: wx_result_def live_context_def wx_context_def)
  have env: "env_host wx_env = sv_host (ax_server ?app)" "env_schemas wx_env = Some [(''wx'', sample_schema)]"
    by (simp_all add: wx_env_def server_with_def)
  have beat: "0 < we_sse_heartbeat_interval_sec default_watch_endpoint_settings" by (simp add: default_watch_endpoint_settings_def)
  have merges: "merges xs ys (xs @ ys)" for xs ys :: "stream_frame list"
  proof (induction xs)
    case Nil
    show ?case by (induction ys) (auto intro: merges.intros)
  qed (auto intro: merges.intros)
  have posted: "admits (ax_server ?app) no_auth [] ?posted wx_result"
    "parse_and_validate_request (sv_host (ax_server ?app)) (sv_read_request (ax_server ?app)) ''r'' = Inr ?reader"
    using wx_admitted wx_reader by simp_all
  have before: "mem_run sample_host small_config after_three [] after_three"
    and after: "mem_run sample_host small_config (oc_state ?oc) [] (oc_state ?oc)" by (rule mem_run.Stop)+
  have "\<exists>frames. live_watch_frames wx_env (replay_request_of wx_env live_context 0) default_watch_endpoint_settings
       (subscription_stream [''weather'', ''north'', ''*''] (map Received ([] @ posted_message (ax_server ?app) 9 after_three ?posted wx_result # [])))
       [] (@) None = Some frames \<and>
     NotificationFrame (posted_message (ax_server ?app) 9 after_three ?posted wx_result) DeliverLive \<in> set frames"
    by (rule conjunct2 [OF posted_is_watched [where merge = "(@)", OF conf posted(2) open_it ask valid before posted(1) post after refl
        env beat merges]])
  then show ?thesis by (auto simp del: subscription_stream.simps)
qed

end
