(* ===== verification/JetStreamDelivery.thy ===== *)
theory JetStreamDelivery
  imports Delivery
begin

text \<open>
  From a notification to its readers over JetStream: what the publisher
  (\<open>src/notification_backend/jetstream/publisher.rs\<close>) has stored is found by the replay
  (\<open>replay.rs\<close> of the same directory), which asks the server for a coarse pattern, page by page,
  and decides by the decoded pattern and the constraints which messages the reader gets.
\<close>

section \<open>Both filters\<close>

text \<open>A notification as it is stored: its topic, payload and headers; its sequence and time are the server's.\<close>
definition copy_of :: "'d server \<Rightarrow> notification_request \<Rightarrow> processing_result \<Rightarrow> message \<Rightarrow> bool" where
  "copy_of sv posted res m =
     put_as m (pr_topic res) (payload_text (sv_host sv) (nr_payload posted)) (map_option spatial_headers (pr_spatial res))"

text \<open>What a reader asks for is covered by the subject filter of its consumers.\<close>
lemma asked_covered:
  assumes "routable schemas (nr_event_type posted) schema tc" "asks_for sv schema tc reader ctx posted res"
    "sv_global sv = Some schemas" "admits sv c body posted res"
    "process_streaming (sv_host sv) (sv_chrono sv) (sv_dates sv) (sv_global sv) (sv_strict sv) reader rid config = Inr ctx"
    "valid_params (tc_key_order tc) (pr_params res)" "valid_params (tc_key_order tc) (sc_params ctx)"
    "tc_key_order tc \<noteq> []" "\<forall>k\<in>set (tc_key_order tc). map_of (pr_params res) k \<noteq> Some []"
    "analyze_watch_pattern (sc_topic ctx) = Inr (coarse, full)" "matches_watch_pattern (pr_topic res) full"
  shows "covers coarse (pr_topic res)"
proof -
  let ?reg = "handler_from_config (Some schemas) (sv_strict sv)"
  have schema: "map_of (reg_schemas ?reg) (nr_event_type posted) = Some schema" "es_topic schema = Some tc"
    using assms(1) by (simp_all add: routable_def handler_from_config_def from_config_with_strict_def)
  have same: "nr_event_type reader = nr_event_type posted" using assms(2) by (simp add: asks_for_def)
  have posted: "process_request_with_values (sv_host sv) (sv_chrono sv) ?reg (nr_event_type posted) (nr_identifier posted)
      (nr_payload posted) Notify = Inr res"
    using assms(3,4) by (simp add: admits_def)
  obtain res2 where reader: "process_request_with_values (sv_host sv) (sv_chrono sv) ?reg (nr_event_type posted) (nr_identifier reader)
      None (vc_operation config) = Inr res2" "sc_topic ctx = pr_topic res2" "sc_params ctx = pr_params res2"
    using process_streaming_result [OF assms(5)] unfolding assms(3) same by metis
  show ?thesis
    by (rule watch_covered [OF schema assms(8) posted reader(1) assms(6) assms(7) [unfolded reader(3)] assms(9)
        assms(10) [unfolded reader(2)] assms(11)])
qed

section \<open>Delivery\<close>

lemma posted_stored:
  assumes "sound_server held jb" "admits (ax_server ax) c body posted res"
    "run_handler ax (jetstream_ops jb) NotifyHandler c body cache flight s = (Reply r, cache', s1)" "hr_status r = 200"
  shows "\<exists>m\<in>#held s1. copy_of (ax_server ax) posted res m"
proof -
  let ?oc = "notify (ax_server ax) (bo_writer (jetstream_ops jb)) c body s"
  have oc: "r = oc_response ?oc" "s1 = oc_state ?oc" using assms(3) by (simp_all add: Let_def)
  have same: "posted' = posted \<and> res' = res" if "admits (ax_server ax) c body posted' res'" for posted' res'
    using that assms(2) unfolding admits_def by auto
  have "\<exists>r res. admits (ax_server ax) c body r res" using assms(2) by blast
  from js_backend.notify_adds [OF assms(1) refl, of "ax_server ax" c body s, unfolded if_P [OF this]]
  show ?thesis using same assms(4) unfolding oc adds_def copy_of_def by blast
qed

text \<open>
  C2: what is posted to JetStream is delivered. With a well-formed event type that routes on some
  field, a notification that passes the checks and is answered with 200 is in the streams. Of the
  copies that are still there when a replay is opened whose request asks for it, every one
  that lies between the start and the end of the replay and can be rendered is delivered,
  through the subject filter, the pages and the two patterns; or the replay reaches its limit and says so.
\<close>
theorem posted_is_replayed_jetstream:
  assumes "sv_global (ax_server ax) = Some schemas" "routable schemas (nr_event_type posted) schema tc"
    and "sound_server held jb" "admits (ax_server ax) c body posted res"
      "run_handler ax (jetstream_ops jb) NotifyHandler c body cache flight s = (Reply r, cache1, s1)"
    and "parse_and_validate_request (sv_host (ax_server ax)) (sv_read_request (ax_server ax)) body2 = Inr reader"
      "run_handler ax (jetstream_ops jb) ReplayHandler c2 body2 cache2 flight2 s2 = (Opened ctx (ReplayOnly e max_allowed), cache3, s3)"
      "asks_for (ax_server ax) schema tc reader ctx posted res"
      "valid_params (tc_key_order tc) (pr_params res)" "valid_params (tc_key_order tc) (sc_params ctx)"
      "tc_key_order tc \<noteq> []" "\<forall>k\<in>set (tc_key_order tc). map_of (pr_params res) k \<noteq> Some []"
    and "analyze_watch_pattern (sc_topic ctx) = Inr (coarse, full)" "serves (jb_reader jb) (jb_ensure jb) s2 coarse js"
      "\<forall>m\<in>#held s2. covers coarse (m_topic m) \<longrightarrow> m \<in> note_of ` set js" "in_order js" "dated js"
      "determine_deliver_policy (sc_start_at ctx) = Inr policy"
    and "env_host env = sv_host (ax_server ax)" "env_schemas env = Some schemas"
      "0 < batch_size" "length js + 2 \<le> fuel"
  shows "(hr_status r = 200 \<longrightarrow> (\<exists>m\<in>#held s1. copy_of (ax_server ax) posted res m)) \<and>
    (\<exists>frames. create_replay_only_stream env (replay_request_of env ctx max_allowed)
         (\<lambda>_ p. fst (bo_get_messages_batch (jetstream_ops jb) p s2)) fuel batch_size (sc_start_at ctx) (sc_end_at ctx) e None = Some frames \<and>
       (\<forall>m bytes. m \<in># held s2 \<and> copy_of (ax_server ax) posted res m \<and> starts_at (sc_start_at ctx) m \<and> m_sequence m \<le> e \<and>
          renders env (replay_request_of env ctx max_allowed) m = (bytes, KNotification) \<longrightarrow>
          Rendered bytes KNotification \<in> set frames \<or>
          Control (ReplayLimitReached (sc_topic ctx) max_allowed (env_now env)) \<in> set frames))"
proof -
  let ?rr = "replay_request_of env ctx max_allowed"
  let ?L = "filter (\<lambda>n. covers coarse (m_topic n) \<and> wanted full e (sc_start_at ctx) n) (map note_of js)"
  have rr: "rr_topic ?rr = sc_topic ctx" "rr_max_allowed ?rr = max_allowed" by (simp_all add: replay_request_of_def)
  obtain reader' where "parse_and_validate_request (sv_host (ax_server ax)) (sv_read_request (ax_server ax)) body2 = Inr reader'"
      and stream: "process_streaming (sv_host (ax_server ax)) (sv_chrono (ax_server ax)) (sv_dates (ax_server ax))
       (sv_global (ax_server ax)) (sv_strict (ax_server ax)) reader' (hc_request_id c2) for_replay = Inr ctx"
    by (rule replay_request_read [OF assms(7)])
  then have "reader' = reader" using assms(6) by simp
  note stream = stream [unfolded this]
  note asked = asked_selected [OF assms(2,8,1,4) disjI1 [OF refl] stream assms(9,10)]
  have match: "matches_watch_pattern (pr_topic res) full" using asked(1) assms(13) by simp
  note covered = asked_covered [OF assms(2,8,1,4) stream assms(9-13) match]
  have "fst (bo_get_messages_batch (jetstream_ops jb) p s2) = fst (jetstream_get_messages_batch (jb_reader jb) (jb_ensure jb) p s2)" for p
    by (simp add: jetstream_ops_def)
  note reads = this
  note scans = jetstream_scans [of ?rr, unfolded rr, OF assms(13,14,16,17,21,18,22), of env e]
  obtain frames where frames: "create_replay_only_stream env ?rr
        (\<lambda>_ p. fst (jetstream_get_messages_batch (jb_reader jb) (jb_ensure jb) p s2)) fuel batch_size (sc_start_at ctx) (sc_end_at ctx) e None =
      Some frames"
      "\<forall>m\<in>set ?L. deliverable env ?rr m \<longrightarrow> Rendered (fst (renders env ?rr m)) KNotification \<in> set frames \<or>
         Control (ReplayLimitReached (sc_topic ctx) max_allowed (env_now env)) \<in> set frames"
    using scanned_is_delivered [OF scans, of "sc_end_at ctx"] unfolding rr by blast
  have "Rendered bytes KNotification \<in> set frames \<or> Control (ReplayLimitReached (sc_topic ctx) max_allowed (env_now env)) \<in> set frames"
    if m: "m \<in># held s2" "copy_of (ax_server ax) posted res m" "starts_at (sc_start_at ctx) m" "m_sequence m \<le> e"
      "renders env ?rr m = (bytes, KNotification)" for m bytes
  proof -
    have topic: "m_topic m = pr_topic res" using m(2) by (simp add: copy_of_def put_as_def)
    have "Replay.selects env ?rr m"
      using asked(2) by (simp add: Replay.selects_def assms(19,20) topic replay_request_of_def)
    then have d: "deliverable env ?rr m" by (simp add: deliverable_def m(5))
    have "m \<in> set ?L" using assms(15) m(1,3,4) covered match by (simp add: topic wanted_def)
    from mp [OF bspec [OF frames(2) this] d] show ?thesis unfolding m(5) fst_conv .
  qed
  note delivered = this
  show ?thesis
  proof (intro conjI impI exI [of _ frames] allI)
    show "\<exists>m\<in>#held s1. copy_of (ax_server ax) posted res m" if "hr_status r = 200"
      by (rule posted_stored [OF assms(3,4,5) that])
    show "create_replay_only_stream env ?rr (\<lambda>_ p. fst (bo_get_messages_batch (jetstream_ops jb) p s2)) fuel batch_size
        (sc_start_at ctx) (sc_end_at ctx) e None = Some frames" unfolding reads by (rule frames(1))
  qed (use delivered in blast)
qed

section \<open>A notification in a stream\<close>

text \<open>What the stream holds before, and what is posted.\<close>
definition older :: "message list" where
  "older = map (\<lambda>n. \<lparr>m_sequence = n, m_topic = ''weather.south.b'', m_payload = ''1'', m_timestamp = Some (int n),
     m_metadata = None\<rparr>) [1, 2, 3]"

definition fourth :: message where
  "fourth = \<lparr>m_sequence = 4, m_topic = ''weather.north.a%2Eb'', m_payload = ''null'', m_timestamp = Some 4, m_metadata = None\<rparr>"

lemma older_posted:
  "run_handler delivery_app (jetstream_ops lossy_backend) NotifyHandler no_auth [] Map.empty (JoinsFetch (Inr {}) False) (older, 0) =
     (Reply (notification_response two_requests (hc_request_id no_auth)), Map.empty, (older @ [fourth], 0))"
proof -
  obtain name where "jb_ensure lossy_backend ''weather.north.a%2Eb'' (older, 0) = (Inr name, (older, 0))"
    using lossy_ensures by blast
  then have "jetstream_put_messages three_tries lossy_nats (jb_ensure lossy_backend) ''weather.north.a%2Eb'' ''null'' (older, 0) =
      (Inr (), (older @ [fourth], 0))"
    by (simp add: jetstream_put_messages_def publish_with_retry_def publish_once_def and_then_def context_of_def
        three_tries_def lossy_nats_def upt_rec older_def fourth_def)
  then show ?thesis
    using wx_admitted [where reader = "wx_request sample_watch (Some ''3'') (Some ''5'')", folded notify_checks_Inr]
    by (simp add: delivery_app_def notify_def save_to_backend_def jetstream_ops_def lossy_backend_def wx_request_def Let_def
        wx_result_def payload_text_def)
qed

lemma older_served:
  "serves (jb_reader lossy_backend) (jb_ensure lossy_backend) (older @ [fourth], 0) ''weather.north.>'' (map as_served (older @ [fourth]))"
proof -
  obtain name where name: "jb_ensure lossy_backend ''weather.north.>'' (older @ [fourth], 0) = (Inr name, (older @ [fourth], 0))"
      "derive_stream_name_from_topic ''weather.north.>'' = Inr name"
    using lossy_ensures by blast
  show ?thesis unfolding serves_def name
    by (auto simp: lossy_backend_def as_served_def older_def fourth_def Let_def)
qed

lemma plain_text: "from_utf8_lossy ''1'' = ''1''" "from_utf8_lossy ''null'' = ''null''"
  by (simp_all add: from_utf8_lossy.simps utf8_error.simps is_ascii_def)

lemma older_notes: "map note_of (map as_served (older @ [fourth])) = older @ [fourth]"
  by (simp add: older_def fourth_def as_served_def note_of_def plain_text headers_metadata_def Let_def)

theorem posted_is_replayed_jetstream_witness:
  "\<exists>r frames bytes.
     run_handler delivery_app (jetstream_ops lossy_backend) NotifyHandler no_auth [] Map.empty (JoinsFetch (Inr {}) False) (older, 0) =
       (Reply r, Map.empty, (older @ [fourth], 0)) \<and> hr_status r = 200 \<and>
     run_handler delivery_app (jetstream_ops lossy_backend) ReplayHandler no_auth ''r'' Map.empty (JoinsFetch (Inr {}) False)
       (older @ [fourth], 0) = (Opened wx_context (ReplayOnly 4 10), Map.empty, (older @ [fourth], 0)) \<and>
     create_replay_only_stream wx_env (replay_request_of wx_env wx_context 10)
       (\<lambda>_ p. fst (bo_get_messages_batch (jetstream_ops lossy_backend) p (older @ [fourth], 0))) 6 1 (StartSequence 3) (EndSequence 5) 4 None =
       Some frames \<and>
     (Rendered bytes KNotification \<in> set frames \<or> Control (ReplayLimitReached ''weather.north.%2A'' 10 7) \<in> set frames)"
proof -
  let ?posted = "wx_request sample_notify None None" and ?reader = "wx_request sample_watch (Some ''3'') (Some ''5'')"
  let ?js = "map as_served (older @ [fourth])" and ?s = "(older @ [fourth], 0 :: nat)"
  let ?held = "\<lambda>s :: message list \<times> nat. mset (fst s)"
  have app: "ax_server delivery_app = two_requests" by (simp add: delivery_app_def)
  have global: "sv_global two_requests = Some [(''wx'', sample_schema)]" by (simp add: server_with_def one_request_def)
  have limit: "replay_limit_for_event_type (Some [(''wx'', sample_schema)]) (sv_default_limit two_requests) ''wx'' = 10"
    by (simp add: replay_limit_for_event_type_def server_with_def one_request_def sample_schema_def)
  obtain name where name: "jb_ensure lossy_backend ''weather.north.>'' ?s = (Inr name, ?s)" using lossy_ensures by blast
  have history: "jetstream_history_end (jb_reader lossy_backend) (jb_ensure lossy_backend) ''weather.north.%2A'' ?s = (Inr 4, ?s)"
    by (simp add: jetstream_history_end_def sample_analyzed name) (simp add: lossy_backend_def older_def result_simps)
  have open_it: "run_handler delivery_app (jetstream_ops lossy_backend) ReplayHandler no_auth ''r'' Map.empty (JoinsFetch (Inr {}) False) ?s =
      (Opened wx_context (ReplayOnly 4 10), Map.empty, ?s)"
    by (simp add: app replay_def admit_stream_def wx_checked global sample_no_ecpds stream_reply_def open_replay_def jetstream_ops_def
        history resolve_end_sequence_def wx_context_def limit delivery_app_def sample_app_def)
  obtain bytes where bytes: "renders wx_env (replay_request_of wx_env wx_context 10) fourth = (bytes, KNotification)"
    by (rule wx_renders [of fourth]) (simp_all add: fourth_def)
  have start: "sc_start_at wx_context = StartSequence 3" "sc_end_at wx_context = EndSequence 5" "sc_topic wx_context = ''weather.north.%2A''"
    by (simp_all add: wx_context_def)
  have conf: "sv_global (ax_server delivery_app) = Some [(''wx'', sample_schema)]"
      "routable [(''wx'', sample_schema)] (nr_event_type ?posted) sample_schema sample_topic"
    using global wx_routable by (simp_all add: app wx_request_def)
  have ask: "asks_for (ax_server delivery_app) sample_schema sample_topic ?reader wx_context ?posted wx_result"
    using wx_asks [where st = "StartSequence 3" and en = "EndSequence 5"] by (simp add: app wx_context_def)
  have valid: "valid_params (tc_key_order sample_topic) (pr_params wx_result)"
      "valid_params (tc_key_order sample_topic) (sc_params wx_context)"
      "tc_key_order sample_topic \<noteq> []" "\<forall>k\<in>set (tc_key_order sample_topic). map_of (pr_params wx_result) k \<noteq> Some []"
    using sample_valid_params by (simp_all add: wx_result_def wx_context_def sample_topic_def)
  have pattern: "analyze_watch_pattern (sc_topic wx_context) = Inr (''weather.north.>'', [''weather'', ''north'', ''*''])"
    by (simp add: start sample_analyzed)
  have "note_of ` set ?js = set (older @ [fourth])" using older_notes by (metis set_map)
  then have there: "\<forall>m\<in>#?held ?s. covers ''weather.north.>'' (m_topic m) \<longrightarrow> m \<in> note_of ` set ?js" by simp
  have order: "in_order ?js" "dated ?js" by (simp_all add: older_def fourth_def as_served_def dated_def Let_def)
  have policy: "determine_deliver_policy (sc_start_at wx_context) = Inr (DeliverByStartSequence 3)"
    by (simp add: start determine_deliver_policy_def result_simps)
  have env: "env_host wx_env = sv_host (ax_server delivery_app)" "env_schemas wx_env = Some [(''wx'', sample_schema)]"
    by (simp_all add: wx_env_def app)
  have fuel: "length ?js + 2 \<le> 6" by (simp add: older_def)
  note admitted = wx_admitted [where reader = "?reader", folded app] and read = wx_reader [where reader = "?reader", folded app]
  obtain frames where frames: "create_replay_only_stream wx_env (replay_request_of wx_env wx_context 10)
        (\<lambda>_ p. fst (bo_get_messages_batch (jetstream_ops lossy_backend) p ?s)) 6 1 (sc_start_at wx_context) (sc_end_at wx_context) 4 None =
      Some frames"
      "\<forall>m bytes. m \<in># ?held ?s \<and> copy_of (ax_server delivery_app) ?posted wx_result m \<and> starts_at (sc_start_at wx_context) m \<and> m_sequence m \<le> 4 \<and>
        renders wx_env (replay_request_of wx_env wx_context 10) m = (bytes, KNotification) \<longrightarrow>
        Rendered bytes KNotification \<in> set frames \<or> Control (ReplayLimitReached (sc_topic wx_context) 10 (env_now wx_env)) \<in> set frames"
    using posted_is_replayed_jetstream [where held = ?held, OF conf lossy_sound admitted older_posted read open_it ask valid pattern
        older_served there order policy env zero_less_one fuel] by (elim conjE exE) blast
  have "copy_of (ax_server delivery_app) ?posted wx_result fourth"
    by (simp add: copy_of_def put_as_def fourth_def wx_result_def payload_text_def wx_request_def)
  moreover have "starts_at (sc_start_at wx_context) fourth" "m_sequence fourth \<le> 4"
    by (simp_all add: start starts_at_def fourth_def)
  ultimately have "Rendered bytes KNotification \<in> set frames \<or> Control (ReplayLimitReached (sc_topic wx_context) 10 (env_now wx_env)) \<in> set frames"
    using frames(2) [rule_format, of fourth bytes] bytes by simp
  then show ?thesis
    using frames(1) older_posted open_it by (auto simp: start wx_env_def sample_env_def notification_response_def)
qed

end
