(* ===== verification/LogExport.thy ===== *)
theory LogExport
  imports Telemetry
begin

text \<open>
  The export of logs, \<open>src/telemetry/otlp.rs\<close>, and the two sinks of \<open>get_subscriber\<close> in
  \<open>src/telemetry.rs\<close>: the layer of the export with its filter and resource, the processors
  with their counter, and the exporter with its own. The exporter of the OpenTelemetry
  library is an argument, and so is the moment at which its batch processor hands over which
  records: a run is a list of events.
\<close>

section \<open>The layer\<close>

datatype otlp_init_error = MissingEndpoint | ExporterBuild string string

fun otlp_init_message :: "host \<Rightarrow> otlp_init_error \<Rightarrow> string" where
  "otlp_init_message h MissingEndpoint = ''logging.otlp.enabled=true requires logging.otlp.endpoint''"
| "otlp_init_message h (ExporterBuild endpoint source) =
     ''failed to build OTLP log exporter for endpoint '' @ debug_str h endpoint @ '': '' @ source"

definition EXPORT_NOISE_TARGETS :: "string list" where
  "EXPORT_NOISE_TARGETS =
    [''opentelemetry'', ''opentelemetry_sdk'', ''opentelemetry-otlp'', ''opentelemetry_otlp'',
     ''opentelemetry-appender-tracing'', ''opentelemetry_appender_tracing'', ''tonic'', ''h2'', ''hyper'',
     ''hyper_util'', ''tower'', ''reqwest'']"

definition export_noise_filter :: "log_world \<Rightarrow> directive list" where
  "export_noise_filter w =
     fold (\<lambda>target ds.
       case lw_parse_directive w (target @ ''=off'') of Inr d \<Rightarrow> ds @ [d] | Inl _ \<Rightarrow> ds)
     EXPORT_NOISE_TARGETS [(None, LevelTrace)]"

text \<open>The attributes the code sets; the library adds those of \<open>OTEL_RESOURCE_ATTRIBUTES\<close> below them.\<close>
definition build_resource :: "(string \<Rightarrow> string option) \<Rightarrow> string \<Rightarrow> string \<Rightarrow> string alist" where
  "build_resource env version name =
     (''service.name'', name) # (''service.version'', version) #
     (case env ''K8S_NAMESPACE_NAME'' of Some ns \<Rightarrow> [(''k8s.namespace.name'', ns)] | None \<Rightarrow> []) @
     (case (case env ''K8S_POD_NAME'' of Some pod \<Rightarrow> Some pod | None \<Rightarrow> env ''HOSTNAME'') of
        Some pod \<Rightarrow> [(''k8s.pod.name'', pod)] | None \<Rightarrow> [])"

record otlp_layer =
  ol_endpoint :: string
  ol_protocol :: otlp_protocol
  ol_resource :: "string alist"
  ol_filter :: "directive list"

definition build_layer ::
  "log_world \<Rightarrow> (string \<Rightarrow> otlp_protocol \<Rightarrow> string + unit) \<Rightarrow> string alist \<Rightarrow> otlp_settings \<Rightarrow> otlp_init_error + otlp_layer" where
  "build_layer w build_exporter resource settings =
    (case otlp_endpoint settings of
       None \<Rightarrow> Inl MissingEndpoint
     | Some endpoint \<Rightarrow>
         map_res (\<lambda>_. \<lparr>ol_endpoint = endpoint, ol_protocol = ot_protocol settings, ol_resource = resource,
             ol_filter = export_noise_filter w\<rparr>)
           (map_err (ExporterBuild endpoint) (build_exporter endpoint (ot_protocol settings))))"

record subscriber =
  sb_filter :: "directive list"
  sb_formatter :: log_formatter
  sb_otlp :: "otlp_layer option"

text \<open>What building the subscriber reads: the environment with \<open>RUST_LOG\<close>, and the libraries.\<close>
record telemetry_world =
  tw_logs :: log_world
  tw_env :: "string \<Rightarrow> string option"
  tw_build_exporter :: "string \<Rightarrow> otlp_protocol \<Rightarrow> string + unit"

definition get_subscriber ::
  "telemetry_world \<Rightarrow> string \<Rightarrow> string \<Rightarrow> logging_settings option \<Rightarrow> otlp_init_error + subscriber" where
  "get_subscriber w version name logging =
    (let level = (case logging of Some config \<Rightarrow> lg_level config | None \<Rightarrow> ''info'');
         resource = build_resource (tw_env w) version name
     in map_res (\<lambda>otlp. \<lparr>sb_filter = build_env_filter (tw_logs w) (tw_env w ''RUST_LOG'') level,
                    sb_formatter = new_log_formatter (tw_env w) version name, sb_otlp = otlp\<rparr>)
          (case Option.bind logging lg_otlp of
             Some settings \<Rightarrow>
               if ot_enabled settings
               then map_res Some (build_layer (tw_logs w) (tw_build_exporter w) resource settings) else Inr None
           | None \<Rightarrow> Inr None))"

section \<open>The pipeline\<close>

record log_export =
  le_suppressed :: nat
  le_failures :: nat
  le_handed :: "otel_record list"

definition no_export :: log_export where
  "no_export = \<lparr>le_suppressed = 0, le_failures = 0, le_handed = []\<rparr>"

text \<open>The processors on one record; \<open>le_handed\<close> is what reached the batch processor.\<close>
definition pipeline_emit :: "log_world \<Rightarrow> nat \<Rightarrow> otel_record \<Rightarrow> log_export \<Rightarrow> log_export" where
  "pipeline_emit w now r s =
    (case exported w now r of
       None \<Rightarrow> s\<lparr>le_suppressed := le_suppressed s + 1\<rparr>
     | Some r' \<Rightarrow> s\<lparr>le_handed := le_handed s @ [r']\<rparr>)"

text \<open>The counter around the exporter, which answers one batch.\<close>
definition metered_export ::
  "(otel_record list \<Rightarrow> string + unit) \<Rightarrow> otel_record list \<Rightarrow> log_export \<Rightarrow> (string + unit) \<times> log_export" where
  "metered_export export_batch batch s =
    (let result = export_batch batch
     in (result, if isl result then s\<lparr>le_failures := le_failures s + 1\<rparr> else s))"

datatype export_event = Emitted nat otel_record | Batched "otel_record list \<Rightarrow> string + unit" "otel_record list"

fun export_step :: "log_world \<Rightarrow> export_event \<Rightarrow> log_export \<Rightarrow> log_export" where
  "export_step w (Emitted now r) s = pipeline_emit w now r s"
| "export_step w (Batched export_batch batch) s = snd (metered_export export_batch batch s)"

abbreviation export_run :: "log_world \<Rightarrow> export_event list \<Rightarrow> log_export" where
  "export_run w evs \<equiv> fold (export_step w) evs no_export"

section \<open>Facts\<close>

fun handed_over :: "log_world \<Rightarrow> export_event \<Rightarrow> otel_record list" where
  "handed_over w (Emitted now r) = (case exported w now r of Some r' \<Rightarrow> [r'] | None \<Rightarrow> [])"
| "handed_over w (Batched _ _) = []"

fun withheld :: "log_world \<Rightarrow> export_event \<Rightarrow> bool" where
  "withheld w (Emitted now r) = (exported w now r = None)"
| "withheld w (Batched _ _) = False"

fun rejected :: "export_event \<Rightarrow> bool" where
  "rejected (Emitted _ _) = False"
| "rejected (Batched export_batch batch) = isl (export_batch batch)"

lemma export_step_fields [simp]:
  "le_handed (export_step w ev s) = le_handed s @ handed_over w ev"
  "le_suppressed (export_step w ev s) = le_suppressed s + (if withheld w ev then 1 else 0)"
  "le_failures (export_step w ev s) = le_failures s + (if rejected ev then 1 else 0)"
  by (cases ev; auto simp: pipeline_emit_def metered_export_def Let_def split: option.splits)+

text \<open>
  The counters are exact: every record is handed over or counted as suppressed, in whatever
  order records and batches come, and every rejected batch is counted once.
\<close>
lemma export_run_fields:
  "le_handed (export_run w evs) = concat (map (handed_over w) evs) \<and>
   le_suppressed (export_run w evs) = length (filter (withheld w) evs) \<and>
   le_failures (export_run w evs) = length (filter rejected evs)"
proof -
  have "le_handed (fold (export_step w) evs s) = le_handed s @ concat (map (handed_over w) evs) \<and>
     le_suppressed (fold (export_step w) evs s) = le_suppressed s + length (filter (withheld w) evs) \<and>
     le_failures (fold (export_step w) evs s) = le_failures s + length (filter rejected evs)" for s
    by (induction evs arbitrary: s) auto
  then show ?thesis by (simp add: no_export_def)
qed

lemma export_accounting:
  "le_suppressed (export_run w evs) + length (le_handed (export_run w evs)) =
   length (filter (\<lambda>ev. \<exists>now r. ev = Emitted now r) evs)"
proof -
  have "length (filter (withheld w) evs) + length (concat (map (handed_over w) evs)) =
    length (filter (\<lambda>ev. \<exists>now r. ev = Emitted now r) evs)"
    by (induction evs) (auto split: option.splits elim!: withheld.elims handed_over.elims)
  then show ?thesis by (simp add: export_run_fields)
qed

lemma exported_clean:
  "exported w now r = Some r' \<Longrightarrow> \<not> list_ex carries_secret (or_attributes r') \<and> or_timestamp r' \<noteq> None"
  by (auto simp: exported_def redacting_emit_def record_carries_sensitive_attributes_def redact_body_fields
      keep_unique_fields backfill_timestamp_def split: if_splits option.splits)

lemma handed_secret_free:
  assumes "r \<in> set (le_handed (export_run w evs))"
  shows "\<not> list_ex carries_secret (or_attributes r) \<and> or_timestamp r \<noteq> None"
proof -
  obtain ev where "r \<in> set (handed_over w ev)" using assms by (auto simp: export_run_fields)
  then show ?thesis by (cases ev) (auto dest: exported_clean [OF sym] split: option.splits)
qed

text \<open>Both sinks describe the process by the same attributes.\<close>
lemma sinks_same_identity:
  "map_of (resource_json (new_log_formatter env version name)) k =
   map_option JString (map_of (build_resource env version name) k)"
  by (simp add: resource_json_def new_log_formatter_def build_resource_def optional_entry_def map_of_collect
      split: option.split)

text \<open>The export is never left out in silence: it is there exactly when the settings enable it.\<close>
lemma subscriber_exports:
  assumes "get_subscriber w version name logging = Inr sub"
  shows "(sb_otlp sub \<noteq> None \<longleftrightarrow> (\<exists>settings. Option.bind logging lg_otlp = Some settings \<and> ot_enabled settings)) \<and>
    (\<forall>layer. sb_otlp sub = Some layer \<longrightarrow> tw_build_exporter w (ol_endpoint layer) (ol_protocol layer) = Inr ())"
  using assms
  by (cases "Option.bind logging lg_otlp")
    (auto simp: get_subscriber_def build_layer_def Let_def result_simps split: if_splits option.splits)

section \<open>The filter\<close>

definition applies_to :: "string \<Rightarrow> directive \<Rightarrow> bool" where
  "applies_to target d = (case fst d of None \<Rightarrow> True | Some p \<Rightarrow> starts_with p target)"

definition specificity :: "directive \<Rightarrow> nat" where
  "specificity d = (case fst d of None \<Rightarrow> 0 | Some p \<Rightarrow> Suc (length p))"

lemma noise_directives:
  assumes "\<And>target. lw_parse_directive w (target @ ''=off'') = Inr (Some target, LevelOff)"
  shows "export_noise_filter w = (None, LevelTrace) # map (\<lambda>t. (Some t, LevelOff)) EXPORT_NOISE_TARGETS"
proof -
  have "fold (\<lambda>target ds. case lw_parse_directive w (target @ ''=off'') of Inr d \<Rightarrow> ds @ [d] | Inl _ \<Rightarrow> ds) ts ds =
      ds @ map (\<lambda>t. (Some t, LevelOff)) ts" for ts ds
    by (induction ts arbitrary: ds) (simp_all add: assms)
  then show ?thesis by (simp add: export_noise_filter_def)
qed

text \<open>
  No loop: with a library whose most specific directive decides, the filter stops exactly the
  events of the exporter's own transport and narrows nothing else.
\<close>
lemma export_noise_only:
  assumes parse: "\<And>target. lw_parse_directive w (target @ ''=off'') = Inr (Some target, LevelOff)"
    and decide: "\<And>d. d \<in> set (export_noise_filter w) \<Longrightarrow> applies_to target d \<Longrightarrow>
      (\<And>d'. d' \<in> set (export_noise_filter w) \<Longrightarrow> applies_to target d' \<Longrightarrow> specificity d' \<le> specificity d) \<Longrightarrow>
      enabled (export_noise_filter w) target level \<longleftrightarrow> level \<le> snd d"
    and level: "level \<noteq> LevelOff"
  shows "enabled (export_noise_filter w) target level \<longleftrightarrow> (\<forall>t\<in>set EXPORT_NOISE_TARGETS. \<not> starts_with t target)"
proof -
  let ?ds = "export_noise_filter w"
  have members: "d \<in> set ?ds \<longleftrightarrow> d = (None, LevelTrace) \<or> (\<exists>t\<in>set EXPORT_NOISE_TARGETS. d = (Some t, LevelOff))" for d
    by (auto simp: noise_directives [OF parse])
  have ex: "\<exists>d. d \<in> set ?ds \<and> applies_to target d"
    by (intro exI [of _ "(None, LevelTrace)"]) (simp add: members applies_to_def)
  obtain d where d: "d \<in> set ?ds" "applies_to target d"
      "\<And>d'. d' \<in> set ?ds \<Longrightarrow> applies_to target d' \<Longrightarrow> specificity d' \<le> specificity d"
    using ex_has_greatest_nat [of "\<lambda>d. d \<in> set ?ds \<and> applies_to target d" _ specificity "Max (specificity ` set ?ds) + 1"] ex
    by (metis (no_types, lifting) List.finite_set Max_ge finite_imageI image_eqI le_imp_less_Suc Suc_eq_plus1 less_imp_le)
  have "enabled ?ds target level \<longleftrightarrow> level \<le> snd d" by (rule decide [OF d])
  also have "\<dots> \<longleftrightarrow> fst d = None"
    using d(1) level by (cases level) (auto simp: members less_eq_level_filter_def)
  also have "\<dots> \<longleftrightarrow> (\<forall>t\<in>set EXPORT_NOISE_TARGETS. \<not> starts_with t target)"
  proof
    assume "fst d = None"
    show "\<forall>t\<in>set EXPORT_NOISE_TARGETS. \<not> starts_with t target"
    proof (rule ballI, rule notI)
      fix t assume "t \<in> set EXPORT_NOISE_TARGETS" "starts_with t target"
      then have "specificity (Some t, LevelOff) \<le> specificity d"
        by (intro d(3)) (auto simp: members applies_to_def)
      with \<open>fst d = None\<close> show False by (simp add: specificity_def)
    qed
  next
    assume "\<forall>t\<in>set EXPORT_NOISE_TARGETS. \<not> starts_with t target"
    with d(1,2) show "fst d = None" by (auto simp: members applies_to_def)
  qed
  finally show ?thesis .
qed

end
