(* ===== verification/Process.thy ===== *)
theory Process
  imports Server LogExport
begin

text \<open>
  The life of the process: the sources of the configuration, \<open>src/configuration/loader.rs\<close>, the
  global slots, \<open>src/configuration/global.rs\<close>, the start in \<open>src/main.rs\<close> and
  \<open>Application::build\<close> of \<open>src/startup.rs\<close>, and the order of the shutdown. The environment, the
  files, the configuration library with the derived deserializer, the sockets and the
  client of the backend are one record of arguments.
\<close>

section \<open>The configuration\<close>

datatype env_var = NotPresent | NotUnicode | Present string
datatype config_source = FileSource string | EnvironmentSource

definition CONFIG_FILE_ENV :: string where
  "CONFIG_FILE_ENV = ''AVISOSERVER_CONFIG_FILE''"

record 'c process_world =
  pw_config_file :: env_var
  pw_is_file :: "string \<Rightarrow> bool"
  pw_exists :: "string \<Rightarrow> bool"
  pw_current_dir :: string
  pw_home_dir :: "string option"
  pw_build_config :: "config_source list \<Rightarrow> string + settings"
  pw_telemetry :: telemetry_world
  pw_libraries :: libraries
  pw_bind :: "string \<Rightarrow> string + nat"
  pw_nats_token :: "string option"
  pw_connect :: "nat \<Rightarrow> string + 'c"
  pw_version :: string

definition add_default_file_sources :: "'c process_world \<Rightarrow> config_source list" where
  "add_default_file_sources w =
    (let config_dir = pw_current_dir w @ ''/configuration/config.yaml'';
         etc_path = ''/etc/aviso_server/config.yaml'';
         existing = (\<lambda>path. if pw_exists w path then [FileSource path] else [])
     in existing config_dir @ existing etc_path @
        (case pw_home_dir w of Some home \<Rightarrow> existing (home @ ''/.aviso_server/config.yaml'') | None \<Rightarrow> []))"

definition config_sources :: "'c process_world \<Rightarrow> string + config_source list" where
  "config_sources w =
    map_res (\<lambda>files. files @ [EnvironmentSource])
      (case pw_config_file w of
         NotPresent \<Rightarrow> Inr (add_default_file_sources w)
       | NotUnicode \<Rightarrow> Inl (CONFIG_FILE_ENV @ '' contains non-Unicode value'')
       | Present raw \<Rightarrow>
           (let config_file = trim raw in
            if config_file = [] then Inl (CONFIG_FILE_ENV @ '' is set but empty'')
            else if \<not> pw_is_file w config_file
            then Inl (CONFIG_FILE_ENV @ '' does not point to a file: '' @ config_file)
            else Inr [FileSource config_file]))"

definition get_configuration :: "'c process_world \<Rightarrow> string + settings" where
  "get_configuration w = bind_res (config_sources w) (pw_build_config w)"

section \<open>The global slots\<close>

record globals =
  gl_notification_schema :: "schema_map option option"
  gl_notification_schema_strict :: "bool option"
  gl_logging_settings :: "logging_settings option option"
  gl_application_settings :: "application_settings option"
  gl_watch_settings :: "watch_endpoint_settings option"

definition no_globals :: globals where
  "no_globals = \<lparr>gl_notification_schema = None, gl_notification_schema_strict = None, gl_logging_settings = None,
     gl_application_settings = None, gl_watch_settings = None\<rparr>"

text \<open>A cell that is written once: a second write is ignored.\<close>
definition set_once :: "'a \<Rightarrow> 'a option \<Rightarrow> 'a option" where
  "set_once v cell = (case cell of None \<Rightarrow> Some v | Some _ \<Rightarrow> cell)"

definition init_global_config :: "settings \<Rightarrow> globals \<Rightarrow> globals" where
  "init_global_config st g =
     \<lparr>gl_notification_schema = set_once (st_schema st) (gl_notification_schema g),
      gl_notification_schema_strict =
        set_once (resolve_notification_schema_strict (st_strict st) (st_schema st)) (gl_notification_schema_strict g),
      gl_logging_settings = set_once (st_logging st) (gl_logging_settings g),
      gl_application_settings = set_once (st_application st) (gl_application_settings g),
      gl_watch_settings = set_once (st_watch st) (gl_watch_settings g)\<rparr>"

definition is_global_config_initialized :: "globals \<Rightarrow> bool" where
  "is_global_config_initialized g =
    (gl_notification_schema g \<noteq> None \<and> gl_notification_schema_strict g \<noteq> None \<and> gl_logging_settings g \<noteq> None \<and>
     gl_application_settings g \<noteq> None \<and> gl_watch_settings g \<noteq> None)"

text \<open>What the handlers read: the schema, its strictness and the limit of a replay.\<close>
definition handler_view :: "globals \<Rightarrow> (schema_map option \<times> bool \<times> (string \<Rightarrow> nat)) option" where
  "handler_view g =
     Option.bind (gl_notification_schema g) (\<lambda>schema.
     Option.bind (gl_notification_schema_strict g) (\<lambda>strict.
     map_option (\<lambda>watch. (schema, strict, replay_limit_for_event_type schema (we_max_historical_notifications watch)))
       (gl_watch_settings g)))"

section \<open>Starting\<close>

datatype start_failure =
  ConfigurationFailed string | TelemetryFailed otlp_init_error | CheckFailed startup_error | BindFailed string | BackendFailed err | Panicked string

record 'c application =
  apl_port :: nat
  apl_settings :: settings
  apl_checker :: "string option"
  apl_backend :: "'c backend"
  apl_metrics :: "app_metrics option"

definition socket_address :: "string \<Rightarrow> nat \<Rightarrow> string" where
  "socket_address hostname port = hostname @ '':'' @ show_nat port"

text \<open>
  The checks, then the socket of the server, the backend and, when metrics are on, their
  socket. Without a metrics port the code panics; the checks have required one.
\<close>
definition application_build :: "'c process_world \<Rightarrow> globals \<Rightarrow> settings \<Rightarrow> start_failure + 'c application" where
  "application_build w g st =
     bind_res (map_err CheckFailed (startup_checks (pw_libraries w) st)) (\<lambda>checker.
     bind_res (map_err BindFailed (pw_bind w (socket_address (ap_host (st_application st)) (ap_port (st_application st))))) (\<lambda>port.
     bind_res (map_err BackendFailed (fst (build_backend (pw_nats_token w) (pw_connect w) (st_backend st)))) (\<lambda>backend.
     bind_res (if ms_enabled (st_metrics st)
               then (case ms_port (st_metrics st) of
                   Some metrics_port \<Rightarrow> map_res (\<lambda>_. ()) (map_err BindFailed
                     (pw_bind w (socket_address (ms_host (st_metrics st)) metrics_port)))
                 | None \<Rightarrow> Inl (Panicked ''validated above''))
               else Inr ()) (\<lambda>_.
     Inr \<lparr>apl_port = port, apl_settings = st, apl_checker = checker, apl_backend = backend,
          apl_metrics = startup_metrics (pw_version w) (case gl_notification_schema g of Some schema \<Rightarrow> schema | None \<Rightarrow> None) st\<rparr>))))"

text \<open>The process that runs: the application, the slots and the sinks of its logs.\<close>
definition start_process :: "'c process_world \<Rightarrow> start_failure + 'c application \<times> globals \<times> subscriber" where
  "start_process w =
     bind_res (map_err ConfigurationFailed (get_configuration w)) (\<lambda>configuration.
     let g = init_global_config configuration no_globals in
     bind_res (map_err TelemetryFailed
       (get_subscriber (pw_telemetry w) (pw_version w) ''aviso-server'' (st_logging configuration))) (\<lambda>sub.
     map_res (\<lambda>a. (a, g, sub)) (application_build w g configuration)))"

section \<open>Stopping\<close>

datatype shutdown_step = StopMetricsServer | StopServer | ShutdownBackend | FlushLogs

text \<open>The metrics server stops first and the backend last, when no handler uses it any more.\<close>
definition shutdown_steps :: "'c application \<Rightarrow> shutdown_step list" where
  "shutdown_steps a = (if apl_metrics a \<noteq> None then [StopMetricsServer] else []) @ [StopServer, ShutdownBackend]"

text \<open>The buffered records are flushed when nothing runs any more that could log.\<close>
definition stop_process :: "'c application \<Rightarrow> subscriber \<Rightarrow> shutdown_step list" where
  "stop_process a sub = shutdown_steps a @ (if sb_otlp sub \<noteq> None then [FlushLogs] else [])"

section \<open>Facts\<close>

lemma set_once_simps [simp]: "set_once v (Some x) = Some x" "set_once v None = Some v"
  by (simp_all add: set_once_def)

lemma set_once_not_None [simp]: "set_once v c \<noteq> None"
  by (cases c) simp_all

text \<open>After the first initialisation the slots no longer change.\<close>
lemma init_global_config_frozen:
  "is_global_config_initialized g \<Longrightarrow> init_global_config st g = g"
  by (auto simp: is_global_config_initialized_def init_global_config_def)

lemma init_global_config_done: "is_global_config_initialized (init_global_config st g)"
  by (simp add: is_global_config_initialized_def init_global_config_def)

lemma fold_init_frozen: "is_global_config_initialized g \<Longrightarrow> fold init_global_config sts g = g"
  by (induction sts) (simp_all add: init_global_config_frozen)

text \<open>The file named by the environment is the only one read, and the environment wins over every file.\<close>
lemma config_sources_order:
  assumes "config_sources w = Inr sources"
  shows "last sources = EnvironmentSource \<and>
    (\<forall>raw. pw_config_file w = Present raw \<longrightarrow> sources = [FileSource (trim raw), EnvironmentSource])"
  using assms by (auto simp: config_sources_def Let_def result_simps split: env_var.splits if_splits)

lemma metrics_port_checked:
  assumes "startup_checks lb st = Inr checker" "ms_enabled (st_metrics st)"
  shows "ms_port (st_metrics st) \<noteq> None"
  using assms by (auto simp: startup_checks_def validate_metrics_settings_def result_simps split: if_splits)

text \<open>
  C34: what runs is what was checked. When the process has started, its settings are those that
  were loaded, and they passed every startup check; the ECPDS checker is the one built from
  them, the backend has the capabilities its settings were checked against and a JetStream
  backend a valid configuration, and metrics are kept exactly when they are enabled, with the metrics
  port present where it is unwrapped. The
  handlers read the schema, the strictness and the limits of these settings, never an
  unset slot, and no later initialisation changes them. Logs are exported exactly when the
  settings enable it, by an exporter that was built for the endpoint of the layer, and only then
  flushed, as the last step of the shutdown.
\<close>
theorem started_process_checked:
  assumes "start_process w = Inr (a, g, sub)"
  shows "get_configuration w = Inr (apl_settings a) \<and>
         startup_checks (pw_libraries w) (apl_settings a) = Inr (apl_checker a) \<and>
         (ms_enabled (st_metrics (apl_settings a)) \<longleftrightarrow> apl_metrics a \<noteq> None) \<and>
         (apl_metrics a \<noteq> None \<longrightarrow> ms_port (st_metrics (apl_settings a)) \<noteq> None) \<and>
         capabilities_for_backend_kind (bs_kind (st_backend (apl_settings a))) = Some (backend_capabilities (apl_backend a)) \<and>
         (\<forall>cfg conn. apl_backend a = JetStream cfg conn \<longrightarrow> validate_jetstream_config cfg = Inr ()) \<and>
         (sb_otlp sub \<noteq> None \<longleftrightarrow>
            (\<exists>ot. Option.bind (st_logging (apl_settings a)) lg_otlp = Some ot \<and> ot_enabled ot)) \<and>
         (\<forall>layer. sb_otlp sub = Some layer \<longrightarrow>
            tw_build_exporter (pw_telemetry w) (ol_endpoint layer) (ol_protocol layer) = Inr ()) \<and>
         (last (stop_process a sub) = FlushLogs \<longleftrightarrow> sb_otlp sub \<noteq> None) \<and>
         (\<forall>later. handler_view (fold init_global_config later g) =
            Some (st_schema (apl_settings a),
                  resolve_notification_schema_strict (st_strict (apl_settings a)) (st_schema (apl_settings a)),
                  replay_limit_for_event_type (st_schema (apl_settings a))
                    (we_max_historical_notifications (st_watch (apl_settings a)))))"
proof -
  obtain st where st: "get_configuration w = Inr st" "g = init_global_config st no_globals"
      "application_build w g st = Inr a"
      "get_subscriber (pw_telemetry w) (pw_version w) ''aviso-server'' (st_logging st) = Inr sub"
    using assms by (auto simp: start_process_def Let_def result_simps)
  obtain port u where build: "startup_checks (pw_libraries w) st = Inr (apl_checker a)"
      "fst (build_backend (pw_nats_token w) (pw_connect w) (st_backend st)) = Inr (apl_backend a)"
      "apl_settings a = st"
      "apl_metrics a = startup_metrics (pw_version w) (case gl_notification_schema g of Some schema \<Rightarrow> schema | None \<Rightarrow> None) st"
    using st(3) by (auto simp: application_build_def result_simps)
  have view: "handler_view (fold init_global_config later g) = Some (st_schema st,
      resolve_notification_schema_strict (st_strict st) (st_schema st),
      replay_limit_for_event_type (st_schema st) (we_max_historical_notifications (st_watch st)))" for later
    unfolding st(2) fold_init_frozen [OF init_global_config_done]
    by (simp add: handler_view_def init_global_config_def no_globals_def)
  have metrics: "ms_enabled (st_metrics st) \<longleftrightarrow> apl_metrics a \<noteq> None"
    by (simp add: build(4) startup_metrics_def)
  have flushed: "last (stop_process a sub) = FlushLogs \<longleftrightarrow> sb_otlp sub \<noteq> None"
    by (simp add: stop_process_def shutdown_steps_def)
  show ?thesis
    using st(1) build(1,3) metrics view flushed subscriber_exports [OF st(4)] metrics_port_checked [OF build(1)] built_capabilities [OF build(2)]
      built_jetstream_checked [of "pw_nats_token w" "pw_connect w" "st_backend st"] build(2)
    by simp
qed

definition site_process :: "unit process_world" where
  "site_process = \<lparr>pw_config_file = NotPresent, pw_is_file = \<lambda>_. False, pw_exists = \<lambda>_. False, pw_current_dir = ''/'',
     pw_home_dir = None, pw_build_config = \<lambda>_. Inr site, pw_telemetry = \<lparr>tw_logs = sample_log, tw_env = Map.empty, tw_build_exporter = \<lambda>_ _. Inr ()\<rparr>,
     pw_libraries = site_libraries, pw_bind = \<lambda>_. Inr 8000, pw_nats_token = None, pw_connect = \<lambda>_. Inr (),
     pw_version = ''1''\<rparr>"

lemma site_backend: "\<exists>cfg. fst (build_backend None (\<lambda>_. Inr ()) (st_backend site)) = Inr (JetStream cfg ())"
proof -
  have "trim ''nats://localhost:4222'' = ''nats://localhost:4222''" by (simp add: space_eval)
  then show ?thesis
    by (simp add: site_def build_backend_def jetstream_config_of_def validate_jetstream_config_def get_storage_type_def
        get_retention_policy_def get_discard_policy_def bail_if_def connect_def Let_def build_connection_policy_def upt_rec)
qed

lemma site_process_starts:
  "\<exists>a g sub. start_process site_process = Inr (a, g, sub) \<and> apl_settings a = site \<and> apl_checker a = Some ''d''"
proof -
  obtain cfg where "fst (build_backend None (\<lambda>_. Inr ()) (st_backend site)) = Inr (JetStream cfg ())"
    using site_backend by blast
  moreover have "st_logging site = None" "\<not> ms_enabled (st_metrics site)"
    by (simp_all add: site_def default_metrics_settings_def)
  ultimately show ?thesis
    by (simp add: start_process_def get_configuration_def config_sources_def site_process_def application_build_def
        add_default_file_sources_def get_subscriber_def site_starts Let_def)
qed

theorem started_process_checked_witness:
  "\<exists>a g sub. start_process site_process = Inr (a, g, sub) \<and>
     capabilities_for_backend_kind ''jetstream'' = Some (backend_capabilities (apl_backend a)) \<and> apl_metrics a = None"
proof -
  obtain a g sub where a: "start_process site_process = Inr (a, g, sub)" "apl_settings a = site"
    using site_process_starts by blast
  then show ?thesis
    using started_process_checked [OF a(1)] by (simp add: a(2)) (simp add: site_def default_metrics_settings_def)
qed

end
